(* ===== verification/Node_Prelude.thy ===== *)
theory Node_Prelude
  imports Main "HOL-Library.Word"
begin

text \<open>
  Shared vocabulary of the development: Rust's machine integers and results, and the
  generic facts on lists of numbered blocks that the components use.

  \<^item> \<open>u64\<close> and \<open>usize\<close> values are natural numbers below \<open>2 ^ 64\<close>. The repository's
    release profile (Cargo.toml) leaves overflow checks off, so \<open>+\<close>, \<open>-\<close> and \<open>*\<close> of
    the source wrap: \<open>u64_add\<close>, \<open>u64_sub\<close> and \<open>u64_mul\<close> write the wrap-around out.
    \<open>saturating_sub\<close> is the natural-number difference.
  \<^item> hashes, addresses and bytes are words of their width.
  \<^item> \<open>rresult\<close> is the outcome of a Rust call: \<open>Ok\<close>, \<open>Err\<close>, or a panic.
\<close>

named_theorems u64_simps \<open>wrap-around operations on values that do not overflow\<close>
named_theorems rres_simps \<open>unfolding of the outcome combinators\<close>

type_synonym u64 = nat
type_synonym usize = nat
type_synonym u8 = "8 word"
type_synonym b256 = "256 word"
type_synonym address = "160 word"

section \<open>Machine integers\<close>

definition u64_max :: u64 where
  "u64_max = 2 ^ 64 - 1"

definition u64_add :: "u64 \<Rightarrow> u64 \<Rightarrow> u64" where
  "u64_add a b = (a + b) mod 2 ^ 64"

definition u64_sub :: "u64 \<Rightarrow> u64 \<Rightarrow> u64" where
  "u64_sub a b = (if b \<le> a then a - b else a + 2 ^ 64 - b)"

definition u64_mul :: "u64 \<Rightarrow> u64 \<Rightarrow> u64" where
  "u64_mul a b = (a * b) mod 2 ^ 64"

definition saturating_sub :: "u64 \<Rightarrow> u64 \<Rightarrow> u64" where
  "saturating_sub a b = a - b"

definition saturating_add :: "u64 \<Rightarrow> u64 \<Rightarrow> u64" where
  "saturating_add a b = min (a + b) u64_max"

definition checked_sub :: "u64 \<Rightarrow> u64 \<Rightarrow> u64 option" where
  "checked_sub a b = (if b \<le> a then Some (a - b) else None)"

lemma u64_add_exact [u64_simps]: "a + b \<le> u64_max \<Longrightarrow> u64_add a b = a + b"
  by (simp add: u64_add_def u64_max_def)

lemma u64_sub_exact [u64_simps]: "b \<le> a \<Longrightarrow> u64_sub a b = a - b"
  by (simp add: u64_sub_def)

lemma u64_mul_exact [u64_simps]: "a * b \<le> u64_max \<Longrightarrow> u64_mul a b = a * b"
  by (simp add: u64_mul_def u64_max_def)

lemma u64_add_le_max [simp]: "u64_add a b \<le> u64_max"
proof -
  have "(a + b) mod 2 ^ 64 < (2 ^ 64 :: nat)" by simp
  then show ?thesis by (simp add: u64_add_def u64_max_def)
qed

lemma u64_add_wraps: "u64_add u64_max 1 = 0"
  by (simp add: u64_add_def u64_max_def)

lemma u64_add_Suc [u64_simps]: "n < u64_max \<Longrightarrow> u64_add n 1 = Suc n"
  by (simp add: u64_add_exact)

lemma u64_add_Suc0 [u64_simps]: "n < u64_max \<Longrightarrow> u64_add n (Suc 0) = Suc n"
  by (simp add: u64_add_exact)

lemma saturating_add_exact [u64_simps]: "a + b \<le> u64_max \<Longrightarrow> saturating_add a b = a + b"
  by (simp add: saturating_add_def)

section \<open>Outcomes of Rust calls\<close>

datatype ('a, 'e) rresult = Ok 'a | Err 'e | Panic

fun rbind :: "('a, 'e) rresult \<Rightarrow> ('a \<Rightarrow> ('b, 'e) rresult) \<Rightarrow> ('b, 'e) rresult" where
  "rbind (Ok a) f = f a"
| "rbind (Err e) f = Err e"
| "rbind Panic f = Panic"

fun rmap :: "('a \<Rightarrow> 'b) \<Rightarrow> ('a, 'e) rresult \<Rightarrow> ('b, 'e) rresult" where
  "rmap f (Ok a) = Ok (f a)"
| "rmap f (Err e) = Err e"
| "rmap f Panic = Panic"

text \<open>\<open>Option::ok_or\<close> and \<open>Option::expect\<close>.\<close>

fun ok_or :: "'a option \<Rightarrow> 'e \<Rightarrow> ('a, 'e) rresult" where
  "ok_or None e = Err e"
| "ok_or (Some a) e = Ok a"

fun expect_some :: "'a option \<Rightarrow> ('a, 'e) rresult" where
  "expect_some None = Panic"
| "expect_some (Some a) = Ok a"

text \<open>\<open>Option::unwrap_or\<close>.\<close>

fun opt_default :: "'a \<Rightarrow> 'a option \<Rightarrow> 'a" where
  "opt_default d None = d"
| "opt_default d (Some a) = a"

lemma rbind_Ok_iff [rres_simps]: "rbind r f = Ok b \<longleftrightarrow> (\<exists>a. r = Ok a \<and> f a = Ok b)"
  by (cases r) auto

lemma rmap_Ok_iff [rres_simps]: "rmap f r = Ok b \<longleftrightarrow> (\<exists>a. r = Ok a \<and> b = f a)"
  by (cases r) auto

lemma ok_or_Ok_iff [rres_simps]: "ok_or m e = Ok b \<longleftrightarrow> m = Some b"
  by (cases m) auto

section \<open>First and last elements\<close>

definition first_opt :: "'a list \<Rightarrow> 'a option" where
  "first_opt xs = (case xs of [] \<Rightarrow> None | x # _ \<Rightarrow> Some x)"

definition last_opt :: "'a list \<Rightarrow> 'a option" where
  "last_opt xs = (if xs = [] then None else Some (last xs))"

definition nth_opt :: "'a list \<Rightarrow> nat \<Rightarrow> 'a option" where
  "nth_opt xs i = (if i < length xs then Some (xs ! i) else None)"

lemma first_opt_simps [simp]: "first_opt [] = None" "first_opt (x # xs) = Some x"
  by (simp_all add: first_opt_def)

lemma last_opt_simps [simp]: "last_opt [] = None" "last_opt (xs @ [x]) = Some x"
  by (simp_all add: last_opt_def)

lemma last_opt_None [simp]: "last_opt xs = None \<longleftrightarrow> xs = []"
  by (simp add: last_opt_def)

lemma first_opt_None [simp]: "first_opt xs = None \<longleftrightarrow> xs = []"
  by (simp add: first_opt_def split: list.split)

lemma last_opt_Some: "last_opt xs = Some x \<longleftrightarrow> xs \<noteq> [] \<and> x = last xs"
  by (auto simp: last_opt_def)

lemma first_opt_Some: "first_opt xs = Some x \<longleftrightarrow> xs \<noteq> [] \<and> x = hd xs"
  by (auto simp: first_opt_def split: list.splits)

section \<open>Lists of consecutively numbered entries\<close>

text \<open>Each entry carries a number, and the numbers go up by one.\<close>

fun consec :: "nat list \<Rightarrow> bool" where
  "consec [] = True"
| "consec [n] = True"
| "consec (n # m # ns) = (m = Suc n \<and> consec (m # ns))"

lemma upt_inj:
  assumes "[a..<b] = [c..<d]" "c < d"
  shows "a = c \<and> b = d"
proof -
  have "length [a..<b] = length [c..<d]" using assms(1) by (rule arg_cong)
  then have "a < b" using assms(2) by simp
  moreover have "hd [a..<b] = hd [c..<d]" "last [a..<b] = last [c..<d]" using assms by simp_all
  ultimately show ?thesis using assms(2) by simp
qed

lemma upt_glue: "i \<le> j \<Longrightarrow> j \<le> k \<Longrightarrow> [i..<j] @ [j..<k] = [i..<k]"
  by (metis upt_add_eq_append le_add_diff_inverse)

lemma consec_Cons: "consec (n # ns) \<longleftrightarrow> ns = [] \<or> (hd ns = Suc n \<and> consec ns)"
  by (cases ns) auto

lemma consec_append:
  "consec (xs @ ys) \<longleftrightarrow>
     consec xs \<and> consec ys \<and> (xs \<noteq> [] \<longrightarrow> ys \<noteq> [] \<longrightarrow> hd ys = Suc (last xs))"
proof (induction xs rule: consec.induct)
  case 1
  then show ?case by simp
next
  case (2 n)
  then show ?case by (auto simp: consec_Cons)
next
  case (3 n m ns)
  then show ?case by auto
qed

lemma consec_nth: "consec ns \<Longrightarrow> i < length ns \<Longrightarrow> ns ! i = hd ns + i"
proof (induction ns arbitrary: i rule: consec.induct)
  case (3 n m ns)
  then show ?case by (cases i) auto
qed auto

lemma consec_upt: "consec [a..<b]"
proof (induction b)
  case (Suc b)
  then show ?case by (auto simp: consec_append)
qed simp

lemma consec_upt_iff: "consec ns \<longleftrightarrow> (ns = [] \<or> ns = [hd ns..<hd ns + length ns])"
proof
  assume "consec ns"
  then have "ns = [hd ns..<hd ns + length ns]" if "ns \<noteq> []"
    by (intro nth_equalityI) (auto simp: consec_nth)
  then show "ns = [] \<or> ns = [hd ns..<hd ns + length ns]" by blast
next
  assume "ns = [] \<or> ns = [hd ns..<hd ns + length ns]"
  then show "consec ns" using consec_upt by (metis consec.simps(1))
qed

lemma consec_drop: "consec ns \<Longrightarrow> consec (drop k ns)"
  using consec_append[of "take k ns" "drop k ns"] by simp

lemma consec_take: "consec ns \<Longrightarrow> consec (take k ns)"
  using consec_append[of "take k ns" "drop k ns"] by simp

lemma consec_last: "consec ns \<Longrightarrow> ns \<noteq> [] \<Longrightarrow> last ns = hd ns + length ns - 1"
proof -
  assume ns: "consec ns" "ns \<noteq> []"
  then have "last ns = hd ns + (length ns - 1)" by (simp add: last_conv_nth consec_nth)
  moreover from ns have "0 < length ns" by simp
  ultimately show ?thesis by arith
qed

lemma consec_sorted: "consec ns \<Longrightarrow> sorted ns"
  by (metis consec_upt_iff sorted_upt sorted_wrt.simps(1))

lemma consec_distinct: "consec ns \<Longrightarrow> distinct ns"
  by (metis consec_upt_iff distinct_upt distinct.simps(1))

end
