(* ===== verification/Host_Types.thy ===== *)
theory Host_Types
  imports Node_Prelude
begin

text \<open>
  The interface between a host chain and the node (\<^verbatim>\<open>crates/node-types\<close>): the revert
  range, the notifications, and the contracts of the two traits every backend
  implements, \<^verbatim>\<open>Extractable\<close> (a chain segment) and \<^verbatim>\<open>HostNotifier\<close> (a source of
  notifications), each as a locale with the facts a client may use.
\<close>

section \<open>Revert ranges\<close>

record revert_range =
  rr_first :: u64
  rr_tip :: u64

definition RevertRange_new :: "u64 \<Rightarrow> u64 \<Rightarrow> (revert_range, 'e) rresult" where
  "RevertRange_new fst_blk tip_blk =
     (if \<not> fst_blk > 0 then Panic
      else if \<not> fst_blk \<le> tip_blk then Panic
      else Ok \<lparr>rr_first = fst_blk, rr_tip = tip_blk\<rparr>)"

definition RevertRange_len :: "revert_range \<Rightarrow> u64" where
  "RevertRange_len r = u64_add (u64_sub (rr_tip r) (rr_first r)) 1"

definition RevertRange_is_empty :: "revert_range \<Rightarrow> bool" where
  "RevertRange_is_empty r = False"

lemma RevertRange_new_Ok_iff:
  "RevertRange_new a b = Ok r \<longleftrightarrow> 0 < a \<and> a \<le> b \<and> r = \<lparr>rr_first = a, rr_tip = b\<rparr>"
  by (auto simp: RevertRange_new_def)

lemma RevertRange_new_Ok:
  "0 < a \<Longrightarrow> a \<le> b \<Longrightarrow> RevertRange_new a b = Ok \<lparr>rr_first = a, rr_tip = b\<rparr>"
  by (simp add: RevertRange_new_def)

lemma RevertRange_len_exact:
  assumes "RevertRange_new a b = Ok r" and "b \<le> u64_max"
  shows "RevertRange_len r = card {n. a \<le> n \<and> n \<le> b}"
proof -
  have r: "0 < a" "a \<le> b" "r = \<lparr>rr_first = a, rr_tip = b\<rparr>"
    using assms(1) by (simp_all add: RevertRange_new_Ok_iff)
  have "RevertRange_len r = b - a + 1"
    using r assms(2) by (simp add: RevertRange_len_def u64_simps)
  moreover have "card {a..b} = b - a + 1" using r by simp
  ultimately show ?thesis by (simp add: atLeastAtMost_def atLeast_def atMost_def Int_def)
qed

section \<open>Notifications\<close>

datatype 'c host_notification_kind =
    ChainCommitted 'c
  | ChainReverted revert_range
  | ChainReorged revert_range 'c

record 'c host_notification =
  kind :: "'c host_notification_kind"
  safe_block_number :: "u64 option"
  finalized_block_number :: "u64 option"

fun kind_committed_chain :: "'c host_notification_kind \<Rightarrow> 'c option" where
  "kind_committed_chain (ChainCommitted c) = Some c"
| "kind_committed_chain (ChainReorged r c) = Some c"
| "kind_committed_chain (ChainReverted r) = None"

fun kind_revert_range :: "'c host_notification_kind \<Rightarrow> revert_range option" where
  "kind_revert_range (ChainReverted r) = Some r"
| "kind_revert_range (ChainReorged r c) = Some r"
| "kind_revert_range (ChainCommitted c) = None"

definition committed_chain :: "'c host_notification \<Rightarrow> 'c option" where
  "committed_chain n = kind_committed_chain (kind n)"

definition notif_revert_range :: "'c host_notification \<Rightarrow> revert_range option" where
  "notif_revert_range n = kind_revert_range (kind n)"

lemma notification_carries_something:
  "committed_chain n \<noteq> None \<or> notif_revert_range n \<noteq> None"
  by (cases "kind n") (auto simp: committed_chain_def notif_revert_range_def)

section \<open>Contract of a chain segment\<close>

text \<open>
  \<^verbatim>\<open>signet_extract::Extractable\<close> as the backends implement it: the blocks with their
  receipts in order, and three metadata accessors that have to agree with them. The
  accessors panic on an empty segment.
\<close>

locale extractable =
  fixes bars :: "'s \<Rightarrow> ('b \<times> 'r) list"
    and first_number :: "'s \<Rightarrow> (u64, 'e) rresult"
    and tip_number :: "'s \<Rightarrow> (u64, 'e) rresult"
    and len :: "'s \<Rightarrow> usize"
    and number :: "'b \<Rightarrow> u64"
  assumes len_bars: "len s = length (bars s)"
    and first_bars: "bars s \<noteq> [] \<Longrightarrow> first_number s = Ok (number (fst (hd (bars s))))"
    and tip_bars: "bars s \<noteq> [] \<Longrightarrow> tip_number s = Ok (number (fst (last (bars s))))"
begin

lemma numbers_of_segment:
  assumes "consec (map (number \<circ> fst) (bars s))" and "bars s \<noteq> []"
  shows "\<exists>a. first_number s = Ok a \<and> tip_number s = Ok (a + len s - 1)
           \<and> map (number \<circ> fst) (bars s) = [a..<a + len s]"
proof -
  let ?ns = "map (number \<circ> fst) (bars s)"
  have "last ?ns = hd ?ns + length ?ns - 1"
    using assms by (intro consec_last) auto
  moreover have "?ns = [hd ?ns..<hd ?ns + length ?ns]"
    using assms consec_upt_iff[of ?ns] by auto
  ultimately show ?thesis
    using assms by (auto simp: len_bars first_bars tip_bars hd_map last_map)
qed

end

section \<open>Contract of a host notifier\<close>

text \<open>
  The part of the \<^verbatim>\<open>HostNotifier\<close> contract that concerns configuration
  (\<^verbatim>\<open>node-types/src/notifier.rs\<close>, items 1, 3 and 4): only the first \<open>set_head\<close> counts,
  and the batch-size thresholds can be reset to the default at any time, whatever was
  configured before. Backfill progress is observed through \<open>pending\<close>, the next host
  block the backend will read for backfill.
\<close>

locale host_notifier_config =
  fixes set_head :: "u64 \<Rightarrow> 's \<Rightarrow> 's"
    and set_backfill_thresholds :: "u64 option \<Rightarrow> 's \<Rightarrow> 's"
    and is_head_set :: "'s \<Rightarrow> bool"
    and pending :: "'s \<Rightarrow> u64 option"
    and batch :: "'s \<Rightarrow> u64 option"
  assumes set_head_marks: "is_head_set (set_head n s)"
    and set_head_again: "is_head_set s \<Longrightarrow> set_head n s = s"
    and set_head_pending: "\<not> is_head_set s \<Longrightarrow> pending (set_head n s) = Some n"
    and thresholds_keep_head: "is_head_set (set_backfill_thresholds m s) = is_head_set s"
    and thresholds_keep_pending: "pending (set_backfill_thresholds m s) = pending s"
    and thresholds_last: "set_backfill_thresholds m (set_backfill_thresholds m' s) =
                            set_backfill_thresholds m s"
    and thresholds_positive: "batch (set_backfill_thresholds m s) = Some b \<Longrightarrow> 0 < b"
begin

lemma set_head_idem: "set_head m (set_head n s) = set_head n s"
  by (simp add: set_head_again set_head_marks)

lemma startup_position:
  "\<not> is_head_set s \<Longrightarrow>
     pending (set_head n' (set_backfill_thresholds m (set_head n s))) = Some n"
  by (simp add: set_head_again set_head_marks set_head_pending thresholds_keep_head
      thresholds_keep_pending)

end

end
