(* ===== verification/Chain_Data.thy ===== *)
theory Chain_Data
  imports Node_Prelude
begin

text \<open>
  Block data that crosses crate boundaries. These are the fields of alloy's types that
  the modelled code reads; every other header field is kept in one opaque component, so
  that the seal hash, a parameter wherever it is used, can depend on it.
\<close>

record header =
  h_number :: u64
  h_parent_hash :: b256
  h_timestamp :: u64
  h_gas_limit :: u64
  h_gas_used :: u64
  h_base_fee_per_gas :: "u64 option"
  h_rest :: nat

datatype block_number_or_tag = Latest | Finalized | Safe | Earliest | Pending | Number u64

datatype block_id = BlockId_Hash b256 | BlockId_Number block_number_or_tag

section \<open>Block trees\<close>

text \<open>
  A block tree maps hashes to headers; hashes are content addresses, so a hash names one
  header for good. \<open>block_tree\<close> states how block numbers follow parent hashes, and that
  they are 64-bit numbers.
\<close>

type_synonym tree = "b256 \<Rightarrow> header option"

definition block_tree :: "tree \<Rightarrow> bool" where
  "block_tree T \<longleftrightarrow>
     (\<forall>h bh bp. T h = Some bh \<longrightarrow> T (h_parent_hash bh) = Some bp \<longrightarrow>
                h_number bh = Suc (h_number bp)) \<and>
     (\<forall>h bh. T h = Some bh \<longrightarrow> h_number bh \<le> u64_max)"

text \<open>\<open>linked T h xs\<close>: \<open>xs\<close> is a path of the tree that starts at a child of \<open>h\<close>.\<close>

fun linked :: "tree \<Rightarrow> b256 \<Rightarrow> (u64 \<times> b256) list \<Rightarrow> bool" where
  "linked T h [] = True"
| "linked T h ((n, x) # xs) =
     (case T x of None \<Rightarrow> False
      | Some bh \<Rightarrow> h_number bh = n \<and> h_parent_hash bh = h \<and> linked T x xs)"

lemma block_treeD:
  "block_tree T \<Longrightarrow> T h = Some bh \<Longrightarrow> T (h_parent_hash bh) = Some bp \<Longrightarrow>
     h_number bh = Suc (h_number bp)"
  by (auto simp: block_tree_def)

lemma block_tree_max: "block_tree T \<Longrightarrow> T h = Some bh \<Longrightarrow> h_number bh \<le> u64_max"
  by (auto simp: block_tree_def)

lemma linked_append:
  "linked T h (xs @ ys) \<longleftrightarrow>
     linked T h xs \<and> linked T (if xs = [] then h else snd (last xs)) ys"
  by (induction xs arbitrary: h) (auto split: option.splits)

lemma linked_consec:
  assumes "block_tree T"
  shows "linked T h xs \<Longrightarrow> consec (map fst xs)"
proof (induction xs arbitrary: h)
  case (Cons x xs)
  obtain n y where x: "x = (n, y)" by force
  with Cons.prems obtain bh where bh: "T y = Some bh" "h_number bh = n" and l: "linked T y xs"
    by (auto split: option.splits)
  show ?case
  proof (cases xs)
    case (Cons z zs)
    obtain m v where z: "z = (m, v)" by force
    with Cons l obtain gd where gd: "T v = Some gd" "h_number gd = m" "h_parent_hash gd = y"
      by (auto split: option.splits)
    with assms bh have "m = Suc n" by (metis block_treeD)
    with Cons.IH[OF l] Cons x z show ?thesis by simp
  qed (simp add: x)
qed simp

lemma linked_first_number:
  assumes "block_tree T" "linked T h xs" "xs \<noteq> []" "T h = Some pd"
  shows "fst (hd xs) = Suc (h_number pd)"
proof -
  obtain n y ys where xs: "xs = (n, y) # ys" using assms(3) by (metis list.exhaust surj_pair)
  with assms(2) obtain bh where "T y = Some bh" "h_number bh = n" "h_parent_hash bh = h"
    by (auto split: option.splits)
  with assms(1,4) xs show ?thesis by (metis block_treeD fst_conv list.sel(1))
qed

lemma linked_in_tree: "linked T h xs \<Longrightarrow> (n, x) \<in> set xs \<Longrightarrow> \<exists>bh. T x = Some bh \<and> h_number bh = n"
  by (induction xs arbitrary: h) (auto split: option.splits)

end
