(* ===== verification/Rpc_Segment.thy ===== *)
theory Rpc_Segment
  imports Host_Types Chain_Data
begin

text \<open>
  Blocks as the RPC backend holds them (\<^verbatim>\<open>host-rpc/src/segment.rs\<close>) and their conversion
  from RPC responses. The seal hash and the conversions of transactions and receipts are
  alloy's and signet-types' code: they are the parameters \<open>codecs\<close>.
\<close>

record rpc_header =
  rh_hash :: b256
  rh_inner :: header

record 'tx rpc_block_response =
  rb_header :: rpc_header
  rb_transactions :: "('tx \<times> address) list"

record ('tx, 'r) codecs =
  seal_hash :: "header \<Rightarrow> b256"
  into_signed :: "'tx \<Rightarrow> 'tx"
  into_primitives_receipt :: "'r \<Rightarrow> 'r"

text \<open>A recovered block: the resealed header and the transactions with their signers.\<close>

record 'tx recovered_block =
  rec_header :: header
  rec_hash :: b256
  rec_transactions :: "('tx \<times> address) list"

record ('tx, 'r) rpc_block =
  rblk_block :: "'tx recovered_block"
  rblk_receipts :: "'r list"

definition RpcBlock_number :: "('tx, 'r) rpc_block \<Rightarrow> u64" where
  "RpcBlock_number b = h_number (rec_header (rblk_block b))"

definition RpcBlock_hash :: "('tx, 'r) rpc_block \<Rightarrow> b256" where
  "RpcBlock_hash b = rec_hash (rblk_block b)"

definition RpcBlock_parent_hash :: "('tx, 'r) rpc_block \<Rightarrow> b256" where
  "RpcBlock_parent_hash b = h_parent_hash (rec_header (rblk_block b))"

definition convert_rpc_block ::
  "('tx, 'r) codecs \<Rightarrow> 'tx rpc_block_response \<Rightarrow> 'r list option \<Rightarrow> ('tx, 'r) rpc_block" where
  "convert_rpc_block c rb receipts =
     \<lparr>rblk_block =
        \<lparr>rec_header = rh_inner (rb_header rb),
         rec_hash = seal_hash c (rh_inner (rb_header rb)),
         rec_transactions = map (\<lambda>(tx, signer). (into_signed c tx, signer)) (rb_transactions rb)\<rparr>,
      rblk_receipts =
        map (into_primitives_receipt c) (case receipts of None \<Rightarrow> [] | Some rs \<Rightarrow> rs)\<rparr>"

section \<open>Segments\<close>

datatype ('tx, 'r) rpc_chain_segment = RpcChainSegment (seg_blocks: "('tx, 'r) rpc_block list")

definition seg_blocks_and_receipts ::
  "('tx, 'r) rpc_chain_segment \<Rightarrow> ('tx recovered_block \<times> 'r list) list" where
  "seg_blocks_and_receipts s = map (\<lambda>b. (rblk_block b, rblk_receipts b)) (seg_blocks s)"

definition seg_first_number :: "('tx, 'r) rpc_chain_segment \<Rightarrow> (u64, 'e) rresult" where
  "seg_first_number s = expect_some (map_option RpcBlock_number (first_opt (seg_blocks s)))"

definition seg_tip_number :: "('tx, 'r) rpc_chain_segment \<Rightarrow> (u64, 'e) rresult" where
  "seg_tip_number s = expect_some (map_option RpcBlock_number (last_opt (seg_blocks s)))"

definition seg_len :: "('tx, 'r) rpc_chain_segment \<Rightarrow> usize" where
  "seg_len s = length (seg_blocks s)"

lemmas seg_defs = seg_blocks_and_receipts_def seg_first_number_def seg_tip_number_def seg_len_def
  RpcBlock_number_def

interpretation rseg: extractable seg_blocks_and_receipts seg_first_number seg_tip_number seg_len
  "\<lambda>b. h_number (rec_header b)"
proof
  fix s :: "('a, 'b) rpc_chain_segment"
  show "seg_len s = length (seg_blocks_and_receipts s)" by (simp add: seg_defs)
  show "seg_blocks_and_receipts s \<noteq> [] \<Longrightarrow>
      seg_first_number s = Ok (h_number (rec_header (fst (hd (seg_blocks_and_receipts s)))))"
    by (cases "seg_blocks s") (auto simp: seg_defs)
  show "seg_blocks_and_receipts s \<noteq> [] \<Longrightarrow>
      seg_tip_number s = Ok (h_number (rec_header (fst (last (seg_blocks_and_receipts s)))))"
    by (cases "seg_blocks s" rule: rev_cases) (auto simp: seg_defs)
qed

end
