(* ===== verification/Rpc_View.thy ===== *)
theory Rpc_View
  imports Chain_Data
begin

text \<open>
  Bounded buffers that drop their oldest entry. The host notifier's chain view
  (\<^verbatim>\<open>host-rpc/src/notifier.rs\<close>) pushes and then pops the front when over capacity; the
  reorg ring buffer of \<^verbatim>\<open>rpc/src/config/chain_notifier.rs\<close> pops first. Both satisfy the
  contract \<open>evict_oldest\<close>: at any time the buffer is the most recent entries, up to the
  capacity.
\<close>

locale evict_oldest =
  fixes push :: "'a \<Rightarrow> 'a list \<Rightarrow> 'a list"
    and cap :: nat
  assumes push_recent: "length xs \<le> cap \<Longrightarrow> push x xs = drop (Suc (length xs) - cap) (xs @ [x])"
begin

lemma push_length: "length xs \<le> cap \<Longrightarrow> length (push x xs) \<le> cap"
  by (simp add: push_recent)

lemma push_keeps_order: "length xs \<le> cap \<Longrightarrow> \<exists>k. push x xs = drop k (xs @ [x])"
  by (metis push_recent)

lemma push_last: "length xs \<le> cap \<Longrightarrow> 0 < cap \<Longrightarrow> push x xs \<noteq> [] \<and> last (push x xs) = x"
  by (simp add: push_recent)

lemma push_all_recent:
  "length xs \<le> cap \<Longrightarrow>
     fold push ys xs = drop (length xs + length ys - cap) (xs @ ys)"
proof (induction ys arbitrary: xs)
  case (Cons y ys)
  have "fold push (y # ys) xs = fold push ys (push y xs)" by simp
  also have "\<dots> = drop (length (push y xs) + length ys - cap) (push y xs @ ys)"
    using Cons.prems by (intro Cons.IH push_length)
  also have "\<dots> = drop (length xs + length (y # ys) - cap) (xs @ y # ys)"
  proof (cases "length xs < cap")
    case True
    then show ?thesis using Cons.prems by (simp add: push_recent)
  next
    case False
    with Cons.prems have l: "length xs = cap" by simp
    then have p: "push y xs = drop 1 (xs @ [y])" by (simp add: push_recent del: drop_append)
    have "push y xs @ ys = drop 1 (xs @ y # ys)" unfolding p by (cases xs) simp_all
    moreover have "length (push y xs) = cap" using p l by simp
    ultimately show ?thesis using l by (simp add: add.commute del: drop_append)
  qed
  finally show ?case .
qed simp

lemma push_all_length: "length xs \<le> cap \<Longrightarrow> length (fold push ys xs) \<le> cap"
  by (simp add: push_all_recent)

lemma push_all_last:
  "length xs \<le> cap \<Longrightarrow> 0 < cap \<Longrightarrow> ys \<noteq> [] \<Longrightarrow>
     fold push ys xs \<noteq> [] \<and> last (fold push ys xs) = last ys"
proof -
  assume a: "length xs \<le> cap" "0 < cap" "ys \<noteq> []"
  then have k: "length xs + length ys - cap < length (xs @ ys)" by (cases ys) auto
  then have "fold push ys xs \<noteq> []" using a(1) by (simp only: push_all_recent drop_eq_Nil not_le)
  moreover have "last (fold push ys xs) = last (xs @ ys)"
    using k by (simp only: push_all_recent[OF a(1)] last_drop)
  ultimately show ?thesis using a(3) by simp
qed

end

section \<open>The notifier's chain view\<close>

type_synonym view = "(u64 \<times> b256) list"

definition push_view :: "usize \<Rightarrow> u64 \<times> b256 \<Rightarrow> view \<Rightarrow> view" where
  "push_view cap e v = (let v' = v @ [e] in if length v' > cap then tl v' else v')"

interpretation vw: evict_oldest "push_view cap" cap for cap
proof
  fix xs :: view and x
  assume "length xs \<le> cap"
  then consider "length xs < cap" | "length xs = cap" by linarith
  then show "push_view cap x xs = drop (Suc (length xs) - cap) (xs @ [x])"
    by cases (auto simp: push_view_def Let_def drop_Suc simp del: drop_append)
qed

definition extend_entries :: "usize \<Rightarrow> view \<Rightarrow> view \<Rightarrow> view" where
  "extend_entries cap es v = fold (push_view cap) es v"

text \<open>The loop of \<open>reorg_view\<close> that pops the back while it is at or above the fork.\<close>

function pop_back_from :: "u64 \<Rightarrow> view \<Rightarrow> view" where
  "pop_back_from fork_number v =
     (case last_opt v of
        None \<Rightarrow> v
      | Some (n, _) \<Rightarrow> if n \<ge> fork_number then pop_back_from fork_number (butlast v) else v)"
  by pat_completeness auto
termination
  by (relation "measure (\<lambda>(f, v). length v)") (auto simp: last_opt_Some)

declare pop_back_from.simps [simp del]

text \<open>The loop is \<open>dropWhile\<close> from the back.\<close>

lemma pop_back_from_dropWhile:
  "pop_back_from f v = rev (dropWhile (\<lambda>(n, _). n \<ge> f) (rev v))"
proof (induction v rule: rev_induct)
  case Nil
  show ?case by (simp add: pop_back_from.simps)
next
  case (snoc x v)
  obtain n h where "x = (n, h)" by force
  then show ?case using snoc by (simp add: pop_back_from.simps[of f "v @ [(n, h)]"])
qed

lemma pop_back_from_prefix: "\<exists>ys. v = pop_back_from f v @ ys"
proof -
  have "rev v = takeWhile (\<lambda>(n, _). n \<ge> f) (rev v) @ dropWhile (\<lambda>(n, _). n \<ge> f) (rev v)"
    by simp
  then have "v = rev (dropWhile (\<lambda>(n, _). n \<ge> f) (rev v)) @ rev (takeWhile (\<lambda>(n, _). n \<ge> f) (rev v))"
    by (metis rev_append rev_rev_ident)
  then show ?thesis by (auto simp: pop_back_from_dropWhile)
qed

text \<open>On a view with ascending numbers it removes exactly the entries at or above the fork.\<close>

lemma pop_back_from_filter:
  "sorted (map fst v) \<Longrightarrow> pop_back_from f v = filter (\<lambda>(n, _). n < f) v"
proof (induction v rule: rev_induct)
  case Nil
  show ?case by (simp add: pop_back_from.simps)
next
  case (snoc x v)
  obtain n h where x: "x = (n, h)" by force
  have "sorted (map fst v)" and le: "\<forall>e\<in>set v. fst e \<le> n"
    using snoc.prems x by (auto simp: sorted_append)
  with snoc.IH have IH: "pop_back_from f v = filter (\<lambda>(n, _). n < f) v" by simp
  show ?case
  proof (cases "n \<ge> f")
    case True
    then show ?thesis using IH x by (simp add: pop_back_from.simps[of f "v @ [(n, h)]"])
  next
    case False
    then have "filter (\<lambda>(n, _). n < f) v = v" using le by (force simp: filter_id_conv)
    then show ?thesis using False x by (simp add: pop_back_from.simps[of f "v @ [(n, h)]"])
  qed
qed

section \<open>Contiguity\<close>

definition view_ok :: "usize \<Rightarrow> view \<Rightarrow> bool" where
  "view_ok cap v \<longleftrightarrow>
     0 < cap \<and> length v \<le> cap \<and> consec (map fst v) \<and> list_all (\<lambda>e. fst e \<le> u64_max) v"

lemma view_ok_length: "view_ok cap v \<Longrightarrow> length v \<le> cap"
  and view_ok_consec: "view_ok cap v \<Longrightarrow> consec (map fst v)"
  by (simp_all add: view_ok_def)

lemma extend_entries_recent:
  "view_ok cap v \<Longrightarrow> extend_entries cap es v = drop (length v + length es - cap) (v @ es)"
  by (simp add: extend_entries_def vw.push_all_recent view_ok_length)

lemma extend_entries_ok:
  assumes "view_ok cap v" and "consec (map fst es)" and "list_all (\<lambda>e. fst e \<le> u64_max) es"
    and "v \<noteq> [] \<Longrightarrow> es \<noteq> [] \<Longrightarrow> fst (hd es) = Suc (fst (last v))"
  shows "view_ok cap (extend_entries cap es v)"
proof -
  have "consec (map fst (v @ es))"
    using assms by (auto simp: consec_append view_ok_def hd_map last_map)
  then have "consec (map fst (drop k (v @ es)))" for k
    using consec_drop[of "map fst (v @ es)" k] by (simp add: drop_map)
  moreover have "list_all (\<lambda>e. fst e \<le> u64_max) (drop k (v @ es))" for k
    using assms(1,3) by (auto simp: view_ok_def list_all_iff dest!: in_set_dropD)
  ultimately show ?thesis
    using assms(1) extend_entries_recent[OF assms(1), of es]
      vw.push_all_length[of v cap es]
    by (simp add: view_ok_def extend_entries_def del: drop_append)
qed

lemma extend_entries_last:
  "view_ok cap v \<Longrightarrow> es \<noteq> [] \<Longrightarrow>
     extend_entries cap es v \<noteq> [] \<and> last (extend_entries cap es v) = last es"
  unfolding extend_entries_def by (intro vw.push_all_last) (auto simp: view_ok_def)

lemma pop_back_from_ok: "view_ok cap v \<Longrightarrow> view_ok cap (pop_back_from f v)"
proof -
  assume ok: "view_ok cap v"
  obtain xs ys where v: "v = xs @ ys" and xs: "xs = pop_back_from f v"
    using pop_back_from_prefix by blast
  have "view_ok cap xs" using ok unfolding v by (simp add: view_ok_def consec_append)
  then show ?thesis by (simp add: xs)
qed

lemma view_ok_Nil [simp]: "view_ok cap [] \<longleftrightarrow> 0 < cap"
  by (simp add: view_ok_def)

lemma view_ok_last_max: "view_ok cap v \<Longrightarrow> v \<noteq> [] \<Longrightarrow> fst (last v) \<le> u64_max"
  by (simp add: view_ok_def list_all_iff)

lemma view_ok_functional:
  assumes "view_ok cap v" "(n, h) \<in> set v" "(n, h') \<in> set v"
  shows "h = h'"
  using assms consec_distinct[OF view_ok_consec[OF assms(1)]]
  by (metis eq_key_imp_eq_value)

lemma view_ok_le_last:
  assumes "view_ok cap v" "(n, h) \<in> set v"
  shows "n \<le> fst (last v)"
proof -
  have "sorted (map fst v)" using assms(1) by (simp add: consec_sorted view_ok_consec)
  moreover have "v = butlast v @ [last v]" using assms(2) by (cases v rule: rev_cases) auto
  ultimately have "\<forall>e\<in>set (butlast v). fst e \<le> fst (last v)"
    by (metis (no_types, lifting) image_eqI list.set_intros(1) list.set_map list.simps(9)
        map_append sorted_append)
  moreover have "(n, h) \<in> set (butlast v) \<or> (n, h) = last v"
    using assms(2) by (cases v rule: rev_cases) auto
  ultimately show ?thesis by (metis fst_conv order_refl)
qed

lemma pop_back_from_last:
  assumes ok: "view_ok cap v" and fork: "(n, h) \<in> set v"
  shows "pop_back_from (Suc n) v \<noteq> [] \<and> last (pop_back_from (Suc n) v) = (n, h)"
proof -
  obtain xs ys where v: "v = xs @ (n, h) # ys" using fork by (meson split_list)
  have c: "consec (map fst xs @ n # map fst ys)" using ok v by (simp add: view_ok_def)
  then have srt: "sorted (map fst v)" by (simp add: v consec_sorted)
  have "n \<le> m \<and> n \<noteq> m" if "m \<in> set (map fst ys)" for m
    using that consec_distinct[OF c] consec_sorted[OF c] by (auto simp: sorted_append)
  then have above: "\<forall>m\<in>set (map fst ys). n < m" by (simp add: le_neq_implies_less)
  have "filter (\<lambda>(m, _). m < Suc n) ys = []"
    using above by (auto simp: filter_empty_conv)
  moreover have "filter (\<lambda>(m, _). m < Suc n) v
      = filter (\<lambda>(m, _). m < Suc n) xs @ (n, h) # filter (\<lambda>(m, _). m < Suc n) ys"
    using v by simp
  ultimately show ?thesis using pop_back_from_filter[OF srt, of "Suc n"] by simp
qed

end
