(* ===== verification/Rpc_Latest.thy ===== *)
theory Rpc_Latest
  imports Node_Prelude
begin

text \<open>
  The stream adapter \<^verbatim>\<open>Latest\<close> (\<^verbatim>\<open>host-rpc/src/latest.rs\<close>). The wrapped stream is a list of
  what its successive polls answer: an item, or "pending"; polling past the end answers
  "closed" for good. One poll of \<open>Latest\<close> takes every item that is ready and keeps only
  the last.
\<close>

datatype 'a stream_event = Item 'a | Pend

datatype 'a poll = Poll_Pending | Poll_Ready 'a

type_synonym 'a event_stream = "'a stream_event list"

fun inner_poll_next :: "'a event_stream \<Rightarrow> 'a option poll \<times> 'a event_stream" where
  "inner_poll_next [] = (Poll_Ready None, [])"
| "inner_poll_next (Pend # s) = (Poll_Pending, s)"
| "inner_poll_next (Item x # s) = (Poll_Ready (Some x), s)"

lemma inner_poll_shrinks: "inner_poll_next s = (Poll_Ready (Some x), s') \<Longrightarrow> length s' < length s"
  by (cases s rule: inner_poll_next.cases) auto

text \<open>The \<open>while let Poll::Ready(Some(newer))\<close> loop: latest item, skipped items, rest.\<close>

function drain_ready :: "'a \<Rightarrow> u64 \<Rightarrow> 'a event_stream \<Rightarrow> 'a \<times> u64 \<times> 'a event_stream" where
  "drain_ready latest skipped s =
     (case inner_poll_next s of
        (Poll_Ready (Some newer), s') \<Rightarrow> drain_ready newer (u64_add skipped 1) s'
      | (_, s') \<Rightarrow> (latest, skipped, s'))"
  by pat_completeness auto
termination
  by (relation "measure (\<lambda>(l, k, s). length s)") (auto dest: inner_poll_shrinks[OF sym])

declare drain_ready.simps [simp del]

lemma drain_ready_eqs [simp]:
  "drain_ready l k [] = (l, k, [])"
  "drain_ready l k (Pend # s) = (l, k, s)"
  "drain_ready l k (Item x # s) = drain_ready x (u64_add k 1) s"
  by (simp_all add: drain_ready.simps)

definition latest_poll_next :: "'a event_stream \<Rightarrow> 'a option poll \<times> 'a event_stream" where
  "latest_poll_next s =
     (case inner_poll_next s of
        (Poll_Pending, s') \<Rightarrow> (Poll_Pending, s')
      | (Poll_Ready None, s') \<Rightarrow> (Poll_Ready None, s')
      | (Poll_Ready (Some first), s') \<Rightarrow>
          (case drain_ready first 0 s' of (latest, skipped, s'') \<Rightarrow> (Poll_Ready (Some latest), s'')))"

text \<open>\<open>StreamExt::next().await\<close>: poll again after each wake-up until the stream is ready.\<close>

fun latest_next :: "'a event_stream \<Rightarrow> 'a option \<times> 'a event_stream" where
  "latest_next [] = (None, [])"
| "latest_next (Pend # s) = latest_next s"
| "latest_next (Item x # s) =
     (case drain_ready x 0 s of (latest, skipped, s') \<Rightarrow> (Some latest, s'))"

text \<open>\<open>latest_next\<close> is the iteration of \<open>latest_poll_next\<close>.\<close>

lemma latest_next_poll:
  "latest_next s =
     (case latest_poll_next s of
        (Poll_Pending, s') \<Rightarrow> latest_next s'
      | (Poll_Ready r, s') \<Rightarrow> (r, s'))"
  by (cases s rule: inner_poll_next.cases) (auto simp: latest_poll_next_def split: prod.split)

section \<open>What a poll takes\<close>

lemma drain_ready_spec:
  "drain_ready l k s = (l', k', s') \<Longrightarrow>
     \<exists>xs r. s = map Item xs @ r \<and> l' = last (l # xs) \<and> s' = drop 1 r
          \<and> (r = [] \<or> hd r = Pend) \<and> (k + length xs \<le> u64_max \<longrightarrow> k' = k + length xs)"
proof (induction s arbitrary: l k)
  case Nil
  then show ?case by (intro exI[of _ "[]"] exI[of _ "[]"]) simp
next
  case (Cons e s)
  show ?case
  proof (cases e)
    case Pend
    then show ?thesis using Cons.prems
      by (intro exI[of _ "[]"] exI[of _ "e # s"]) simp
  next
    case (Item x)
    with Cons obtain xs r where "s = map Item xs @ r" "l' = last (x # xs)" "s' = drop 1 r"
      "r = [] \<or> hd r = Pend"
      "u64_add k 1 + length xs \<le> u64_max \<longrightarrow> k' = u64_add k 1 + length xs"
      by auto blast
    then show ?thesis using Item
      by (intro exI[of _ "x # xs"] exI[of _ r]) (auto simp: u64_simps)
  qed
qed

lemma drain_ready_length: "drain_ready l k s = (l', k', s') \<Longrightarrow> length s' \<le> length s"
  by (frule drain_ready_spec) auto

lemma latest_next_shrinks: "latest_next s = (Some x, s') \<Longrightarrow> length s' < length s"
proof (induction s rule: latest_next.induct)
  case (3 y s)
  then show ?case by (auto split: prod.splits dest!: drain_ready_length)
qed auto

text \<open>
  Polling \<^verbatim>\<open>Latest\<close> on a stream that has items ready answers the last of them,
  consumes exactly the items ready before the next wait (and that wait), and leaves the
  rest of the stream as it was.
\<close>

theorem latest_poll_coalesces:
  assumes "s = map Item (x # xs) @ r" and "r = [] \<or> hd r = Pend"
  shows "latest_poll_next s = (Poll_Ready (Some (last (x # xs))), drop 1 r)"
proof -
  have d: "\<exists>k'. drain_ready y k (map Item ys @ r) = (last (y # ys), k', drop 1 r)" for y k ys
  proof (induction ys arbitrary: y k)
    case Nil
    show ?case using assms(2) by (cases r) auto
  next
    case (Cons z ys)
    show ?case using Cons[of z "u64_add k 1"] by simp
  qed
  obtain k' where "drain_ready x 0 (map Item xs @ r) = (last (x # xs), k', drop 1 r)"
    using d by blast
  then show ?thesis using assms(1) by (simp add: latest_poll_next_def)
qed

theorem latest_poll_coalesces_witness:
  "latest_poll_next [Item (1::nat), Item 2, Item 3, Pend, Item 4]
     = (Poll_Ready (Some 3), [Item 4])"
  using latest_poll_coalesces[of "[Item (1::nat), Item 2, Item 3, Pend, Item 4]" 1 "[2, 3]"
      "[Pend, Item 4]"] by simp

end
