(* ===== verification/Rpc_Notifier.thy ===== *)
theory Rpc_Notifier
  imports Rpc_Segment Rpc_View Rpc_Latest
begin

text \<open>
  The RPC host notifier (\<^verbatim>\<open>host-rpc/src/notifier.rs\<close>, \<^verbatim>\<open>builder.rs\<close>). The alloy provider is
  a parameter: a record of calls over an abstract world, so that its answers may change
  between any two calls. Concurrent calls (\<^verbatim>\<open>try_join!\<close>, \<^verbatim>\<open>buffered\<close>) are run in the order in
  which the code awaits their results. Metrics and logs have no effect on the state and
  are left out.
\<close>

section \<open>Provider, errors and state\<close>

type_synonym transport_error = string

datatype rpc_host_error =
    Rpc transport_error
  | MissingBlockByHash b256
  | MissingBlock block_number_or_tag
  | BackfillContinuityBreak

type_synonym ('w, 'a) rpc_call = "'w \<Rightarrow> (transport_error + 'a) \<times> 'w"

record ('w, 'tx, 'r) provider =
  get_block_by_hash :: "b256 \<Rightarrow> ('w, 'tx rpc_block_response option) rpc_call"
  get_block_by_number :: "block_number_or_tag \<Rightarrow> ('w, 'tx rpc_block_response option) rpc_call"
  get_block_receipts :: "block_id \<Rightarrow> ('w, 'r list option) rpc_call"
  get_block_number :: "('w, u64) rpc_call"

datatype walk_result =
    AlreadySeen
  | Advance view
  | Reorg u64 u64 view
  | Exhausted

record rpc_host_notifier =
  chain_view :: view
  buffer_capacity :: usize
  cached_safe :: "u64 option"
  cached_finalized :: "u64 option"
  last_tag_epoch :: "u64 option"
  backfill_from :: "u64 option"
  backfill_batch_size :: u64
  max_rpc_concurrency :: usize
  last_emitted :: "(u64 \<times> b256) option"
  slot_seconds :: u64
  genesis_timestamp :: u64
  head_set :: bool

definition DEFAULT_SLOT_SECONDS :: u64 where "DEFAULT_SLOT_SECONDS = 12"
definition SLOTS_PER_EPOCH :: u64 where "SLOTS_PER_EPOCH = 32"
definition DEFAULT_BUFFER_CAPACITY :: usize where "DEFAULT_BUFFER_CAPACITY = 64"
definition DEFAULT_BACKFILL_BATCH_SIZE :: u64 where "DEFAULT_BACKFILL_BATCH_SIZE = 32"
definition DEFAULT_MAX_RPC_CONCURRENCY :: usize where "DEFAULT_MAX_RPC_CONCURRENCY = 8"

definition RpcHostNotifier_new :: "usize \<Rightarrow> u64 \<Rightarrow> usize \<Rightarrow> u64 \<Rightarrow> u64 \<Rightarrow> rpc_host_notifier" where
  "RpcHostNotifier_new cap batch conc slot genesis =
     \<lparr>chain_view = [], buffer_capacity = cap, cached_safe = None, cached_finalized = None,
      last_tag_epoch = None, backfill_from = None, backfill_batch_size = batch,
      max_rpc_concurrency = conc, last_emitted = None, slot_seconds = slot,
      genesis_timestamp = genesis, head_set = False\<rparr>"

section \<open>Chain view helpers\<close>

definition tip :: "rpc_host_notifier \<Rightarrow> (u64 \<times> b256) option" where
  "tip n = last_opt (chain_view n)"

definition view_hash :: "rpc_host_notifier \<Rightarrow> u64 \<Rightarrow> b256 option" where
  "view_hash n num =
     (case first_opt (chain_view n) of
        None \<Rightarrow> None
      | Some (front_number, _) \<Rightarrow>
          (case checked_sub num front_number of
             None \<Rightarrow> None
           | Some index \<Rightarrow>
               (case nth_opt (chain_view n) index of
                  None \<Rightarrow> None
                | Some (found_number, hash) \<Rightarrow> Some hash)))"

definition extend_view :: "view \<Rightarrow> rpc_host_notifier \<Rightarrow> rpc_host_notifier" where
  "extend_view entries n =
     n\<lparr>chain_view := extend_entries (buffer_capacity n) entries (chain_view n)\<rparr>"

definition reorg_view :: "u64 \<Rightarrow> view \<Rightarrow> rpc_host_notifier \<Rightarrow> rpc_host_notifier" where
  "reorg_view fork_number new_entries n =
     extend_view new_entries (n\<lparr>chain_view := pop_back_from fork_number (chain_view n)\<rparr>)"

section \<open>Block fetching\<close>

definition fetch_block_by_hash ::
  "('w, 'tx, 'r) provider \<Rightarrow> ('tx, 'r) codecs \<Rightarrow> b256 \<Rightarrow> 'w
     \<Rightarrow> (('tx, 'r) rpc_block, rpc_host_error) rresult \<times> 'w" where
  "fetch_block_by_hash p c hash w =
     (case get_block_by_hash p hash w of
        (Inl e, w1) \<Rightarrow> (Err (Rpc e), w1)
      | (Inr rpc_block, w1) \<Rightarrow>
          (case get_block_receipts p (BlockId_Hash hash) w1 of
             (Inl e, w2) \<Rightarrow> (Err (Rpc e), w2)
           | (Inr rpc_receipts, w2) \<Rightarrow>
               (case rpc_block of
                  None \<Rightarrow> (Err (MissingBlockByHash hash), w2)
                | Some b \<Rightarrow> (Ok (convert_rpc_block c b rpc_receipts), w2))))"

fun fetch_blocks_by_hash ::
  "('w, 'tx, 'r) provider \<Rightarrow> ('tx, 'r) codecs \<Rightarrow> view \<Rightarrow> 'w
     \<Rightarrow> (('tx, 'r) rpc_block list, rpc_host_error) rresult \<times> 'w" where
  "fetch_blocks_by_hash p c [] w = (Ok [], w)"
| "fetch_blocks_by_hash p c ((_, hash) # hashes) w =
     (case fetch_block_by_hash p c hash w of
        (Ok b, w1) \<Rightarrow>
          (case fetch_blocks_by_hash p c hashes w1 of (r, w2) \<Rightarrow> (rmap (\<lambda>bs. b # bs) r, w2))
      | (Err e, w1) \<Rightarrow> (Err e, w1)
      | (Panic, w1) \<Rightarrow> (Panic, w1))"

definition fetch_block_by_number ::
  "('w, 'tx, 'r) provider \<Rightarrow> ('tx, 'r) codecs \<Rightarrow> u64 \<Rightarrow> 'w
     \<Rightarrow> (('tx, 'r) rpc_block, rpc_host_error) rresult \<times> 'w" where
  "fetch_block_by_number p c num w =
     (case get_block_by_number p (Number num) w of
        (Inl e, w1) \<Rightarrow> (Err (Rpc e), w1)
      | (Inr rpc_block, w1) \<Rightarrow>
          (case get_block_receipts p (BlockId_Number (Number num)) w1 of
             (Inl e, w2) \<Rightarrow> (Err (Rpc e), w2)
           | (Inr rpc_receipts, w2) \<Rightarrow>
               (case rpc_block of
                  None \<Rightarrow> (Err (MissingBlock (Number num)), w2)
                | Some b \<Rightarrow> (Ok (convert_rpc_block c b rpc_receipts), w2))))"

fun fetch_numbers ::
  "('w, 'tx, 'r) provider \<Rightarrow> ('tx, 'r) codecs \<Rightarrow> u64 list \<Rightarrow> 'w
     \<Rightarrow> (('tx, 'r) rpc_block list, rpc_host_error) rresult \<times> 'w" where
  "fetch_numbers p c [] w = (Ok [], w)"
| "fetch_numbers p c (num # nums) w =
     (case fetch_block_by_number p c num w of
        (Ok b, w1) \<Rightarrow>
          (case fetch_numbers p c nums w1 of (r, w2) \<Rightarrow> (rmap (\<lambda>bs. b # bs) r, w2))
      | (Err e, w1) \<Rightarrow> (Err e, w1)
      | (Panic, w1) \<Rightarrow> (Panic, w1))"

definition fetch_range ::
  "('w, 'tx, 'r) provider \<Rightarrow> ('tx, 'r) codecs \<Rightarrow> u64 \<Rightarrow> u64 \<Rightarrow> 'w
     \<Rightarrow> (('tx, 'r) rpc_block list, rpc_host_error) rresult \<times> 'w" where
  "fetch_range p c from to w =
     (if from > to then (Ok [], w) else fetch_numbers p c [from..<Suc to] w)"

section \<open>Epochs and tags\<close>

definition epoch_of :: "rpc_host_notifier \<Rightarrow> u64 \<Rightarrow> (u64, rpc_host_error) rresult" where
  "epoch_of n ts =
     (let d = u64_mul (slot_seconds n) SLOTS_PER_EPOCH
      in if d = 0 then Panic else Ok (saturating_sub ts (genesis_timestamp n) div d))"

definition maybe_refresh_tags ::
  "('w, 'tx, 'r) provider \<Rightarrow> u64 \<Rightarrow> rpc_host_notifier \<Rightarrow> 'w
     \<Rightarrow> (unit, rpc_host_error) rresult \<times> rpc_host_notifier \<times> 'w" where
  "maybe_refresh_tags p ts n w =
     (case epoch_of n ts of
        Panic \<Rightarrow> (Panic, n, w)
      | Err e \<Rightarrow> (Err e, n, w)
      | Ok epoch \<Rightarrow>
          if last_tag_epoch n = Some epoch then (Ok (), n, w)
          else
            (case get_block_by_number p Safe w of
               (Inl e, w1) \<Rightarrow> (Err (Rpc e), n, w1)
             | (Inr safe, w1) \<Rightarrow>
                 (case get_block_by_number p Finalized w1 of
                    (Inl e, w2) \<Rightarrow> (Err (Rpc e), n, w2)
                  | (Inr finalized, w2) \<Rightarrow>
                      (Ok (),
                       n\<lparr>cached_safe := map_option (\<lambda>b. h_number (rh_inner (rb_header b))) safe,
                         cached_finalized := map_option (\<lambda>b. h_number (rh_inner (rb_header b))) finalized,
                         last_tag_epoch := Some epoch\<rparr>, w2))))"

section \<open>Walking back to a known block\<close>

text \<open>
  One round of the walk, after the header of \<open>cur\<close> (number \<open>num\<close>) was fetched and pushed
  to \<open>walked\<close>: the result, or \<open>None\<close> to go on with the parent.
\<close>

definition walk_decide :: "rpc_host_notifier \<Rightarrow> u64 \<Rightarrow> b256 \<Rightarrow> view \<Rightarrow> walk_result option" where
  "walk_decide n num cur walked =
     (let depth = (if length walked > buffer_capacity n then Some Exhausted else None)
      in case view_hash n num of
           Some local_hash \<Rightarrow>
             if local_hash = cur then
               (let new_chain = rev (butlast walked);
                    tip_num = (case tip n of None \<Rightarrow> 0 | Some (t, _) \<Rightarrow> t)
                in if new_chain = [] then Some AlreadySeen
                   else if num = tip_num then Some (Advance new_chain)
                   else Some (Reorg (u64_add num 1) tip_num new_chain))
             else depth
         | None \<Rightarrow>
             if chain_view n = [] then Some (Advance (rev walked))
             else if (case first_opt (chain_view n) of
                        Some (front_num, _) \<Rightarrow> num < front_num | None \<Rightarrow> False)
               then Some Exhausted
             else depth)"

lemma walk_decide_None_length: "walk_decide n num cur walked = None \<Longrightarrow> length walked \<le> buffer_capacity n"
  by (auto simp: walk_decide_def Let_def split: option.splits if_splits prod.splits)

function walk_loop ::
  "('w, 'tx, 'r) provider \<Rightarrow> rpc_host_notifier \<Rightarrow> b256 \<Rightarrow> view \<Rightarrow> 'w
     \<Rightarrow> (walk_result, rpc_host_error) rresult \<times> 'w" where
  "walk_loop p n cur walked w =
     (case get_block_by_hash p cur w of
        (Inl e, w1) \<Rightarrow> (Err (Rpc e), w1)
      | (Inr None, w1) \<Rightarrow> (Err (MissingBlockByHash cur), w1)
      | (Inr (Some block), w1) \<Rightarrow>
          (let num = h_number (rh_inner (rb_header block));
               walked' = walked @ [(num, cur)]
           in case walk_decide n num cur walked' of
                Some r \<Rightarrow> (Ok r, w1)
              | None \<Rightarrow> walk_loop p n (h_parent_hash (rh_inner (rb_header block))) walked' w1))"
  by pat_completeness auto
termination
  by (relation "measure (\<lambda>(p, n, cur, walked, w). Suc (buffer_capacity n) - length walked)")
    (auto dest!: walk_decide_None_length)

declare walk_loop.simps [simp del]

definition walk_chain ::
  "('w, 'tx, 'r) provider \<Rightarrow> rpc_host_notifier \<Rightarrow> b256 \<Rightarrow> 'w
     \<Rightarrow> (walk_result, rpc_host_error) rresult \<times> 'w" where
  "walk_chain p n start_hash w =
     (if (case tip n of Some (_, h) \<Rightarrow> h = start_hash | None \<Rightarrow> False) then (Ok AlreadySeen, w)
      else walk_loop p n start_hash [] w)"

section \<open>Handling a new head\<close>

type_synonym ('tx, 'r) rpc_notification = "('tx, 'r) rpc_chain_segment host_notification"

text \<open>The walk with its fallback to the latest block when the hinted hash is gone.\<close>

definition walk_with_fallback ::
  "('w, 'tx, 'r) provider \<Rightarrow> rpc_host_notifier \<Rightarrow> b256 \<Rightarrow> 'w
     \<Rightarrow> (walk_result, rpc_host_error) rresult \<times> 'w" where
  "walk_with_fallback p n hint_hash w =
     (case walk_chain p n hint_hash w of
        (Ok walk, w1) \<Rightarrow> (Ok walk, w1)
      | (Err (MissingBlockByHash _), w1) \<Rightarrow>
          (case get_block_by_number p Latest w1 of
             (Inl e, w2) \<Rightarrow> (Err (Rpc e), w2)
           | (Inr None, w2) \<Rightarrow> (Err (MissingBlock Latest), w2)
           | (Inr (Some b), w2) \<Rightarrow> walk_chain p n (rh_hash (rb_header b)) w2)
      | (Err e, w1) \<Rightarrow> (Err e, w1)
      | (Panic, w1) \<Rightarrow> (Panic, w1))"

text \<open>What both commit branches do once the tags are refreshed: emit the notification.\<close>

definition finish_head ::
  "('w, 'tx, 'r) provider \<Rightarrow> u64 \<Rightarrow> ('tx, 'r) rpc_chain_segment host_notification_kind
     \<Rightarrow> rpc_host_notifier \<Rightarrow> 'w
     \<Rightarrow> (('tx, 'r) rpc_notification option, rpc_host_error) rresult \<times> rpc_host_notifier \<times> 'w" where
  "finish_head p ts k n w =
     (case maybe_refresh_tags p ts n w of
        (Ok _, n1, w1) \<Rightarrow>
          (Ok (Some \<lparr>kind = k, safe_block_number = cached_safe n1,
                     finalized_block_number = cached_finalized n1\<rparr>), n1, w1)
      | (Err e, n1, w1) \<Rightarrow> (Err e, n1, w1)
      | (Panic, n1, w1) \<Rightarrow> (Panic, n1, w1))"

definition handle_new_head ::
  "('w, 'tx, 'r) provider \<Rightarrow> ('tx, 'r) codecs \<Rightarrow> rpc_header \<Rightarrow> rpc_host_notifier \<Rightarrow> 'w
     \<Rightarrow> (('tx, 'r) rpc_notification option, rpc_host_error) rresult \<times> rpc_host_notifier \<times> 'w" where
  "handle_new_head p c hdr n w =
     (case walk_with_fallback p n (rh_hash hdr) w of
        (Err e, w1) \<Rightarrow> (Err e, n, w1)
      | (Panic, w1) \<Rightarrow> (Panic, n, w1)
      | (Ok AlreadySeen, w1) \<Rightarrow> (Ok None, n, w1)
      | (Ok Exhausted, w1) \<Rightarrow>
          (Ok None,
           n\<lparr>chain_view := [],
             backfill_from := map_option (\<lambda>(num, _). u64_add num 1) (last_emitted n),
             last_tag_epoch := None\<rparr>, w1)
      | (Ok (Advance new_chain), w1) \<Rightarrow>
          (case fetch_blocks_by_hash p c new_chain w1 of
             (Err e, w2) \<Rightarrow> (Err e, n, w2)
           | (Panic, w2) \<Rightarrow> (Panic, n, w2)
           | (Ok blocks, w2) \<Rightarrow>
               finish_head p (h_timestamp (rh_inner hdr))
                 (ChainCommitted (RpcChainSegment blocks))
                 ((extend_view new_chain n)\<lparr>last_emitted := last_opt new_chain\<rparr>) w2)
      | (Ok (Reorg fork_number old_tip new_chain), w1) \<Rightarrow>
          (case fetch_blocks_by_hash p c new_chain w1 of
             (Err e, w2) \<Rightarrow> (Err e, n, w2)
           | (Panic, w2) \<Rightarrow> (Panic, n, w2)
           | (Ok blocks, w2) \<Rightarrow>
               (let n1 = (reorg_view fork_number new_chain n)\<lparr>last_emitted := last_opt new_chain\<rparr>
                in case RevertRange_new fork_number old_tip of
                     Panic \<Rightarrow> (Panic, n1, w2)
                   | Err e \<Rightarrow> (Err e, n1, w2)
                   | Ok old \<Rightarrow>
                       finish_head p (h_timestamp (rh_inner hdr))
                         (ChainReorged old (RpcChainSegment blocks)) n1 w2)))"

section \<open>Backfill\<close>

definition effective_ceiling :: "rpc_host_notifier \<Rightarrow> u64 \<Rightarrow> u64 \<Rightarrow> u64" where
  "effective_ceiling n from tip_num =
     (let backfill_ceiling = saturating_sub tip_num (buffer_capacity n div 2)
      in if from > backfill_ceiling then tip_num else backfill_ceiling)"

definition backfill_to :: "rpc_host_notifier \<Rightarrow> u64 \<Rightarrow> u64 \<Rightarrow> u64" where
  "backfill_to n from tip_num =
     min (effective_ceiling n from tip_num) (u64_sub (u64_add from (backfill_batch_size n)) 1)"

definition view_entries :: "('tx, 'r) rpc_block list \<Rightarrow> view" where
  "view_entries blocks = map (\<lambda>b. (RpcBlock_number b, RpcBlock_hash b)) blocks"

text \<open>The state after a batch that passed the continuity check.\<close>

definition after_batch ::
  "('tx, 'r) rpc_block list \<Rightarrow> u64 \<Rightarrow> u64 \<Rightarrow> rpc_host_notifier \<Rightarrow> rpc_host_notifier" where
  "after_batch blocks to ceiling n =
     (let n1 = extend_view (view_entries blocks) n;
          n2 = (case last_opt (view_entries blocks) of
                  None \<Rightarrow> n1 | Some (num, h) \<Rightarrow> n1\<lparr>last_emitted := Some (num, h)\<rparr>)
      in n2\<lparr>backfill_from := (if to \<ge> ceiling then None else Some (u64_add to 1))\<rparr>)"

definition continuity_broken :: "('tx, 'r) rpc_block list \<Rightarrow> rpc_host_notifier \<Rightarrow> bool" where
  "continuity_broken blocks n =
     (case last_emitted n of
        None \<Rightarrow> False
      | Some (_, expected_parent) \<Rightarrow>
          (case first_opt blocks of
             None \<Rightarrow> False
           | Some first \<Rightarrow> RpcBlock_parent_hash first \<noteq> expected_parent))"

definition drain_backfill ::
  "('w, 'tx, 'r) provider \<Rightarrow> ('tx, 'r) codecs \<Rightarrow> rpc_host_notifier \<Rightarrow> 'w
     \<Rightarrow> (('tx, 'r) rpc_notification, rpc_host_error) rresult option \<times> rpc_host_notifier \<times> 'w" where
  "drain_backfill p c n w =
     (case backfill_from n of
        None \<Rightarrow> (None, n, w)
      | Some from \<Rightarrow>
          (case get_block_number p w of
             (Inl e, w1) \<Rightarrow> (Some (Err (Rpc e)), n, w1)
           | (Inr tip_num, w1) \<Rightarrow>
               if from = saturating_add tip_num 1 then (None, n\<lparr>backfill_from := None\<rparr>, w1)
               else if from > saturating_add tip_num 1
                 then (Some (Err BackfillContinuityBreak), n, w1)
               else
                 (let ceiling = effective_ceiling n from tip_num;
                      to = backfill_to n from tip_num
                  in case fetch_range p c from to w1 of
                       (Err e, w2) \<Rightarrow> (Some (Err e), n, w2)
                     | (Panic, w2) \<Rightarrow> (Some Panic, n, w2)
                     | (Ok blocks, w2) \<Rightarrow>
                         if continuity_broken blocks n
                         then (Some (Err BackfillContinuityBreak), n\<lparr>chain_view := []\<rparr>, w2)
                         else
                           (let n1 = after_batch blocks to ceiling n
                            in case (case last_opt blocks of
                                       None \<Rightarrow> (Ok (), n1, w2)
                                     | Some lst \<Rightarrow>
                                         maybe_refresh_tags p
                                           (h_timestamp (rec_header (rblk_block lst))) n1 w2) of
                                 (Err e, n2, w3) \<Rightarrow> (Some (Err e), n2, w3)
                               | (Panic, n2, w3) \<Rightarrow> (Some Panic, n2, w3)
                               | (Ok _, n2, w3) \<Rightarrow>
                                   (Some (Ok \<lparr>kind = ChainCommitted (RpcChainSegment blocks),
                                              safe_block_number = cached_safe n2,
                                              finalized_block_number = cached_finalized n2\<rparr>),
                                    n2, w3)))))"

section \<open>The notifier's main loop and configuration\<close>

text \<open>
  Every round that does not return takes at least one header off the subscription, so
  the loop ends on every finite stream.
\<close>

function next_notification ::
  "('w, 'tx, 'r) provider \<Rightarrow> ('tx, 'r) codecs \<Rightarrow> rpc_host_notifier \<Rightarrow> rpc_header event_stream \<Rightarrow> 'w
     \<Rightarrow> (('tx, 'r) rpc_notification, rpc_host_error) rresult option
         \<times> rpc_host_notifier \<times> rpc_header event_stream \<times> 'w" where
  "next_notification p c n s w =
     (case drain_backfill p c n w of
        (Some result, n1, w1) \<Rightarrow> (Some result, n1, s, w1)
      | (None, n1, w1) \<Rightarrow>
          (case latest_next s of
             (None, s1) \<Rightarrow> (None, n1, s1, w1)
           | (Some hdr, s1) \<Rightarrow>
               (case handle_new_head p c hdr n1 w1 of
                  (Ok (Some notification), n2, w2) \<Rightarrow> (Some (Ok notification), n2, s1, w2)
                | (Ok None, n2, w2) \<Rightarrow> next_notification p c n2 s1 w2
                | (Err e, n2, w2) \<Rightarrow> (Some (Err e), n2, s1, w2)
                | (Panic, n2, w2) \<Rightarrow> (Some Panic, n2, s1, w2))))"
  by pat_completeness auto
termination
  by (relation "measure (\<lambda>(p, c, n, s, w). length s)")
    (auto dest!: latest_next_shrinks[OF sym])

declare next_notification.simps [simp del]

definition rpc_set_head :: "u64 \<Rightarrow> rpc_host_notifier \<Rightarrow> rpc_host_notifier" where
  "rpc_set_head block_number n =
     (if head_set n then n
      else n\<lparr>head_set := True, backfill_from := Some block_number, last_emitted := None\<rparr>)"

definition rpc_set_backfill_thresholds :: "u64 option \<Rightarrow> rpc_host_notifier \<Rightarrow> rpc_host_notifier" where
  "rpc_set_backfill_thresholds max_blocks n =
     n\<lparr>backfill_batch_size :=
         (case max_blocks of None \<Rightarrow> DEFAULT_BACKFILL_BATCH_SIZE | Some m \<Rightarrow> max m 1)\<rparr>"

definition rpc_send_finished_height :: "rpc_host_notifier \<Rightarrow> u64 \<Rightarrow> (unit, rpc_host_error) rresult" where
  "rpc_send_finished_height n block_number = Ok ()"

interpretation rpcn: host_notifier_config rpc_set_head rpc_set_backfill_thresholds head_set
  backfill_from "\<lambda>n. Some (backfill_batch_size n)"
  by unfold_locales
    (auto simp: rpc_set_head_def rpc_set_backfill_thresholds_def DEFAULT_BACKFILL_BATCH_SIZE_def
      split: option.splits)

section \<open>The builder\<close>

record rpc_builder =
  b_buffer_capacity :: usize
  b_backfill_batch_size :: u64
  b_max_rpc_concurrency :: usize
  b_slot_seconds :: u64
  b_genesis_timestamp :: u64

definition RpcHostNotifierBuilder_new :: rpc_builder where
  "RpcHostNotifierBuilder_new =
     \<lparr>b_buffer_capacity = DEFAULT_BUFFER_CAPACITY,
      b_backfill_batch_size = DEFAULT_BACKFILL_BATCH_SIZE,
      b_max_rpc_concurrency = DEFAULT_MAX_RPC_CONCURRENCY,
      b_slot_seconds = DEFAULT_SLOT_SECONDS, b_genesis_timestamp = 0\<rparr>"

definition with_buffer_capacity :: "usize \<Rightarrow> rpc_builder \<Rightarrow> rpc_builder" where
  "with_buffer_capacity k b = b\<lparr>b_buffer_capacity := (if k > 0 then k else 1)\<rparr>"

definition with_backfill_batch_size :: "u64 \<Rightarrow> rpc_builder \<Rightarrow> rpc_builder" where
  "with_backfill_batch_size k b = b\<lparr>b_backfill_batch_size := (if k > 0 then k else 1)\<rparr>"

definition with_max_rpc_concurrency :: "usize \<Rightarrow> rpc_builder \<Rightarrow> rpc_builder" where
  "with_max_rpc_concurrency k b = b\<lparr>b_max_rpc_concurrency := (if k > 0 then k else 1)\<rparr>"

definition with_slot_seconds :: "u64 \<Rightarrow> rpc_builder \<Rightarrow> rpc_builder" where
  "with_slot_seconds k b = b\<lparr>b_slot_seconds := k\<rparr>"

definition with_genesis_timestamp :: "u64 \<Rightarrow> rpc_builder \<Rightarrow> rpc_builder" where
  "with_genesis_timestamp k b = b\<lparr>b_genesis_timestamp := k\<rparr>"

text \<open>\<open>subscribe_blocks\<close> is the provider's; its answer is an argument.\<close>

definition builder_build ::
  "transport_error + rpc_header event_stream \<Rightarrow> rpc_builder
     \<Rightarrow> (rpc_host_notifier \<times> rpc_header event_stream, rpc_host_error) rresult" where
  "builder_build sub b =
     (case sub of
        Inl e \<Rightarrow> Err (Rpc e)
      | Inr header_sub \<Rightarrow>
          Ok (RpcHostNotifier_new (b_buffer_capacity b) (b_backfill_batch_size b)
                (b_max_rpc_concurrency b) (b_slot_seconds b) (b_genesis_timestamp b), header_sub))"

record host_rpc_config =
  cfg_buffer_capacity :: "usize option"
  cfg_backfill_batch_size :: "u64 option"
  cfg_max_rpc_concurrency :: "usize option"

definition into_builder ::
  "(unit, transport_error) rresult \<Rightarrow> u64 \<Rightarrow> host_rpc_config \<Rightarrow> (rpc_builder, transport_error) rresult" where
  "into_builder connect start_timestamp cfg =
     rmap (\<lambda>_.
       with_genesis_timestamp start_timestamp
         (with_max_rpc_concurrency
           (case cfg_max_rpc_concurrency cfg of None \<Rightarrow> DEFAULT_MAX_RPC_CONCURRENCY | Some k \<Rightarrow> k)
           (with_backfill_batch_size
             (case cfg_backfill_batch_size cfg of None \<Rightarrow> DEFAULT_BACKFILL_BATCH_SIZE | Some k \<Rightarrow> k)
             (with_buffer_capacity
               (case cfg_buffer_capacity cfg of None \<Rightarrow> DEFAULT_BUFFER_CAPACITY | Some k \<Rightarrow> k)
               RpcHostNotifierBuilder_new)))) connect"

end
