(* ===== verification/Rpc_Walk.thy ===== *)
theory Rpc_Walk
  imports Rpc_Notifier
begin

text \<open>
  The chain view lookup and the backward walk are correct: what \<open>walk_chain\<close> answers
  describes the path of the block tree from the view to the hinted block. What is assumed
  of the provider is that hashes are content addresses (\<open>answers_from\<close>, \<open>sealed\<close>) and
  that a block asked for by number has that number (\<open>numbers_ok\<close>); \<open>tips_below\<close> bounds
  the block numbers it reports, for the 64-bit arithmetic of backfill.
\<close>

definition answers_from :: "('w, 'tx, 'r) provider \<Rightarrow> tree \<Rightarrow> bool" where
  "answers_from p T \<longleftrightarrow>
     (\<forall>h w b w'. get_block_by_hash p h w = (Inr (Some b), w') \<longrightarrow> T h = Some (rh_inner (rb_header b)))"

definition sealed :: "('tx, 'r) codecs \<Rightarrow> tree \<Rightarrow> bool" where
  "sealed c T \<longleftrightarrow> (\<forall>h bh. T h = Some bh \<longrightarrow> seal_hash c bh = h)"

definition numbers_ok :: "('w, 'tx, 'r) provider \<Rightarrow> bool" where
  "numbers_ok p \<longleftrightarrow>
     (\<forall>k w b w'. get_block_by_number p (Number k) w = (Inr (Some b), w')
                 \<longrightarrow> h_number (rh_inner (rb_header b)) = k)"

definition tips_below :: "('w, 'tx, 'r) provider \<Rightarrow> u64 \<Rightarrow> bool" where
  "tips_below p B \<longleftrightarrow> (\<forall>w k w'. get_block_number p w = (Inr k, w') \<longrightarrow> k \<le> B)"

lemma answers_fromD:
  "answers_from p T \<Longrightarrow> get_block_by_hash p h w = (Inr (Some b), w') \<Longrightarrow> T h = Some (rh_inner (rb_header b))"
  by (auto simp: answers_from_def)

section \<open>View lookup\<close>

lemma view_hash_iff:
  assumes "view_ok cap (chain_view n)"
  shows "view_hash n num = Some h \<longleftrightarrow> (num, h) \<in> set (chain_view n)"
proof (cases "chain_view n")
  case Nil
  then show ?thesis by (simp add: view_hash_def)
next
  case (Cons e es)
  obtain f g where e: "e = (f, g)" by force
  have nth: "fst (chain_view n ! i) = f + i" if "i < length (chain_view n)" for i
  proof -
    have "fst (chain_view n ! i) = hd (map fst (chain_view n)) + i"
      using consec_nth[OF view_ok_consec[OF assms], of i] that by simp
    then show ?thesis using Cons e by simp
  qed
  show ?thesis
  proof
    assume "view_hash n num = Some h"
    then have lt: "num - f < length (chain_view n)" and le: "f \<le> num"
      and h: "snd (chain_view n ! (num - f)) = h"
      using Cons e
      by (auto simp: view_hash_def checked_sub_def nth_opt_def split: if_splits prod.splits option.splits)
    then have "chain_view n ! (num - f) = (num, h)" using nth[OF lt] le by (metis le_add_diff_inverse prod.collapse)
    then show "(num, h) \<in> set (chain_view n)" using lt nth_mem by fastforce
  next
    assume "(num, h) \<in> set (chain_view n)"
    then obtain i where i: "i < length (chain_view n)" "chain_view n ! i = (num, h)"
      by (meson in_set_conv_nth)
    then have "num = f + i" using nth by fastforce
    then show "view_hash n num = Some h"
      using i Cons e by (simp add: view_hash_def checked_sub_def nth_opt_def)
  qed
qed

lemma view_hash_None_iff:
  assumes "view_ok cap (chain_view n)"
  shows "view_hash n num = None \<longleftrightarrow> num \<notin> fst ` set (chain_view n)"
proof -
  have "view_hash n num = None \<longleftrightarrow> (\<forall>h. view_hash n num \<noteq> Some h)" by simp
  then show ?thesis using view_hash_iff[OF assms] by force
qed

section \<open>The walk\<close>

text \<open>What a result of the walk from \<open>start\<close> says about the tree and the view.\<close>

definition walk_spec :: "tree \<Rightarrow> rpc_host_notifier \<Rightarrow> b256 \<Rightarrow> walk_result \<Rightarrow> bool" where
  "walk_spec T n start r =
     (case r of
        AlreadySeen \<Rightarrow> start \<in> snd ` set (chain_view n)
      | Exhausted \<Rightarrow> chain_view n \<noteq> []
      | Advance nc \<Rightarrow>
          nc \<noteq> [] \<and> snd (last nc) = start \<and>
          (if chain_view n = [] then \<exists>h. length nc = 1 \<and> linked T h nc
           else linked T (snd (last (chain_view n))) nc
                \<and> fst (hd nc) = Suc (fst (last (chain_view n)))
                \<and> length nc \<le> buffer_capacity n)
      | Reorg f old nc \<Rightarrow>
          nc \<noteq> [] \<and> snd (last nc) = start \<and> length nc \<le> buffer_capacity n \<and>
          (\<exists>num h. (num, h) \<in> set (chain_view n) \<and> f = Suc num \<and> num < old
                 \<and> old = fst (last (chain_view n)) \<and> linked T h nc \<and> fst (hd nc) = f))"

definition walked_inv :: "tree \<Rightarrow> b256 \<Rightarrow> b256 \<Rightarrow> view \<Rightarrow> bool" where
  "walked_inv T start cur walked \<longleftrightarrow>
     linked T cur (rev walked) \<and> (if walked = [] then cur = start else snd (hd walked) = start)"

lemma walked_inv_step:
  assumes "walked_inv T start cur walked" and "T cur = Some bh"
  shows "walked_inv T start (h_parent_hash bh) (walked @ [(h_number bh, cur)])"
  using assms by (auto simp: walked_inv_def hd_append)

lemma walk_decide_sound:
  assumes tree: "block_tree T" and ok: "view_ok (buffer_capacity n) (chain_view n)"
    and cur: "T cur = Some bh" and inv: "walked_inv T start cur walked"
    and bound: "length walked \<le> buffer_capacity n"
    and empty: "chain_view n = [] \<Longrightarrow> walked = []"
    and dec: "walk_decide n (h_number bh) cur (walked @ [(h_number bh, cur)]) = Some r"
  shows "walk_spec T n start r"
proof (cases "view_hash n (h_number bh)")
  case None
  show ?thesis
  proof (cases "chain_view n = []")
    case True
    then have "r = Advance [(h_number bh, cur)]" and "start = cur"
      using dec None empty inv by (auto simp: walk_decide_def walked_inv_def)
    then show ?thesis using True cur by (auto simp: walk_spec_def)
  next
    case False
    then have "r = Exhausted"
      using dec None by (auto simp: walk_decide_def Let_def split: if_splits option.splits prod.splits)
    then show ?thesis using False by (simp add: walk_spec_def)
  qed
next
  case (Some local)
  then have mem: "(h_number bh, local) \<in> set (chain_view n)" using view_hash_iff[OF ok] by simp
  then have ne: "chain_view n \<noteq> []" by auto
  show ?thesis
  proof (cases "local = cur")
    case False
    then have "r = Exhausted" using dec Some by (auto simp: walk_decide_def Let_def split: if_splits)
    then show ?thesis using ne by (simp add: walk_spec_def)
  next
    case True
    define nc where "nc = rev walked"
    have lnk: "linked T cur nc" using inv by (simp add: walked_inv_def nc_def)
    have tp: "tip n = Some (last (chain_view n))" using ne by (simp add: tip_def last_opt_def)
    show ?thesis
    proof (cases "nc = []")
      case True
      then have "walked = []" by (simp add: nc_def)
      then have "start = cur" using inv by (simp add: walked_inv_def)
      moreover have "r = AlreadySeen"
        using dec Some \<open>local = cur\<close> \<open>walked = []\<close> by (simp add: walk_decide_def)
      ultimately show ?thesis using mem \<open>local = cur\<close> by (force simp: walk_spec_def)
    next
      case False
      then have st: "snd (last nc) = start" using inv by (simp add: walked_inv_def nc_def last_rev)
      have num: "fst (hd nc) = Suc (h_number bh)"
        using linked_first_number[OF tree lnk False cur] .
      have len: "length nc \<le> buffer_capacity n" using bound by (simp add: nc_def)
      show ?thesis
      proof (cases "h_number bh = fst (last (chain_view n))")
        case True
        then have "r = Advance nc"
          using dec Some \<open>local = cur\<close> tp False
          by (simp add: walk_decide_def nc_def Let_def split_beta)
        moreover have "cur = snd (last (chain_view n))"
          using view_ok_functional[OF ok, of "h_number bh"] mem \<open>local = cur\<close> True ne
          by (metis last_in_set prod.collapse)
        ultimately show ?thesis using ne False st num True lnk len by (simp add: walk_spec_def)
      next
        case neq: False
        have lt: "h_number bh < fst (last (chain_view n))"
          using view_ok_le_last[OF ok mem] neq by simp
        then have "u64_add (h_number bh) 1 = Suc (h_number bh)"
          using view_ok_last_max[OF ok ne] by (simp add: u64_simps)
        then have "r = Reorg (Suc (h_number bh)) (fst (last (chain_view n))) nc"
          using dec Some \<open>local = cur\<close> tp False neq
          by (simp add: walk_decide_def nc_def Let_def split_beta)
        then show ?thesis
          using False st num len lnk lt mem \<open>local = cur\<close> by (auto simp: walk_spec_def)
      qed
    qed
  qed
qed

lemma walk_loop_sound:
  assumes ans: "answers_from p T" and tree: "block_tree T"
    and ok: "view_ok (buffer_capacity n) (chain_view n)"
  shows "walked_inv T start cur walked \<Longrightarrow> length walked \<le> buffer_capacity n \<Longrightarrow>
     (chain_view n = [] \<Longrightarrow> walked = []) \<Longrightarrow>
     walk_loop p n cur walked w = (Ok r, w') \<Longrightarrow> walk_spec T n start r"
proof (induction "Suc (buffer_capacity n) - length walked" arbitrary: cur walked w rule: less_induct)
  case less
  obtain b w1 where b: "get_block_by_hash p cur w = (Inr (Some b), w1)"
    using less.prems(4)
    by (subst (asm) walk_loop.simps) (auto split: prod.splits sum.splits option.splits)
  define bh where "bh = rh_inner (rb_header b)"
  have cur: "T cur = Some bh" using answers_fromD[OF ans b] by (simp add: bh_def)
  let ?walked = "walked @ [(h_number bh, cur)]"
  show ?case
  proof (cases "walk_decide n (h_number bh) cur ?walked")
    case (Some r')
    then have "r' = r"
      using less.prems(4) b by (subst (asm) walk_loop.simps) (simp add: bh_def Let_def)
    then show ?thesis using walk_decide_sound[OF tree ok cur less.prems(1,2,3)] Some by simp
  next
    case None
    have len: "length ?walked \<le> buffer_capacity n" using walk_decide_None_length[OF None] .
    have ne: "chain_view n \<noteq> []"
      using None ok by (auto simp: walk_decide_def view_hash_def)
    have eq: "walk_loop p n (h_parent_hash bh) ?walked w1 = (Ok r, w')"
      using less.prems(4) b None by (subst (asm) walk_loop.simps) (simp add: bh_def Let_def)
    show ?thesis
      using less.hyps[OF _ walked_inv_step[OF less.prems(1) cur] len _ eq] len ne by simp
  qed
qed

lemma walk_chain_sound:
  assumes "answers_from p T" "block_tree T" "view_ok (buffer_capacity n) (chain_view n)"
    and "walk_chain p n start w = (Ok r, w')"
  shows "walk_spec T n start r"
proof (cases "\<exists>k. tip n = Some (k, start)")
  case True
  then obtain k where "chain_view n \<noteq> []" "last (chain_view n) = (k, start)"
    by (metis last_opt_Some tip_def)
  then have "start \<in> snd ` set (chain_view n)" by (metis image_eqI last_in_set snd_conv)
  with assms(4) True show ?thesis by (force simp: walk_chain_def walk_spec_def)
next
  case False
  then have "walk_loop p n start [] w = (Ok r, w')"
    using assms(4) by (auto simp: walk_chain_def split: if_splits option.splits)
  then show ?thesis
    using walk_loop_sound[OF assms(1-3), of start start "[]"] by (simp add: walked_inv_def)
qed

end
