(* ===== verification/Rpc_Follow.thy ===== *)
theory Rpc_Follow
  imports Rpc_Walk
begin

text \<open>
  What the RPC notifier emits: its invariant, kept by every operation whatever the
  provider answers; continuity of the emitted segments with the last delivered block;
  progress of backfill; and the limits of these guarantees.
\<close>

section \<open>Fetched blocks\<close>

fun blocks_linked :: "b256 \<Rightarrow> ('tx, 'r) rpc_block list \<Rightarrow> bool" where
  "blocks_linked h [] = True"
| "blocks_linked h (b # bs) = (RpcBlock_parent_hash b = h \<and> blocks_linked (RpcBlock_hash b) bs)"

lemmas block_accessors = RpcBlock_number_def RpcBlock_hash_def RpcBlock_parent_hash_def

lemma fetch_block_by_hash_sound:
  assumes "answers_from p T" "sealed c T" "fetch_block_by_hash p c h w = (Ok b, w')"
  shows "\<exists>bh. T h = Some bh \<and> RpcBlock_number b = h_number bh \<and> RpcBlock_hash b = h
            \<and> RpcBlock_parent_hash b = h_parent_hash bh"
  using assms answers_fromD[OF assms(1)]
  by (fastforce simp: fetch_block_by_hash_def convert_rpc_block_def block_accessors sealed_def
      split: prod.splits sum.splits option.splits)

lemma fetch_blocks_by_hash_sound:
  assumes "answers_from p T" "sealed c T"
  shows "fetch_blocks_by_hash p c hs w = (Ok bs, w') \<Longrightarrow> linked T h hs \<Longrightarrow>
           view_entries bs = hs \<and> blocks_linked h bs"
proof (induction hs arbitrary: bs w h w')
  case Nil
  then show ?case by (simp add: view_entries_def)
next
  case (Cons e hs)
  obtain k x where e: "e = (k, x)" by force
  obtain b w1 bs' w2 where b: "fetch_block_by_hash p c x w = (Ok b, w1)"
    and bs': "fetch_blocks_by_hash p c hs w1 = (Ok bs', w2)" and bs: "bs = b # bs'"
    using Cons.prems(1) e by (auto simp: rres_simps split: prod.splits rresult.splits)
  obtain bh where bh: "T x = Some bh" "RpcBlock_number b = h_number bh" "RpcBlock_hash b = x"
    "RpcBlock_parent_hash b = h_parent_hash bh"
    using fetch_block_by_hash_sound[OF assms b] by blast
  with Cons.prems(2) e have "h_number bh = k" "h_parent_hash bh = h" "linked T x hs" by auto
  then show ?case using Cons.IH[OF bs'] bs bh e by (simp add: view_entries_def)
qed

lemma fetch_never_panics:
  "fst (fetch_block_by_hash p c h w) \<noteq> Panic"
  "fst (fetch_block_by_number p c k w) \<noteq> Panic"
  by (auto simp: fetch_block_by_hash_def fetch_block_by_number_def
      split: prod.splits sum.splits option.splits)

lemma fetch_blocks_never_panics: "fst (fetch_blocks_by_hash p c hs w) \<noteq> Panic"
proof (induction hs arbitrary: w)
  case (Cons e hs)
  obtain k x where e: "e = (k, x)" by force
  obtain r w1 where r: "fetch_block_by_hash p c x w = (r, w1)" by force
  obtain rs w2 where rs: "fetch_blocks_by_hash p c hs w1 = (rs, w2)" by force
  have "r \<noteq> Panic" "rs \<noteq> Panic" using fetch_never_panics(1)[of p c x w] Cons[of w1] r rs by auto
  then show ?case using e r rs by (cases r; cases rs) auto
qed simp

lemma fetch_numbers_sound:
  assumes "numbers_ok p"
  shows "fetch_numbers p c nums w = (Ok bs, w') \<Longrightarrow> map RpcBlock_number bs = nums"
proof (induction nums arbitrary: bs w w')
  case (Cons k nums)
  obtain b w1 bs' w2 where b: "fetch_block_by_number p c k w = (Ok b, w1)"
    and bs': "fetch_numbers p c nums w1 = (Ok bs', w2)" and bs: "bs = b # bs'"
    using Cons.prems by (auto simp: rres_simps split: prod.splits rresult.splits)
  have "RpcBlock_number b = k"
    using assms b by (fastforce simp: numbers_ok_def fetch_block_by_number_def convert_rpc_block_def
        block_accessors split: prod.splits sum.splits option.splits)
  then show ?case using Cons.IH[OF bs'] bs by simp
qed simp

lemma fetch_range_sound:
  "numbers_ok p \<Longrightarrow> fetch_range p c from to w = (Ok bs, w') \<Longrightarrow>
     map RpcBlock_number bs = [from..<Suc to]"
  by (auto simp: fetch_range_def split: if_splits dest: fetch_numbers_sound)

section \<open>The invariant\<close>

text \<open>
  The view is a contiguous, bounded window; while it is not empty, its last entry is the
  last delivered block.
\<close>

definition rpc_inv :: "rpc_host_notifier \<Rightarrow> bool" where
  "rpc_inv n \<longleftrightarrow>
     view_ok (buffer_capacity n) (chain_view n)
     \<and> (chain_view n \<noteq> [] \<longrightarrow> last_emitted n = Some (last (chain_view n)))
     \<and> 0 < backfill_batch_size n"

lemma rpc_inv_new: "0 < cap \<Longrightarrow> 0 < batch \<Longrightarrow> rpc_inv (RpcHostNotifier_new cap batch conc slot gen)"
  by (simp add: rpc_inv_def RpcHostNotifier_new_def)

lemma rpc_inv_set_head: "rpc_inv n \<Longrightarrow> chain_view n = [] \<Longrightarrow> rpc_inv (rpc_set_head k n)"
  by (simp add: rpc_inv_def rpc_set_head_def)

lemma rpc_inv_thresholds: "rpc_inv n \<Longrightarrow> rpc_inv (rpc_set_backfill_thresholds m n)"
  by (simp add: rpc_inv_def rpc_set_backfill_thresholds_def DEFAULT_BACKFILL_BATCH_SIZE_def
      less_max_iff_disj split: option.split)

lemma maybe_refresh_tags_cases:
  "maybe_refresh_tags p ts n w = (r, n', w') \<Longrightarrow>
     n' = n \<or> (\<exists>a b e. r = Ok () \<and> n' = n\<lparr>cached_safe := a, cached_finalized := b, last_tag_epoch := e\<rparr>)"
  unfolding maybe_refresh_tags_def
  by (cases "epoch_of n ts") (force split: if_splits prod.splits sum.splits)+

lemma maybe_refresh_tags_frame:
  assumes "maybe_refresh_tags p ts n w = (r, n', w')"
  shows "chain_view n' = chain_view n" "last_emitted n' = last_emitted n"
    "backfill_from n' = backfill_from n" "buffer_capacity n' = buffer_capacity n"
    "backfill_batch_size n' = backfill_batch_size n"
  using maybe_refresh_tags_cases[OF assms] by auto

lemma rpc_inv_frame:
  "chain_view n' = chain_view n \<Longrightarrow> last_emitted n' = last_emitted n \<Longrightarrow>
   buffer_capacity n' = buffer_capacity n \<Longrightarrow> backfill_batch_size n' = backfill_batch_size n \<Longrightarrow>
   rpc_inv n' = rpc_inv n"
  by (simp add: rpc_inv_def)

lemma rpc_inv_finish:
  assumes "finish_head p ts k n w = (r, n', w')" "rpc_inv n"
  shows "rpc_inv n'"
proof -
  obtain r' n1 w1 where m: "maybe_refresh_tags p ts n w = (r', n1, w1)" by (metis prod_cases3)
  have "n' = n1" using assms(1) by (simp add: finish_head_def m split: rresult.splits)
  note f = maybe_refresh_tags_frame[OF m]
  show ?thesis using assms(2) rpc_inv_frame[OF f(1,2,4,5)] \<open>n' = n1\<close> by simp
qed

lemma rpc_inv_extend:
  assumes "rpc_inv n" "es \<noteq> []" "consec (map fst es)" "list_all (\<lambda>e. fst e \<le> u64_max) es"
    and "chain_view n \<noteq> [] \<Longrightarrow> fst (hd es) = Suc (fst (last (chain_view n)))"
  shows "rpc_inv ((extend_view es n)\<lparr>last_emitted := last_opt es\<rparr>)"
proof -
  have ok: "view_ok (buffer_capacity n) (chain_view n)" using assms(1) by (simp add: rpc_inv_def)
  have "view_ok (buffer_capacity n) (extend_entries (buffer_capacity n) es (chain_view n))"
    using assms(3-5) by (intro extend_entries_ok[OF ok]) auto
  then show ?thesis
    using assms(1,2) extend_entries_last[OF ok assms(2)]
    by (simp add: rpc_inv_def extend_view_def last_opt_def)
qed

lemma linked_u64: "block_tree T \<Longrightarrow> linked T h xs \<Longrightarrow> list_all (\<lambda>e. fst e \<le> u64_max) xs"
  using linked_in_tree block_tree_max by (fastforce simp: list_all_iff)

lemma rpc_inv_advance:
  assumes "rpc_inv n" "block_tree T" "walk_spec T n start (Advance nc)"
  shows "rpc_inv ((extend_view nc n)\<lparr>last_emitted := last_opt nc\<rparr>)"
proof -
  obtain h where l: "linked T h nc" using assms(3) by (auto simp: walk_spec_def split: if_splits)
  show ?thesis
    using assms(3) linked_consec[OF assms(2) l] linked_u64[OF assms(2) l]
    by (intro rpc_inv_extend[OF assms(1)]) (auto simp: walk_spec_def split: if_splits)
qed

lemma rpc_inv_reorg:
  assumes "rpc_inv n" "block_tree T" "walk_spec T n start (Reorg f old nc)"
  shows "rpc_inv ((reorg_view f nc n)\<lparr>last_emitted := last_opt nc\<rparr>)"
proof -
  obtain num h where w: "(num, h) \<in> set (chain_view n)" "f = Suc num" "linked T h nc"
    "fst (hd nc) = f" "nc \<noteq> []" using assms(3) by (auto simp: walk_spec_def)
  have ok: "view_ok (buffer_capacity n) (chain_view n)" using assms(1) by (simp add: rpc_inv_def)
  have lst: "last (pop_back_from f (chain_view n)) = (num, h)"
    using pop_back_from_last[OF ok w(1)] w(2) by simp
  let ?n = "n\<lparr>chain_view := pop_back_from f (chain_view n), last_emitted := Some (num, h)\<rparr>"
  have "rpc_inv ?n" using pop_back_from_ok[OF ok] assms(1) lst by (simp add: rpc_inv_def)
  then have "rpc_inv ((extend_view nc ?n)\<lparr>last_emitted := last_opt nc\<rparr>)"
    using w lst linked_consec[OF assms(2) w(3)] linked_u64[OF assms(2) w(3)]
    by (intro rpc_inv_extend) auto
  then show ?thesis by (simp add: rpc_inv_def reorg_view_def extend_view_def)
qed

lemma walk_with_fallback_sound:
  assumes "answers_from p T" "block_tree T" "rpc_inv n"
    and "walk_with_fallback p n hint w = (Ok r, w')"
  shows "\<exists>start. walk_spec T n start r"
proof -
  have ok: "view_ok (buffer_capacity n) (chain_view n)" using assms(3) by (simp add: rpc_inv_def)
  obtain start w0 where "walk_chain p n start w0 = (Ok r, w')"
    using assms(4)
    by (auto simp: walk_with_fallback_def
        split: prod.splits rresult.splits rpc_host_error.splits sum.splits option.splits)
  then show ?thesis using walk_chain_sound[OF assms(1,2) ok] by blast
qed

lemma rpc_inv_handle_new_head:
  assumes "answers_from p T" "block_tree T" "rpc_inv n"
    and h: "handle_new_head p c hdr n w = (r, n', w')"
  shows "rpc_inv n'"
proof -
  obtain res w1 where walk: "walk_with_fallback p n (rh_hash hdr) w = (res, w1)" by force
  show ?thesis
  proof (cases res)
    case (Ok k)
    then obtain start where spec: "walk_spec T n start k"
      using walk_with_fallback_sound[OF assms(1-3)] walk by blast
    show ?thesis
    proof (cases k)
      case (Advance nc)
      then show ?thesis
        using h walk Ok assms(3) rpc_inv_advance[OF assms(3,2)] spec
        by (auto simp: handle_new_head_def split: prod.splits rresult.splits dest: rpc_inv_finish)
    next
      case (Reorg f old nc)
      then show ?thesis
        using h walk Ok assms(3) rpc_inv_reorg[OF assms(3,2)] spec
        by (auto simp: handle_new_head_def Let_def split: prod.splits rresult.splits
            dest: rpc_inv_finish)
    qed (use h walk Ok assms(3) in \<open>auto simp: handle_new_head_def rpc_inv_def view_ok_def\<close>)
  qed (use h walk assms(3) in \<open>auto simp: handle_new_head_def\<close>)
qed

section \<open>Backfill\<close>

text \<open>The ways a call of \<open>drain_backfill\<close> can end.\<close>

lemma drain_backfill_cases:
  assumes d: "drain_backfill p c n w = (res, n', w')"
  obtains (idle) "backfill_from n = None" "res = None" "n' = n"
  | (complete) tip_num where "backfill_from n = Some (saturating_add tip_num 1)" "res = None"
      "n' = n\<lparr>backfill_from := None\<rparr>"
  | (failed) r where "res = Some r" "\<nexists>nt. r = Ok nt" "n' = n"
  | (broken) "res = Some (Err BackfillContinuityBreak)" "n' = n\<lparr>chain_view := []\<rparr>"
  | (batch) frm tip_num w1 bs w2 r n1 where
      "backfill_from n = Some frm" "get_block_number p w = (Inr tip_num, w1)"
      "frm < saturating_add tip_num 1"
      "fetch_range p c frm (backfill_to n frm tip_num) w1 = (Ok bs, w2)"
      "\<not> continuity_broken bs n"
      "n1 = after_batch bs (backfill_to n frm tip_num) (effective_ceiling n frm tip_num) n"
      "chain_view n' = chain_view n1" "last_emitted n' = last_emitted n1"
      "backfill_from n' = backfill_from n1" "buffer_capacity n' = buffer_capacity n1"
      "backfill_batch_size n' = backfill_batch_size n1" "res = Some r"
      "\<forall>nt. r = Ok nt \<longrightarrow> nt = \<lparr>kind = ChainCommitted (RpcChainSegment bs),
                                 safe_block_number = cached_safe n',
                                 finalized_block_number = cached_finalized n'\<rparr>"
proof (cases "backfill_from n")
  case None
  then show thesis using d by (intro idle) (auto simp: drain_backfill_def)
next
  case (Some frm)
  obtain tr w1 where tr: "get_block_number p w = (tr, w1)" by force
  show thesis
  proof (cases tr)
    case (Inl e)
    then show thesis using d Some tr by (intro failed) (auto simp: drain_backfill_def)
  next
    case (Inr tip_num)
    consider (eq) "frm = saturating_add tip_num 1" | (gt) "frm > saturating_add tip_num 1"
      | (lt) "frm < saturating_add tip_num 1" by linarith
    then show thesis
    proof cases
      case eq
      then show thesis using d Some tr Inr
        by (intro complete[of tip_num]) (auto simp: drain_backfill_def)
    next
      case gt
      then show thesis using d Some tr Inr
        by (intro failed[of "Err BackfillContinuityBreak"]) (auto simp: drain_backfill_def)
    next
      case lt
      define ceiling where "ceiling = effective_ceiling n frm tip_num"
      define tt where "tt = backfill_to n frm tip_num"
      obtain fr w2 where fr: "fetch_range p c frm tt w1 = (fr, w2)" by force
      show thesis
      proof (cases fr)
        case (Ok bs)
        show thesis
        proof (cases "continuity_broken bs n")
          case True
          then show thesis using d Some tr Inr lt fr Ok
            by (intro broken) (auto simp: drain_backfill_def Let_def tt_def)
        next
          case False
          define n1 where "n1 = after_batch bs tt ceiling n"
          define m where "m = (case last_opt bs of None \<Rightarrow> (Ok (), n1, w2)
            | Some lst \<Rightarrow> maybe_refresh_tags p (h_timestamp (rec_header (rblk_block lst))) n1 w2)"
          obtain mr n2 w3 where mr: "m = (mr, n2, w3)" by (metis prod_cases3)
          have frame: "chain_view n2 = chain_view n1" "last_emitted n2 = last_emitted n1"
            "backfill_from n2 = backfill_from n1" "buffer_capacity n2 = buffer_capacity n1"
            "backfill_batch_size n2 = backfill_batch_size n1"
            using mr by (auto simp: m_def split: option.splits dest: maybe_refresh_tags_frame)
          have eq: "drain_backfill p c n w =
              (case m of (Err e, n2, w3) \<Rightarrow> (Some (Err e), n2, w3)
               | (Panic, n2, w3) \<Rightarrow> (Some Panic, n2, w3)
               | (Ok _, n2, w3) \<Rightarrow>
                   (Some (Ok \<lparr>kind = ChainCommitted (RpcChainSegment bs),
                              safe_block_number = cached_safe n2,
                              finalized_block_number = cached_finalized n2\<rparr>), n2, w3))"
            using Some tr Inr lt fr[unfolded tt_def] Ok False
            unfolding m_def n1_def tt_def ceiling_def by (simp add: drain_backfill_def Let_def)
          then have "n' = n2" "\<exists>r. res = Some r \<and> (\<forall>nt. r = Ok nt \<longrightarrow>
              nt = \<lparr>kind = ChainCommitted (RpcChainSegment bs), safe_block_number = cached_safe n2,
                    finalized_block_number = cached_finalized n2\<rparr>)"
            using d mr by (auto split: rresult.splits)
          then show thesis
            using batch[OF Some _ lt _ False n1_def[unfolded tt_def ceiling_def]] tr Inr fr Ok frame
            by (auto simp: tt_def)
        qed
      qed (use d Some tr Inr lt fr in \<open>auto simp: drain_backfill_def Let_def tt_def intro: failed\<close>)
    qed
  qed
qed

text \<open>While the view is not empty, a pending backfill resumes right after it.\<close>

definition cursor_ok :: "rpc_host_notifier \<Rightarrow> bool" where
  "cursor_ok n \<longleftrightarrow>
     (\<forall>frm. backfill_from n = Some frm \<longrightarrow> chain_view n \<noteq> [] \<longrightarrow>
             frm = Suc (fst (last (chain_view n))))"

lemma backfill_to_exact:
  assumes "frm \<le> tip_num" "tip_num + backfill_batch_size n \<le> u64_max" "0 < backfill_batch_size n"
  shows "backfill_to n frm tip_num = min (effective_ceiling n frm tip_num) (frm + backfill_batch_size n - 1)"
  using assms by (simp add: backfill_to_def u64_simps)

lemma effective_ceiling_bounds:
  "frm \<le> tip_num \<Longrightarrow> frm \<le> effective_ceiling n frm tip_num \<and> effective_ceiling n frm tip_num \<le> tip_num"
  by (auto simp: effective_ceiling_def saturating_sub_def Let_def)

lemma backfill_to_bounds:
  assumes "frm \<le> tip_num" "tip_num + backfill_batch_size n \<le> u64_max" "0 < backfill_batch_size n"
  shows "frm \<le> backfill_to n frm tip_num" "backfill_to n frm tip_num \<le> tip_num"
  using effective_ceiling_bounds[OF assms(1), of n] assms
  by (auto simp: backfill_to_exact intro: min.coboundedI1)

lemma after_batch_facts:
  fixes bs :: "('tx, 'r) rpc_block list"
  assumes nums: "map RpcBlock_number bs = [frm..<Suc to]" and "frm \<le> to" "to \<le> u64_max"
    and "to \<ge> ceiling \<or> to < u64_max"
    and inv: "rpc_inv n" and cur: "backfill_from n = Some frm" "cursor_ok n"
  shows "rpc_inv (after_batch bs to ceiling n)" "cursor_ok (after_batch bs to ceiling n)"
    "last_emitted (after_batch bs to ceiling n) = Some (to, RpcBlock_hash (last bs))"
    "backfill_from (after_batch bs to ceiling n) = (if to \<ge> ceiling then None else Some (Suc to))"
proof -
  let ?es = "view_entries bs" and ?n = "after_batch bs to ceiling n"
  have fst_es: "map fst ?es = [frm..<Suc to]" using nums by (simp add: view_entries_def comp_def)
  then have ne: "?es \<noteq> []" using assms(2) by auto
  then have bs: "bs \<noteq> []" by (auto simp: view_entries_def)
  have lst: "last ?es = (to, RpcBlock_hash (last bs))"
  proof -
    have "fst (last ?es) = last (map fst ?es)" using ne by (simp add: last_map)
    then have "fst (last ?es) = to" using fst_es assms(2) by simp
    then show ?thesis using bs by (simp add: view_entries_def last_map)
  qed
  have hd1: "fst (hd ?es) = frm"
    using fst_es ne assms(2) by (metis hd_map hd_upt le_imp_less_Suc)
  have max: "list_all (\<lambda>e. fst e \<le> u64_max) ?es"
  proof -
    have "\<forall>k\<in>set (map fst ?es). k \<le> u64_max" using fst_es assms(2,3) by auto
    then show ?thesis by (auto simp: list_all_iff)
  qed
  have base: "rpc_inv ((extend_view ?es n)\<lparr>last_emitted := last_opt ?es\<rparr>)"
    using cur ne hd1 fst_es consec_upt[of frm "Suc to"] max
    by (intro rpc_inv_extend[OF inv ne]) (auto simp: cursor_ok_def)
  have eq: "?n = (extend_view ?es n)\<lparr>last_emitted := last_opt ?es,
      backfill_from := (if to \<ge> ceiling then None else Some (u64_add to 1))\<rparr>"
    using ne lst by (simp add: after_batch_def last_opt_def)
  have add: "(if to \<ge> ceiling then None else Some (u64_add to 1)) = (if to \<ge> ceiling then None else Some (Suc to))"
    using assms(4) by (auto simp: u64_simps)
  show "rpc_inv ?n" using base unfolding eq by (simp add: rpc_inv_def)
  show "last_emitted ?n = Some (to, RpcBlock_hash (last bs))"
    unfolding eq using ne lst by (simp add: last_opt_def)
  show "backfill_from ?n = (if to \<ge> ceiling then None else Some (Suc to))"
    unfolding eq using add by simp
  have "chain_view ?n \<noteq> [] \<longrightarrow> last (chain_view ?n) = (to, RpcBlock_hash (last bs))"
    using base ne lst unfolding eq by (auto simp: rpc_inv_def last_opt_def)
  then show "cursor_ok ?n" unfolding cursor_ok_def eq using add by auto
qed

end
