(* ===== verification/Rpc_Example.thy ===== *)
theory Rpc_Example
  imports Rpc_Follow
begin

text \<open>
  A concrete host chain and provider, on which the statements about the RPC notifier are
  instantiated. Hash 5 to 10 name the blocks with these numbers, hash 108 to 111 a fork of
  blocks 8 to 11 on top of block 7. The provider answers from this tree; its world holds
  the tip it reports.
\<close>

definition ex_header :: "u64 \<Rightarrow> b256 \<Rightarrow> b256 \<Rightarrow> header" where
  "ex_header k parent h =
     \<lparr>h_number = k, h_parent_hash = parent, h_timestamp = 12 * k, h_gas_limit = 30000000,
      h_gas_used = 0, h_base_fee_per_gas = None, h_rest = unat h\<rparr>"

definition ex_tree :: tree where
  "ex_tree h =
     (if 5 \<le> h \<and> h \<le> 10 then Some (ex_header (unat h) (h - 1) h)
      else if 108 \<le> h \<and> h \<le> 111
        then Some (ex_header (unat h - 100) (if h = 108 then 7 else h - 1) h)
      else None)"

definition ex_response :: "b256 \<Rightarrow> nat rpc_block_response option" where
  "ex_response h =
     map_option (\<lambda>bh. \<lparr>rb_header = \<lparr>rh_hash = h, rh_inner = bh\<rparr>, rb_transactions = []\<rparr>) (ex_tree h)"

fun ex_by_number ::
  "block_number_or_tag \<Rightarrow> (nat, nat rpc_block_response option) rpc_call" where
  "ex_by_number (Number k) w = (Inr (if 5 \<le> k \<and> k \<le> 10 then ex_response (of_nat k) else None), w)"
| "ex_by_number Latest w = (Inr (ex_response 10), w)"
| "ex_by_number _ w = (Inr (ex_response 5), w)"

definition ex_provider :: "(nat, nat, nat) provider" where
  "ex_provider =
     \<lparr>get_block_by_hash = (\<lambda>h w. (Inr (ex_response h), w)),
      get_block_by_number = ex_by_number,
      get_block_receipts = (\<lambda>i w. (Inr (Some []), w)),
      get_block_number = (\<lambda>w. (Inr (min w 10), w))\<rparr>"

definition ex_codecs :: "(nat, nat) codecs" where
  "ex_codecs =
     \<lparr>seal_hash = (\<lambda>bh. of_nat (h_rest bh)), into_signed = (\<lambda>t. t),
      into_primitives_receipt = (\<lambda>r. r)\<rparr>"

text \<open>A notifier that has delivered blocks 6, 7, 8 and 9.\<close>

definition ex_notifier :: rpc_host_notifier where
  "ex_notifier =
     (RpcHostNotifier_new 4 2 8 12 0)\<lparr>chain_view := [(6, 6), (7, 7), (8, 8), (9, 9)],
        last_emitted := Some (9, 9), head_set := True\<rparr>"

definition ex_head :: "b256 \<Rightarrow> rpc_header" where
  "ex_head h = (case ex_tree h of None \<Rightarrow> \<lparr>rh_hash = h, rh_inner = ex_header 0 0 h\<rparr>
                 | Some bh \<Rightarrow> \<lparr>rh_hash = h, rh_inner = bh\<rparr>)"

lemma ex_tree_block_tree: "block_tree ex_tree"
proof -
  have *: "h_number bh = (if unat h \<le> 10 then unat h else unat h - 100)" "h_parent_hash bh = (if h = 108 then 7 else h - 1)"
    "5 \<le> unat h \<and> unat h \<le> 10 \<or> 108 \<le> unat h \<and> unat h \<le> 111" if "ex_tree h = Some bh" for h bh
    using that by (auto simp: ex_tree_def ex_header_def word_le_nat_alt split: if_splits)
  have "h_number bh = Suc (h_number bp)"
    if h: "ex_tree h = Some bh" and p: "ex_tree (h_parent_hash bh) = Some bp" for h bh bp
  proof (cases "h = 108")
    case True
    then show ?thesis using *[OF h] *[OF p] by simp
  next
    case False
    then have hp: "h_parent_hash bh = h - 1" using *[OF h] by simp
    have "1 \<le> h" using *(3)[OF h] by (auto simp: word_le_nat_alt)
    then have "unat (h - 1) = unat h - 1" by (simp add: unat_sub)
    moreover have "unat h \<noteq> 108" using False by (simp add: word_unat_eq_iff)
    ultimately show ?thesis using *[OF h] *[OF p] hp by auto
  qed
  moreover have "h_number bh \<le> u64_max" if "ex_tree h = Some bh" for h bh
    using *[OF that] by (auto simp: u64_max_def)
  ultimately show ?thesis by (auto simp: block_tree_def)
qed

lemma ex_answers: "answers_from ex_provider ex_tree"
  by (auto simp: answers_from_def ex_provider_def ex_response_def split: option.splits)

lemma ex_sealed: "sealed ex_codecs ex_tree"
  by (auto simp: sealed_def ex_codecs_def ex_tree_def ex_header_def split: if_splits)

lemma ex_numbers: "numbers_ok ex_provider"
  by (auto simp: numbers_ok_def ex_provider_def ex_response_def ex_tree_def ex_header_def
      unat_of_nat word_le_nat_alt split: if_splits)

lemma ex_tips: "tips_below ex_provider 10"
  by (auto simp: tips_below_def ex_provider_def)

lemmas ex_defs = ex_provider_def ex_response_def ex_tree_def ex_header_def ex_codecs_def
  ex_notifier_def ex_head_def RpcHostNotifier_new_def

end
