(* ===== verification/Rpc_Safety.thy ===== *)
theory Rpc_Safety
  imports Rpc_Example
begin

text \<open>
  The guarantees of the RPC notifier over whole calls, and where they end.
\<close>

section \<open>The invariant over a whole call\<close>

definition notifier_inv :: "rpc_host_notifier \<Rightarrow> bool" where
  "notifier_inv n \<longleftrightarrow> rpc_inv n \<and> cursor_ok n"

lemma head_backfill:
  assumes "backfill_from n = None" "handle_new_head p c hdr n w = (r, n', w')"
  shows "(backfill_from n' = None \<or> chain_view n' = [])
       \<and> backfill_batch_size n' = backfill_batch_size n \<and> buffer_capacity n' = buffer_capacity n"
proof -
  have fin: "finish_head p ts k m v = (r, m', v') \<Longrightarrow>
      backfill_from m' = backfill_from m \<and> backfill_batch_size m' = backfill_batch_size m
      \<and> buffer_capacity m' = buffer_capacity m"
    for ts k m v r m' v'
  proof -
    assume a: "finish_head p ts k m v = (r, m', v')"
    obtain r' n1 w1 where m: "maybe_refresh_tags p ts m v = (r', n1, w1)" by (metis prod_cases3)
    have "m' = n1" using a by (simp add: finish_head_def m split: rresult.splits)
    then show ?thesis using maybe_refresh_tags_frame[OF m] by simp
  qed
  obtain res w1 where walk: "walk_with_fallback p n (rh_hash hdr) w = (res, w1)" by force
  show ?thesis
  proof (cases res)
    case (Ok k)
    show ?thesis
      using assms walk Ok
      by (cases k) (auto simp: handle_new_head_def Let_def extend_view_def reorg_view_def
          split: prod.splits rresult.splits dest!: fin)
  qed (use assms walk in \<open>auto simp: handle_new_head_def\<close>)
qed

lemma drain_inv:
  assumes prov: "numbers_ok p" "tips_below p B" "B + backfill_batch_size n \<le> u64_max"
    and inv: "notifier_inv n" and d: "drain_backfill p c n w = (r, n', w')"
  shows "notifier_inv n' \<and> backfill_batch_size n' = backfill_batch_size n
       \<and> (r = None \<longrightarrow> backfill_from n' = None)"
  using d
proof (cases rule: drain_backfill_cases)
  case (batch frm tip_num w1 bs w2 r n1)
  have i: "rpc_inv n" "cursor_ok n" using inv by (simp_all add: notifier_inv_def)
  have tp: "tip_num \<le> B" using prov(2) batch(2) by (auto simp: tips_below_def)
  then have le: "frm \<le> tip_num" using batch(3) by (simp add: saturating_add_def)
  have sz: "tip_num + backfill_batch_size n \<le> u64_max" using prov(3) tp by simp
  have pos: "0 < backfill_batch_size n" using i by (simp add: rpc_inv_def)
  let ?to = "backfill_to n frm tip_num"
  have to: "frm \<le> ?to" "?to \<le> tip_num" using backfill_to_bounds[OF le sz pos] by simp_all
  have nums: "map RpcBlock_number bs = [frm..<Suc ?to]"
    using fetch_range_sound[OF prov(1) batch(4)] .
  have small: "?to < u64_max" using to sz pos by simp
  then have af: "rpc_inv n1" "cursor_ok n1"
    using after_batch_facts[OF nums to(1) _ _ i(1) batch(1) i(2), of "effective_ceiling n frm tip_num"]
    by (simp_all add: batch(6))
  then have "rpc_inv n'" using rpc_inv_frame[OF batch(7,8,10,11)] by simp
  moreover have "cursor_ok n'" using af(2) batch(7,9) by (simp add: cursor_ok_def)
  moreover have "backfill_batch_size n1 = backfill_batch_size n"
    by (simp add: batch(6) after_batch_def Let_def extend_view_def split: option.split)
  ultimately show ?thesis using batch(11,12) by (simp add: notifier_inv_def)
qed (use inv in \<open>auto simp: notifier_inv_def rpc_inv_def cursor_ok_def view_ok_def\<close>)

text \<open>
  C8: whatever the provider answers (errors and missing blocks included) and however long
  the call follows the subscription, \<^verbatim>\<open>next_notification\<close> keeps the notifier's invariant:
  the chain view is a contiguous window of at most \<^verbatim>\<open>buffer_capacity\<close> blocks that ends at
  the last delivered block, and a pending backfill resumes right behind it.
\<close>

theorem next_notification_invariant:
  assumes "answers_from p T" "block_tree T" "numbers_ok p" "tips_below p B"
    and "B + backfill_batch_size n \<le> u64_max" "notifier_inv n"
    and "next_notification p c n s w = (r, n', s', w')"
  shows "notifier_inv n'"
  using assms(5-7)
proof (induction "length s" arbitrary: n s w rule: less_induct)
  case less
  obtain dr n1 w1 where d: "drain_backfill p c n w = (dr, n1, w1)" by (metis prod_cases3)
  have i1: "notifier_inv n1" "backfill_batch_size n1 = backfill_batch_size n"
    "dr = None \<longrightarrow> backfill_from n1 = None"
    using drain_inv[OF assms(3,4) less.prems(1,2) d] by simp_all
  obtain h s1 where h: "latest_next s = (h, s1)" by force
  show ?case
  proof (cases "dr = None \<and> h \<noteq> None")
    case False
    then have "n' = n1"
      using less.prems(3) d h by (subst (asm) next_notification.simps) (auto split: option.splits)
    then show ?thesis using i1 by simp
  next
    case True
    then obtain hdr where hdr: "h = Some hdr" and dr: "dr = None" by blast
    obtain hr n2 w2 where hh: "handle_new_head p c hdr n1 w1 = (hr, n2, w2)" by (metis prod_cases3)
    have i2: "notifier_inv n2" "backfill_batch_size n2 = backfill_batch_size n"
      using rpc_inv_handle_new_head[OF assms(1,2) _ hh] head_backfill[OF _ hh] i1 dr
      by (auto simp: notifier_inv_def cursor_ok_def)
    show ?thesis
    proof (cases "hr = Ok None")
      case True
      then have eq: "next_notification p c n2 s1 w2 = (r, n', s', w')"
        using less.prems(3) d dr h hdr hh by (subst (asm) next_notification.simps) simp
      have "length s1 < length s" using latest_next_shrinks h hdr by fastforce
      then show ?thesis using less.hyps[OF _ _ i2(1) eq] i2(2) less.prems(1) by simp
    next
      case False
      then have "n' = n2"
        using less.prems(3) d dr h hdr hh
        by (subst (asm) next_notification.simps) (auto split: option.splits rresult.splits)
      then show ?thesis using i2 by simp
    qed
  qed
qed

lemma ex_notifier_inv: "notifier_inv ex_notifier"
  by (simp add: notifier_inv_def rpc_inv_def cursor_ok_def view_ok_def ex_notifier_def
      RpcHostNotifier_new_def u64_max_def)

theorem next_notification_invariant_witness:
  "notifier_inv (fst (snd (next_notification ex_provider ex_codecs ex_notifier
     [Item (ex_head 10), Pend, Item (ex_head 111)] 10)))"
proof -
  obtain r n' s' w' where
    "next_notification ex_provider ex_codecs ex_notifier
       [Item (ex_head 10), Pend, Item (ex_head 111)] 10 = (r, n', s', w')"
    by (metis prod_cases4)
  moreover have "10 + backfill_batch_size ex_notifier \<le> u64_max"
    by (simp add: ex_notifier_def RpcHostNotifier_new_def u64_max_def)
  ultimately show ?thesis
    using next_notification_invariant[OF ex_answers ex_tree_block_tree ex_numbers ex_tips _ ex_notifier_inv]
    by simp
qed

section \<open>The walk finds the fork point\<close>

text \<open>A provider that serves the tree without failing.\<close>

definition serves :: "('w, 'tx, 'r) provider \<Rightarrow> tree \<Rightarrow> bool" where
  "serves p T \<longleftrightarrow>
     (\<forall>h bh w. T h = Some bh \<longrightarrow>
        (\<exists>b w'. get_block_by_hash p h w = (Inr (Some b), w') \<and> rh_inner (rb_header b) = bh))"

lemma walk_loop_path:
  assumes srv: "serves p T" and tree: "block_tree T"
    and ok: "view_ok (buffer_capacity n) (chain_view n)"
    and mem: "(num, h) \<in> set (chain_view n)" and Th: "T h = Some bh0" "h_number bh0 = num"
  shows "linked T h nc \<Longrightarrow> (\<forall>e\<in>set nc. e \<notin> set (chain_view n)) \<Longrightarrow>
     length nc + length walked \<le> buffer_capacity n \<Longrightarrow> nc @ rev walked \<noteq> [] \<Longrightarrow>
     \<exists>w'. walk_loop p n (if nc = [] then h else snd (last nc)) walked w =
       (Ok (if num = fst (last (chain_view n)) then Advance (nc @ rev walked)
            else Reorg (Suc num) (fst (last (chain_view n))) (nc @ rev walked)), w')"
proof (induction nc arbitrary: walked w rule: rev_induct)
  case Nil
  obtain b w1 where b: "get_block_by_hash p h w = (Inr (Some b), w1)" "rh_inner (rb_header b) = bh0"
    using srv Th(1) by (meson serves_def)
  have ne: "chain_view n \<noteq> []" using mem by auto
  have le: "num \<le> fst (last (chain_view n))" using view_ok_le_last[OF ok mem] .
  have vh: "view_hash n num = Some h" using view_hash_iff[OF ok] mem by simp
  have tp: "tip n = Some (last (chain_view n))" using ne by (simp add: tip_def last_opt_def)
  have "walk_decide n num h (walked @ [(num, h)]) =
      Some (if num = fst (last (chain_view n)) then Advance (rev walked)
            else Reorg (Suc num) (fst (last (chain_view n))) (rev walked))"
    using vh tp Nil.prems(4) le view_ok_last_max[OF ok ne]
    by (simp add: walk_decide_def Let_def split_beta u64_simps)
  then show ?case using b Th(2) by (subst walk_loop.simps) (simp add: Let_def)
next
  case (snoc e nc)
  obtain k x where e: "e = (k, x)" by force
  have l: "linked T h nc" "linked T (if nc = [] then h else snd (last nc)) [(k, x)]"
    using snoc.prems(1) e by (simp_all add: linked_append)
  then obtain bx where bx: "T x = Some bx" "h_number bx = k"
    "h_parent_hash bx = (if nc = [] then h else snd (last nc))"
    by (auto split: option.splits)
  obtain b w1 where b: "get_block_by_hash p x w = (Inr (Some b), w1)" "rh_inner (rb_header b) = bx"
    using srv bx(1) by (meson serves_def)
  have ne: "chain_view n \<noteq> []" using mem by auto
  obtain f g where fr: "first_opt (chain_view n) = Some (f, g)" "hd (chain_view n) = (f, g)"
    using ne by (cases "chain_view n") auto
  have gt: "num < k"
  proof -
    have cs: "consec (map fst (nc @ [e]))" by (rule linked_consec[OF tree snoc.prems(1)])
    have first: "fst (hd (nc @ [e])) = Suc num"
      using linked_first_number[OF tree snoc.prems(1) _ Th(1)] Th(2) by simp
    have "last (map fst (nc @ [e])) = hd (map fst (nc @ [e])) + length nc"
      using consec_last[OF cs] by simp
    then show ?thesis using first e by (cases nc) simp_all
  qed
  have "f \<le> num"
  proof -
    obtain v where v: "chain_view n = (f, g) # v" using fr by (cases "chain_view n") auto
    have "sorted (map fst (chain_view n))" using consec_sorted view_ok_consec[OF ok] by blast
    then show ?thesis using v mem by auto
  qed
  then have nf: "\<not> k < f" using gt by simp
  have vh: "view_hash n k \<noteq> Some x" using view_hash_iff[OF ok] snoc.prems(2) e by simp
  have len: "\<not> length (walked @ [(k, x)]) > buffer_capacity n" using snoc.prems(3) by simp
  have "walk_decide n k x (walked @ [(k, x)]) = None"
    using vh nf len ne fr by (auto simp: walk_decide_def Let_def split: option.splits)
  then have "walk_loop p n x walked w =
      walk_loop p n (if nc = [] then h else snd (last nc)) (walked @ [(k, x)]) w1"
    using b bx by (subst walk_loop.simps) (simp add: Let_def)
  then show ?case
    using snoc.IH[OF l(1), of "walked @ [(k, x)]" w1] snoc.prems(2,3) e
    by (cases "nc = []"; cases "num = fst (last (chain_view n))") simp_all
qed

text \<open>
  C10: against a provider that serves the tree, if the hinted block descends from a block of the
  view by a path of at most \<^verbatim>\<open>buffer_capacity\<close> blocks outside the view, \<^verbatim>\<open>walk_chain\<close> returns exactly that path,
  as an advance when it starts at the tip and as a reorg of the numbers behind the fork
  point otherwise; it never gives up with \<^verbatim>\<open>Exhausted\<close>.
\<close>

theorem walk_chain_complete:
  assumes "serves p T" "block_tree T" "view_ok (buffer_capacity n) (chain_view n)"
    and "(num, h) \<in> set (chain_view n)" "T h = Some bh" "h_number bh = num"
    and "linked T h nc" "nc \<noteq> []" "\<forall>(k, x)\<in>set nc. x \<notin> snd ` set (chain_view n)"
    and "length nc \<le> buffer_capacity n"
  shows "\<exists>w'. walk_chain p n (snd (last nc)) w =
    (Ok (if num = fst (last (chain_view n)) then Advance nc
         else Reorg (num + 1) (fst (last (chain_view n))) nc), w')"
proof -
  have "chain_view n \<noteq> []" using assms(4) by auto
  then have tp: "tip n = Some (last (chain_view n))" by (simp add: tip_def last_opt_def)
  have "last nc \<in> set nc" using assms(8) by simp
  then have "snd (last nc) \<notin> snd ` set (chain_view n)" using assms(9) by (auto simp: split_beta)
  then have "snd (last (chain_view n)) \<noteq> snd (last nc)"
    using \<open>chain_view n \<noteq> []\<close> by (metis image_eqI last_in_set)
  then have "walk_chain p n (snd (last nc)) w = walk_loop p n (snd (last nc)) [] w"
    using tp by (simp add: walk_chain_def split_beta)
  moreover have "\<forall>e\<in>set nc. e \<notin> set (chain_view n)" using assms(9) by force
  ultimately show ?thesis
    using walk_loop_path[OF assms(1-7), of "[]" w] assms(8,10)
    by (cases "num = fst (last (chain_view n))") simp_all
qed

theorem walk_chain_complete_witness:
  "\<exists>w'. walk_chain ex_provider ex_notifier 110 3 = (Ok (Reorg 8 9 [(8, 108), (9, 109), (10, 110)]), w')"
proof -
  have s: "serves ex_provider ex_tree"
    by (auto simp: serves_def ex_provider_def ex_response_def split: option.splits)
  have v: "view_ok (buffer_capacity ex_notifier) (chain_view ex_notifier)"
    using ex_notifier_inv by (simp add: notifier_inv_def rpc_inv_def)
  have l: "linked ex_tree 7 [(8, 108), (9, 109), (10, 110)]"
    by (simp add: ex_tree_def ex_header_def)
  show ?thesis
    using walk_chain_complete[OF s ex_tree_block_tree v _ _ _ l, of 7 "ex_header 7 6 7" 3]
    by (simp add: ex_notifier_def RpcHostNotifier_new_def ex_tree_def ex_header_def)
qed

section \<open>Continuity of the emitted notifications\<close>

text \<open>What a notification for a new head has to satisfy.\<close>

definition head_notification_ok ::
  "rpc_host_notifier \<Rightarrow> rpc_host_notifier \<Rightarrow> ('tx, 'r) rpc_notification \<Rightarrow> bool" where
  "head_notification_ok n n' nt \<longleftrightarrow>
     (case kind nt of
        ChainCommitted seg \<Rightarrow>
          seg_blocks seg \<noteq> [] \<and> last_emitted n' = last_opt (view_entries (seg_blocks seg)) \<and>
          (\<exists>h. blocks_linked h (seg_blocks seg)) \<and>
          (\<forall>num h. chain_view n \<noteq> [] \<longrightarrow> last_emitted n = Some (num, h) \<longrightarrow>
             blocks_linked h (seg_blocks seg) \<and> RpcBlock_number (hd (seg_blocks seg)) = Suc num)
      | ChainReorged old seg \<Rightarrow>
          seg_blocks seg \<noteq> [] \<and> last_emitted n' = last_opt (view_entries (seg_blocks seg)) \<and>
          (\<exists>num h. (num, h) \<in> set (chain_view n) \<and> old = \<lparr>rr_first = Suc num, rr_tip = fst (last (chain_view n))\<rparr>
             \<and> blocks_linked h (seg_blocks seg) \<and> RpcBlock_number (hd (seg_blocks seg)) = Suc num)
      | ChainReverted old \<Rightarrow> False)
     \<and> safe_block_number nt = cached_safe n' \<and> finalized_block_number nt = cached_finalized n'"

lemma finish_head_Ok:
  assumes "finish_head p ts k n w = (Ok (Some nt), n', w')"
  shows "kind nt = k \<and> last_emitted n' = last_emitted n \<and> chain_view n' = chain_view n
       \<and> safe_block_number nt = cached_safe n' \<and> finalized_block_number nt = cached_finalized n'"
proof -
  obtain r1 n1 w1 where m: "maybe_refresh_tags p ts n w = (r1, n1, w1)" by (metis prod_cases3)
  show ?thesis
    using assms maybe_refresh_tags_frame[OF m] by (auto simp: finish_head_def m split: rresult.splits)
qed

lemma view_entries_facts:
  "view_entries bs = nc \<Longrightarrow> nc \<noteq> [] \<Longrightarrow> bs \<noteq> [] \<and> RpcBlock_number (hd bs) = fst (hd nc)"
  by (cases bs) (auto simp: view_entries_def)

text \<open>
  C11: while the chain view is not empty, a notification produced for a new head continues what
  was delivered: a commit is a linked chain on top of the last delivered block; a reorg names
  exactly the delivered numbers behind a block of the view and carries a linked chain on top of that
  block. With an empty view (before the first block, and after an exhausted walk) only a commit can
  be produced; it is a linked chain too, but nothing ties it to the last delivered block
  (\<open>exhaustion_skips_continuity\<close> shows what comes of that). In all cases the last block of the
  segment becomes the last delivered block, and the tags are the cached ones. A bare revert is
  never produced.
\<close>

theorem head_notification_continuous:
  fixes p :: "('w, 'tx, 'r) provider"
  assumes "answers_from p T" "block_tree T" "sealed c T" "notifier_inv n"
    and h: "handle_new_head p c hdr n w = (Ok (Some nt), n', w')"
  shows "head_notification_ok n n' nt"
proof -
  have inv: "rpc_inv n" using assms(4) by (simp add: notifier_inv_def)
  then have le: "chain_view n \<noteq> [] \<Longrightarrow> last_emitted n = Some (last (chain_view n))"
    by (simp add: rpc_inv_def)
  obtain res w1 where walk: "walk_with_fallback p n (rh_hash hdr) w = (res, w1)" by force
  then obtain k where k: "res = Ok k" using h by (cases res) (auto simp: handle_new_head_def)
  obtain start where spec: "walk_spec T n start k"
    using walk_with_fallback_sound[OF assms(1,2) inv] walk k by blast
  show ?thesis
  proof (cases k)
    case (Advance nc)
    obtain pr where l: "linked T pr nc" "nc \<noteq> []"
      and cont: "chain_view n \<noteq> [] \<Longrightarrow> pr = snd (last (chain_view n)) \<and> fst (hd nc) = Suc (fst (last (chain_view n)))"
      using spec Advance by (auto simp: walk_spec_def split: if_splits)
    obtain bs w2 where bs: "fetch_blocks_by_hash p c nc w1 = (Ok bs, w2)"
      and fin: "finish_head p (h_timestamp (rh_inner hdr)) (ChainCommitted (RpcChainSegment bs))
         ((extend_view nc n)\<lparr>last_emitted := last_opt nc\<rparr>) w2 = (Ok (Some nt), n', w')"
      using h walk k Advance by (auto simp: handle_new_head_def split: prod.splits rresult.splits)
    note s = fetch_blocks_by_hash_sound[OF assms(1,3) bs l(1)]
    show ?thesis
      using finish_head_Ok[OF fin] s cont le view_entries_facts[OF conjunct1[OF s] l(2)]
      by (auto simp: head_notification_ok_def)
  next
    case (Reorg f old nc)
    obtain num hh where r: "(num, hh) \<in> set (chain_view n)" "f = Suc num" "num < old"
      "old = fst (last (chain_view n))" "linked T hh nc" "fst (hd nc) = f" "nc \<noteq> []"
      using spec Reorg by (auto simp: walk_spec_def)
    have rr: "(RevertRange_new f old :: (revert_range, rpc_host_error) rresult) =
        Ok \<lparr>rr_first = f, rr_tip = old\<rparr>"
      using r by (intro RevertRange_new_Ok) auto
    obtain bs w2 where bs: "fetch_blocks_by_hash p c nc w1 = (Ok bs, w2)"
      and fin: "finish_head p (h_timestamp (rh_inner hdr))
         (ChainReorged \<lparr>rr_first = f, rr_tip = old\<rparr> (RpcChainSegment bs))
         ((reorg_view f nc n)\<lparr>last_emitted := last_opt nc\<rparr>) w2 = (Ok (Some nt), n', w')"
      using h walk k Reorg rr
      by (auto simp: handle_new_head_def Let_def split: prod.splits rresult.splits)
    note s = fetch_blocks_by_hash_sound[OF assms(1,3) bs r(5)]
    show ?thesis
      using finish_head_Ok[OF fin] s r view_entries_facts[OF conjunct1[OF s] r(7)]
      by (auto simp: head_notification_ok_def)
  qed (use h walk k in \<open>auto simp: handle_new_head_def\<close>)
qed

theorem head_notification_continuous_witness:
  "\<exists>n' nt w'. handle_new_head ex_provider ex_codecs (ex_head 109) ex_notifier 3 = (Ok (Some nt), n', w')
     \<and> head_notification_ok ex_notifier n' nt"
proof -
  have "walk_chain ex_provider ex_notifier 109 3 = (Ok (Reorg 8 9 [(8, 108), (9, 109)]), 3)"
    by (simp add: walk_chain_def tip_def last_opt_def walk_loop.simps walk_decide_def view_hash_def
        first_opt_def nth_opt_def checked_sub_def ex_defs u64_simps u64_max_def)
  then have "\<exists>n' nt w'. handle_new_head ex_provider ex_codecs (ex_head 109) ex_notifier 3 = (Ok (Some nt), n', w')"
    by (simp add: handle_new_head_def walk_with_fallback_def ex_head_def ex_defs
        fetch_block_by_hash_def convert_rpc_block_def rres_simps RevertRange_new_def
        finish_head_def maybe_refresh_tags_def epoch_of_def reorg_view_def extend_view_def
        u64_mul_def SLOTS_PER_EPOCH_def)
  then show ?thesis
    using head_notification_continuous[OF ex_answers ex_tree_block_tree ex_sealed ex_notifier_inv] by blast
qed

end
