(* ===== verification/Rpc_Backfill.thy ===== *)
theory Rpc_Backfill
  imports Rpc_Safety
begin

text \<open>
  Backfill: what one batch delivers, that repeated batches deliver every block up to the
  ceiling exactly once and in order, and the situations in which blocks get lost.
\<close>

section \<open>One batch\<close>

text \<open>
  C9: a batch that \<^verbatim>\<open>drain_backfill\<close> delivers is the consecutive blocks from the pending
  position on, at most \<^verbatim>\<open>backfill_batch_size\<close> of them and at least one; its first block
  names the last delivered block as parent; the last one becomes the last delivered block
  and backfill ends or resumes right behind it.
\<close>

theorem drain_backfill_delivers:
  assumes "numbers_ok p" "tips_below p B" "B + backfill_batch_size n \<le> u64_max"
    and "notifier_inv n" and d: "drain_backfill p c n w = (Some (Ok nt), n', w')"
  shows "\<exists>frm to bs. backfill_from n = Some frm \<and> kind nt = ChainCommitted (RpcChainSegment bs)
    \<and> frm \<le> to \<and> to \<le> B \<and> map RpcBlock_number bs = [frm..<Suc to] \<and> length bs \<le> backfill_batch_size n
    \<and> (\<forall>k h. last_emitted n = Some (k, h) \<longrightarrow> RpcBlock_parent_hash (hd bs) = h)
    \<and> last_emitted n' = Some (to, RpcBlock_hash (last bs))
    \<and> (backfill_from n' = None \<or> backfill_from n' = Some (Suc to))"
  using d
proof (cases rule: drain_backfill_cases)
  case (batch frm tip_num w1 bs w2 r n1)
  have i: "rpc_inv n" "cursor_ok n" using assms(4) by (simp_all add: notifier_inv_def)
  have tp: "tip_num \<le> B" using assms(2) batch(2) by (auto simp: tips_below_def)
  have le: "frm \<le> tip_num" using batch(3) by (simp add: saturating_add_def)
  have sz: "tip_num + backfill_batch_size n \<le> u64_max" using assms(3) tp by simp
  have pos: "0 < backfill_batch_size n" using i by (simp add: rpc_inv_def)
  define to where "to = backfill_to n frm tip_num"
  have to: "frm \<le> to" "to \<le> tip_num" "to \<le> frm + backfill_batch_size n - 1"
    using backfill_to_bounds[OF le sz pos] backfill_to_exact[OF le sz pos] by (simp_all add: to_def)
  have nums: "map RpcBlock_number bs = [frm..<Suc to]"
    using fetch_range_sound[OF assms(1) batch(4)] by (simp add: to_def)
  have len: "length bs = Suc to - frm" by (metis length_map length_upt nums)
  then have bs: "bs \<noteq> []" "length bs = Suc to - frm" using to by auto
  note af = after_batch_facts[OF nums to(1) _ _ i(1) batch(1) i(2), of "effective_ceiling n frm tip_num"]
  have "RpcBlock_parent_hash (hd bs) = h" if "last_emitted n = Some (k, h)" for k h
    using batch(5) bs(1) that by (cases bs) (auto simp: continuity_broken_def)
  moreover have "kind nt = ChainCommitted (RpcChainSegment bs)"
  proof -
    have "r = Ok nt" using batch(12) by simp
    then show ?thesis using batch(13) by simp
  qed
  moreover have "last_emitted n' = Some (to, RpcBlock_hash (last bs))"
    "backfill_from n' = None \<or> backfill_from n' = Some (Suc to)"
    using af(3,4) to sz pos batch(6-9) by (simp_all add: to_def)
  ultimately show ?thesis using batch(1) nums to bs tp pos
    by (intro exI[of _ frm] exI[of _ to] exI[of _ bs]) auto
qed auto

theorem drain_backfill_delivers_witness:
  "\<exists>nt n' w' frm to bs. drain_backfill ex_provider ex_codecs (rpc_set_head 9 (RpcHostNotifier_new 4 2 8 12 0)) 10
       = (Some (Ok nt), n', w')
     \<and> kind nt = ChainCommitted (RpcChainSegment bs) \<and> map RpcBlock_number bs = [frm..<Suc to] \<and> frm \<le> to"
proof -
  let ?n = "rpc_set_head 9 (RpcHostNotifier_new 4 2 8 12 0)"
  have inv: "notifier_inv ?n"
    by (simp add: notifier_inv_def rpc_inv_new rpc_inv_set_head cursor_ok_def rpc_set_head_def
        RpcHostNotifier_new_def rpc_inv_def)
  have sz: "10 + backfill_batch_size ?n \<le> u64_max"
    by (simp add: rpc_set_head_def RpcHostNotifier_new_def u64_max_def)
  have run: "\<exists>nt n' w'. drain_backfill ex_provider ex_codecs ?n 10 = (Some (Ok nt), n', w')"
    by (simp add: drain_backfill_def rpc_set_head_def RpcHostNotifier_new_def ex_provider_def
        ex_response_def ex_tree_def ex_header_def effective_ceiling_def backfill_to_def
        saturating_add_def saturating_sub_def u64_add_def u64_sub_def fetch_range_def
        fetch_block_by_number_def convert_rpc_block_def rres_simps continuity_broken_def
        last_opt_def maybe_refresh_tags_def epoch_of_def after_batch_def extend_view_def
        u64_mul_def SLOTS_PER_EPOCH_def u64_max_def Let_def view_entries_def upt_rec)
  then show ?thesis
    using drain_backfill_delivers[OF ex_numbers ex_tips sz inv] by blast
qed

section \<open>A whole backfill\<close>

text \<open>
  A provider without failures whose tip stays at \<open>tip_num\<close> and whose canonical blocks are
  \<open>H 0, H 1, \<dots>\<close>.
\<close>

definition steady :: "('w, 'tx, 'r) provider \<Rightarrow> ('tx, 'r) codecs \<Rightarrow> (u64 \<Rightarrow> header) \<Rightarrow> u64 \<Rightarrow> u64 \<Rightarrow> bool" where
  "steady p c H low tip_num \<longleftrightarrow>
     (\<forall>w. \<exists>w'. get_block_number p w = (Inr tip_num, w'))
     \<and> (\<forall>k w. low \<le> k \<longrightarrow> k \<le> tip_num \<longrightarrow>
          (\<exists>b w'. get_block_by_number p (Number k) w = (Inr (Some b), w') \<and> rh_inner (rb_header b) = H k))
     \<and> (\<forall>i w. \<exists>r w'. get_block_receipts p i w = (Inr r, w'))
     \<and> (\<forall>t w. t \<in> {Safe, Finalized} \<longrightarrow> (\<exists>r w'. get_block_by_number p t w = (Inr r, w')))
     \<and> (\<forall>k. low \<le> k \<and> k \<le> tip_num \<longrightarrow> h_number (H k) = k)
     \<and> (\<forall>k. low \<le> k \<and> k < tip_num \<longrightarrow> h_parent_hash (H (Suc k)) = seal_hash c (H k))"

lemma steady_tip: "steady p c H low tip_num \<Longrightarrow> \<exists>w'. get_block_number p w = (Inr tip_num, w')"
  by (simp add: steady_def)

lemma steady_tag:
  "steady p c H low tip_num \<Longrightarrow> t = Safe \<or> t = Finalized \<Longrightarrow> \<exists>r w'. get_block_by_number p t w = (Inr r, w')"
  by (auto simp: steady_def)

text \<open>Calls of \<open>drain_backfill\<close> until it has nothing left, with the segments delivered.\<close>

fun backfill_run ::
  "nat \<Rightarrow> ('w, 'tx, 'r) provider \<Rightarrow> ('tx, 'r) codecs \<Rightarrow> rpc_host_notifier \<Rightarrow> 'w
     \<Rightarrow> (('tx, 'r) rpc_notification list \<times> rpc_host_notifier \<times> 'w) option" where
  "backfill_run 0 p c n w = None"
| "backfill_run (Suc fuel) p c n w =
     (case drain_backfill p c n w of
        (None, n1, w1) \<Rightarrow> Some ([], n1, w1)
      | (Some (Ok nt), n1, w1) \<Rightarrow>
          map_option (\<lambda>(nts, n2, w2). (nt # nts, n2, w2)) (backfill_run fuel p c n1 w1)
      | (Some _, n1, w1) \<Rightarrow> None)"

definition notification_numbers :: "('tx, 'r) rpc_notification \<Rightarrow> u64 list" where
  "notification_numbers nt =
     (case committed_chain nt of None \<Rightarrow> [] | Some seg \<Rightarrow> map RpcBlock_number (seg_blocks seg))"

lemma steady_fetch_one:
  assumes "steady p c H low tip_num" "low \<le> k" "k \<le> tip_num"
  shows "\<exists>b w'. fetch_block_by_number p c k w = (Ok b, w') \<and> RpcBlock_number b = k
           \<and> RpcBlock_hash b = seal_hash c (H k) \<and> RpcBlock_parent_hash b = h_parent_hash (H k)"
proof -
  obtain b w1 where b: "get_block_by_number p (Number k) w = (Inr (Some b), w1)" "rh_inner (rb_header b) = H k"
    using assms unfolding steady_def by meson
  obtain r w2 where r: "get_block_receipts p (BlockId_Number (Number k)) w1 = (Inr r, w2)"
    using assms(1) unfolding steady_def by meson
  have "h_number (H k) = k" using assms unfolding steady_def by blast
  then show ?thesis
    using b r by (simp add: fetch_block_by_number_def convert_rpc_block_def block_accessors)
qed

lemma steady_fetch_numbers:
  assumes "steady p c H low tip_num"
  shows "\<forall>k\<in>set nums. low \<le> k \<and> k \<le> tip_num \<Longrightarrow>
    \<exists>bs w'. fetch_numbers p c nums w = (Ok bs, w') \<and> map RpcBlock_number bs = nums
      \<and> map RpcBlock_hash bs = map (\<lambda>k. seal_hash c (H k)) nums
      \<and> map RpcBlock_parent_hash bs = map (\<lambda>k. h_parent_hash (H k)) nums"
proof (induction nums arbitrary: w)
  case (Cons k nums)
  then have k: "low \<le> k" "k \<le> tip_num" by simp_all
  obtain b w1 where b: "fetch_block_by_number p c k w = (Ok b, w1)" "RpcBlock_number b = k"
    "RpcBlock_hash b = seal_hash c (H k)" "RpcBlock_parent_hash b = h_parent_hash (H k)"
    using steady_fetch_one[OF assms k, of w] by blast
  obtain bs w2 where "fetch_numbers p c nums w1 = (Ok bs, w2)" "map RpcBlock_number bs = nums"
    "map RpcBlock_hash bs = map (\<lambda>k. seal_hash c (H k)) nums"
    "map RpcBlock_parent_hash bs = map (\<lambda>k. h_parent_hash (H k)) nums"
    using Cons.IH[of w1] Cons.prems by auto
  then show ?case using b by (simp add: rres_simps)
qed simp

lemma tags_refreshed:
  assumes "\<forall>t v. t = Safe \<or> t = Finalized \<longrightarrow> (\<exists>r v'. get_block_by_number p t v = (Inr r, v'))"
    and "u64_mul (slot_seconds n) SLOTS_PER_EPOCH \<noteq> 0"
  shows "\<exists>n' w'. maybe_refresh_tags p ts n w = (Ok (), n', w') \<and> slot_seconds n' = slot_seconds n"
proof -
  obtain r w1 where r: "get_block_by_number p Safe w = (Inr r, w1)" using assms(1) by blast
  obtain q w2 where q: "get_block_by_number p Finalized w1 = (Inr q, w2)" using assms(1) by blast
  show ?thesis using assms(2) r q by (simp add: maybe_refresh_tags_def epoch_of_def Let_def)
qed

lemma after_batch_last:
  assumes "bs \<noteq> []"
  shows "last_emitted (after_batch bs to ceiling n) = Some (RpcBlock_number (last bs), RpcBlock_hash (last bs))"
  using assms by (cases bs rule: rev_cases)
    (simp_all add: after_batch_def Let_def view_entries_def last_opt_def)

lemma after_batch_frame:
  "buffer_capacity (after_batch bs to ceiling n) = buffer_capacity n"
  "backfill_batch_size (after_batch bs to ceiling n) = backfill_batch_size n"
  "slot_seconds (after_batch bs to ceiling n) = slot_seconds n"
  "backfill_from (after_batch bs to ceiling n) = (if to \<ge> ceiling then None else Some (u64_add to 1))"
  by (simp_all add: after_batch_def Let_def extend_view_def split: option.split)

lemma upt_edges: "frm \<le> to \<Longrightarrow> hd [frm..<Suc to] = frm \<and> last [frm..<Suc to] = to"
  by (auto simp: hd_append)

text \<open>The position of a backfill at \<open>frm\<close>: what was delivered before is the parent.\<close>

definition resumes_at :: "('tx, 'r) codecs \<Rightarrow> (u64 \<Rightarrow> header) \<Rightarrow> rpc_host_notifier \<Rightarrow> u64 \<Rightarrow> bool" where
  "resumes_at c H n frm \<longleftrightarrow>
     backfill_from n = Some frm
     \<and> (\<forall>k h. last_emitted n = Some (k, h) \<longrightarrow> h = h_parent_hash (H frm))
     \<and> u64_mul (slot_seconds n) SLOTS_PER_EPOCH \<noteq> 0 \<and> 0 < backfill_batch_size n"

lemma steady_drain:
  assumes st: "steady p c H low tip_num" and at: "resumes_at c H n frm"
    and le: "low \<le> frm" "frm \<le> tip_num" and sz: "tip_num + backfill_batch_size n \<le> u64_max"
  defines "to \<equiv> min (effective_ceiling n frm tip_num) (frm + backfill_batch_size n - 1)"
  shows "\<exists>nt n' w'. drain_backfill p c n w = (Some (Ok nt), n', w')
     \<and> notification_numbers nt = [frm..<Suc to]
     \<and> (\<exists>seg. kind nt = ChainCommitted seg \<and> map RpcBlock_number (seg_blocks seg) = [frm..<Suc to])
     \<and> buffer_capacity n' = buffer_capacity n \<and> backfill_batch_size n' = backfill_batch_size n
     \<and> (if to = effective_ceiling n frm tip_num then backfill_from n' = None
        else resumes_at c H n' (Suc to))"
proof -
  have pos: "0 < backfill_batch_size n" and bf: "backfill_from n = Some frm"
    and sl: "u64_mul (slot_seconds n) SLOTS_PER_EPOCH \<noteq> 0"
    using at by (simp_all add: resumes_at_def)
  note eb = effective_ceiling_bounds[OF le(2), of n]
  have tt: "backfill_to n frm tip_num = to"
    using backfill_to_exact[OF le(2) sz pos] by (simp add: to_def)
  have to: "frm \<le> to" "to \<le> tip_num" "to \<le> effective_ceiling n frm tip_num"
    using eb pos by (auto simp: to_def)
  obtain w1 where tip1: "get_block_number p w = (Inr tip_num, w1)" using steady_tip[OF st] by blast
  have lt: "frm < saturating_add tip_num 1"
    using le sz pos by (simp add: saturating_add_def)
  have "\<forall>k\<in>set [frm..<Suc to]. low \<le> k \<and> k \<le> tip_num" using le to by auto
  then obtain bs w2 where bs: "fetch_numbers p c [frm..<Suc to] w1 = (Ok bs, w2)"
    "map RpcBlock_number bs = [frm..<Suc to]"
    "map RpcBlock_hash bs = map (\<lambda>k. seal_hash c (H k)) [frm..<Suc to]"
    "map RpcBlock_parent_hash bs = map (\<lambda>k. h_parent_hash (H k)) [frm..<Suc to]"
    using steady_fetch_numbers[OF st] by blast
  have fr: "fetch_range p c frm to w1 = (Ok bs, w2)" using bs(1) to by (simp add: fetch_range_def del: upt_Suc)
  have "length bs = Suc to - frm" by (metis length_map length_upt bs(2))
  then have ne: "bs \<noteq> []" using to by auto
  have ends: "RpcBlock_parent_hash (hd bs) = h_parent_hash (H frm)" "RpcBlock_number (last bs) = to"
    "RpcBlock_hash (last bs) = seal_hash c (H to)"
  proof -
    have e: "[frm..<Suc to] \<noteq> []" using to by simp
    have "RpcBlock_parent_hash (hd bs) = hd (map (\<lambda>k. h_parent_hash (H k)) [frm..<Suc to])"
      using ne bs(4) by (metis hd_map)
    then show "RpcBlock_parent_hash (hd bs) = h_parent_hash (H frm)"
      using e upt_edges[OF to(1)] by (simp add: hd_map del: upt_Suc)
    have "RpcBlock_number (last bs) = last [frm..<Suc to]" using ne bs(2) by (metis last_map)
    then show "RpcBlock_number (last bs) = to" using upt_edges[OF to(1)] by simp
    have "RpcBlock_hash (last bs) = last (map (\<lambda>k. seal_hash c (H k)) [frm..<Suc to])"
      using ne bs(3) by (metis last_map)
    then show "RpcBlock_hash (last bs) = seal_hash c (H to)"
      using e upt_edges[OF to(1)] by (simp add: last_map del: upt_Suc)
  qed
  have nb: "\<not> continuity_broken bs n"
    using at ends(1) ne by (cases bs) (auto simp: continuity_broken_def resumes_at_def split: option.split)
  define n1 where "n1 = after_batch bs to (effective_ceiling n frm tip_num) n"
  have sl1: "u64_mul (slot_seconds n1) SLOTS_PER_EPOCH \<noteq> 0" using sl by (simp add: n1_def after_batch_frame)
  have tg: "\<forall>t v. t = Safe \<or> t = Finalized \<longrightarrow> (\<exists>r v'. get_block_by_number p t v = (Inr r, v'))"
    using steady_tag[OF st] by blast
  obtain n2 w3 where m: "maybe_refresh_tags p (h_timestamp (rec_header (rblk_block (last bs)))) n1 w2 = (Ok (), n2, w3)"
    "slot_seconds n2 = slot_seconds n1"
    using tags_refreshed[OF tg sl1] by blast
  note f = maybe_refresh_tags_frame[OF m(1)]
  define nt where "nt = \<lparr>kind = ChainCommitted (RpcChainSegment bs), safe_block_number = cached_safe n2,
    finalized_block_number = cached_finalized n2\<rparr>"
  have lo: "last_opt bs = Some (last bs)" using ne by (simp add: last_opt_def)
  have "drain_backfill p c n w = (Some (Ok nt), n2, w3)"
    unfolding drain_backfill_def
    using bf tip1 lt fr nb m(1) lo by (simp add: Let_def tt nt_def n1_def[symmetric])
  moreover have "notification_numbers nt = [frm..<Suc to]"
    using bs(2) by (simp add: nt_def notification_numbers_def committed_chain_def del: upt_Suc)
  moreover have "\<exists>seg. kind nt = ChainCommitted seg \<and> map RpcBlock_number (seg_blocks seg) = [frm..<Suc to]"
    using bs(2) by (simp add: nt_def del: upt_Suc)
  moreover have "buffer_capacity n2 = buffer_capacity n" "backfill_batch_size n2 = backfill_batch_size n"
    using f by (simp_all add: n1_def after_batch_frame)
  moreover have "if to = effective_ceiling n frm tip_num then backfill_from n2 = None
        else resumes_at c H n2 (Suc to)"
  proof (cases "to = effective_ceiling n frm tip_num")
    case True
    then show ?thesis using f by (simp add: n1_def after_batch_frame)
  next
    case False
    then have less: "to < effective_ceiling n frm tip_num" using to(3) by simp
    then have "to < tip_num" using eb by simp
    then have "h_parent_hash (H (Suc to)) = seal_hash c (H to)"
      using st le to unfolding steady_def by simp
    then have "resumes_at c H n2 (Suc to)"
      using f less sl1 m(2) pos after_batch_last[OF ne] ends \<open>to < tip_num\<close> sz
      by (simp add: resumes_at_def n1_def after_batch_frame u64_simps)
    then show ?thesis using False by simp
  qed
  ultimately show ?thesis by blast
qed

text \<open>The ceiling does not move while the backfill has not reached it.\<close>

lemma effective_ceiling_stable:
  assumes "frm \<le> k" "k \<le> effective_ceiling n frm tip_num" "buffer_capacity n' = buffer_capacity n"
  shows "effective_ceiling n' k tip_num = effective_ceiling n frm tip_num"
  using assms by (auto simp: effective_ceiling_def Let_def split: if_splits)

text \<open>
  C12: against a provider that does not fail and whose chain does not change, calling
  \<^verbatim>\<open>drain_backfill\<close> until it has nothing left ends, and delivers every block from the pending
  position to the ceiling exactly once and in ascending order; one call per block is
  enough fuel.
\<close>

theorem backfill_complete:
  assumes "steady p c H low tip_num" "resumes_at c H n frm" "low \<le> frm" "frm \<le> tip_num"
    and "tip_num + backfill_batch_size n \<le> u64_max"
    and "tip_num - frm + 2 \<le> fuel"
  shows "\<exists>nts n' w'. backfill_run fuel p c n w = Some (nts, n', w') \<and> backfill_from n' = None
    \<and> concat (map notification_numbers nts) = [frm..<Suc (effective_ceiling n frm tip_num)]"
  using assms
proof (induction fuel arbitrary: n frm w)
  case (Suc fuel)
  define to where "to = min (effective_ceiling n frm tip_num) (frm + backfill_batch_size n - 1)"
  have pos: "0 < backfill_batch_size n" using Suc.prems(2) by (simp add: resumes_at_def)
  note eb = effective_ceiling_bounds[OF Suc.prems(4), of n]
  obtain nt n1 w1 where d: "drain_backfill p c n w = (Some (Ok nt), n1, w1)"
    "notification_numbers nt = [frm..<Suc to]"
    "buffer_capacity n1 = buffer_capacity n" "backfill_batch_size n1 = backfill_batch_size n"
    "if to = effective_ceiling n frm tip_num then backfill_from n1 = None
     else resumes_at c H n1 (Suc to)"
    using steady_drain[OF Suc.prems(1-5), of w] unfolding to_def by blast
  show ?case
  proof (cases "to = effective_ceiling n frm tip_num")
    case True
    then have bf: "backfill_from n1 = None" using d(5) by simp
    obtain fuel' where "fuel = Suc fuel'" using Suc.prems(6) by (cases fuel) auto
    then have "backfill_run fuel p c n1 w1 = Some ([], n1, w1)"
      using bf by (simp add: drain_backfill_def)
    then show ?thesis using d True bf by simp
  next
    case False
    then have less: "to < effective_ceiling n frm tip_num" by (simp add: to_def min_def split: if_splits)
    have ge: "frm \<le> to" using pos eb by (simp add: to_def)
    have r: "resumes_at c H n1 (Suc to)" using d(5) False by simp
    have ec: "effective_ceiling n1 (Suc to) tip_num = effective_ceiling n frm tip_num"
      using effective_ceiling_stable[of frm "Suc to" n tip_num n1] ge less d(3) by simp
    have "\<exists>nts n' w'. backfill_run fuel p c n1 w1 = Some (nts, n', w') \<and> backfill_from n' = None
        \<and> concat (map notification_numbers nts) = [Suc to..<Suc (effective_ceiling n1 (Suc to) tip_num)]"
      using Suc.prems(3,5,6) ge less eb d(4) by (intro Suc.IH[OF Suc.prems(1) r]) auto
    then obtain nts n' w' where IH: "backfill_run fuel p c n1 w1 = Some (nts, n', w')"
      "backfill_from n' = None"
      "concat (map notification_numbers nts) = [Suc to..<Suc (effective_ceiling n frm tip_num)]"
      unfolding ec by blast
    have "[frm..<Suc to] @ [Suc to..<Suc (effective_ceiling n frm tip_num)] =
        [frm..<Suc (effective_ceiling n frm tip_num)]"
      using ge less by (intro upt_glue) auto
    then show ?thesis using d IH by (simp del: upt_Suc)
  qed
qed simp

text \<open>The example chain, for the witnesses.\<close>

definition ex_steady_provider :: "(nat, nat, nat) provider" where
  "ex_steady_provider = ex_provider\<lparr>get_block_number := (\<lambda>w. (Inr 10, w))\<rparr>"

definition ex_chain :: "u64 \<Rightarrow> header" where
  "ex_chain k = ex_header k (of_nat (k - 1)) (of_nat k)"

definition ex_fresh :: rpc_host_notifier where
  "ex_fresh = rpc_set_head 6 (RpcHostNotifier_new 4 2 8 12 0)"

lemma of_nat_b256_le:
  "m < 2 ^ 256 \<Longrightarrow> k < 2 ^ 256 \<Longrightarrow> (of_nat m :: b256) \<le> of_nat k \<longleftrightarrow> m \<le> k"
  by (simp add: word_le_nat_alt unat_of_nat)

lemma ex_steady: "steady ex_steady_provider ex_codecs ex_chain 5 10"
proof -
  have "ex_tree (of_nat k) = Some (ex_chain k)" if "5 \<le> k" "k \<le> 10" for k
  proof -
    have "5 \<le> (of_nat k :: b256)" "(of_nat k :: b256) \<le> 10"
      using that of_nat_b256_le[of 5 k] of_nat_b256_le[of k 10] by simp_all
    then show ?thesis using that
      by (simp add: ex_tree_def ex_chain_def unat_of_nat of_nat_diff)
  qed
  then show ?thesis
    by (simp add: steady_def ex_steady_provider_def ex_provider_def ex_response_def)
      (auto simp: ex_chain_def ex_header_def ex_codecs_def unat_of_nat)
qed

theorem backfill_complete_witness:
  "\<exists>nts n' w'. backfill_run 6 ex_steady_provider ex_codecs ex_fresh 0 = Some (nts, n', w')
     \<and> backfill_from n' = None \<and> concat (map notification_numbers nts) = [6, 7, 8]"
proof -
  have "resumes_at ex_codecs ex_chain ex_fresh 6"
    by (simp add: resumes_at_def ex_fresh_def rpc_set_head_def RpcHostNotifier_new_def
        u64_mul_def SLOTS_PER_EPOCH_def)
  moreover have "10 + backfill_batch_size ex_fresh \<le> u64_max"
    by (simp add: ex_fresh_def rpc_set_head_def RpcHostNotifier_new_def u64_max_def)
  moreover have "[6..<Suc (effective_ceiling ex_fresh 6 10)] = [6, 7, 8]"
    by (simp add: effective_ceiling_def ex_fresh_def rpc_set_head_def RpcHostNotifier_new_def
        saturating_sub_def upt_rec)
  ultimately show ?thesis
    using backfill_complete[OF ex_steady, of ex_fresh 6 6 0] by simp
qed

section \<open>Where deliveries get lost\<close>

text \<open>
  When the tag refresh after a successful walk fails, \<^verbatim>\<open>handle_new_head\<close> returns the error but has
  already recorded the new segment as delivered: a retry with the same head answers
  "nothing new", and the blocks are never emitted.
\<close>

theorem tag_failure_loses_segment:
  assumes "notifier_inv n" "nc \<noteq> []"
    and "walk_with_fallback p n (rh_hash hdr) w = (Ok (Advance nc), w1)"
    and "fetch_blocks_by_hash p c nc w1 = (Ok bs, w2)"
    and "epoch_of n (h_timestamp (rh_inner hdr)) = Ok ep" "last_tag_epoch n \<noteq> Some ep"
    and "get_block_by_number p Safe w2 = (Inl e, w3)"
  shows "\<exists>n'. handle_new_head p c hdr n w = (Err (Rpc e), n', w3)
    \<and> last_emitted n' = Some (last nc)
    \<and> (\<forall>hdr' v. rh_hash hdr' = snd (last nc) \<longrightarrow> handle_new_head p c hdr' n' v = (Ok None, n', v))"
proof -
  define n1 where "n1 = (extend_view nc n)\<lparr>last_emitted := last_opt nc\<rparr>"
  have ok: "view_ok (buffer_capacity n) (chain_view n)"
    using assms(1) by (simp add: notifier_inv_def rpc_inv_def)
  have "chain_view n1 \<noteq> [] \<and> last (chain_view n1) = last nc"
    using extend_entries_last[OF ok assms(2)] by (simp add: n1_def extend_view_def)
  then have tp: "tip n1 = Some (last nc)" by (simp add: tip_def last_opt_def)
  have "epoch_of n1 ts = epoch_of n ts" for ts
    by (simp add: n1_def epoch_of_def extend_view_def Let_def)
  then have "maybe_refresh_tags p (h_timestamp (rh_inner hdr)) n1 w2 = (Err (Rpc e), n1, w3)"
    using assms(5-7) by (simp add: maybe_refresh_tags_def n1_def extend_view_def)
  then have fin: "finish_head p (h_timestamp (rh_inner hdr)) k n1 w2 = (Err (Rpc e), n1, w3)" for k
    by (simp add: finish_head_def)
  have "handle_new_head p c hdr n w = (Err (Rpc e), n1, w3)"
    unfolding handle_new_head_def using assms(3,4) fin[unfolded n1_def] by (simp add: n1_def)
  moreover have "handle_new_head p c hdr' n1 v = (Ok None, n1, v)" if "rh_hash hdr' = snd (last nc)" for hdr' v
    using tp that by (simp add: handle_new_head_def walk_with_fallback_def walk_chain_def split_beta)
  ultimately show ?thesis using assms(2) by (auto simp: n1_def last_opt_def)
qed

theorem tag_failure_loses_segment_witness:
  "\<exists>n'. handle_new_head
      (ex_provider\<lparr>get_block_by_number := (\<lambda>t w. if t = Safe then (Inl ''timeout'', w) else ex_by_number t w)\<rparr>)
      ex_codecs (ex_head 10) ex_notifier 10 = (Err (Rpc ''timeout''), n', 10)
    \<and> last_emitted n' = Some (10, 10)"
proof -
  let ?p = "ex_provider\<lparr>get_block_by_number :=
    (\<lambda>t w. if t = Safe then (Inl ''timeout'', w) else ex_by_number t w)\<rparr>"
  have w: "walk_with_fallback ?p ex_notifier (rh_hash (ex_head 10)) 10 = (Ok (Advance [(10, 10)]), 10)"
    by (simp add: walk_with_fallback_def walk_chain_def tip_def last_opt_def walk_loop.simps walk_decide_def view_hash_def
        first_opt_def nth_opt_def checked_sub_def ex_defs u64_simps u64_max_def)
  have f: "\<exists>bs. fetch_blocks_by_hash ?p ex_codecs [(10, 10)] 10 = (Ok bs, 10)"
    by (simp add: fetch_block_by_hash_def ex_defs rres_simps)
  have e: "epoch_of ex_notifier (h_timestamp (rh_inner (ex_head 10))) = Ok 0"
    "last_tag_epoch ex_notifier = None"
    by (simp_all add: epoch_of_def ex_defs u64_mul_def SLOTS_PER_EPOCH_def saturating_sub_def)
  show ?thesis
    using tag_failure_loses_segment[OF ex_notifier_inv _ w, of ex_codecs _ 10 0 "''timeout''" 10] f e by auto
qed

text \<open>
  After an exhausted walk the view is empty and backfill resumes behind the last
  delivered block. If the provider's tip then is that same number (a deep reorg to a chain
  of equal height), backfill ends at once and the next head is emitted as it is: nothing
  compares its number or its parent with the last delivered block.
\<close>

theorem exhaustion_skips_continuity:
  assumes "chain_view n = []" "backfill_from n = Some (Suc k)" "k < u64_max"
    and "last_emitted n = Some (k, h)"
    and "get_block_number p w = (Inr k, w1)"
    and "get_block_by_hash p (rh_hash hdr) w1 = (Inr (Some b), w2)"
    and "fetch_block_by_hash p c (rh_hash hdr) w2 = (Ok blk, w3)"
    and "u64_mul (slot_seconds n) SLOTS_PER_EPOCH \<noteq> 0"
    and "\<forall>t v. t = Safe \<or> t = Finalized \<longrightarrow> (\<exists>r v'. get_block_by_number p t v = (Inr r, v'))"
  shows "\<exists>nt n' s' w'. next_notification p c n [Item hdr] w = (Some (Ok nt), n', s', w')
    \<and> kind nt = ChainCommitted (RpcChainSegment [blk])"
proof -
  let ?num = "h_number (rh_inner (rb_header b))"
  let ?n1 = "n\<lparr>backfill_from := None\<rparr>"
  let ?n2 = "(extend_view [(?num, rh_hash hdr)] ?n1)\<lparr>last_emitted := last_opt [(?num, rh_hash hdr)]\<rparr>"
  have d: "drain_backfill p c n w = (None, ?n1, w1)"
    using assms(2,3,5) by (simp add: drain_backfill_def saturating_add_def)
  have wd: "walk_decide ?n1 ?num (rh_hash hdr) [(?num, rh_hash hdr)] = Some (Advance [(?num, rh_hash hdr)])"
    using assms(1) by (simp add: walk_decide_def view_hash_def)
  have "walk_chain p ?n1 (rh_hash hdr) w1 = (Ok (Advance [(?num, rh_hash hdr)]), w2)"
    using assms(1,6) wd by (simp add: walk_chain_def tip_def last_opt_def walk_loop.simps)
  then have wf: "walk_with_fallback p ?n1 (rh_hash hdr) w1 = (Ok (Advance [(?num, rh_hash hdr)]), w2)"
    by (simp add: walk_with_fallback_def)
  have f: "fetch_blocks_by_hash p c [(?num, rh_hash hdr)] w2 = (Ok [blk], w3)"
    using assms(7) by (simp add: rres_simps)
  have "u64_mul (slot_seconds ?n2) SLOTS_PER_EPOCH \<noteq> 0" using assms(8) by (simp add: extend_view_def)
  then obtain n3 v3 where m: "maybe_refresh_tags p (h_timestamp (rh_inner hdr)) ?n2 w3 = (Ok (), n3, v3)"
    using tags_refreshed[OF assms(9)] by blast
  have "\<exists>nt. handle_new_head p c hdr ?n1 w1 = (Ok (Some nt), n3, v3)
      \<and> kind nt = ChainCommitted (RpcChainSegment [blk])"
    unfolding handle_new_head_def using wf f m by (simp add: finish_head_def)
  then show ?thesis using d by (auto simp: next_notification.simps)
qed

theorem exhaustion_skips_continuity_witness:
  "\<exists>nt n' s' w' blk. next_notification ex_provider ex_codecs
       ((RpcHostNotifier_new 4 2 8 12 0)\<lparr>backfill_from := Some 8, last_emitted := Some (7, 7)\<rparr>)
       [Item (ex_head 111)] 7 = (Some (Ok nt), n', s', w')
     \<and> kind nt = ChainCommitted (RpcChainSegment [blk])
     \<and> RpcBlock_number blk = 11 \<and> RpcBlock_parent_hash blk \<noteq> 7"
proof -
  let ?n = "(RpcHostNotifier_new 4 2 8 12 0)\<lparr>backfill_from := Some 8, last_emitted := Some (7, 7)\<rparr>"
  obtain blk where f: "fetch_block_by_hash ex_provider ex_codecs (rh_hash (ex_head 111)) 7 = (Ok blk, 7)"
    "RpcBlock_number blk = 11" "RpcBlock_parent_hash blk \<noteq> 7"
    by (simp add: fetch_block_by_hash_def ex_defs convert_rpc_block_def block_accessors)
  have b: "\<exists>b. get_block_by_hash ex_provider (rh_hash (ex_head 111)) 7 = (Inr (Some b), 7)"
    by (simp add: ex_defs)
  have t: "\<forall>t v. t = Safe \<or> t = Finalized \<longrightarrow> (\<exists>r v'. get_block_by_number ex_provider t v = (Inr r, v'))"
    by (auto simp: ex_provider_def)
  show ?thesis
    using exhaustion_skips_continuity[of ?n 7 7 ex_provider 7 7 "ex_head 111" _ 7 ex_codecs blk 7] f b t
    by (fastforce simp: RpcHostNotifier_new_def u64_max_def ex_provider_def u64_mul_def SLOTS_PER_EPOCH_def)
qed

text \<open>
  A backfill position plus a batch size beyond \<^verbatim>\<open>u64::MAX\<close> wraps: with the batch size
  \<^verbatim>\<open>u64::MAX\<close>, which no setter refuses, the batch is empty, an empty segment is delivered,
  and the position moves back by one block on every call.
\<close>

theorem batch_size_wraps:
  fixes p :: "('a, 'b, 'c) provider"
  assumes "backfill_from n = Some frm" "2 \<le> frm" "frm \<le> tip_num" "tip_num < u64_max"
    and "get_block_number p w = (Inr tip_num, w1)"
  shows "\<exists>nt n'. drain_backfill p c (rpc_set_backfill_thresholds (Some u64_max) n) w = (Some (Ok nt), n', w1)
    \<and> kind nt = ChainCommitted (RpcChainSegment []) \<and> backfill_from n' = Some (frm - 1)"
proof -
  let ?n = "rpc_set_backfill_thresholds (Some u64_max) n"
  have b: "backfill_batch_size ?n = u64_max" "backfill_from ?n = Some frm"
    using assms(1) by (simp_all add: rpc_set_backfill_thresholds_def u64_max_def)
  have add: "u64_add frm u64_max = frm - 1"
  proof -
    have "frm + u64_max = (frm - 1) + 2 ^ 64" using assms(2) by (simp add: u64_max_def)
    then have "u64_add frm u64_max = (frm - 1) mod 2 ^ 64"
      unfolding u64_add_def by (metis mod_add_self2)
    then show ?thesis using assms(3,4) by (simp add: u64_max_def)
  qed
  then have sub: "u64_sub (u64_add frm u64_max) 1 = frm - 2"
    using assms(2-4) by (simp add: u64_sub_exact)
  have ec: "frm \<le> effective_ceiling ?n frm tip_num" using effective_ceiling_bounds[OF assms(3)] by simp
  have to: "backfill_to ?n frm tip_num = frm - 2" using ec sub b by (simp add: backfill_to_def)
  have fr: "fetch_range p c frm (frm - 2) w1 = (Ok [], w1)"
    using assms(2) by (simp add: fetch_range_def)
  have nb: "\<not> continuity_broken ([] :: ('b, 'c) rpc_block list) ?n"
    by (simp add: continuity_broken_def split: option.split)
  have lt: "frm < saturating_add tip_num 1" using assms(3,4) by (simp add: saturating_add_def)
  have ngt: "\<not> effective_ceiling ?n frm tip_num \<le> frm - 2" using ec assms(2) by simp
  have adv: "u64_add (frm - 2) 1 = frm - 1" using assms(2-4) by (simp add: u64_simps)
  show ?thesis
    unfolding drain_backfill_def
    using b(2) assms(2,5) lt fr nb ngt adv
    by (simp add: Let_def to last_opt_def after_batch_frame)
qed

theorem batch_size_wraps_witness:
  "\<exists>nt n'. drain_backfill ex_provider ex_codecs
      (rpc_set_backfill_thresholds (Some u64_max) (rpc_set_head 9 (RpcHostNotifier_new 4 2 8 12 0))) 10
      = (Some (Ok nt), n', 10)
    \<and> kind nt = ChainCommitted (RpcChainSegment []) \<and> backfill_from n' = Some 8"
  using batch_size_wraps[of "rpc_set_head 9 (RpcHostNotifier_new 4 2 8 12 0)" 9 10 ex_provider 10 10 ex_codecs]
  by (simp add: rpc_set_head_def RpcHostNotifier_new_def ex_provider_def u64_max_def)

section \<open>Configuration\<close>

text \<open>
  Whatever values the configuration holds, the notifier that \<^verbatim>\<open>build\<close> returns satisfies the notifier's
  invariant, keeps a positive buffer, batch size and concurrency, and resumes at the first block passed
  to \<^verbatim>\<open>set_head\<close>, whatever thresholds and further heads are set before the first call.
\<close>

theorem configured_notifier_starts_right:
  assumes "into_builder connect ts cfg = Ok b" "builder_build sub b = Ok (n, s)"
  shows "notifier_inv (rpc_set_head j (rpc_set_backfill_thresholds m (rpc_set_head k n)))
    \<and> backfill_from (rpc_set_head j (rpc_set_backfill_thresholds m (rpc_set_head k n))) = Some k
    \<and> 0 < buffer_capacity n \<and> 0 < backfill_batch_size n \<and> 0 < max_rpc_concurrency n
    \<and> genesis_timestamp n = ts \<and> slot_seconds n = 12"
proof -
  have n: "n = RpcHostNotifier_new (b_buffer_capacity b) (b_backfill_batch_size b)
      (b_max_rpc_concurrency b) (b_slot_seconds b) (b_genesis_timestamp b)"
    using assms(2) by (auto simp: builder_build_def split: sum.splits)
  have b: "0 < b_buffer_capacity b" "0 < b_backfill_batch_size b" "0 < b_max_rpc_concurrency b"
    "b_slot_seconds b = 12" "b_genesis_timestamp b = ts"
    using assms(1)
    by (cases connect; auto simp: into_builder_def rres_simps with_buffer_capacity_def
        with_backfill_batch_size_def with_max_rpc_concurrency_def with_genesis_timestamp_def
        RpcHostNotifierBuilder_new_def DEFAULT_SLOT_SECONDS_def)+
  have fresh: "\<not> head_set n" "chain_view n = []" by (simp_all add: n RpcHostNotifier_new_def)
  have inv: "rpc_inv n" using b by (simp add: n rpc_inv_new)
  have "rpc_inv (rpc_set_head j (rpc_set_backfill_thresholds m (rpc_set_head k n)))"
    using rpc_inv_thresholds[OF rpc_inv_set_head[OF inv fresh(2)]]
    by (simp add: rpcn.set_head_again rpcn.thresholds_keep_head rpcn.set_head_marks)
  moreover have "chain_view (rpc_set_head j (rpc_set_backfill_thresholds m (rpc_set_head k n))) = []"
    using fresh by (simp add: rpc_set_head_def rpc_set_backfill_thresholds_def)
  ultimately show ?thesis
    using b rpcn.startup_position[OF fresh(1), of j m k]
    by (simp add: n RpcHostNotifier_new_def notifier_inv_def cursor_ok_def)
qed

theorem configured_notifier_starts_right_witness:
  "\<exists>n s. builder_build (Inr []) (with_genesis_timestamp 5 RpcHostNotifierBuilder_new) = Ok (n, s)
     \<and> notifier_inv (rpc_set_head 9 (rpc_set_backfill_thresholds (Some 0) (rpc_set_head 7 n)))
     \<and> 0 < buffer_capacity n"
proof -
  have "into_builder (Ok ()) 5 \<lparr>cfg_buffer_capacity = None, cfg_backfill_batch_size = None,
      cfg_max_rpc_concurrency = None\<rparr> = Ok (with_genesis_timestamp 5 RpcHostNotifierBuilder_new)"
    by (simp add: into_builder_def rres_simps with_buffer_capacity_def with_backfill_batch_size_def
        with_max_rpc_concurrency_def with_genesis_timestamp_def RpcHostNotifierBuilder_new_def
        DEFAULT_BUFFER_CAPACITY_def DEFAULT_BACKFILL_BATCH_SIZE_def DEFAULT_MAX_RPC_CONCURRENCY_def)
  moreover obtain n s where
    b: "builder_build (Inr []) (with_genesis_timestamp 5 RpcHostNotifierBuilder_new) = Ok (n, s)"
    by (simp add: builder_build_def)
  ultimately show ?thesis
    using configured_notifier_starts_right[OF _ b] by blast
qed

end
