(* ===== verification/Interest_Kind.thy ===== *)
theory Interest_Kind
  imports Chain_Data
begin

text \<open>
  Chain events, event buffers and interest kinds (\<^verbatim>\<open>rpc/src/interest/mod.rs\<close>, \<^verbatim>\<open>buffer.rs\<close>,
  \<^verbatim>\<open>kind.rs\<close>). A primitive log, a user filter and its match are alloy's: the log is a type
  parameter and the match an argument of the functions that use it.
\<close>

section \<open>Events\<close>

record 'l rpc_log =
  rl_inner :: 'l
  rl_block_hash :: "b256 option"
  rl_block_number :: "u64 option"
  rl_block_timestamp :: "u64 option"
  rl_transaction_hash :: "b256 option"
  rl_transaction_index :: "u64 option"
  rl_log_index :: "u64 option"
  rl_removed :: bool

record 'l new_block_notification =
  nb_header :: header
  nb_tx_hashes :: "b256 list"
  nb_receipt_logs :: "'l list list"

record 'l removed_block =
  rm_number :: u64
  rm_hash :: b256
  rm_timestamp :: u64
  rm_logs :: "'l rpc_log list"

record 'l reorg_notification =
  common_ancestor :: u64
  removed_blocks :: "'l removed_block list"

datatype 'l chain_event = NewBlock "'l new_block_notification" | Reorg_Event "'l reorg_notification"

section \<open>Event buffers\<close>

datatype ('l, 'b) event_buffer = Log_Buf "'l rpc_log list" | Block_Buf "'b list"

datatype ('l, 'b) event_item = Log_Item "'l rpc_log" | Block_Item 'b

fun buf_len :: "('l, 'b) event_buffer \<Rightarrow> usize" where
  "buf_len (Log_Buf ls) = length ls"
| "buf_len (Block_Buf bs) = length bs"

definition buf_is_empty :: "('l, 'b) event_buffer \<Rightarrow> bool" where
  "buf_is_empty b = (buf_len b = 0)"

fun buf_extend :: "('l, 'b) event_buffer \<Rightarrow> ('l, 'b) event_buffer \<Rightarrow> (('l, 'b) event_buffer, 'e) rresult" where
  "buf_extend (Log_Buf a) (Log_Buf b) = Ok (Log_Buf (a @ b))"
| "buf_extend (Block_Buf a) (Block_Buf b) = Ok (Block_Buf (a @ b))"
| "buf_extend _ _ = Panic"

fun buf_pop_front :: "('l, 'b) event_buffer \<Rightarrow> ('l, 'b) event_item option \<times> ('l, 'b) event_buffer" where
  "buf_pop_front (Log_Buf []) = (None, Log_Buf [])"
| "buf_pop_front (Log_Buf (l # ls)) = (Some (Log_Item l), Log_Buf ls)"
| "buf_pop_front (Block_Buf []) = (None, Block_Buf [])"
| "buf_pop_front (Block_Buf (b # bs)) = (Some (Block_Item b), Block_Buf bs)"

text \<open>The queue contract: \<open>items\<close> is what a buffer will hand out, in order.\<close>

locale fifo =
  fixes items :: "'q \<Rightarrow> 'i list"
    and extend_q :: "'q \<Rightarrow> 'q \<Rightarrow> ('q, 'e) rresult"
    and pop :: "'q \<Rightarrow> 'i option \<times> 'q"
    and same_kind :: "'q \<Rightarrow> 'q \<Rightarrow> bool"
  assumes pop_nil: "items q = [] \<Longrightarrow> pop q = (None, q)"
    and pop_cons: "items q = i # is \<Longrightarrow> \<exists>q'. pop q = (Some i, q') \<and> items q' = is \<and> same_kind q q'"
    and extend_items: "same_kind a b \<Longrightarrow> \<exists>q. extend_q a b = Ok q \<and> items q = items a @ items b \<and> same_kind a q"
    and extend_mismatch: "\<not> same_kind a b \<Longrightarrow> extend_q a b = Panic"
    and kind_refl: "same_kind q q"
    and kind_trans: "same_kind a b \<Longrightarrow> same_kind b c \<Longrightarrow> same_kind a c"
begin

primrec pop_many :: "nat \<Rightarrow> 'q \<Rightarrow> 'i list \<times> 'q" where
  "pop_many 0 q = ([], q)"
| "pop_many (Suc k) q =
     (case pop q of (None, q1) \<Rightarrow> ([], q1)
      | (Some i, q1) \<Rightarrow> (case pop_many k q1 of (is, q2) \<Rightarrow> (i # is, q2)))"

lemma pop_many_takes:
  "\<exists>q'. pop_many k q = (take k (items q), q') \<and> items q' = drop k (items q) \<and> same_kind q q'"
proof (induction k arbitrary: q)
  case 0
  then show ?case by (simp add: kind_refl)
next
  case (Suc k)
  show ?case
  proof (cases "items q")
    case Nil
    then show ?thesis using pop_nil kind_refl by simp
  next
    case (Cons i xs)
    then obtain q1 where q1: "pop q = (Some i, q1)" "items q1 = xs" "same_kind q q1"
      using pop_cons by blast
    obtain q2 where q2: "pop_many k q1 = (take k xs, q2)" "items q2 = drop k xs" "same_kind q1 q2"
      using Suc.IH[of q1] q1(2) by auto
    then show ?thesis using Cons q1 kind_trans by auto
  qed
qed

end

fun buf_items :: "('l, 'b) event_buffer \<Rightarrow> ('l, 'b) event_item list" where
  "buf_items (Log_Buf ls) = map Log_Item ls"
| "buf_items (Block_Buf bs) = map Block_Item bs"

fun buf_same_kind :: "('l, 'b) event_buffer \<Rightarrow> ('l, 'b) event_buffer \<Rightarrow> bool" where
  "buf_same_kind (Log_Buf _) (Log_Buf _) = True"
| "buf_same_kind (Block_Buf _) (Block_Buf _) = True"
| "buf_same_kind _ _ = False"

interpretation evb: fifo buf_items buf_extend buf_pop_front buf_same_kind
proof
  fix q a b c :: "('a, 'b) event_buffer" and i "is"
  show "buf_items q = [] \<Longrightarrow> buf_pop_front q = (None, q)" by (cases q) auto
  show "buf_items q = i # is \<Longrightarrow> \<exists>q'. buf_pop_front q = (Some i, q') \<and> buf_items q' = is \<and> buf_same_kind q q'"
    by (cases q) auto
  show "buf_same_kind a b \<Longrightarrow> \<exists>q. buf_extend a b = Ok q \<and> buf_items q = buf_items a @ buf_items b \<and> buf_same_kind a q"
    by (cases a; cases b) auto
  show "\<not> buf_same_kind a b \<Longrightarrow> buf_extend a b = Panic" by (cases a; cases b) auto
  show "buf_same_kind q q" by (cases q) auto
  show "buf_same_kind a b \<Longrightarrow> buf_same_kind b c \<Longrightarrow> buf_same_kind a c"
    by (cases a; cases b; cases c) auto
qed

text \<open>
  Buffers made of lists: a filter's output from logs or block hashes, a subscription's buffer from
  logs or headers; by \<^verbatim>\<open>From\<close> and by collecting, which give the same.
\<close>

datatype ('l, 'b) buffer_source = Of_Logs "'l rpc_log list" | Of_Blocks "'b list"

fun filter_output_from :: "('l, b256) buffer_source \<Rightarrow> ('l, b256) event_buffer" where
  "filter_output_from (Of_Blocks hashes) = Block_Buf hashes"
| "filter_output_from (Of_Logs logs) = Log_Buf logs"

fun subscription_buffer_from :: "('l, 'b) buffer_source \<Rightarrow> ('l, 'b) event_buffer" where
  "subscription_buffer_from (Of_Logs logs) = Log_Buf logs"
| "subscription_buffer_from (Of_Blocks headers) = Block_Buf headers"

lemma buf_len_items: "buf_len b = length (buf_items b)"
  by (cases b) auto

section \<open>Interest kinds\<close>

datatype 'f interest_kind = Log_Kind 'f | Block_Kind

fun is_block :: "'f interest_kind \<Rightarrow> bool" where
  "is_block Block_Kind = True"
| "is_block (Log_Kind f) = False"

fun as_filter :: "'f interest_kind \<Rightarrow> 'f option" where
  "as_filter (Log_Kind f) = Some f"
| "as_filter Block_Kind = None"

text \<open>The RPC header of a new block; \<open>hash_slow\<close> is alloy's.\<close>

type_synonym sub_header = "b256 \<times> header"

definition apply_block :: "(header \<Rightarrow> b256) \<Rightarrow> 'l new_block_notification \<Rightarrow> ('l, sub_header) event_buffer" where
  "apply_block hash_slow n = Block_Buf [(hash_slow (nb_header n), nb_header n)]"

text \<open>
  The logs of the block with the index and hash of their transaction; indexing the
  transactions by a receipt without one panics.
\<close>

fun flat_logs :: "nat \<Rightarrow> b256 list \<Rightarrow> 'l list list \<Rightarrow> ((nat \<times> b256 \<times> 'l) list, 'e) rresult" where
  "flat_logs tx_idx hashes [] = Ok []"
| "flat_logs tx_idx [] (r # rs) = Panic"
| "flat_logs tx_idx (h # hs) (r # rs) =
     rmap (\<lambda>rest. map (\<lambda>l. (tx_idx, h, l)) r @ rest) (flat_logs (Suc tx_idx) hs rs)"

definition to_rpc_log :: "(header \<Rightarrow> b256) \<Rightarrow> header \<Rightarrow> nat \<Rightarrow> nat \<times> b256 \<times> 'l \<Rightarrow> 'l rpc_log" where
  "to_rpc_log hash_slow hdr log_idx e =
     (case e of (tx_idx, tx_hash, log) \<Rightarrow>
        \<lparr>rl_inner = log, rl_block_hash = Some (hash_slow hdr), rl_block_number = Some (h_number hdr),
         rl_block_timestamp = Some (h_timestamp hdr), rl_transaction_hash = Some tx_hash,
         rl_transaction_index = Some tx_idx, rl_log_index = Some log_idx, rl_removed = False\<rparr>)"

definition apply_filter ::
  "(header \<Rightarrow> b256) \<Rightarrow> ('f \<Rightarrow> 'l \<Rightarrow> bool) \<Rightarrow> 'f \<Rightarrow> 'l new_block_notification
     \<Rightarrow> (('l, sub_header) event_buffer, 'e) rresult" where
  "apply_filter hash_slow matches f n =
     rmap (\<lambda>ls. Log_Buf (map (\<lambda>(i, e). to_rpc_log hash_slow (nb_header n) i e)
                     (filter (\<lambda>(i, (tx, h, l)). matches f l) (enumerate 0 ls))))
       (flat_logs 0 (nb_tx_hashes n) (nb_receipt_logs n))"

definition filter_notification_for_sub ::
  "(header \<Rightarrow> b256) \<Rightarrow> ('f \<Rightarrow> 'l \<Rightarrow> bool) \<Rightarrow> 'f interest_kind \<Rightarrow> 'l new_block_notification
     \<Rightarrow> (('l, sub_header) event_buffer, 'e) rresult" where
  "filter_notification_for_sub hash_slow matches k n =
     (case k of Block_Kind \<Rightarrow> Ok (apply_block hash_slow n)
      | Log_Kind f \<Rightarrow> apply_filter hash_slow matches f n)"

fun empty_output :: "'f interest_kind \<Rightarrow> ('l, 'b) event_buffer" where
  "empty_output (Log_Kind f) = Log_Buf []"
| "empty_output Block_Kind = Block_Buf []"

text \<open>The removed logs of a reorg that match a filter, marked as removed.\<close>

definition mark_removed :: "'l rpc_log \<Rightarrow> 'l rpc_log" where
  "mark_removed l = l\<lparr>rl_removed := True\<rparr>"

definition filter_reorg_for_sub ::
  "('f \<Rightarrow> 'l \<Rightarrow> bool) \<Rightarrow> 'f interest_kind \<Rightarrow> 'l reorg_notification \<Rightarrow> ('l, 'b) event_buffer" where
  "filter_reorg_for_sub matches k r =
     (case as_filter k of
        None \<Rightarrow> empty_output k
      | Some f \<Rightarrow>
          Log_Buf (map mark_removed
            (filter (\<lambda>l. matches f (rl_inner l)) (concat (map rm_logs (removed_blocks r))))))"

section \<open>What the filters let through\<close>

lemma flat_logs_Ok:
  "length rs \<le> length hs \<Longrightarrow>
     flat_logs k hs rs = Ok (concat (map (\<lambda>(i, (h, r)). map (\<lambda>l. (i, h, l)) r) (enumerate k (zip hs rs))))"
proof (induction rs arbitrary: k hs)
  case (Cons r rs)
  then obtain h hs' where "hs = h # hs'" by (cases hs) auto
  with Cons show ?case by simp
qed simp

lemma flat_logs_logs: "(flat_logs k hs rs :: (_, 'e) rresult) = Ok ls \<Longrightarrow> map (\<lambda>(i, h, l). l) ls = concat rs"
proof (induction k hs rs arbitrary: ls rule: flat_logs.induct)
  case (3 k h hs r rs)
  from 3(2) obtain rest where rest: "(flat_logs (Suc k) hs rs :: (_, 'e) rresult) = Ok rest" "ls = map (\<lambda>l. (k, h, l)) r @ rest"
    by (auto simp: rres_simps)
  then show ?case using 3(1)[OF rest(1)] by (simp add: comp_def)
qed auto

lemma map_filter_enumerate:
  "map (\<lambda>(i, e). g e) (filter (\<lambda>(i, e). P e) (enumerate k xs)) = map g (filter P xs)"
  by (induction xs arbitrary: k) auto

text \<open>
  C26: for a block whose receipts all have their transaction, a log subscription gets exactly the matching
  logs of the block, in block order, each with the index it has among \<^emph>\<open>all\<close> logs of the
  block and not yet removed; a block subscription gets the header. A block with a receipt that has no transaction panics.
\<close>

theorem sub_filter_exact:
  fixes f :: 'f and n :: "'l new_block_notification"
  defines "logs \<equiv> concat (nb_receipt_logs n)"
  assumes "length (nb_receipt_logs n) \<le> length (nb_tx_hashes n)"
  shows "filter_notification_for_sub hash_slow matches (Block_Kind :: 'f interest_kind) n
       = (Ok (Block_Buf [(hash_slow (nb_header n), nb_header n)]) :: (('l, sub_header) event_buffer, 'e) rresult)
    \<and> (\<exists>out. filter_notification_for_sub hash_slow matches (Log_Kind f) n
         = (Ok (Log_Buf out) :: (('l, sub_header) event_buffer, 'e) rresult)
       \<and> map rl_inner out = filter (matches f) logs
       \<and> map rl_log_index out = map Some (filter (\<lambda>i. matches f (logs ! i)) [0..<length logs])
       \<and> (\<forall>l\<in>set out. \<not> rl_removed l \<and> rl_block_number l = Some (h_number (nb_header n))))"
proof -
  obtain ls where ls: "(flat_logs 0 (nb_tx_hashes n) (nb_receipt_logs n) :: (_, 'e) rresult) = Ok ls"
    using flat_logs_Ok[OF assms(2)] by blast
  have lg: "map (\<lambda>(i, h, l). l) ls = logs" using flat_logs_logs[OF ls] by (simp add: logs_def)
  define sel where "sel = filter (\<lambda>(i, (tx, h, l)). matches f l) (enumerate 0 ls)"
  define out where "out = map (\<lambda>(i, e). to_rpc_log hash_slow (nb_header n) i e) sel"
  have "filter_notification_for_sub hash_slow matches (Log_Kind f) n
      = (Ok (Log_Buf out) :: (('l, sub_header) event_buffer, 'e) rresult)"
    by (simp add: filter_notification_for_sub_def apply_filter_def ls out_def sel_def)
  moreover have "map rl_inner out = filter (matches f) logs"
  proof -
    have "map rl_inner out = map (\<lambda>(i, e). (\<lambda>(i, h, l). l) e) sel"
      by (auto simp: out_def to_rpc_log_def)
    also have "\<dots> = map (\<lambda>(i, h, l). l) (filter (\<lambda>(tx, h, l). matches f l) ls)"
      unfolding sel_def by (rule map_filter_enumerate)
    also have "\<dots> = filter (matches f) (map (\<lambda>(i, h, l). l) ls)"
      by (simp add: filter_map comp_def case_prod_unfold)
    finally show ?thesis by (simp add: lg)
  qed
  moreover have "map rl_log_index out = map Some (filter (\<lambda>i. matches f (logs ! i)) [0..<length logs])"
  proof -
    have "map rl_log_index out = map Some (map fst sel)"
      by (auto simp: out_def to_rpc_log_def)
    moreover have "map fst sel = filter (\<lambda>i. matches f (logs ! i)) [0..<length logs]"
    proof -
      have e: "enumerate 0 ls = map (\<lambda>i. (i, ls ! i)) [0..<length ls]"
        by (rule nth_equalityI) (simp_all add: nth_enumerate_eq)
      have len: "length ls = length logs" using lg by (metis length_map)
      have nth: "(case ls ! i of (tx, h, l) \<Rightarrow> matches f l) = matches f (logs ! i)" if "i < length ls" for i
        using that unfolding lg[symmetric] by (simp add: case_prod_unfold)
      show ?thesis
        by (simp add: sel_def e filter_map comp_def len[symmetric]) (rule filter_cong, simp_all add: nth)
    qed
    ultimately show ?thesis by simp
  qed
  moreover have "\<forall>l\<in>set out. \<not> rl_removed l \<and> rl_block_number l = Some (h_number (nb_header n))"
    by (auto simp: out_def to_rpc_log_def)
  ultimately show ?thesis by (simp add: filter_notification_for_sub_def apply_block_def)
qed

theorem sub_filter_exact_witness:
  "\<exists>out. filter_notification_for_sub h_parent_hash (\<lambda>f l. f = l) (Log_Kind 7)
      \<lparr>nb_header = \<lparr>h_number = 3, h_parent_hash = 2, h_timestamp = 0, h_gas_limit = 0, h_gas_used = 0,
         h_base_fee_per_gas = None, h_rest = 0\<rparr>, nb_tx_hashes = [50, 51], nb_receipt_logs = [[6, 7], [7 :: nat]]\<rparr>
      = (Ok (Log_Buf out) :: ((nat, sub_header) event_buffer, unit) rresult)
    \<and> map rl_log_index out = [Some 1, Some 2]"
  using sub_filter_exact[where matches = "\<lambda>f l. f = l" and f = "7 :: nat" and hash_slow = h_parent_hash
      and n = "\<lparr>nb_header = \<lparr>h_number = 3, h_parent_hash = 2, h_timestamp = 0, h_gas_limit = 0,
         h_gas_used = 0, h_base_fee_per_gas = None, h_rest = 0\<rparr>, nb_tx_hashes = [50, 51],
         nb_receipt_logs = [[6, 7], [7 :: nat]]\<rparr>" and ?'e = unit]
  by (auto simp: upt_rec numeral_2_eq_2)

end
