(* ===== verification/Interest_Subs.thy ===== *)
theory Interest_Subs
  imports Interest_Kind
begin

text \<open>
  Push subscriptions (\<^verbatim>\<open>rpc/src/interest/subs.rs\<close>, the argument conversion of
  \<^verbatim>\<open>rpc/src/eth/helpers.rs\<close>): the registry of cancellation tokens and the task of one
  subscription. What the futures of a \<^verbatim>\<open>select!\<close> round answer is an argument of a step; the
  biased order in which they are polled is the code's.
\<close>

section \<open>The registry\<close>

text \<open>A subscription's token is shared by the registry and its task: \<open>sm_cancelled\<close> holds the cancelled ids.\<close>

record sub_manager =
  sm_next_id :: u64
  sm_tasks :: "u64 set"
  sm_cancelled :: "u64 set"

definition sub_manager_new :: sub_manager where
  "sub_manager_new = \<lparr>sm_next_id = 1, sm_tasks = {}, sm_cancelled = {}\<rparr>"

definition subscribe_sub :: "bool \<Rightarrow> sub_manager \<Rightarrow> u64 option \<times> sub_manager" where
  "subscribe_sub notifications_enabled m =
     (if \<not> notifications_enabled then (None, m)
      else (let i = sm_next_id m
            in (Some i, m\<lparr>sm_next_id := u64_add i 1, sm_tasks := insert i (sm_tasks m)\<rparr>)))"

definition unsubscribe_sub :: "u64 \<Rightarrow> sub_manager \<Rightarrow> bool \<times> sub_manager" where
  "unsubscribe_sub i m =
     (if i \<in> sm_tasks m
      then (True, m\<lparr>sm_tasks := sm_tasks m - {i}, sm_cancelled := insert i (sm_cancelled m)\<rparr>)
      else (False, m))"

definition clean_subs :: "sub_manager \<Rightarrow> sub_manager" where
  "clean_subs m = m\<lparr>sm_tasks := {i \<in> sm_tasks m. i \<notin> sm_cancelled m}\<rparr>"

section \<open>Arguments of a subscription\<close>

datatype subscription_kind = Logs | NewHeads | Other_Kind string

definition interest_of_args :: "(string \<Rightarrow> 'e) \<Rightarrow> subscription_kind \<Rightarrow> 'f option \<Rightarrow> ('f interest_kind, 'e) rresult" where
  "interest_of_args invalid k flt =
     (case k of
        Logs \<Rightarrow> (case flt of Some f \<Rightarrow> Ok (Log_Kind f)
                 | None \<Rightarrow> Err (invalid ''missing filter for Logs subscription''))
      | NewHeads \<Rightarrow> (if flt \<noteq> None then Err (invalid ''filter not supported for NewHeads subscription'')
                     else Ok Block_Kind)
      | Other_Kind d \<Rightarrow> Err (invalid (''unsupported subscription kind: '' @ d)))"

text \<open>The parameters of \<^verbatim>\<open>eth_subscribe\<close>, and \<^verbatim>\<open>TryFrom<SubscribeArgs> for InterestKind\<close>.\<close>

datatype 'f subscribe_args = SubscribeArgs subscription_kind "'f option"

fun try_from_args :: "(string \<Rightarrow> 'e) \<Rightarrow> 'f subscribe_args \<Rightarrow> ('f interest_kind, 'e) rresult" where
  "try_from_args invalid (SubscribeArgs k flt) = interest_of_args invalid k flt"

section \<open>The task of one subscription\<close>

datatype 'l recv_result = Recv_Ok "'l chain_event" | Recv_Lagged u64 | Recv_Closed

text \<open>
  What is ready in one round: the client disconnected; the token was cancelled; the permits
  answered (\<open>Some False\<close> when the channel to the client is closed); an event arrived.
\<close>

record 'l select_round =
  sr_disconnected :: bool
  sr_cancelled :: bool
  sr_permits :: "bool option"
  sr_recv :: "'l recv_result option"

record ('f, 'l) sub_task =
  st_filter :: "'f interest_kind"
  st_buffer :: "('l, sub_header) event_buffer"
  st_sent :: "('l, sub_header) event_item list"
  st_token_cancelled :: bool
  st_running :: bool

definition sub_task_start :: "'f interest_kind \<Rightarrow> ('f, 'l) sub_task" where
  "sub_task_start k =
     \<lparr>st_filter = k, st_buffer = empty_output k, st_sent = [], st_token_cancelled = False,
      st_running = True\<rparr>"

definition event_output ::
  "(header \<Rightarrow> b256) \<Rightarrow> ('f \<Rightarrow> 'l \<Rightarrow> bool) \<Rightarrow> 'f interest_kind \<Rightarrow> 'l chain_event
     \<Rightarrow> (('l, sub_header) event_buffer, unit) rresult" where
  "event_output hash_slow matches k ev =
     (case ev of
        NewBlock n \<Rightarrow> filter_notification_for_sub hash_slow matches k n
      | Reorg_Event r \<Rightarrow> Ok (filter_reorg_for_sub matches k r))"

definition permits_wanted :: "usize \<Rightarrow> ('l, 'b) event_buffer \<Rightarrow> usize" where
  "permits_wanted capacity b = min (capacity div 2) (buf_len b)"

primrec send_items ::
  "nat \<Rightarrow> ('l, 'b) event_buffer \<Rightarrow> ('l, 'b) event_item list \<times> ('l, 'b) event_buffer" where
  "send_items 0 b = ([], b)"
| "send_items (Suc k) b =
     (case buf_pop_front b of
        (None, b1) \<Rightarrow> ([], b1)
      | (Some item, b1) \<Rightarrow> (case send_items k b1 of (items, b2) \<Rightarrow> (item # items, b2)))"

definition sub_step ::
  "(header \<Rightarrow> b256) \<Rightarrow> ('f \<Rightarrow> 'l \<Rightarrow> bool) \<Rightarrow> usize \<Rightarrow> 'l select_round \<Rightarrow> ('f, 'l) sub_task
     \<Rightarrow> (('f, 'l) sub_task, unit) rresult" where
  "sub_step hash_slow matches capacity rd st =
     (if sr_disconnected rd then Ok (st\<lparr>st_token_cancelled := True, st_running := False\<rparr>)
      else if sr_cancelled rd then Ok (st\<lparr>st_running := False\<rparr>)
      else if \<not> buf_is_empty (st_buffer st) \<and> sr_permits rd \<noteq> None then
        (if sr_permits rd = Some False then Ok (st\<lparr>st_running := False\<rparr>)
         else (case send_items (permits_wanted capacity (st_buffer st)) (st_buffer st) of
                 (items, b) \<Rightarrow> Ok (st\<lparr>st_sent := st_sent st @ items, st_buffer := b\<rparr>)))
      else
        (case sr_recv rd of
           None \<Rightarrow> Ok st
         | Some (Recv_Lagged skipped) \<Rightarrow> Ok st
         | Some Recv_Closed \<Rightarrow> Ok (st\<lparr>st_running := False\<rparr>)
         | Some (Recv_Ok ev) \<Rightarrow>
             rbind (event_output hash_slow matches (st_filter st) ev) (\<lambda>output.
               if buf_is_empty output then Ok st
               else rmap (\<lambda>b. st\<lparr>st_buffer := b\<rparr>) (buf_extend (st_buffer st) output))))"

fun sub_run ::
  "(header \<Rightarrow> b256) \<Rightarrow> ('f \<Rightarrow> 'l \<Rightarrow> bool) \<Rightarrow> usize \<Rightarrow> 'l select_round list \<Rightarrow> ('f, 'l) sub_task
     \<Rightarrow> (('f, 'l) sub_task, unit) rresult" where
  "sub_run hash_slow matches capacity [] st = Ok st"
| "sub_run hash_slow matches capacity (rd # rds) st =
     (if \<not> st_running st then Ok st
      else rbind (sub_step hash_slow matches capacity rd st) (sub_run hash_slow matches capacity rds))"

section \<open>Delivery\<close>

lemma send_items_pop_many: "send_items k b = evb.pop_many k b"
  by (induction k arbitrary: b) (auto split: prod.split option.split)

lemma send_items_takes:
  "\<exists>b'. send_items k b = (take k (buf_items b), b') \<and> buf_items b' = drop k (buf_items b) \<and> buf_same_kind b b'"
  using evb.pop_many_takes[of k b] by (simp add: send_items_pop_many)

text \<open>A buffer fits an interest kind when it carries its kind of items.\<close>

definition fits :: "'f interest_kind \<Rightarrow> ('l, 'b) event_buffer \<Rightarrow> bool" where
  "fits k b = buf_same_kind (empty_output k) b"

lemma fits_output:
  "event_output hash_slow matches k ev = Ok b \<Longrightarrow> fits k b"
  by (cases k; cases ev)
    (auto simp: event_output_def fits_def filter_notification_for_sub_def apply_block_def apply_filter_def
      filter_reorg_for_sub_def rres_simps)

lemma fits_kind: "fits k a \<Longrightarrow> buf_same_kind a b \<Longrightarrow> fits k b"
  unfolding fits_def by (rule evb.kind_trans)

lemma fits_same: "fits k a \<Longrightarrow> fits k b \<Longrightarrow> buf_same_kind a b"
  by (cases k; cases a; cases b) (auto simp: fits_def)

text \<open>The event a round takes off the channel, if any.\<close>

definition round_event :: "'l select_round \<Rightarrow> ('f, 'l) sub_task \<Rightarrow> 'l chain_event option" where
  "round_event rd st =
     (if sr_disconnected rd \<or> sr_cancelled rd \<or> (\<not> buf_is_empty (st_buffer st) \<and> sr_permits rd \<noteq> None)
      then None
      else (case sr_recv rd of Some (Recv_Ok ev) \<Rightarrow> Some ev | _ \<Rightarrow> None))"

fun taken_events ::
  "(header \<Rightarrow> b256) \<Rightarrow> ('f \<Rightarrow> 'l \<Rightarrow> bool) \<Rightarrow> usize \<Rightarrow> 'l select_round list \<Rightarrow> ('f, 'l) sub_task
     \<Rightarrow> 'l chain_event list" where
  "taken_events hash_slow matches capacity [] st = []"
| "taken_events hash_slow matches capacity (rd # rds) st =
     (if \<not> st_running st then []
      else (case round_event rd st of None \<Rightarrow> [] | Some ev \<Rightarrow> [ev])
        @ (case sub_step hash_slow matches capacity rd st of
             Ok st1 \<Rightarrow> taken_events hash_slow matches capacity rds st1 | _ \<Rightarrow> []))"

definition items_of ::
  "(header \<Rightarrow> b256) \<Rightarrow> ('f \<Rightarrow> 'l \<Rightarrow> bool) \<Rightarrow> 'f interest_kind \<Rightarrow> 'l chain_event \<Rightarrow> ('l, sub_header) event_item list" where
  "items_of hash_slow matches k ev =
     (case event_output hash_slow matches k ev of Ok b \<Rightarrow> buf_items b | _ \<Rightarrow> [])"

lemma sub_step_delivers:
  assumes "fits (st_filter st) (st_buffer st)" "sub_step hash_slow matches capacity rd st = Ok st1"
  shows "fits (st_filter st1) (st_buffer st1) \<and> st_filter st1 = st_filter st
    \<and> st_sent st1 @ buf_items (st_buffer st1) =
        st_sent st @ buf_items (st_buffer st)
        @ (case round_event rd st of None \<Rightarrow> [] | Some ev \<Rightarrow> items_of hash_slow matches (st_filter st) ev)"
proof (cases "round_event rd st")
  case (Some ev)
  then have c: "\<not> sr_disconnected rd" "\<not> sr_cancelled rd"
    "\<not> (\<not> buf_is_empty (st_buffer st) \<and> sr_permits rd \<noteq> None)" "sr_recv rd = Some (Recv_Ok ev)"
    by (auto simp: round_event_def split: if_splits option.splits recv_result.splits)
  obtain b where b: "event_output hash_slow matches (st_filter st) ev = Ok b"
    using assms(2) c unfolding sub_step_def
    by (cases "event_output hash_slow matches (st_filter st) ev") auto
  show ?thesis
  proof (cases "buf_is_empty b")
    case True
    then have "buf_items b = []" by (simp add: buf_is_empty_def buf_len_items)
    moreover have "st1 = st" using assms(2) c b True by (auto simp: sub_step_def)
    ultimately show ?thesis using assms(1) Some b by (simp add: items_of_def)
  next
    case False
    obtain q where q: "(buf_extend (st_buffer st) b :: (_, unit) rresult) = Ok q"
      "buf_items q = buf_items (st_buffer st) @ buf_items b" "buf_same_kind (st_buffer st) q"
      using evb.extend_items[OF fits_same[OF assms(1) fits_output[OF b]]] by blast
    have "st1 = st\<lparr>st_buffer := q\<rparr>" using assms(2) c b False q(1) by (auto simp: sub_step_def)
    then show ?thesis using q assms(1) fits_kind Some b by (auto simp: items_of_def)
  qed
next
  case None
  obtain b' where s: "send_items (permits_wanted capacity (st_buffer st)) (st_buffer st)
      = (take (permits_wanted capacity (st_buffer st)) (buf_items (st_buffer st)), b')"
    "buf_items b' = drop (permits_wanted capacity (st_buffer st)) (buf_items (st_buffer st))"
    "buf_same_kind (st_buffer st) b'"
    using send_items_takes by blast
  show ?thesis
    using None assms s fits_kind[OF assms(1) s(3)]
    by (auto simp: sub_step_def round_event_def split: if_splits option.splits recv_result.splits)
qed

lemma sub_run_delivers:
  "fits (st_filter st) (st_buffer st) \<Longrightarrow> sub_run hash_slow matches capacity rds st = Ok st' \<Longrightarrow>
     st_sent st' @ buf_items (st_buffer st') =
       st_sent st @ buf_items (st_buffer st)
       @ concat (map (items_of hash_slow matches (st_filter st)) (taken_events hash_slow matches capacity rds st))"
proof (induction rds arbitrary: st)
  case (Cons rd rds)
  show ?case
  proof (cases "st_running st")
    case True
    obtain st1 where st1: "sub_step hash_slow matches capacity rd st = Ok st1"
      and r: "sub_run hash_slow matches capacity rds st1 = Ok st'"
      using Cons.prems(2) True by (auto simp: rres_simps)
    note d = sub_step_delivers[OF Cons.prems(1) st1]
    show ?thesis
      using Cons.IH[OF conjunct1[OF d] r] d True st1 by (cases "round_event rd st") auto
  qed (use Cons.prems in auto)
qed simp

text \<open>
  C16: whatever the interleaving of events, permits and cancellation, a subscription sends
  a prefix of what its filter makes of the events it took off the channel, in their
  order, each item once; the rest is still in its buffer. Of every granted round with a
  capacity of at least two it sends something, and once its token is cancelled it sends nothing more and stops.
\<close>

theorem subscription_in_order:
  assumes "sub_run hash_slow matches capacity rds (sub_task_start k) = Ok st"
  shows "st_sent st @ buf_items (st_buffer st)
      = concat (map (items_of hash_slow matches k)
          (taken_events hash_slow matches capacity rds (sub_task_start k)))
    \<and> (sr_cancelled rd \<longrightarrow> (\<exists>st'. sub_step hash_slow matches capacity rd st = Ok st'
         \<and> \<not> st_running st' \<and> st_sent st' = st_sent st))
    \<and> (2 \<le> capacity \<longrightarrow> \<not> buf_is_empty (st_buffer st) \<longrightarrow> sr_permits rd = Some True \<longrightarrow>
         \<not> sr_cancelled rd \<longrightarrow> \<not> sr_disconnected rd \<longrightarrow>
         (\<exists>st'. sub_step hash_slow matches capacity rd st = Ok st' \<and> length (st_sent st) < length (st_sent st')))"
proof -
  have "fits k (empty_output k :: ('b, sub_header) event_buffer)" by (simp add: fits_def evb.kind_refl)
  then have "st_sent st @ buf_items (st_buffer st)
      = concat (map (items_of hash_slow matches k)
          (taken_events hash_slow matches capacity rds (sub_task_start k)))"
    using sub_run_delivers[OF _ assms] by (cases k) (simp_all add: sub_task_start_def)
  moreover have "\<exists>st'. sub_step hash_slow matches capacity rd st = Ok st' \<and> length (st_sent st) < length (st_sent st')"
    if "2 \<le> capacity" "\<not> buf_is_empty (st_buffer st)" "sr_permits rd = Some True"
      "\<not> sr_cancelled rd" "\<not> sr_disconnected rd"
  proof -
    obtain b' where "send_items (permits_wanted capacity (st_buffer st)) (st_buffer st)
      = (take (permits_wanted capacity (st_buffer st)) (buf_items (st_buffer st)), b')"
      using send_items_takes by blast
    moreover have "0 < permits_wanted capacity (st_buffer st)" "buf_items (st_buffer st) \<noteq> []"
      using that(1,2) by (auto simp: permits_wanted_def buf_is_empty_def buf_len_items)
    ultimately show ?thesis using that by (simp add: sub_step_def)
  qed
  ultimately show ?thesis by (auto simp: sub_step_def)
qed

definition ex_sub_log :: "nat rpc_log" where
  "ex_sub_log = \<lparr>rl_inner = 7, rl_block_hash = None, rl_block_number = Some 2, rl_block_timestamp = None,
     rl_transaction_hash = None, rl_transaction_index = None, rl_log_index = None, rl_removed = False\<rparr>"

definition ex_rounds :: "nat select_round list" where
  "ex_rounds =
     [\<lparr>sr_disconnected = False, sr_cancelled = False, sr_permits = None,
        sr_recv = Some (Recv_Ok (Reorg_Event \<lparr>common_ancestor = 1, removed_blocks =
          [\<lparr>rm_number = 2, rm_hash = 2, rm_timestamp = 0, rm_logs = [ex_sub_log]\<rparr>]\<rparr>))\<rparr>,
      \<lparr>sr_disconnected = False, sr_cancelled = False, sr_permits = Some True, sr_recv = None\<rparr>]"

theorem subscription_in_order_witness:
  "\<exists>st. sub_run h_parent_hash (\<lambda>f l. f = l) 4 ex_rounds (sub_task_start (Log_Kind 7)) = Ok st
     \<and> st_sent st @ buf_items (st_buffer st) = [Log_Item (mark_removed ex_sub_log)]"
proof -
  obtain st where st: "sub_run h_parent_hash (\<lambda>f l. f = l) 4 ex_rounds (sub_task_start (Log_Kind 7)) = Ok st"
    by (simp add: ex_rounds_def sub_step_def sub_task_start_def buf_is_empty_def event_output_def
        filter_reorg_for_sub_def ex_sub_log_def permits_wanted_def)
  have "concat (map (items_of h_parent_hash (\<lambda>f l. f = l) (Log_Kind 7))
      (taken_events h_parent_hash (\<lambda>f l. f = l) 4 ex_rounds (sub_task_start (Log_Kind 7)))) = [Log_Item (mark_removed ex_sub_log)]"
    by (simp add: ex_rounds_def sub_step_def sub_task_start_def buf_is_empty_def event_output_def
        filter_reorg_for_sub_def ex_sub_log_def permits_wanted_def round_event_def items_of_def)
  then show ?thesis using subscription_in_order[OF st] st by auto
qed

end
