(* ===== verification/Eth_Error.thy ===== *)
theory Eth_Error
  imports Chain_Data
begin

text \<open>
  Errors of the RPC server (\<^verbatim>\<open>rpc/src/config/resolve.rs\<close>, \<^verbatim>\<open>rpc/src/eth/error.rs\<close>) and the JSON-RPC
  payload each becomes. Messages of the storage crates are strings; printing a hash or a
  block id is alloy's \<^verbatim>\<open>Display\<close>, given by the parameters \<open>show_hash\<close> and \<open>show_id\<close>.
\<close>

datatype resolve_error = Resolve_Storage string | Resolve_Db string | HashNotFound b256

datatype eth_error =
    Cold string
  | Hot string
  | Resolve resolve_error
  | BlockNotFound block_id
  | TransactionMissing b256
  | EvmRevert "u8 list"
  | EvmHalt string
  | InvalidParams string
  | Internal string

definition task_panic :: eth_error where
  "task_panic = Internal ''task panicked or cancelled''"

fun resolve_error_code :: "resolve_error \<Rightarrow> int" where
  "resolve_error_code (HashNotFound h) = -32001"
| "resolve_error_code (Resolve_Storage e) = -32000"
| "resolve_error_code (Resolve_Db e) = -32000"

fun resolve_error_message :: "(b256 \<Rightarrow> string) \<Rightarrow> resolve_error \<Rightarrow> string" where
  "resolve_error_message show_hash (HashNotFound h) = ''block hash not found: '' @ show_hash h"
| "resolve_error_message show_hash (Resolve_Storage e) = ''server error''"
| "resolve_error_message show_hash (Resolve_Db e) = ''server error''"

fun error_code :: "eth_error \<Rightarrow> int" where
  "error_code (Cold e) = -32000"
| "error_code (Hot e) = -32000"
| "error_code (Resolve r) = resolve_error_code r"
| "error_code (BlockNotFound i) = -32001"
| "error_code (TransactionMissing h) = -32001"
| "error_code (EvmRevert out) = 3"
| "error_code (EvmHalt r) = -32000"
| "error_code (InvalidParams m) = -32602"
| "error_code (Internal m) = -32000"

fun error_message :: "(b256 \<Rightarrow> string) \<Rightarrow> (block_id \<Rightarrow> string) \<Rightarrow> eth_error \<Rightarrow> string" where
  "error_message show_hash show_id (Cold e) = ''server error''"
| "error_message show_hash show_id (Hot e) = ''server error''"
| "error_message show_hash show_id (Resolve r) = resolve_error_message show_hash r"
| "error_message show_hash show_id (BlockNotFound i) = ''block not found: '' @ show_id i"
| "error_message show_hash show_id (TransactionMissing h) = ''transaction not found: '' @ show_hash h"
| "error_message show_hash show_id (EvmRevert out) = ''execution reverted''"
| "error_message show_hash show_id (EvmHalt r) = ''execution halted: '' @ r"
| "error_message show_hash show_id (InvalidParams m) = m"
| "error_message show_hash show_id (Internal m) = m"

fun error_data :: "eth_error \<Rightarrow> u8 list option" where
  "error_data (EvmRevert out) = Some out"
| "error_data _ = None"

definition storage_failure :: "eth_error \<Rightarrow> bool" where
  "storage_failure e = (case e of Cold _ \<Rightarrow> True | Hot _ \<Rightarrow> True
     | Resolve (Resolve_Storage _) \<Rightarrow> True | Resolve (Resolve_Db _) \<Rightarrow> True | _ \<Rightarrow> False)"

text \<open>
  The payload of an error does not reveal what the storage layer said: two errors
  that differ only in the message of hot storage, cold storage or a failed database lookup
  have the same code, message and data; revert data is sent with exactly the errors of
  code 3, and code -32001 means that the named block, hash or transaction is unknown.
\<close>

theorem error_payload_opaque:
  "(storage_failure e \<longrightarrow> error_code e = -32000 \<and> error_message sh si e = ''server error'' \<and> error_data e = None)
   \<and> (error_data e \<noteq> None \<longleftrightarrow> error_code e = 3)
   \<and> (error_code e = -32001 \<longleftrightarrow> (\<exists>i. e = BlockNotFound i) \<or> (\<exists>h. e = TransactionMissing h \<or> e = Resolve (HashNotFound h)))
   \<and> (error_code e = -32602 \<longleftrightarrow> (\<exists>m. e = InvalidParams m))"
proof (cases e)
  case (Resolve r)
  then show ?thesis by (cases r) (auto simp: storage_failure_def)
qed (auto simp: storage_failure_def)

theorem error_payload_opaque_witness:
  "storage_failure (Cold ''disk full'')
     \<and> error_message (\<lambda>_. []) (\<lambda>_. []) (Cold ''disk full'') = ''server error''"
proof -
  have "storage_failure (Cold ''disk full'')" by (simp add: storage_failure_def)
  then show ?thesis
    using error_payload_opaque[of "Cold ''disk full''" "\<lambda>_. []" "\<lambda>_. []"] by blast
qed

section \<open>Results of handlers\<close>

type_synonym 'a eth_result = "('a, eth_error) rresult"

text \<open>
  \<^verbatim>\<open>await_handler!\<close>: a handler that panicked or was cancelled answers \<open>task_panic\<close>.
\<close>

fun await_handler :: "'a eth_result \<Rightarrow> 'a eth_result" where
  "await_handler Panic = Err task_panic"
| "await_handler r = r"

lemma await_handler_Ok [rres_simps]: "await_handler r = Ok a \<longleftrightarrow> r = Ok a"
  by (cases r) auto

lemma await_handler_no_panic [simp]: "await_handler r \<noteq> Panic"
  by (cases r) auto

text \<open>\<^verbatim>\<open>?\<close> on a storage call: its error becomes the given constructor.\<close>

definition storage_call :: "(string \<Rightarrow> eth_error) \<Rightarrow> (string + 'a) \<Rightarrow> 'a eth_result" where
  "storage_call wrap r = (case r of Inl e \<Rightarrow> Err (wrap e) | Inr a \<Rightarrow> Ok a)"

lemma storage_call_Ok [rres_simps]: "storage_call wrap r = Ok a \<longleftrightarrow> r = Inr a"
  by (auto simp: storage_call_def split: sum.split)

lemma storage_call_Inr [simp]: "storage_call wrap (Inr a) = Ok a"
  and storage_call_Inl [simp]: "storage_call wrap (Inl e) = Err (wrap e)"
  by (simp_all add: storage_call_def)

end
