(* ===== verification/Rpc_Tags.thy ===== *)
theory Rpc_Tags
  imports Chain_Data
begin

text \<open>
  Block tags (\<^verbatim>\<open>rpc/src/config/resolve.rs\<close>). Each tag is an atomic of its own, so a multi-tag
  update is a sequence of atomic steps, and a reader may load any tag between any two of
  them. \<open>update_all\<close> and \<open>rewind_to\<close> are therefore given by their steps.
\<close>

record sync_status =
  starting_block :: u64
  current_block :: u64
  highest_block :: u64

record block_tags =
  tag_latest :: u64
  tag_safe :: u64
  tag_finalized :: u64
  tag_sync_status :: "sync_status option"

definition BlockTags_new :: "u64 \<Rightarrow> u64 \<Rightarrow> u64 \<Rightarrow> block_tags" where
  "BlockTags_new latest safe finalized =
     \<lparr>tag_latest = latest, tag_safe = safe, tag_finalized = finalized, tag_sync_status = None\<rparr>"

definition set_latest :: "u64 \<Rightarrow> block_tags \<Rightarrow> block_tags" where
  "set_latest k t = t\<lparr>tag_latest := k\<rparr>"

definition set_safe :: "u64 \<Rightarrow> block_tags \<Rightarrow> block_tags" where
  "set_safe k t = t\<lparr>tag_safe := k\<rparr>"

definition set_finalized :: "u64 \<Rightarrow> block_tags \<Rightarrow> block_tags" where
  "set_finalized k t = t\<lparr>tag_finalized := k\<rparr>"

section \<open>Updates as atomic steps\<close>

type_synonym tag_step = "block_tags \<Rightarrow> block_tags"

definition update_all_steps :: "u64 \<Rightarrow> u64 \<Rightarrow> u64 \<Rightarrow> tag_step list" where
  "update_all_steps latest safe finalized = [set_finalized finalized, set_safe safe, set_latest latest]"

definition rewind_to_steps :: "u64 \<Rightarrow> tag_step list" where
  "rewind_to_steps ancestor =
     [(\<lambda>t. t\<lparr>tag_finalized := min (tag_finalized t) ancestor\<rparr>),
      (\<lambda>t. t\<lparr>tag_safe := min (tag_safe t) ancestor\<rparr>),
      (\<lambda>t. t\<lparr>tag_latest := min (tag_latest t) ancestor\<rparr>)]"

definition run_steps :: "tag_step list \<Rightarrow> block_tags \<Rightarrow> block_tags" where
  "run_steps ss t = fold (\<lambda>s. s) ss t"

definition update_all :: "u64 \<Rightarrow> u64 \<Rightarrow> u64 \<Rightarrow> block_tags \<Rightarrow> block_tags" where
  "update_all latest safe finalized = run_steps (update_all_steps latest safe finalized)"

definition rewind_to :: "u64 \<Rightarrow> block_tags \<Rightarrow> block_tags" where
  "rewind_to ancestor = run_steps (rewind_to_steps ancestor)"

section \<open>Sync status\<close>

definition is_syncing :: "block_tags \<Rightarrow> bool" where
  "is_syncing t = (tag_sync_status t \<noteq> None)"

definition set_sync_status :: "sync_status \<Rightarrow> block_tags \<Rightarrow> block_tags" where
  "set_sync_status st t = t\<lparr>tag_sync_status := Some st\<rparr>"

definition clear_sync_status :: "block_tags \<Rightarrow> block_tags" where
  "clear_sync_status t = t\<lparr>tag_sync_status := None\<rparr>"

section \<open>What readers can see\<close>

definition tags_ordered :: "block_tags \<Rightarrow> bool" where
  "tags_ordered t \<longleftrightarrow> tag_finalized t \<le> tag_safe t \<and> tag_safe t \<le> tag_latest t"

text \<open>
  A reader loads \<open>finalized\<close> after \<open>i\<close> steps of an update and \<open>latest\<close> after \<open>j\<close>; the view
  is inverted when the first lies above the second.
\<close>

definition inverted_at :: "tag_step list \<Rightarrow> block_tags \<Rightarrow> nat \<Rightarrow> nat \<Rightarrow> bool" where
  "inverted_at ss t i j \<longleftrightarrow>
     tag_finalized (run_steps (take i ss) t) > tag_latest (run_steps (take j ss) t)"

lemma finalized_during_update:
  "tag_finalized (run_steps (take i (update_all_steps l s f)) t) = (if i = 0 then tag_finalized t else f)"
  by (cases i; cases "i - 1"; cases "i - 2")
    (simp_all add: update_all_steps_def run_steps_def set_finalized_def set_safe_def set_latest_def
      take_Cons' split: nat.split)

lemma latest_during_update:
  "tag_latest (run_steps (take j (update_all_steps l s f)) t) = (if j < 3 then tag_latest t else l)"
  by (simp add: update_all_steps_def run_steps_def set_finalized_def set_safe_def set_latest_def
      take_Cons')

lemma finalized_during_rewind:
  "tag_finalized (run_steps (take i (rewind_to_steps a)) t) =
     (if i = 0 then tag_finalized t else min (tag_finalized t) a)"
  by (simp add: rewind_to_steps_def run_steps_def take_Cons')

lemma latest_during_rewind:
  "tag_latest (run_steps (take j (rewind_to_steps a)) t) =
     (if j < 3 then tag_latest t else min (tag_latest t) a)"
  by (simp add: rewind_to_steps_def run_steps_def take_Cons')

lemma update_all_result:
  "update_all l s f t = t\<lparr>tag_latest := l, tag_safe := s, tag_finalized := f\<rparr>"
  by (simp add: update_all_def update_all_steps_def run_steps_def set_finalized_def set_safe_def
      set_latest_def)

lemma rewind_to_result:
  "rewind_to a t = t\<lparr>tag_latest := min (tag_latest t) a, tag_safe := min (tag_safe t) a,
     tag_finalized := min (tag_finalized t) a\<rparr>"
  by (simp add: rewind_to_def rewind_to_steps_def run_steps_def)

lemma update_all_ordered: "f \<le> s \<Longrightarrow> s \<le> l \<Longrightarrow> tags_ordered (update_all l s f t)"
  by (simp add: tags_ordered_def update_all_result)

lemma rewind_to_ordered: "tags_ordered t \<Longrightarrow> tags_ordered (rewind_to a t)"
  by (auto simp: tags_ordered_def rewind_to_result)

text \<open>
  C31: \<^verbatim>\<open>rewind_to\<close> caps every tag at the ancestor, keeps finalized, safe and latest in order after each of
  its atomic steps, and a reader never sees an inverted view unless it loaded \<^verbatim>\<open>finalized\<close> before the first step
  and \<^verbatim>\<open>latest\<close> after the last one.
\<close>

theorem rewind_never_inverts:
  assumes "tags_ordered t"
  shows "tags_ordered (run_steps (take k (rewind_to_steps a)) t)
    \<and> tag_latest (rewind_to a t) \<le> a \<and> tag_safe (rewind_to a t) \<le> a \<and> tag_finalized (rewind_to a t) \<le> a
    \<and> (inverted_at (rewind_to_steps a) t i j \<longrightarrow> i = 0 \<and> 3 \<le> j \<and> a < tag_finalized t)"
proof -
  have "tags_ordered (run_steps (take k (rewind_to_steps a)) t)"
    using assms by (auto simp: rewind_to_steps_def run_steps_def take_Cons' tags_ordered_def)
  moreover have "inverted_at (rewind_to_steps a) t i j \<longrightarrow> i = 0 \<and> 3 \<le> j \<and> a < tag_finalized t"
    using assms
    by (auto simp: inverted_at_def finalized_during_rewind latest_during_rewind tags_ordered_def
        split: if_splits)
  ultimately show ?thesis by (simp add: rewind_to_result)
qed

theorem rewind_never_inverts_witness:
  "tags_ordered (run_steps (take 1 (rewind_to_steps 92)) (BlockTags_new 100 95 90))
     \<and> tag_latest (rewind_to 92 (BlockTags_new 100 95 90)) \<le> 92"
proof -
  have "tags_ordered (BlockTags_new 100 95 90)" by (simp add: tags_ordered_def BlockTags_new_def)
  from rewind_never_inverts[OF this, of 1 92 0 0] show ?thesis by simp
qed

text \<open>
  During an \<^verbatim>\<open>update_all\<close> that moves ordered tags forward, no reader ever sees
  \<^verbatim>\<open>finalized\<close> above \<^verbatim>\<open>latest\<close> exactly when the new finalized number does not exceed the
  old latest number: an update that finalizes a block that was not yet the latest one
  exposes an inverted view between its first and its last store.
\<close>

theorem update_inversion_iff:
  assumes "tags_ordered t" "f \<le> s" "s \<le> l" "tag_latest t \<le> l"
  shows "(\<forall>i j. \<not> inverted_at (update_all_steps l s f) t i j) \<longleftrightarrow> f \<le> tag_latest t"
proof
  assume "\<forall>i j. \<not> inverted_at (update_all_steps l s f) t i j"
  then have "\<not> inverted_at (update_all_steps l s f) t 1 1" by blast
  then show "f \<le> tag_latest t"
    by (simp add: inverted_at_def finalized_during_update latest_during_update)
next
  assume "f \<le> tag_latest t"
  then show "\<forall>i j. \<not> inverted_at (update_all_steps l s f) t i j"
    using assms
    by (auto simp: inverted_at_def finalized_during_update latest_during_update tags_ordered_def)
qed

theorem update_inversion_iff_witness:
  "\<not> (\<forall>i j. \<not> inverted_at (update_all_steps 200 195 190) (BlockTags_new 100 95 90) i j)"
proof -
  have "tags_ordered (BlockTags_new 100 95 90)" by (simp add: tags_ordered_def BlockTags_new_def)
  from update_inversion_iff[OF this, of 190 195 200] show ?thesis by (simp add: BlockTags_new_def)
qed

section \<open>The gas oracle cache\<close>

text \<open>
  \<^verbatim>\<open>GasOracleCache\<close> (\<^verbatim>\<open>rpc/src/config/mod.rs\<close>): the tip of one block; a price that does not
  fit 64 bits is stored as the maximum. The two stores of \<open>set\<close> are atomic steps again.
\<close>

record gas_oracle_cache =
  gc_block :: u64
  gc_tip :: u64

definition gas_cache_new :: gas_oracle_cache where
  "gas_cache_new = \<lparr>gc_block = u64_max, gc_tip = 0\<rparr>"

definition gas_cache_get :: "u64 \<Rightarrow> gas_oracle_cache \<Rightarrow> nat option" where
  "gas_cache_get current c = (if gc_block c = current then Some (gc_tip c) else None)"

definition gas_cache_set :: "u64 \<Rightarrow> nat \<Rightarrow> gas_oracle_cache \<Rightarrow> gas_oracle_cache" where
  "gas_cache_set block tip c =
     (let c1 = c\<lparr>gc_tip := (if tip \<le> u64_max then tip else u64_max)\<rparr> in c1\<lparr>gc_block := block\<rparr>)"

lemma gas_cache_set_get [simp]:
  "gas_cache_get b (gas_cache_set b' tip c) = (if b = b' then Some (min tip u64_max) else None)"
  by (simp add: gas_cache_get_def gas_cache_set_def min_def)

lemma gas_cache_new_get: "b < u64_max \<Longrightarrow> gas_cache_get b gas_cache_new = None"
  by (simp add: gas_cache_get_def gas_cache_new_def)

end
