(* ===== verification/Rpc_Config.thy ===== *)
theory Rpc_Config
  imports Node_Prelude
begin

text \<open>
  Configuration of the RPC server (\<^verbatim>\<open>rpc/src/config/rpc_config.rs\<close>): the settings with their
  defaults, the builder, and the conversion from environment variables. A duration is a
  number of milliseconds. IEEE arithmetic is a parameter, the record \<open>f64_ops\<close>, wherever
  the code computes with \<^verbatim>\<open>f64\<close>; the constants it uses are whole numbers, which \<^verbatim>\<open>f64\<close> represents exactly.
\<close>

type_synonym u128 = nat
type_synonym duration = nat

record 'f f64_ops =
  f_of_u64 :: "u64 \<Rightarrow> 'f"
  f_mul :: "'f \<Rightarrow> 'f \<Rightarrow> 'f"
  f_div :: "'f \<Rightarrow> 'f \<Rightarrow> 'f"
  f_to_u64 :: "'f \<Rightarrow> u64"
  f_gt :: "'f \<Rightarrow> 'f \<Rightarrow> bool"

definition from_secs :: "u64 \<Rightarrow> duration" where "from_secs s = s * 1000"

record 'f storage_rpc_config =
  rpc_gas_cap :: u64
  max_blocks_per_filter :: u64
  max_logs_per_response :: usize
  max_log_query_deadline :: duration
  max_tracing_requests :: usize
  max_trace_filter_blocks :: u64
  stale_filter_ttl :: duration
  gas_oracle_block_count :: u64
  gas_oracle_percentile :: "'f"
  default_gas_price :: "u128 option"
  ignore_price :: "u128 option"
  max_price :: "u128 option"
  max_header_history :: u64
  max_block_history :: u64
  default_bundle_timeout_ms :: u64

definition StorageRpcConfig_default :: "'f f64_ops \<Rightarrow> 'f storage_rpc_config" where
  "StorageRpcConfig_default F =
     \<lparr>rpc_gas_cap = 30000000,
      max_blocks_per_filter = 10000,
      max_logs_per_response = 20000,
      max_log_query_deadline = from_secs 10,
      max_tracing_requests = 25,
      max_trace_filter_blocks = 100,
      stale_filter_ttl = from_secs (5 * 60),
      gas_oracle_block_count = 20,
      gas_oracle_percentile = f_of_u64 F 60,
      default_gas_price = Some 1000000000,
      ignore_price = Some 2,
      max_price = Some 500000000000,
      max_header_history = 1024,
      max_block_history = 1024,
      default_bundle_timeout_ms = 1000\<rparr>"

section \<open>The builder\<close>

text \<open>The builder wraps a configuration, by default the default one; \<open>build\<close> unwraps it.\<close>

definition config_builder :: "'f f64_ops \<Rightarrow> 'f storage_rpc_config" where
  "config_builder F = StorageRpcConfig_default F"

definition config_build :: "'f storage_rpc_config \<Rightarrow> 'f storage_rpc_config" where
  "config_build b = b"

definition set_rpc_gas_cap :: "u64 \<Rightarrow> 'f storage_rpc_config \<Rightarrow> 'f storage_rpc_config" where
  "set_rpc_gas_cap v b = b\<lparr>rpc_gas_cap := v\<rparr>"

definition set_max_blocks_per_filter :: "u64 \<Rightarrow> 'f storage_rpc_config \<Rightarrow> 'f storage_rpc_config" where
  "set_max_blocks_per_filter v b = b\<lparr>max_blocks_per_filter := v\<rparr>"

definition set_max_logs_per_response :: "usize \<Rightarrow> 'f storage_rpc_config \<Rightarrow> 'f storage_rpc_config" where
  "set_max_logs_per_response v b = b\<lparr>max_logs_per_response := v\<rparr>"

definition set_max_log_query_deadline :: "duration \<Rightarrow> 'f storage_rpc_config \<Rightarrow> 'f storage_rpc_config" where
  "set_max_log_query_deadline v b = b\<lparr>max_log_query_deadline := v\<rparr>"

definition set_max_tracing_requests :: "usize \<Rightarrow> 'f storage_rpc_config \<Rightarrow> 'f storage_rpc_config" where
  "set_max_tracing_requests v b = b\<lparr>max_tracing_requests := v\<rparr>"

definition set_max_trace_filter_blocks :: "u64 \<Rightarrow> 'f storage_rpc_config \<Rightarrow> 'f storage_rpc_config" where
  "set_max_trace_filter_blocks v b = b\<lparr>max_trace_filter_blocks := v\<rparr>"

definition set_stale_filter_ttl :: "duration \<Rightarrow> 'f storage_rpc_config \<Rightarrow> 'f storage_rpc_config" where
  "set_stale_filter_ttl v b = b\<lparr>stale_filter_ttl := v\<rparr>"

definition set_gas_oracle_block_count :: "u64 \<Rightarrow> 'f storage_rpc_config \<Rightarrow> 'f storage_rpc_config" where
  "set_gas_oracle_block_count v b = b\<lparr>gas_oracle_block_count := v\<rparr>"

definition set_gas_oracle_percentile :: "'f \<Rightarrow> 'f storage_rpc_config \<Rightarrow> 'f storage_rpc_config" where
  "set_gas_oracle_percentile v b = b\<lparr>gas_oracle_percentile := v\<rparr>"

definition set_default_gas_price :: "u128 option \<Rightarrow> 'f storage_rpc_config \<Rightarrow> 'f storage_rpc_config" where
  "set_default_gas_price v b = b\<lparr>default_gas_price := v\<rparr>"

definition set_ignore_price :: "u128 option \<Rightarrow> 'f storage_rpc_config \<Rightarrow> 'f storage_rpc_config" where
  "set_ignore_price v b = b\<lparr>ignore_price := v\<rparr>"

definition set_max_price :: "u128 option \<Rightarrow> 'f storage_rpc_config \<Rightarrow> 'f storage_rpc_config" where
  "set_max_price v b = b\<lparr>max_price := v\<rparr>"

definition set_max_header_history :: "u64 \<Rightarrow> 'f storage_rpc_config \<Rightarrow> 'f storage_rpc_config" where
  "set_max_header_history v b = b\<lparr>max_header_history := v\<rparr>"

definition set_max_block_history :: "u64 \<Rightarrow> 'f storage_rpc_config \<Rightarrow> 'f storage_rpc_config" where
  "set_max_block_history v b = b\<lparr>max_block_history := v\<rparr>"

definition set_default_bundle_timeout_ms :: "u64 \<Rightarrow> 'f storage_rpc_config \<Rightarrow> 'f storage_rpc_config" where
  "set_default_bundle_timeout_ms v b = b\<lparr>default_bundle_timeout_ms := v\<rparr>"

lemmas config_setters = set_rpc_gas_cap_def set_max_blocks_per_filter_def set_max_logs_per_response_def set_max_log_query_deadline_def set_max_tracing_requests_def set_max_trace_filter_blocks_def set_stale_filter_ttl_def set_gas_oracle_block_count_def set_gas_oracle_percentile_def set_default_gas_price_def set_ignore_price_def set_max_price_def set_max_header_history_def set_max_block_history_def set_default_bundle_timeout_ms_def

section \<open>Environment variables\<close>

record storage_rpc_config_env =
  env_rpc_gas_cap :: "u64 option"
  env_max_blocks_per_filter :: "u64 option"
  env_max_logs_per_response :: "u64 option"
  env_max_log_query_deadline_secs :: "u64 option"
  env_max_tracing_requests :: "u64 option"
  env_max_trace_filter_blocks :: "u64 option"
  env_stale_filter_ttl_secs :: "u64 option"
  env_gas_oracle_block_count :: "u64 option"
  env_gas_oracle_percentile :: "u64 option"
  env_default_gas_price :: "u128 option"
  env_ignore_price :: "u128 option"
  env_max_price :: "u128 option"
  env_max_header_history :: "u64 option"
  env_max_block_history :: "u64 option"
  env_default_bundle_timeout_ms :: "u64 option"

definition nonzero :: "u128 \<Rightarrow> u128 option" where
  "nonzero v = (if v = 0 then None else Some v)"

definition map_or :: "'b \<Rightarrow> ('a \<Rightarrow> 'b) \<Rightarrow> 'a option \<Rightarrow> 'b" where
  "map_or d f m = (case m of None \<Rightarrow> d | Some a \<Rightarrow> f a)"

definition config_from_env :: "'f f64_ops \<Rightarrow> storage_rpc_config_env \<Rightarrow> 'f storage_rpc_config" where
  "config_from_env F env =
     (let defaults = StorageRpcConfig_default F in
     \<lparr>rpc_gas_cap = map_or (rpc_gas_cap defaults) (\<lambda>v. v) (env_rpc_gas_cap env),
      max_blocks_per_filter = map_or (max_blocks_per_filter defaults) (\<lambda>v. v) (env_max_blocks_per_filter env),
      max_logs_per_response = map_or (max_logs_per_response defaults) (\<lambda>v. v) (env_max_logs_per_response env),
      max_log_query_deadline = map_or (max_log_query_deadline defaults) from_secs (env_max_log_query_deadline_secs env),
      max_tracing_requests = map_or (max_tracing_requests defaults) (\<lambda>v. v) (env_max_tracing_requests env),
      max_trace_filter_blocks = map_or (max_trace_filter_blocks defaults) (\<lambda>v. v) (env_max_trace_filter_blocks env),
      stale_filter_ttl = map_or (stale_filter_ttl defaults) from_secs (env_stale_filter_ttl_secs env),
      gas_oracle_block_count = map_or (gas_oracle_block_count defaults) (\<lambda>v. v) (env_gas_oracle_block_count env),
      gas_oracle_percentile = map_or (gas_oracle_percentile defaults) (f_of_u64 F) (env_gas_oracle_percentile env),
      default_gas_price = map_or (default_gas_price defaults) nonzero (env_default_gas_price env),
      ignore_price = map_or (ignore_price defaults) nonzero (env_ignore_price env),
      max_price = map_or (max_price defaults) nonzero (env_max_price env),
      max_header_history = map_or (max_header_history defaults) (\<lambda>v. v) (env_max_header_history env),
      max_block_history = map_or (max_block_history defaults) (\<lambda>v. v) (env_max_block_history env),
      default_bundle_timeout_ms = map_or (default_bundle_timeout_ms defaults) (\<lambda>v. v) (env_default_bundle_timeout_ms env)\<rparr>)"

text \<open>Variables that are not set leave the builder's defaults.\<close>

lemma config_from_env_unset:
  "config_from_env F \<lparr>env_rpc_gas_cap = None, env_max_blocks_per_filter = None, env_max_logs_per_response = None,
      env_max_log_query_deadline_secs = None, env_max_tracing_requests = None, env_max_trace_filter_blocks = None,
      env_stale_filter_ttl_secs = None, env_gas_oracle_block_count = None, env_gas_oracle_percentile = None,
      env_default_gas_price = None, env_ignore_price = None, env_max_price = None, env_max_header_history = None,
      env_max_block_history = None, env_default_bundle_timeout_ms = None\<rparr>
   = config_build (config_builder F)"
  by (simp add: config_from_env_def map_or_def config_build_def config_builder_def
      StorageRpcConfig_default_def Let_def)

text \<open>A percentile arithmetic to compute examples with: whole numbers.\<close>

definition ex_f64 :: "nat f64_ops" where
  "ex_f64 = \<lparr>f_of_u64 = (\<lambda>k. k), f_mul = (*), f_div = (div), f_to_u64 = (\<lambda>k. k), f_gt = (>)\<rparr>"

end
