(* ===== verification/Rpc_Ctx.thy ===== *)
theory Rpc_Ctx
  imports Eth_Error Rpc_Tags Rpc_Config
begin

text \<open>
  The RPC context (\<^verbatim>\<open>rpc/src/config/ctx.rs\<close>) and the helpers that resolve a block id
  (\<^verbatim>\<open>rpc/src/eth/helpers.rs\<close>). Hot storage is a parameter: \<open>hot_tx\<close> is one read transaction,
  a snapshot, and opening one may fail. The base-fee rule, the hardfork of a header and the
  slot duration are alloy's and signet-types'.
\<close>

record account =
  acct_balance :: b256
  acct_nonce :: u64
  acct_bytecode_hash :: "b256 option"

text \<open>A sealed header: its hash and the header.\<close>

type_synonym sealed_header = "b256 \<times> header"

record hot_tx =
  get_header_number :: "b256 \<Rightarrow> string + u64 option"
  header_by_hash :: "b256 \<Rightarrow> string + sealed_header option"
  get_header :: "u64 \<Rightarrow> string + sealed_header option"
  get_account_at_height :: "address \<Rightarrow> u64 \<Rightarrow> string + account option"
  get_storage_at_height :: "address \<Rightarrow> b256 \<Rightarrow> u64 \<Rightarrow> string + b256 option"
  get_bytecode :: "b256 \<Rightarrow> string + u8 list option"

record 'f rpc_ctx =
  cx_hot_reader :: "string + hot_tx"
  cx_tags :: block_tags
  cx_config :: "'f storage_rpc_config"
  cx_chain_id :: u64
  cx_slot_duration :: u64
  cx_next_block_base_fee :: "header \<Rightarrow> u64 option"
  cx_spec_id :: "header \<Rightarrow> nat"

section \<open>Resolution\<close>

fun resolve_block_tag :: "block_tags \<Rightarrow> block_number_or_tag \<Rightarrow> u64" where
  "resolve_block_tag t Latest = tag_latest t"
| "resolve_block_tag t Pending = tag_latest t"
| "resolve_block_tag t Safe = tag_safe t"
| "resolve_block_tag t Finalized = tag_finalized t"
| "resolve_block_tag t Earliest = 0"
| "resolve_block_tag t (Number n) = n"

definition resolve_call :: "(string \<Rightarrow> resolve_error) \<Rightarrow> (string + 'a) \<Rightarrow> ('a, resolve_error) rresult" where
  "resolve_call wrap r = (case r of Inl e \<Rightarrow> Err (wrap e) | Inr a \<Rightarrow> Ok a)"

lemma resolve_call_simps [simp]:
  "resolve_call wrap (Inr a) = Ok a" "resolve_call wrap (Inl e) = Err (wrap e)"
  by (simp_all add: resolve_call_def)

definition resolve_block_id :: "'f rpc_ctx \<Rightarrow> block_id \<Rightarrow> (u64, resolve_error) rresult" where
  "resolve_block_id cx i =
     (case i of
        BlockId_Number tag \<Rightarrow> Ok (resolve_block_tag (cx_tags cx) tag)
      | BlockId_Hash h \<Rightarrow>
          rbind (resolve_call Resolve_Storage (cx_hot_reader cx)) (\<lambda>reader.
          rbind (resolve_call Resolve_Db (get_header_number reader h)) (\<lambda>found.
          ok_or found (HashNotFound h))))"

definition header_of_id :: "'f rpc_ctx \<Rightarrow> hot_tx \<Rightarrow> block_id \<Rightarrow> (sealed_header option, resolve_error) rresult" where
  "header_of_id cx reader i =
     (case i of
        BlockId_Hash h \<Rightarrow> resolve_call Resolve_Db (header_by_hash reader h)
      | BlockId_Number tag \<Rightarrow>
          (let height = resolve_block_tag (cx_tags cx) tag
           in resolve_call Resolve_Db (get_header reader height)))"

definition resolve_header :: "'f rpc_ctx \<Rightarrow> block_id \<Rightarrow> (sealed_header option, resolve_error) rresult" where
  "resolve_header cx i =
     rbind (resolve_call Resolve_Storage (cx_hot_reader cx)) (\<lambda>reader. header_of_id cx reader i)"

text \<open>\<^verbatim>\<open>?\<close> from a resolve error into an \<open>eth_error\<close>.\<close>

fun lift_resolve :: "('a, resolve_error) rresult \<Rightarrow> 'a eth_result" where
  "lift_resolve (Ok a) = Ok a"
| "lift_resolve (Err e) = Err (Resolve e)"
| "lift_resolve Panic = Panic"

section \<open>The block of an EVM execution\<close>

record evm_block_context =
  ebc_header :: header
  ebc_height :: u64
  ebc_spec_id :: nat

definition is_pending :: "block_id \<Rightarrow> bool" where
  "is_pending i = (i = BlockId_Number Pending)"

definition resolve_evm_block :: "'f rpc_ctx \<Rightarrow> block_id \<Rightarrow> evm_block_context eth_result" where
  "resolve_evm_block cx i =
     (let pending = is_pending i;
          i' = (if pending then BlockId_Number Latest else i)
      in rbind (storage_call Hot (cx_hot_reader cx)) (\<lambda>reader.
         rbind (lift_resolve (header_of_id cx reader i')) (\<lambda>found.
         rbind (ok_or found (BlockNotFound i')) (\<lambda>sealed.
           (let height = h_number (snd sealed);
                parent_hash = fst sealed;
                header = snd sealed;
                header' =
                  (if pending then
                     (let header1 = header\<lparr>h_parent_hash := parent_hash,
                            h_number := u64_add (h_number header) 1,
                            h_timestamp := u64_add (h_timestamp header) (cx_slot_duration cx)\<rparr>
                      in header1\<lparr>h_base_fee_per_gas := cx_next_block_base_fee cx header1\<rparr>)
                   else header)
            in Ok \<lparr>ebc_header = header', ebc_height = height,
                   ebc_spec_id = cx_spec_id cx header'\<rparr>)))))"

definition hot_reader_at_block :: "'f rpc_ctx \<Rightarrow> block_id \<Rightarrow> (hot_tx \<times> u64) eth_result" where
  "hot_reader_at_block cx i =
     rbind (storage_call Hot (cx_hot_reader cx)) (\<lambda>reader.
     rbind (case i of
              BlockId_Number tag \<Rightarrow> Ok (resolve_block_tag (cx_tags cx) tag)
            | BlockId_Hash h \<Rightarrow>
                rbind (lift_resolve (resolve_call Resolve_Db (get_header_number reader h)))
                  (\<lambda>found. ok_or found (Resolve (HashNotFound h)))) (\<lambda>height.
     Ok (reader, height)))"

section \<open>Consistency of the three ways to resolve a block\<close>

text \<open>
  A snapshot is consistent when its three indexes describe the same headers: the number
  of a hash is the number of the header with that hash, and the header at a height has
  that number and is found under its own hash.
\<close>

definition consistent_tx :: "hot_tx \<Rightarrow> bool" where
  "consistent_tx r \<longleftrightarrow>
     (\<forall>h x bh. header_by_hash r h = Inr (Some (x, bh)) \<longrightarrow>
         x = h \<and> get_header_number r h = Inr (Some (h_number bh)))
     \<and> (\<forall>k x bh. get_header r k = Inr (Some (x, bh)) \<longrightarrow> h_number bh = k)"

lemma resolved_evm_header:
  assumes "cx_hot_reader cx = Inr r" and ok: "resolve_evm_block cx i = Ok e"
  shows "\<exists>x bh. header_of_id cx r (if is_pending i then BlockId_Number Latest else i) = Ok (Some (x, bh))
    \<and> ebc_height e = h_number bh
    \<and> (is_pending i \<longrightarrow> (let next = bh\<lparr>h_parent_hash := x, h_number := u64_add (h_number bh) 1,
            h_timestamp := u64_add (h_timestamp bh) (cx_slot_duration cx)\<rparr>
          in ebc_header e = next\<lparr>h_base_fee_per_gas := cx_next_block_base_fee cx next\<rparr>))
    \<and> ebc_spec_id e = cx_spec_id cx (ebc_header e)
    \<and> (\<not> is_pending i \<longrightarrow> ebc_header e = bh)"
proof -
  let ?i = "if is_pending i then BlockId_Number Latest else i"
  obtain f where f: "header_of_id cx r ?i = Ok f"
    using ok assms(1) unfolding resolve_evm_block_def Let_def
    by (cases "header_of_id cx r ?i") auto
  then obtain x bh where "f = Some (x, bh)"
    using ok assms(1) unfolding resolve_evm_block_def Let_def by (cases f) auto
  then show ?thesis
    using f ok assms(1) unfolding resolve_evm_block_def Let_def
    by (auto split: if_splits)
qed

text \<open>
  C27: on a consistent snapshot the state an EVM call runs on is that of the very block
  its id resolves to: \<^verbatim>\<open>resolve_evm_block\<close> returns the height \<^verbatim>\<open>resolve_block_id\<close> and
  \<^verbatim>\<open>hot_reader_at_block\<close> give for the same id, and the execution header is the header at
  that height, or for a pending block its child: next number, parent hash of the latest
  block, one slot later, with the next base fee. The rules are those of this header.
\<close>

theorem evm_block_consistent:
  assumes "cx_hot_reader cx = Inr r" "consistent_tx r"
    and ok: "resolve_evm_block cx i = Ok e" and "ebc_height e < u64_max"
  shows "resolve_block_id cx i = Ok (ebc_height e)
    \<and> hot_reader_at_block cx i = Ok (r, ebc_height e)
    \<and> (\<exists>x bh. (get_header r (ebc_height e) = Inr (Some (x, bh)) \<or> header_by_hash r x = Inr (Some (x, bh)))
        \<and> h_number bh = ebc_height e
        \<and> (if is_pending i
           then h_number (ebc_header e) = ebc_height e + 1 \<and> h_parent_hash (ebc_header e) = x
                \<and> ebc_height e = tag_latest (cx_tags cx)
                \<and> h_timestamp (ebc_header e) = u64_add (h_timestamp bh) (cx_slot_duration cx)
                \<and> h_base_fee_per_gas (ebc_header e) = cx_next_block_base_fee cx
                     ((ebc_header e)\<lparr>h_base_fee_per_gas := h_base_fee_per_gas bh\<rparr>)
           else ebc_header e = bh))
    \<and> ebc_spec_id e = cx_spec_id cx (ebc_header e)"
proof -
  let ?i = "if is_pending i then BlockId_Number Latest else i"
  obtain x bh where hd: "header_of_id cx r ?i = Ok (Some (x, bh))" and h: "ebc_height e = h_number bh"
    and child: "is_pending i \<longrightarrow> (let next = bh\<lparr>h_parent_hash := x, h_number := u64_add (h_number bh) 1,
            h_timestamp := u64_add (h_timestamp bh) (cx_slot_duration cx)\<rparr>
          in ebc_header e = next\<lparr>h_base_fee_per_gas := cx_next_block_base_fee cx next\<rparr>)"
    and spec: "ebc_spec_id e = cx_spec_id cx (ebc_header e)"
    and norm: "\<not> is_pending i \<Longrightarrow> ebc_header e = bh"
    using resolved_evm_header[OF assms(1) ok] by blast
  have pend: "h_number (ebc_header e) = u64_add (h_number bh) 1 \<and> h_parent_hash (ebc_header e) = x
    \<and> h_timestamp (ebc_header e) = u64_add (h_timestamp bh) (cx_slot_duration cx)
    \<and> h_base_fee_per_gas (ebc_header e) = cx_next_block_base_fee cx
         ((ebc_header e)\<lparr>h_base_fee_per_gas := h_base_fee_per_gas bh\<rparr>)" if "is_pending i"
    using child that by (cases bh) (simp add: Let_def)
  show ?thesis
  proof (cases ?i)
    case (BlockId_Hash h')
    then have np: "\<not> is_pending i" and i: "i = BlockId_Hash h'" by (auto split: if_splits)
    have hh: "header_by_hash r h' = Inr (Some (x, bh))"
      using hd BlockId_Hash by (auto simp: header_of_id_def resolve_call_def split: sum.splits)
    have c: "x = h' \<and> get_header_number r h' = Inr (Some (h_number bh))"
      using assms(2) hh unfolding consistent_tx_def by blast
    show ?thesis
      using c hh np h norm assms(1) i spec
      by (auto simp: resolve_block_id_def hot_reader_at_block_def)
  next
    case (BlockId_Number tag)
    have gh: "get_header r (resolve_block_tag (cx_tags cx) tag) = Inr (Some (x, bh))"
      using hd BlockId_Number
      by (auto simp: header_of_id_def resolve_call_def Let_def split: sum.splits)
    have n: "h_number bh = resolve_block_tag (cx_tags cx) tag"
      using assms(2) gh unfolding consistent_tx_def by blast
    have res: "resolve_block_id cx i = Ok (ebc_height e)" "hot_reader_at_block cx i = Ok (r, ebc_height e)"
      using BlockId_Number n h assms(1)
      by (auto simp: resolve_block_id_def hot_reader_at_block_def is_pending_def split: if_splits)
    show ?thesis
    proof (cases "is_pending i")
      case True
      then have "tag = Latest" using BlockId_Number by simp
      then show ?thesis using res True pend gh n h assms(4) spec by (auto simp: u64_simps)
    next
      case False
      then show ?thesis using res norm gh n h spec by auto
    qed
  qed
qed

definition ex_hot_tx :: hot_tx where
  "ex_hot_tx =
     (let bh = \<lparr>h_number = 4, h_parent_hash = 3, h_timestamp = 48, h_gas_limit = 30, h_gas_used = 0,
                h_base_fee_per_gas = Some 7, h_rest = 0\<rparr>
      in \<lparr>get_header_number = (\<lambda>h. Inr (if h = 44 then Some 4 else None)),
          header_by_hash = (\<lambda>h. Inr (if h = 44 then Some (44, bh) else None)),
          get_header = (\<lambda>k. Inr (if k = 4 then Some (44, bh) else None)),
          get_account_at_height = (\<lambda>a k. Inr None),
          get_storage_at_height = (\<lambda>a s k. Inr None),
          get_bytecode = (\<lambda>h. Inr None)\<rparr>)"

definition ex_ctx :: "nat rpc_ctx" where
  "ex_ctx = \<lparr>cx_hot_reader = Inr ex_hot_tx, cx_tags = BlockTags_new 4 3 2,
     cx_config = StorageRpcConfig_default ex_f64, cx_chain_id = 1, cx_slot_duration = 12,
     cx_next_block_base_fee = h_base_fee_per_gas, cx_spec_id = (\<lambda>_. 0)\<rparr>"

lemma ex_hot_tx_consistent: "consistent_tx ex_hot_tx"
  by (auto simp: consistent_tx_def ex_hot_tx_def Let_def split: if_splits)

theorem evm_block_consistent_witness:
  "\<exists>e. resolve_evm_block ex_ctx (BlockId_Number Pending) = Ok e
     \<and> resolve_block_id ex_ctx (BlockId_Number Pending) = Ok 4 \<and> h_number (ebc_header e) = 5"
proof -
  have r: "cx_hot_reader ex_ctx = Inr ex_hot_tx" by (simp add: ex_ctx_def)
  obtain e where e: "resolve_evm_block ex_ctx (BlockId_Number Pending) = Ok e" "ebc_height e = 4"
    by (simp add: resolve_evm_block_def ex_ctx_def ex_hot_tx_def header_of_id_def is_pending_def
        BlockTags_new_def Let_def)
  then show ?thesis
    using evm_block_consistent[OF r ex_hot_tx_consistent e(1)]
    by (auto simp: u64_max_def is_pending_def)
qed

end
