(* ===== verification/Eth_Fees.thy ===== *)
theory Eth_Fees
  imports Rpc_Ctx
begin

text \<open>
  Gas prices: the oracle (\<^verbatim>\<open>rpc/src/config/gas_oracle.rs\<close>) and the fee endpoints
  (\<^verbatim>\<open>rpc/src/eth/endpoints.rs\<close>). Cold storage, the effective tip of a transaction and the
  next base fee are parameters; so is IEEE arithmetic. The blocks' transactions are read
  in block order; the code reads them concurrently and sorts the tips afterwards.
\<close>

record confirmation_meta =
  cm_block_number :: u64
  cm_block_hash :: b256
  cm_transaction_index :: u64

record ('tx, 'rc) cold_blocks =
  cb_get_headers :: "u64 list \<Rightarrow> string + sealed_header option list"
  cb_get_header_by_number :: "u64 \<Rightarrow> string + sealed_header option"
  cb_get_transactions :: "u64 \<Rightarrow> string + 'tx list"
  cb_get_receipts :: "u64 \<Rightarrow> string + 'rc list"
  cb_get_transaction_count :: "u64 \<Rightarrow> string + u64"
  cb_get_tx_by_hash :: "b256 \<Rightarrow> string + ('tx \<times> confirmation_meta) option"
  cb_get_tx_by_block_and_index :: "u64 \<Rightarrow> u64 \<Rightarrow> string + ('tx \<times> confirmation_meta) option"
  cb_get_receipt_by_tx_hash :: "b256 \<Rightarrow> string + 'rc option"

type_synonym 'tx tip_fn = "'tx \<Rightarrow> u64 \<Rightarrow> u128 option"

section \<open>The gas oracle\<close>

definition oracle_start :: "u64 \<Rightarrow> u64 \<Rightarrow> u64" where
  "oracle_start configured latest =
     (let block_count = min configured (u64_add latest 1)
      in saturating_sub latest (u64_sub block_count 1))"

definition blocks_with_fees :: "u64 \<Rightarrow> sealed_header option list \<Rightarrow> (u64 \<times> u64) list" where
  "blocks_with_fees start headers =
     List.map_filter (\<lambda>(offset, h). map_option (\<lambda>hd. (u64_add start offset, opt_default 0 (h_base_fee_per_gas (snd hd)))) h)
       (enumerate 0 headers)"

definition block_tips :: "'tx tip_fn \<Rightarrow> u128 option \<Rightarrow> u64 \<Rightarrow> 'tx list \<Rightarrow> u128 list" where
  "block_tips tip floor base_fee txs =
     filter (\<lambda>t. case floor of None \<Rightarrow> True | Some f \<Rightarrow> t \<ge> f)
       (List.map_filter (\<lambda>tx. tip tx base_fee) txs)"

fun collect_tips ::
  "('tx, 'rc) cold_blocks \<Rightarrow> 'tx tip_fn \<Rightarrow> u128 option \<Rightarrow> (u64 \<times> u64) list \<Rightarrow> (u128 list, string) rresult" where
  "collect_tips cold tip floor [] = Ok []"
| "collect_tips cold tip floor ((num, base_fee) # bs) =
     (case cb_get_transactions cold num of
        Inl e \<Rightarrow> Err e
      | Inr txs \<Rightarrow> rmap (\<lambda>rest. block_tips tip floor base_fee txs @ rest) (collect_tips cold tip floor bs))"

definition percentile_index :: "'f f64_ops \<Rightarrow> 'f \<Rightarrow> nat \<Rightarrow> nat" where
  "percentile_index F pct n =
     min (f_to_u64 F (f_mul F (f_div F pct (f_of_u64 F 100)) (f_of_u64 F (n - 1)))) (n - 1)"

definition price_of_tips :: "'f f64_ops \<Rightarrow> 'f storage_rpc_config \<Rightarrow> u128 list \<Rightarrow> nat" where
  "price_of_tips F cfg tips =
     (if tips = [] then opt_default 0 (default_gas_price cfg)
      else (let price = sort tips ! percentile_index F (gas_oracle_percentile cfg) (length tips)
            in case max_price cfg of None \<Rightarrow> price | Some mx \<Rightarrow> min price mx))"

definition suggest_tip_cap ::
  "'f f64_ops \<Rightarrow> ('tx, 'rc) cold_blocks \<Rightarrow> 'tx tip_fn \<Rightarrow> u64 \<Rightarrow> 'f storage_rpc_config \<Rightarrow> gas_oracle_cache
     \<Rightarrow> (nat, string) rresult \<times> gas_oracle_cache" where
  "suggest_tip_cap F cold tip latest cfg cache =
     (case gas_cache_get latest cache of
        Some cached_tip \<Rightarrow> (Ok cached_tip, cache)
      | None \<Rightarrow>
          (let start = oracle_start (gas_oracle_block_count cfg) latest
           in case cb_get_headers cold [start..<Suc latest] of
                Inl e \<Rightarrow> (Err e, cache)
              | Inr headers \<Rightarrow>
                  (case collect_tips cold tip (ignore_price cfg) (blocks_with_fees start headers) of
                     Err e \<Rightarrow> (Err e, cache)
                   | Panic \<Rightarrow> (Panic, cache)
                   | Ok all_tips \<Rightarrow>
                       (let price = price_of_tips F cfg all_tips
                        in (Ok price, gas_cache_set latest price cache)))))"

definition lift_cold :: "('a, string) rresult \<Rightarrow> 'a eth_result" where
  "lift_cold r = (case r of Ok a \<Rightarrow> Ok a | Err e \<Rightarrow> Err (Cold e) | Panic \<Rightarrow> Panic)"

definition gas_price ::
  "'f f64_ops \<Rightarrow> ('tx, 'rc) cold_blocks \<Rightarrow> 'tx tip_fn \<Rightarrow> 'f rpc_ctx \<Rightarrow> gas_oracle_cache
     \<Rightarrow> nat eth_result \<times> gas_oracle_cache" where
  "gas_price F cold tip cx cache =
     (let latest = tag_latest (cx_tags cx)
      in case suggest_tip_cap F cold tip latest (cx_config cx) cache of
           (r, cache1) \<Rightarrow>
             (await_handler (rbind (lift_cold r) (\<lambda>tip.
                rbind (storage_call Cold (cb_get_header_by_number cold latest)) (\<lambda>h.
                  Ok (tip + opt_default 0 (Option.bind h (\<lambda>sh. h_base_fee_per_gas (snd sh))))))),
              cache1))"

definition max_priority_fee_per_gas ::
  "'f f64_ops \<Rightarrow> ('tx, 'rc) cold_blocks \<Rightarrow> 'tx tip_fn \<Rightarrow> 'f rpc_ctx \<Rightarrow> gas_oracle_cache
     \<Rightarrow> nat eth_result \<times> gas_oracle_cache" where
  "max_priority_fee_per_gas F cold tip cx cache =
     (case suggest_tip_cap F cold tip (tag_latest (cx_tags cx)) (cx_config cx) cache of
        (r, cache1) \<Rightarrow> (await_handler (lift_cold r), cache1))"

section \<open>What the oracle suggests\<close>

text \<open>Tips a run of the oracle collects, in block order.\<close>

definition oracle_window_ok :: "u64 \<Rightarrow> u64 \<Rightarrow> bool" where
  "oracle_window_ok configured latest \<longleftrightarrow>
     length [oracle_start configured latest..<Suc latest] = min configured (Suc latest)"

lemma oracle_window:
  assumes "latest < u64_max"
  shows "length [oracle_start k latest..<Suc latest] = (if k = 0 then Suc latest else min k (Suc latest))"
proof (cases "k = 0")
  case True
  have "latest \<le> u64_sub 0 1" using assms by (simp add: u64_sub_def u64_max_def)
  then show ?thesis using True by (simp add: oracle_start_def saturating_sub_def)
next
  case False
  then have "u64_sub (min k (Suc latest)) 1 = min k (Suc latest) - 1"
    by (simp add: u64_sub_def)
  then show ?thesis using False assms by (simp add: oracle_start_def saturating_sub_def u64_simps)
qed

lemma collect_tips_floor:
  "collect_tips cold tip floor bs = Ok ts \<Longrightarrow> floor = Some f \<Longrightarrow> \<forall>t\<in>set ts. f \<le> t"
  by (induction bs arbitrary: ts) (auto simp: rres_simps block_tips_def split: sum.splits)

lemma price_of_tips_range:
  assumes "tips \<noteq> []"
  shows "\<exists>t\<in>set tips. price_of_tips F cfg tips = (case max_price cfg of None \<Rightarrow> t | Some mx \<Rightarrow> min t mx)"
proof -
  have "percentile_index F (gas_oracle_percentile cfg) (length tips) < length (sort tips)"
    using assms by (cases tips) (simp_all add: percentile_index_def less_Suc_eq_le)
  then have "sort tips ! percentile_index F (gas_oracle_percentile cfg) (length tips) \<in> set tips"
    by (metis nth_mem set_sort)
  then show ?thesis using assms by (auto simp: price_of_tips_def Let_def split: option.split)
qed

text \<open>
  A suggestion of the oracle that does not come from the cache is one of the sampled tips capped at
  \<^verbatim>\<open>max_price\<close>, not below \<^verbatim>\<open>ignore_price\<close> unless the cap is, or the default price when no tip qualifies, which is not capped;
  it samples at most \<^verbatim>\<open>gas_oracle_block_count\<close> blocks, except that the count 0 samples the whole chain;
  for the same block it is answered again from the cache, up to 64 bits.
\<close>

theorem suggested_tip_bounds:
  fixes cold :: "('tx, 'rc) cold_blocks"
  assumes "gas_cache_get latest cache = None" "latest < u64_max"
    and "suggest_tip_cap F cold tip latest cfg cache = (Ok price, cache')"
  shows "(price = opt_default 0 (default_gas_price cfg)
       \<or> (\<forall>mx. max_price cfg = Some mx \<longrightarrow> price \<le> mx)
         \<and> (\<forall>f. ignore_price cfg = Some f \<longrightarrow> (\<forall>mx. max_price cfg = Some mx \<longrightarrow> f \<le> mx) \<longrightarrow> f \<le> price))
    \<and> length [oracle_start (gas_oracle_block_count cfg) latest..<Suc latest]
        = (if gas_oracle_block_count cfg = 0 then Suc latest else min (gas_oracle_block_count cfg) (Suc latest))
    \<and> (\<forall>cold2 :: ('tx, 'rc) cold_blocks.
         suggest_tip_cap F cold2 tip latest cfg cache' = (Ok (min price u64_max), cache'))"
proof -
  let ?start = "oracle_start (gas_oracle_block_count cfg) latest"
  obtain headers where h: "cb_get_headers cold [?start..<Suc latest] = Inr headers"
    using assms(1,3) by (auto simp: suggest_tip_cap_def Let_def split: sum.splits simp del: upt_Suc)
  obtain tips where t: "collect_tips cold tip (ignore_price cfg) (blocks_with_fees ?start headers) = Ok tips"
    using assms(1,3) h by (auto simp: suggest_tip_cap_def Let_def split: rresult.splits simp del: upt_Suc)
  have p: "price = price_of_tips F cfg tips" "cache' = gas_cache_set latest price cache"
    using assms(1,3) h t by (auto simp: suggest_tip_cap_def Let_def simp del: upt_Suc)
  have "price = opt_default 0 (default_gas_price cfg)
       \<or> (\<forall>mx. max_price cfg = Some mx \<longrightarrow> price \<le> mx)
         \<and> (\<forall>f. ignore_price cfg = Some f \<longrightarrow> (\<forall>mx. max_price cfg = Some mx \<longrightarrow> f \<le> mx) \<longrightarrow> f \<le> price)"
  proof (cases "tips = []")
    case False
    then obtain x where "x \<in> set tips" "price = (case max_price cfg of None \<Rightarrow> x | Some mx \<Rightarrow> min x mx)"
      using price_of_tips_range[of tips F cfg] p(1) by blast
    then show ?thesis using collect_tips_floor[OF t] by (auto split: option.splits)
  qed (simp add: p(1) price_of_tips_def)
  moreover have "\<forall>cold2 :: ('tx, 'rc) cold_blocks.
      suggest_tip_cap F cold2 tip latest cfg cache' = (Ok (min price u64_max), cache')"
    by (simp add: suggest_tip_cap_def p(2))
  ultimately show ?thesis using oracle_window[OF assms(2)] by blast
qed

definition ex_sealed_header :: "u64 \<Rightarrow> sealed_header" where
  "ex_sealed_header k = (of_nat k, \<lparr>h_number = k, h_parent_hash = of_nat (k - 1), h_timestamp = 0,
     h_gas_limit = 100, h_gas_used = 60, h_base_fee_per_gas = Some 1, h_rest = 0\<rparr>)"

definition ex_cold_blocks :: "(nat, nat) cold_blocks" where
  "ex_cold_blocks =
     \<lparr>cb_get_headers = (\<lambda>ks. Inr (map (\<lambda>k. Some (ex_sealed_header k)) ks)),
      cb_get_header_by_number = (\<lambda>k. Inr (Some (ex_sealed_header k))),
      cb_get_transactions = (\<lambda>k. Inr [k, k + 10]),
      cb_get_receipts = (\<lambda>k. Inr [20, 40]),
      cb_get_transaction_count = (\<lambda>k. Inr 2),
      cb_get_tx_by_hash = (\<lambda>h. Inr (Some (1, \<lparr>cm_block_number = 1, cm_block_hash = 1, cm_transaction_index = 0\<rparr>))),
      cb_get_tx_by_block_and_index = (\<lambda>k i. Inr None),
      cb_get_receipt_by_tx_hash = (\<lambda>h. Inr (Some 20))\<rparr>"

theorem suggested_tip_bounds_witness:
  "\<exists>price cache'. suggest_tip_cap ex_f64 ex_cold_blocks (\<lambda>tx b. Some tx) 4 (StorageRpcConfig_default ex_f64)
      gas_cache_new = (Ok price, cache')
    \<and> suggest_tip_cap ex_f64 ex_cold_blocks (\<lambda>tx b. Some tx) 4 (StorageRpcConfig_default ex_f64) cache'
        = (Ok (min price u64_max), cache')"
proof -
  have n: "gas_cache_get 4 gas_cache_new = None" by (rule gas_cache_new_get) (simp add: u64_max_def)
  obtain price cache' where
    s: "suggest_tip_cap ex_f64 ex_cold_blocks (\<lambda>tx b. Some tx) 4 (StorageRpcConfig_default ex_f64) gas_cache_new = (Ok price, cache')"
    using n by (simp add: suggest_tip_cap_def ex_cold_blocks_def Let_def oracle_start_def
        StorageRpcConfig_default_def u64_add_def u64_sub_def saturating_sub_def upt_rec
        blocks_with_fees_def List.map_filter_simps block_tips_def ex_sealed_header_def)
  show ?thesis using suggested_tip_bounds[OF n _ s] s by (auto simp: u64_max_def)
qed

section \<open>Reward percentiles\<close>

text \<open>
  The inner \<^verbatim>\<open>while\<close> loop: from the transaction \<open>idx\<close> on, add up gas until the threshold is
  reached. The transaction at which it stops is not passed over.
\<close>

function reward_advance :: "(u64 \<times> u128) list \<Rightarrow> u64 \<Rightarrow> u64 \<Rightarrow> nat \<Rightarrow> u64 \<times> nat" where
  "reward_advance ts threshold cum idx =
     (if idx < length ts then
        (let cum1 = u64_add cum (fst (ts ! idx))
         in if cum1 \<ge> threshold then (cum1, idx) else reward_advance ts threshold cum1 (Suc idx))
      else (cum, idx))"
  by pat_completeness auto
termination by (relation "measure (\<lambda>(ts, th, cum, idx). length ts - idx)") auto

declare reward_advance.simps [simp del]

definition reward_tip :: "(u64 \<times> u128) list \<Rightarrow> nat \<Rightarrow> u128" where
  "reward_tip ts idx = (if idx < length ts then snd (ts ! idx) else snd (last ts))"

fun reward_walk :: "(u64 \<times> u128) list \<Rightarrow> u64 list \<Rightarrow> u64 \<Rightarrow> nat \<Rightarrow> u128 list" where
  "reward_walk ts [] cum idx = []"
| "reward_walk ts (threshold # ths) cum idx =
     (case reward_advance ts threshold cum idx of
        (cum1, idx1) \<Rightarrow> reward_tip ts idx1 # reward_walk ts ths cum1 idx1)"

definition reward_threshold :: "'f f64_ops \<Rightarrow> u64 \<Rightarrow> 'f \<Rightarrow> u64" where
  "reward_threshold F gas_used percentile =
     f_to_u64 F (f_div F (f_mul F (f_of_u64 F gas_used) percentile) (f_of_u64 F 100))"

definition calculate_reward_percentiles ::
  "'f f64_ops \<Rightarrow> 'tx tip_fn \<Rightarrow> ('rc \<Rightarrow> u64) \<Rightarrow> 'f list \<Rightarrow> u64 \<Rightarrow> u64 \<Rightarrow> 'tx list \<Rightarrow> 'rc list
     \<Rightarrow> (u128 list, string) rresult" where
  "calculate_reward_percentiles F tip receipt_gas percentiles gas_used base_fee txs receipts =
     (if gas_used = 0 \<or> txs = [] then Ok (replicate (length percentiles) 0)
      else (let pairs = map (\<lambda>(tx, rc). (receipt_gas rc, opt_default 0 (tip tx base_fee))) (zip txs receipts);
                sorted_pairs = sort_key snd pairs
            in if sorted_pairs = [] \<and> percentiles \<noteq> [] then Panic
               else Ok (reward_walk sorted_pairs (map (reward_threshold F gas_used) percentiles) 0 0)))"

text \<open>
  What the documentation of the function describes: the tip of the first transaction at
  which the cumulative gas reaches the threshold.
\<close>

definition gas_upto :: "(u64 \<times> u128) list \<Rightarrow> nat \<Rightarrow> nat" where
  "gas_upto ts k = sum_list (map fst (take k ts))"

definition reward_index :: "(u64 \<times> u128) list \<Rightarrow> u64 \<Rightarrow> nat" where
  "reward_index ts threshold =
     length (takeWhile (\<lambda>k. gas_upto ts (Suc k) < threshold) [0..<length ts])"

lemma gas_upto_Suc: "k < length ts \<Longrightarrow> gas_upto ts (Suc k) = gas_upto ts k + fst (ts ! k)"
  by (simp add: gas_upto_def take_Suc_conv_app_nth)

lemma gas_upto_mono: "k \<le> m \<Longrightarrow> m \<le> length ts \<Longrightarrow> gas_upto ts k \<le> gas_upto ts m"
proof (induction m)
  case (Suc m)
  then show ?case using gas_upto_Suc[of m ts] by (cases "k = Suc m") auto
qed (simp add: gas_upto_def)

text \<open>The loop stops no later than where the true cumulative gas reaches the threshold.\<close>

lemma reward_advance_early:
  assumes "reward_advance ts threshold cum idx = (cum1, idx1)" "idx \<le> length ts" "gas_upto ts idx \<le> cum"
    and "\<forall>e\<in>set ts. fst e \<le> G" "cum + (length ts - idx) * G \<le> u64_max"
  shows "idx \<le> idx1 \<and> idx1 \<le> length ts \<and> gas_upto ts idx1 \<le> cum1
    \<and> cum1 \<le> cum + Suc (idx1 - idx) * G
    \<and> (\<forall>k. idx \<le> k \<longrightarrow> k < idx1 \<longrightarrow> gas_upto ts (Suc k) < threshold)"
  using assms
proof (induction ts threshold cum idx rule: reward_advance.induct)
  case (1 ts threshold cum idx)
  show ?case
  proof (cases "idx < length ts")
    case False
    then show ?thesis using 1(2-) by (subst (asm) reward_advance.simps) auto
  next
    case True
    let ?g = "fst (ts ! idx)"
    have g: "?g \<le> G" using 1(5) True by simp
    have room: "(length ts - idx) * G = G + (length ts - Suc idx) * G"
      using True by (metis Suc_diff_Suc mult_Suc)
    have add: "u64_add cum ?g = cum + ?g" using 1(6) g room by (intro u64_add_exact) linarith
    have S: "gas_upto ts (Suc idx) = gas_upto ts idx + ?g" using gas_upto_Suc[OF True] .
    show ?thesis
    proof (cases "cum + ?g \<ge> threshold")
      case stop: True
      then have "cum1 = cum + ?g" "idx1 = idx"
        using 1(2) True add by (subst (asm) reward_advance.simps, simp)+
      then show ?thesis using 1(4) True g by simp
    next
      case False
      have eq: "reward_advance ts threshold (cum + ?g) (Suc idx) = (cum1, idx1)"
        using 1(2) True add False by (subst (asm) reward_advance.simps) simp
      have IH: "Suc idx \<le> idx1 \<and> idx1 \<le> length ts \<and> gas_upto ts idx1 \<le> cum1
          \<and> cum1 \<le> (cum + ?g) + Suc (idx1 - Suc idx) * G
          \<and> (\<forall>k. Suc idx \<le> k \<longrightarrow> k < idx1 \<longrightarrow> gas_upto ts (Suc k) < threshold)"
        using 1(1)[OF True refl, unfolded add, OF _ eq] False 1(4-6) True S g room by simp
      have "gas_upto ts (Suc idx) < threshold" using S 1(4) False by linarith
      moreover have "Suc (idx1 - idx) * G = G + Suc (idx1 - Suc idx) * G"
        using IH by (metis Suc_diff_le Suc_le_D diff_Suc_Suc mult_Suc)
      ultimately show ?thesis using IH g by (auto simp: less_eq_Suc_le le_Suc_eq dest: le_antisym) (metis le_antisym not_less_eq_eq)
    qed
  qed
qed

lemma reward_advance_exact:
  assumes "reward_advance ts threshold cum idx = (cum1, idx1)" "cum = gas_upto ts idx" "idx \<le> length ts"
    and "gas_upto ts (length ts) \<le> u64_max" "idx1 < length ts"
  shows "threshold \<le> gas_upto ts (Suc idx1)"
  using assms
proof (induction ts threshold cum idx rule: reward_advance.induct)
  case (1 ts threshold cum idx)
  show ?case
  proof (cases "idx < length ts")
    case True
    have S: "gas_upto ts (Suc idx) = cum + fst (ts ! idx)" using gas_upto_Suc[OF True] 1(3) by simp
    then have "cum + fst (ts ! idx) \<le> u64_max" using gas_upto_mono[of "Suc idx" "length ts" ts] True 1(5) by simp
    then have add: "u64_add cum (fst (ts ! idx)) = cum + fst (ts ! idx)" by (rule u64_add_exact)
    show ?thesis
    proof (cases "cum + fst (ts ! idx) \<ge> threshold")
      case stop: True
      then have "idx1 = idx" using 1(2) True add by (subst (asm) reward_advance.simps) simp
      then show ?thesis using S stop by simp
    next
      case False
      have eq: "reward_advance ts threshold (cum + fst (ts ! idx)) (Suc idx) = (cum1, idx1)"
        using 1(2) True add False by (subst (asm) reward_advance.simps) simp
      show ?thesis
      proof (rule 1(1)[OF True refl, unfolded add, OF False eq _ _ 1(5,6)])
        show "cum + fst (ts ! idx) = gas_upto ts (Suc idx)" by (rule S[symmetric])
        show "Suc idx \<le> length ts" using True by simp
      qed
    qed
  next
    case False
    then have "idx1 = idx" using 1(2) by (subst (asm) reward_advance.simps) simp
    then show ?thesis using False 1(6) by simp
  qed
qed

lemma reward_index_ge:
  assumes "m \<le> length ts" "\<forall>k<m. gas_upto ts (Suc k) < threshold"
  shows "m \<le> reward_index ts threshold"
proof -
  have "[0..<length ts] = [0..<m] @ [m..<length ts]"
    using assms(1) by (metis le_add_diff_inverse le0 upt_add_eq_append)
  moreover have "takeWhile (\<lambda>k. gas_upto ts (Suc k) < threshold) ([0..<m] @ [m..<length ts])
      = [0..<m] @ takeWhile (\<lambda>k. gas_upto ts (Suc k) < threshold) [m..<length ts]"
    using assms(2) by (intro takeWhile_append2) auto
  ultimately show ?thesis by (simp add: reward_index_def)
qed

lemma reward_index_below:
  assumes "k < reward_index ts threshold"
  shows "gas_upto ts (Suc k) < threshold \<and> k < length ts"
proof -
  let ?P = "\<lambda>k. gas_upto ts (Suc k) < threshold"
  have k: "k < length (takeWhile ?P [0..<length ts])" using assms by (simp add: reward_index_def)
  then have "takeWhile ?P [0..<length ts] ! k = [0..<length ts] ! k" by (rule takeWhile_nth)
  moreover have "takeWhile ?P [0..<length ts] ! k \<in> set (takeWhile ?P [0..<length ts])" using k by simp
  then have "?P (takeWhile ?P [0..<length ts] ! k)" by (meson set_takeWhileD)
  moreover have "k < length ts" using k length_takeWhile_le[of ?P "[0..<length ts]"] by simp
  ultimately show ?thesis by simp
qed

lemma reward_index_le: "reward_index ts threshold \<le> length ts"
  using length_takeWhile_le[of _ "[0..<length ts]"] by (auto simp: reward_index_def)

lemma reward_index_mono: "th \<le> th' \<Longrightarrow> reward_index ts th \<le> reward_index ts th'"
  using reward_index_below reward_index_le by (intro reward_index_ge) (auto intro: less_le_trans)

lemma reward_tip_mono:
  assumes "sorted (map snd ts)" "a \<le> b" "ts \<noteq> []"
  shows "reward_tip ts a \<le> reward_tip ts b"
proof -
  have nth: "snd (ts ! i) \<le> snd (ts ! j)" if "i \<le> j" "j < length ts" for i j
    using sorted_nth_mono[OF assms(1) that(1)] that by simp
  have lst: "snd (last ts) = snd (ts ! (length ts - 1))" using assms(3) by (simp add: last_conv_nth)
  show ?thesis using assms(2,3) nth[of a b] nth[of a "length ts - 1"] lst by (auto simp: reward_tip_def)
qed

lemma reward_walk_length [simp]: "length (reward_walk ts ths cum idx) = length ths"
  by (induction ths arbitrary: cum idx) (auto split: prod.split)

lemma reward_walk_low:
  assumes "sorted (map snd ts)" "ts \<noteq> []" "\<forall>e\<in>set ts. fst e \<le> G"
  shows "sorted ths \<Longrightarrow> idx \<le> length ts \<Longrightarrow> gas_upto ts idx \<le> cum \<Longrightarrow>
    (\<forall>th\<in>set ths. idx \<le> reward_index ts th) \<Longrightarrow>
    cum + (length ts - idx + length ths) * G \<le> u64_max \<Longrightarrow> j < length ths \<Longrightarrow>
    reward_walk ts ths cum idx ! j \<le> reward_tip ts (reward_index ts (ths ! j))"
proof (induction ths arbitrary: cum idx j)
  case (Cons th ths)
  obtain cum1 idx1 where adv: "reward_advance ts th cum idx = (cum1, idx1)" by force
  have "(length ts - idx) * G \<le> (length ts - idx + length (th # ths)) * G"
    by (intro mult_le_mono1) simp
  then have room: "cum + (length ts - idx) * G \<le> u64_max" using Cons.prems(5) by linarith
  note early = reward_advance_early[OF adv Cons.prems(2,3) assms(3) room]
  have low: "idx1 \<le> reward_index ts th"
  proof (intro reward_index_ge allI impI)
    fix k assume "k < idx1"
    then show "gas_upto ts (Suc k) < th"
      using early Cons.prems(4) reward_index_below[of k ts th] by (cases "idx \<le> k") auto
  qed (use early in blast)
  show ?case
  proof (cases j)
    case 0
    then show ?thesis using adv reward_tip_mono[OF assms(1) low assms(2)] by simp
  next
    case (Suc i)
    have "length ts - idx + length (th # ths) = Suc (idx1 - idx) + (length ts - idx1 + length ths)"
      using early by simp
    then have "(length ts - idx + length (th # ths)) * G = Suc (idx1 - idx) * G + (length ts - idx1 + length ths) * G"
      by (simp add: add_mult_distrib)
    then have "cum1 + (length ts - idx1 + length ths) * G \<le> u64_max" using early Cons.prems(5) by linarith
    moreover have "\<forall>th'\<in>set ths. idx1 \<le> reward_index ts th'"
      using Cons.prems(1) low reward_index_mono by (auto intro: le_trans)
    ultimately have "reward_walk ts ths cum1 idx1 ! i \<le> reward_tip ts (reward_index ts (ths ! i))"
      using Cons.prems(1,6) early Suc by (intro Cons.IH) auto
    then show ?thesis using adv Suc by simp
  qed
qed simp

text \<open>
  For ascending thresholds the reward reported for a percentile never exceeds the tip
  of the transaction at which the block's cumulative gas reaches its threshold, and for
  the first percentile it is exactly that tip.
\<close>

theorem rewards_at_most_reference:
  assumes "sorted (map snd ts)" "ts \<noteq> []" "\<forall>e\<in>set ts. fst e \<le> G" "sorted ths"
    and "(length ts + length ths) * G \<le> u64_max"
  shows "(\<forall>j < length ths. reward_walk ts ths 0 0 ! j \<le> reward_tip ts (reward_index ts (ths ! j)))
    \<and> (ths \<noteq> [] \<longrightarrow> reward_walk ts ths 0 0 ! 0 = reward_tip ts (reward_index ts (ths ! 0)))"
proof (intro conjI impI)
  show "\<forall>j < length ths. reward_walk ts ths 0 0 ! j \<le> reward_tip ts (reward_index ts (ths ! j))"
    using reward_walk_low[OF assms(1-4), of 0 0] assms(5) by (simp add: gas_upto_def)
next
  assume "ths \<noteq> []"
  then obtain th rest where ths: "ths = th # rest" by (cases ths) auto
  obtain cum1 idx1 where adv: "reward_advance ts th 0 0 = (cum1, idx1)" by force
  have "gas_upto ts (length ts) \<le> length ts * G"
    using sum_list_mono[of ts fst "\<lambda>_. G"] assms(3) by (simp add: gas_upto_def sum_list_triv)
  moreover have "length ts * G \<le> (length ts + length ths) * G" by simp
  ultimately have tot: "gas_upto ts (length ts) \<le> u64_max" "length ts * G \<le> u64_max"
    using assms(5) by linarith+
  have early: "idx1 \<le> length ts \<and> (\<forall>k < idx1. gas_upto ts (Suc k) < th)"
    using reward_advance_early[OF adv _ _ assms(3)] tot(2) by (simp add: gas_upto_def)
  have "idx1 = reward_index ts th"
  proof (rule antisym)
    show "idx1 \<le> reward_index ts th" using early by (intro reward_index_ge) auto
    show "reward_index ts th \<le> idx1"
    proof (rule ccontr)
      assume "\<not> ?thesis"
      then have "gas_upto ts (Suc idx1) < th \<and> idx1 < length ts" using reward_index_below[of idx1 ts th] by simp
      then show False
        using reward_advance_exact[OF adv _ _ tot(1)] by (simp add: gas_upto_def)
    qed
  qed
  then show "reward_walk ts ths 0 0 ! 0 = reward_tip ts (reward_index ts (ths ! 0))" using ths adv by simp
qed

theorem rewards_at_most_reference_witness:
  "reward_walk [(50, 1), (50, 9)] [40, 80] 0 0 ! 0 = 1 \<and> reward_walk [(50, 1), (50, 9)] [40, 80] 0 0 ! 1 \<le> 9"
proof -
  let ?ts = "[(50, 1), (50, 9)] :: (u64 \<times> u128) list" and ?ths = "[40, 80] :: u64 list"
  have i: "reward_index ?ts 40 = 0" "reward_index ?ts 80 = 1"
    by (simp_all add: reward_index_def gas_upto_def upt_rec)
  have "(\<forall>j < length ?ths. reward_walk ?ts ?ths 0 0 ! j \<le> reward_tip ?ts (reward_index ?ts (?ths ! j)))
      \<and> (?ths \<noteq> [] \<longrightarrow> reward_walk ?ts ?ths 0 0 ! 0 = reward_tip ?ts (reward_index ?ts (?ths ! 0)))"
    by (rule rewards_at_most_reference[of ?ts 50 ?ths]) (simp_all add: u64_max_def)
  then have "reward_walk ?ts ?ths 0 0 ! 1 \<le> reward_tip ?ts (reward_index ?ts (?ths ! 1))"
    "reward_walk ?ts ?ths 0 0 ! 0 = reward_tip ?ts (reward_index ?ts (?ths ! 0))"
    by (auto simp del: reward_walk.simps)
  then show ?thesis using i by (simp add: reward_tip_def del: reward_walk.simps)
qed

text \<open>
  The bound of the preceding property is strict: when two percentiles fall on different transactions, the gas of the
  transaction at which the first one stopped is counted again for the second, which can
  report the first transaction's tip although its gas does not reach the threshold.
\<close>

theorem second_reward_double_counts:
  assumes "th1 \<le> g" "g < th2" "th2 \<le> 2 * g" "th2 \<le> g + g'" "2 * g \<le> u64_max" "t0 < t1"
  shows "reward_walk ((g, t0) # (g', t1) # ts) [th1, th2] 0 0 = [t0, t0]
    \<and> reward_tip ((g, t0) # (g', t1) # ts) (reward_index ((g, t0) # (g', t1) # ts) th2) = t1"
proof -
  let ?ts = "(g, t0) # (g', t1) # ts"
  have "reward_advance ?ts th1 0 0 = (g, 0)" "reward_advance ?ts th2 g 0 = (2 * g, 0)"
    using assms by (simp_all add: reward_advance.simps u64_simps)
  moreover have "reward_index ?ts th2 = 1"
    using assms(2,4) by (simp add: reward_index_def gas_upto_def upt_rec)
  ultimately show ?thesis by (simp add: reward_tip_def)
qed

theorem second_reward_double_counts_witness:
  "reward_walk [(50, 1), (50, 9)] [40, 80] 0 0 = [1, 1]
    \<and> reward_tip [(50, 1), (50, 9)] (reward_index [(50, 1), (50, 9)] 80) = 9"
  using second_reward_double_counts[of 40 50 80 50 1 9 "[]"] by (simp add: u64_max_def)

section \<open>Fee history\<close>

record 'f fee_history =
  fh_base_fee_per_gas :: "u128 list"
  fh_gas_used_ratio :: "'f list"
  fh_base_fee_per_blob_gas :: "u128 list"
  fh_blob_gas_used_ratio :: "'f list"
  fh_oldest_block :: u64
  fh_reward :: "u128 list list option"

definition fee_history_default :: "'f fee_history" where
  "fee_history_default = \<lparr>fh_base_fee_per_gas = [], fh_gas_used_ratio = [], fh_base_fee_per_blob_gas = [],
     fh_blob_gas_used_ratio = [], fh_oldest_block = 0, fh_reward = None\<rparr>"

text \<open>\<^verbatim>\<open>windows(2).any(|w| w[0] > w[1] || w[0] > 100.)\<close>.\<close>

fun percentiles_invalid :: "'f f64_ops \<Rightarrow> 'f list \<Rightarrow> bool" where
  "percentiles_invalid F (a # b # ps) =
     (f_gt F a b \<or> f_gt F a (f_of_u64 F 100) \<or> percentiles_invalid F (b # ps))"
| "percentiles_invalid F _ = False"

definition gas_ratio :: "'f f64_ops \<Rightarrow> header \<Rightarrow> 'f" where
  "gas_ratio F h =
     (if h_gas_limit h > 0 then f_div F (f_of_u64 F (h_gas_used h)) (f_of_u64 F (h_gas_limit h))
      else f_of_u64 F 0)"

type_synonym 'f fee_row = "u128 \<times> 'f \<times> u128 list option"

definition fee_row ::
  "'f f64_ops \<Rightarrow> ('tx, 'rc) cold_blocks \<Rightarrow> 'tx tip_fn \<Rightarrow> ('rc \<Rightarrow> u64) \<Rightarrow> 'f list option \<Rightarrow> u64 \<Rightarrow> header
     \<Rightarrow> 'f fee_row eth_result" where
  "fee_row F cold tip receipt_gas percentiles block_num h =
     (let base = opt_default 0 (h_base_fee_per_gas h) in
      case percentiles of
        None \<Rightarrow> Ok (base, gas_ratio F h, None)
      | Some ps \<Rightarrow>
          rbind (storage_call Cold (cb_get_transactions cold block_num)) (\<lambda>txs.
          rbind (storage_call Cold (cb_get_receipts cold block_num)) (\<lambda>receipts.
          rbind (lift_cold (calculate_reward_percentiles F tip receipt_gas ps (h_gas_used h) base txs receipts)) (\<lambda>rw.
            Ok (base, gas_ratio F h, Some rw)))))"

fun fee_rows ::
  "(u64 \<Rightarrow> string) \<Rightarrow> (u64 \<Rightarrow> header \<Rightarrow> 'f fee_row eth_result) \<Rightarrow> u64 \<Rightarrow> sealed_header option list
     \<Rightarrow> 'f fee_row list eth_result" where
  "fee_rows show_num row block_num [] = Ok []"
| "fee_rows show_num row block_num (None # hs) =
     Err (Internal (''missing header at block '' @ show_num block_num))"
| "fee_rows show_num row block_num (Some h # hs) =
     rbind (row block_num (snd h)) (\<lambda>r. rmap (\<lambda>rs. r # rs) (fee_rows show_num row (u64_add block_num 1) hs))"

definition fee_history_count :: "'f rpc_ctx \<Rightarrow> u64 \<Rightarrow> block_number_or_tag \<Rightarrow> bool \<Rightarrow> u64 \<times> u64" where
  "fee_history_count cx block_count newest with_rewards =
     (let mx = (if \<not> with_rewards then max_header_history (cx_config cx) else max_block_history (cx_config cx));
          count = min block_count mx;
          (count, newest) = (if newest = Pending then (saturating_sub count 1, Latest) else (count, newest));
          end_block = resolve_block_tag (cx_tags cx) newest
      in (min count (u64_add end_block 1), end_block))"

definition fee_history ::
  "(u64 \<Rightarrow> string) \<Rightarrow> 'f f64_ops \<Rightarrow> ('tx, 'rc) cold_blocks \<Rightarrow> 'tx tip_fn \<Rightarrow> ('rc \<Rightarrow> u64) \<Rightarrow> 'f rpc_ctx
     \<Rightarrow> u64 \<Rightarrow> block_number_or_tag \<Rightarrow> 'f list option \<Rightarrow> 'f fee_history eth_result" where
  "fee_history show_num F cold tip receipt_gas cx block_count newest percentiles =
     await_handler
       (if block_count = 0 then Ok fee_history_default
        else
          (case fee_history_count cx block_count newest (percentiles \<noteq> None) of
             (count, end_block) \<Rightarrow>
               if (case percentiles of None \<Rightarrow> False | Some ps \<Rightarrow> percentiles_invalid F ps)
               then Err (InvalidParams ''invalid reward percentiles'')
               else
                 (let start_block = u64_sub (u64_add end_block 1) count
                  in rbind (storage_call Cold (cb_get_headers cold [start_block..<Suc end_block])) (\<lambda>headers.
                     rbind (fee_rows show_num (fee_row F cold tip receipt_gas percentiles) start_block headers) (\<lambda>rows.
                       (let next = (case last_opt headers of Some (Some h) \<Rightarrow>
                                      [opt_default 0 (cx_next_block_base_fee cx (snd h))] | _ \<Rightarrow> []);
                            base = map fst rows @ next
                        in Ok \<lparr>fh_base_fee_per_gas = base,
                               fh_gas_used_ratio = map (fst \<circ> snd) rows,
                               fh_base_fee_per_blob_gas = replicate (length base) 0,
                               fh_blob_gas_used_ratio = replicate (length rows) (f_of_u64 F 0),
                               fh_oldest_block = start_block,
                               fh_reward = map_option (\<lambda>_. List.map_filter (snd \<circ> snd) rows) percentiles\<rparr>))))))"

lemma calculate_rewards_length:
  "calculate_reward_percentiles F tip rg ps gu bf txs rcs = Ok rw \<Longrightarrow> length rw = length ps"
  by (auto simp: calculate_reward_percentiles_def Let_def split: if_splits)

lemma fee_row_reward:
  assumes "fee_row F cold tip rg percentiles k h = Ok r"
  shows "case percentiles of None \<Rightarrow> snd (snd r) = None
    | Some ps \<Rightarrow> \<exists>rw. snd (snd r) = Some rw \<and> length rw = length ps"
proof (cases percentiles)
  case (Some ps)
  obtain txs rcs where "cb_get_transactions cold k = Inr txs" "cb_get_receipts cold k = Inr rcs"
    using assms Some by (auto simp: fee_row_def Let_def rres_simps)
  then show ?thesis
    using assms Some calculate_rewards_length
    by (cases "calculate_reward_percentiles F tip rg ps (h_gas_used h) (opt_default 0 (h_base_fee_per_gas h)) txs rcs")
      (force simp: fee_row_def Let_def lift_cold_def)+
qed (use assms in \<open>auto simp: fee_row_def Let_def\<close>)

lemma fee_rows_Ok:
  "fee_rows show_num row k hs = Ok rows \<Longrightarrow>
     length rows = length hs \<and> (\<forall>h\<in>set hs. h \<noteq> None) \<and> (\<forall>r\<in>set rows. \<exists>k h. row k h = Ok r)"
proof (induction hs arbitrary: k rows)
  case (Cons h hs)
  then obtain x where h: "h = Some x" by (cases h) auto
  then obtain r rs where "row k (snd x) = Ok r" "fee_rows show_num row (u64_add k 1) hs = Ok rs" "rows = r # rs"
    using Cons.prems by (auto simp: rres_simps)
  then show ?case using Cons.IH h by fastforce
qed simp

text \<open>The rows are those of the headers, in order.\<close>

lemma fee_rows_values:
  "fee_rows show_num (fee_row F cold tip rg percentiles) k hs = Ok rows \<Longrightarrow>
     \<exists>headers. hs = map Some headers
       \<and> map fst rows = map (\<lambda>sh. opt_default 0 (h_base_fee_per_gas (snd sh))) headers
       \<and> map (fst \<circ> snd) rows = map (\<lambda>sh. gas_ratio F (snd sh)) headers"
proof (induction hs arbitrary: k rows)
  case (Cons h hs)
  then obtain x where h: "h = Some x" by (cases h) auto
  then obtain r rs where r: "fee_row F cold tip rg percentiles k (snd x) = Ok r"
    "fee_rows show_num (fee_row F cold tip rg percentiles) (u64_add k 1) hs = Ok rs" "rows = r # rs"
    using Cons.prems by (auto simp: rres_simps)
  obtain headers where hd: "hs = map Some headers"
    "map fst rs = map (\<lambda>sh. opt_default 0 (h_base_fee_per_gas (snd sh))) headers"
    "map (fst \<circ> snd) rs = map (\<lambda>sh. gas_ratio F (snd sh)) headers"
    using Cons.IH[OF r(2)] by blast
  have "fst r = opt_default 0 (h_base_fee_per_gas (snd x)) \<and> fst (snd r) = gas_ratio F (snd x)"
    using r(1) by (cases percentiles) (auto simp: fee_row_def Let_def rres_simps)
  then show ?case using h r(3) hd by (intro exI[of _ "x # headers"]) (simp add: comp_def)
qed simp

text \<open>
  C34: \<^verbatim>\<open>eth_feeHistory\<close> answers as many blocks as asked for, limited by the configured
  history (headers or, with percentiles, blocks) and by genesis, one less for a pending range; the range ends at the block the
  newest tag resolves to, the latest one for a pending range, and starts at \<^verbatim>\<open>oldest_block\<close>; the base fees
  are those of the headers of this range and one more, the next block's, the gas ratios are those of the headers, and with
  percentiles there is one reward row per block with one entry per percentile.
\<close>

theorem fee_history_shape:
  fixes cold :: "('tx, 'rc) cold_blocks" and cx :: "'f rpc_ctx" and percentiles :: "'f list option"
  defines "limit \<equiv> if percentiles = None then max_header_history (cx_config cx) else max_block_history (cx_config cx)"
  assumes "block_count \<noteq> 0"
    and e: "end_block = resolve_block_tag (cx_tags cx) (if newest = Pending then Latest else newest)" "end_block < u64_max"
    and "\<forall>ks hs. cb_get_headers cold ks = Inr hs \<longrightarrow> length hs = length ks"
    and ok: "fee_history show_num F cold tip rg cx block_count newest percentiles = Ok fh"
  shows "\<exists>count headers. count = min (min block_count (limit) - (if newest = Pending then 1 else 0)) (end_block + 1)
    \<and> fh_oldest_block fh + count = end_block + 1
    \<and> cb_get_headers cold [end_block + 1 - count..<end_block + 1] = Inr (map Some headers) \<and> length headers = count
    \<and> fh_base_fee_per_gas fh = map (\<lambda>sh. opt_default 0 (h_base_fee_per_gas (snd sh))) headers
        @ (if headers = [] then [] else [opt_default 0 (cx_next_block_base_fee cx (snd (last headers)))])
    \<and> fh_gas_used_ratio fh = map (\<lambda>sh. gas_ratio F (snd sh)) headers
    \<and> length (fh_base_fee_per_blob_gas fh) = length (fh_base_fee_per_gas fh)
    \<and> (\<forall>ps. percentiles = Some ps \<longrightarrow>
         (\<exists>rws. fh_reward fh = Some rws \<and> length rws = count \<and> (\<forall>rw\<in>set rws. length rw = length ps)))"
proof -
  define count where "count = min (min block_count (limit) - (if newest = Pending then 1 else 0)) (end_block + 1)"
  have cnt: "fee_history_count cx block_count newest (percentiles \<noteq> None) = (count, end_block)" "count \<le> Suc end_block"
    using e by (auto simp: fee_history_count_def Let_def saturating_sub_def u64_simps count_def limit_def)
  let ?start = "u64_sub (u64_add end_block 1) count"
  have start: "?start = Suc end_block - count" using e(2) cnt(2) by (simp add: u64_simps)
  obtain hs rows where h: "cb_get_headers cold [?start..<Suc end_block] = Inr hs"
    and rows: "fee_rows show_num (fee_row F cold tip rg percentiles) ?start hs = Ok rows"
    and fh: "fh = \<lparr>fh_base_fee_per_gas = map fst rows @ (case last_opt hs of Some (Some h) \<Rightarrow>
              [opt_default 0 (cx_next_block_base_fee cx (snd h))] | _ \<Rightarrow> []),
            fh_gas_used_ratio = map (fst \<circ> snd) rows,
            fh_base_fee_per_blob_gas = replicate (length (map fst rows @ (case last_opt hs of Some (Some h) \<Rightarrow>
              [opt_default 0 (cx_next_block_base_fee cx (snd h))] | _ \<Rightarrow> []))) 0,
            fh_blob_gas_used_ratio = replicate (length rows) (f_of_u64 F 0),
            fh_oldest_block = ?start,
            fh_reward = map_option (\<lambda>_. List.map_filter (snd \<circ> snd) rows) percentiles\<rparr>"
    using ok assms(2) cnt(1)
    by (auto simp: fee_history_def rres_simps Let_def simp del: upt_Suc split: if_splits)
  have len: "length hs = count" using assms(5) h start cnt(2) by (simp del: upt_Suc)
  note r = fee_rows_Ok[OF rows]
  obtain headers where hd: "hs = map Some headers"
    "map fst rows = map (\<lambda>sh. opt_default 0 (h_base_fee_per_gas (snd sh))) headers"
    "map (fst \<circ> snd) rows = map (\<lambda>sh. gas_ratio F (snd sh)) headers"
    using fee_rows_values[OF rows] by blast
  have next1: "(case last_opt hs of Some (Some h) \<Rightarrow> [opt_default 0 (cx_next_block_base_fee cx (snd h))] | _ \<Rightarrow> [])
      = (if headers = [] then [] else [opt_default 0 (cx_next_block_base_fee cx (snd (last headers)))])"
    by (simp add: hd(1) last_opt_def last_map)
  have rew: "length (List.map_filter (snd \<circ> snd) rows) = count
      \<and> (\<forall>rw\<in>set (List.map_filter (snd \<circ> snd) rows). length rw = length ps)" if "percentiles = Some ps" for ps
  proof -
    have all: "\<forall>x\<in>set rows. \<exists>rw. snd (snd x) = Some rw \<and> length rw = length ps"
    proof
      fix x assume "x \<in> set rows"
      then obtain k h where "fee_row F cold tip rg percentiles k h = Ok x" using r by blast
      from fee_row_reward[OF this] show "\<exists>rw. snd (snd x) = Some rw \<and> length rw = length ps" using that by simp
    qed
    then have "filter (\<lambda>x. (snd \<circ> snd) x \<noteq> None) rows = rows" by (auto simp: filter_id_conv)
    then show ?thesis using all r len by (auto simp: List.map_filter_def)
  qed
  have heads: "cb_get_headers cold [end_block + 1 - count..<end_block + 1] = Inr (map Some headers)" "length headers = count"
    using h start len hd(1) by (simp_all del: upt_Suc)
  have vals: "fh_oldest_block fh + count = end_block + 1"
    "fh_base_fee_per_gas fh = map (\<lambda>sh. opt_default 0 (h_base_fee_per_gas (snd sh))) headers
        @ (if headers = [] then [] else [opt_default 0 (cx_next_block_base_fee cx (snd (last headers)))])"
    "fh_gas_used_ratio fh = map (\<lambda>sh. gas_ratio F (snd sh)) headers"
    "length (fh_base_fee_per_blob_gas fh) = length (fh_base_fee_per_gas fh)"
    using cnt(2) start by (simp_all add: fh hd(2,3) next1)
  have rw: "\<forall>ps. percentiles = Some ps \<longrightarrow>
      (\<exists>rws. fh_reward fh = Some rws \<and> length rws = count \<and> (\<forall>rw\<in>set rws. length rw = length ps))"
    using rew by (auto simp: fh)
  show ?thesis
    by (intro exI[of _ count] exI[of _ headers] conjI heads vals rw) (simp add: count_def)
qed

theorem fee_history_shape_witness:
  "\<exists>fh. fee_history (\<lambda>_. []) ex_f64 ex_cold_blocks (\<lambda>tx b. Some tx) (\<lambda>rc. rc) ex_ctx 3 Pending (Some [50]) = Ok fh
     \<and> fh_oldest_block fh = 3 \<and> fh_base_fee_per_gas fh = [1, 1, 1]"
proof -
  have tags: "cx_tags ex_ctx = BlockTags_new 4 3 2" "max_block_history (cx_config ex_ctx) = 1024"
    by (simp_all add: ex_ctx_def StorageRpcConfig_default_def)
  have e: "4 = resolve_block_tag (cx_tags ex_ctx) (if Pending = Pending then Latest else Pending)"
    by (simp add: tags(1) BlockTags_new_def)
  have c: "fee_history_count ex_ctx 3 Pending (Some [50 :: nat] \<noteq> None) = (2, 4)"
    by (simp add: fee_history_count_def ex_ctx_def StorageRpcConfig_default_def BlockTags_new_def
        saturating_sub_def u64_add_def)
  have l: "\<forall>ks hs. cb_get_headers ex_cold_blocks ks = Inr hs \<longrightarrow> length hs = length ks"
    by (auto simp: ex_cold_blocks_def)
  have st: "[u64_sub (u64_add 4 1) 2..<Suc 4] = [3, 4]" by (simp add: u64_add_def u64_sub_def upt_rec)
  have "\<exists>fh. fee_history (\<lambda>_. []) ex_f64 ex_cold_blocks (\<lambda>tx b. Some tx) (\<lambda>rc. rc) ex_ctx 3 Pending (Some [50]) = Ok fh"
    unfolding fee_history_def c prod.case Let_def st
    by (simp add: ex_cold_blocks_def fee_row_def Let_def ex_sealed_header_def calculate_reward_percentiles_def
        lift_cold_def rres_simps)
  then obtain fh where fh: "fee_history (\<lambda>_. []) ex_f64 ex_cold_blocks (\<lambda>tx b. Some tx) (\<lambda>rc. rc) ex_ctx 3 Pending (Some [50]) = Ok fh"
    by blast
  obtain headers where h: "fh_oldest_block fh + 2 = 4 + 1"
    "cb_get_headers ex_cold_blocks [3..<5] = Inr (map Some headers)"
    "fh_base_fee_per_gas fh = map (\<lambda>sh. opt_default 0 (h_base_fee_per_gas (snd sh))) headers
        @ (if headers = [] then [] else [opt_default 0 (cx_next_block_base_fee ex_ctx (snd (last headers)))])"
    using fee_history_shape[OF _ e _ l fh] by (auto simp: u64_max_def tags(2))
  have "map Some headers = map Some [ex_sealed_header 3, ex_sealed_header 4]"
    using h(2) by (simp add: ex_cold_blocks_def upt_rec)
  then have "headers = [ex_sealed_header 3, ex_sealed_header 4]" by (metis inj_map_eq_map inj_Some)
  then show ?thesis using fh h(1,3) by (simp add: ex_sealed_header_def ex_ctx_def)
qed

text \<open>
  The validation of percentiles leaves the last one unchecked: any list that passes
  still passes with one more percentile at the end that does not lie below the last, however far above
  100 it is; in particular every single percentile passes.
\<close>

theorem last_percentile_unchecked:
  assumes "\<not> percentiles_invalid F ps" "ps \<noteq> [] \<Longrightarrow> \<not> f_gt F (last ps) (f_of_u64 F 100) \<and> \<not> f_gt F (last ps) p"
  shows "\<not> percentiles_invalid F (ps @ [p])"
  using assms by (induction F ps rule: percentiles_invalid.induct) auto

theorem last_percentile_unchecked_witness:
  "\<not> percentiles_invalid ex_f64 [50, 1000]"
  using last_percentile_unchecked[of ex_f64 "[50]" 1000] by (simp add: ex_f64_def)

end
