(* ===== verification/Eth_Queries.thy ===== *)
theory Eth_Queries
  imports Eth_Fees
begin

text \<open>
  The query and execution endpoints of the ETH namespace (\<^verbatim>\<open>rpc/src/eth/endpoints.rs\<close>, with
  the builders of \<^verbatim>\<open>rpc/src/eth/helpers.rs\<close>). Parameters: cold and hot storage, the methods
  of a transaction (\<open>tx_ops\<close>), the EVM (\<open>evm_ops\<close>) and the transaction cache. The answers of
  two concurrent reads are taken in the order of their \<^verbatim>\<open>try_join!\<close>.
\<close>

section \<open>Fixed answers\<close>

datatype syncing_response = NotSyncing bool | Syncing u64 u64 u64

definition syncing :: "'f rpc_ctx \<Rightarrow> syncing_response" where
  "syncing cx =
     (case tag_sync_status (cx_tags cx) of
        Some st \<Rightarrow> Syncing (starting_block st) (current_block st) (highest_block st)
      | None \<Rightarrow> NotSyncing False)"

definition uncle_count :: u64 where "uncle_count = 0"
definition uncle_block :: "unit option" where "uncle_block = None"
definition protocol_version :: string where "protocol_version = ''0x44''"

definition block_number :: "'f rpc_ctx \<Rightarrow> u64 eth_result" where
  "block_number cx = Ok (tag_latest (cx_tags cx))"

definition chain_id :: "'f rpc_ctx \<Rightarrow> u64" where "chain_id cx = cx_chain_id cx"

section \<open>Transactions and receipts\<close>

datatype tx_kind = Create | Call address

datatype tx_type = Legacy | Eip2930 | Eip1559 | Eip4844 | Eip7702

record 'tx tx_ops =
  tx_signer :: "'tx \<Rightarrow> address"
  tx_kind_of :: "'tx \<Rightarrow> tx_kind"
  tx_nonce :: "'tx \<Rightarrow> u64"
  tx_tip :: "'tx \<Rightarrow> u64 \<Rightarrow> u128 option"
  tx_max_fee_per_gas :: "'tx \<Rightarrow> u128"
  tx_encoded_2718 :: "'tx \<Rightarrow> u8 list"
  create_address :: "address \<Rightarrow> u64 \<Rightarrow> address"

record 'lg cold_receipt =
  cr_status :: bool
  cr_cumulative_gas_used :: u64
  cr_logs :: "'lg list"
  cr_tx_type :: tx_type
  cr_from :: address
  cr_tx_hash :: b256
  cr_transaction_index :: u64
  cr_block_hash :: b256
  cr_block_number :: u64
  cr_gas_used :: u64

definition as_u64 :: "nat \<Rightarrow> u64" where "as_u64 k = k mod 2 ^ 64"

definition effective_gas_price :: "'tx tx_ops \<Rightarrow> 'tx \<Rightarrow> u64 option \<Rightarrow> u128" where
  "effective_gas_price X tx base_fee =
     (case base_fee of
        Some bf \<Rightarrow> u64_add (as_u64 (opt_default 0 (tx_tip X tx bf))) bf
      | None \<Rightarrow> as_u64 (tx_max_fee_per_gas X tx))"

record 'tx rpc_transaction =
  rt_inner :: 'tx
  rt_signer :: address
  rt_block_hash :: "b256 option"
  rt_block_number :: "u64 option"
  rt_transaction_index :: "u64 option"
  rt_effective_gas_price :: "u128 option"

definition build_rpc_transaction ::
  "'tx tx_ops \<Rightarrow> 'tx \<Rightarrow> confirmation_meta \<Rightarrow> u64 option \<Rightarrow> 'tx rpc_transaction" where
  "build_rpc_transaction X tx meta base_fee =
     \<lparr>rt_inner = tx, rt_signer = tx_signer X tx, rt_block_hash = Some (cm_block_hash meta),
      rt_block_number = Some (cm_block_number meta),
      rt_transaction_index = Some (cm_transaction_index meta),
      rt_effective_gas_price = Some (effective_gas_price X tx base_fee)\<rparr>"

text \<open>A receipt with its bloom, in the envelope of its transaction type.\<close>

type_synonym ('lg, 'bl) receipt_with_bloom = "bool \<times> u64 \<times> 'lg list \<times> 'bl"

datatype 'r receipt_envelope =
  Env_Legacy 'r | Env_Eip2930 'r | Env_Eip1559 'r | Env_Eip4844 'r | Env_Eip7702 'r

fun build_receipt_envelope :: "'r \<Rightarrow> tx_type \<Rightarrow> 'r receipt_envelope" where
  "build_receipt_envelope r Legacy = Env_Legacy r"
| "build_receipt_envelope r Eip2930 = Env_Eip2930 r"
| "build_receipt_envelope r Eip1559 = Env_Eip1559 r"
| "build_receipt_envelope r Eip4844 = Env_Eip4844 r"
| "build_receipt_envelope r Eip7702 = Env_Eip7702 r"

record ('lg, 'bl) rpc_receipt =
  rr_inner :: "('lg, 'bl) receipt_with_bloom receipt_envelope"
  rr_transaction_hash :: b256
  rr_transaction_index :: "u64 option"
  rr_block_hash :: "b256 option"
  rr_block_number :: "u64 option"
  rr_from :: address
  rr_to :: "address option"
  rr_gas_used :: u64
  rr_contract_address :: "address option"
  rr_effective_gas_price :: u128

definition build_receipt ::
  "('lg list \<Rightarrow> 'bl) \<Rightarrow> 'tx tx_ops \<Rightarrow> 'lg cold_receipt \<Rightarrow> 'tx \<Rightarrow> u64 option \<Rightarrow> ('lg, 'bl) rpc_receipt" where
  "build_receipt bloom X cr tx base_fee =
     (case (case tx_kind_of X tx of
              Create \<Rightarrow> (Some (create_address X (cr_from cr) (tx_nonce X tx)), None)
            | Call addr \<Rightarrow> (None, Some addr)) of
        (contract_address, to) \<Rightarrow>
          \<lparr>rr_inner = build_receipt_envelope
             (cr_status cr, cr_cumulative_gas_used cr, cr_logs cr, bloom (cr_logs cr)) (cr_tx_type cr),
           rr_transaction_hash = cr_tx_hash cr,
           rr_transaction_index = Some (cr_transaction_index cr),
           rr_block_hash = Some (cr_block_hash cr), rr_block_number = Some (cr_block_number cr),
           rr_from = cr_from cr, rr_to = to, rr_gas_used = cr_gas_used cr,
           rr_contract_address = contract_address,
           rr_effective_gas_price = effective_gas_price X tx base_fee\<rparr>)"

section \<open>Blocks\<close>

datatype 'tx block_transactions =
    Full_Txs "'tx list" u64 b256 "u64 option"
  | Hash_Txs "'tx list"

record 'tx eth_rpc_block =
  eb_header :: sealed_header
  eb_transactions :: "'tx block_transactions"

abbreviation resolve_id :: "'f rpc_ctx \<Rightarrow> block_id \<Rightarrow> u64 eth_result" where
  "resolve_id cx i \<equiv> lift_resolve (resolve_block_id cx i)"

definition block ::
  "('tx, 'rc) cold_blocks \<Rightarrow> 'f rpc_ctx \<Rightarrow> block_id \<Rightarrow> bool option \<Rightarrow> 'tx eth_rpc_block option eth_result" where
  "block cold cx i full_arg =
     (let full = opt_default False full_arg
      in await_handler
        (rbind (resolve_id cx i) (\<lambda>block_num.
         rbind (storage_call Cold (cb_get_header_by_number cold block_num)) (\<lambda>header.
         rbind (storage_call Cold (cb_get_transactions cold block_num)) (\<lambda>txs.
           case header of
             None \<Rightarrow> Ok None
           | Some sh \<Rightarrow>
               (let transactions =
                      (if full then Full_Txs txs block_num (fst sh) (h_base_fee_per_gas (snd sh))
                       else Hash_Txs txs)
                in Ok (Some \<lparr>eb_header = sh, eb_transactions = transactions\<rparr>)))))))"

definition block_tx_count :: "('tx, 'rc) cold_blocks \<Rightarrow> 'f rpc_ctx \<Rightarrow> block_id \<Rightarrow> u64 option eth_result" where
  "block_tx_count cold cx i =
     await_handler
       (rbind (resolve_id cx i) (\<lambda>block_num.
        rbind (storage_call Cold (cb_get_transaction_count cold block_num)) (\<lambda>k. Ok (Some k))))"

record ('tx, 'rc) lazy_receipts =
  lz_txs :: "'tx list"
  lz_receipts :: "'rc list"
  lz_base_fee :: "u64 option"

definition block_receipts ::
  "('tx, 'rc) cold_blocks \<Rightarrow> 'f rpc_ctx \<Rightarrow> block_id \<Rightarrow> ('tx, 'rc) lazy_receipts option eth_result" where
  "block_receipts cold cx i =
     await_handler
       (rbind (resolve_id cx i) (\<lambda>block_num.
        rbind (storage_call Cold (cb_get_header_by_number cold block_num)) (\<lambda>header.
        rbind (storage_call Cold (cb_get_transactions cold block_num)) (\<lambda>txs.
        rbind (storage_call Cold (cb_get_receipts cold block_num)) (\<lambda>receipts.
          case header of
            None \<Rightarrow> Ok None
          | Some sh \<Rightarrow>
              Ok (Some \<lparr>lz_txs = txs, lz_receipts = receipts, lz_base_fee = h_base_fee_per_gas (snd sh)\<rparr>))))))"

definition header_by :: "'f rpc_ctx \<Rightarrow> block_id \<Rightarrow> sealed_header option eth_result" where
  "header_by cx i = await_handler (lift_resolve (resolve_header cx i))"

section \<open>Transaction queries\<close>

definition base_fee_at :: "('tx, 'rc) cold_blocks \<Rightarrow> u64 \<Rightarrow> u64 option eth_result" where
  "base_fee_at cold num =
     rmap (\<lambda>h. Option.bind h (\<lambda>sh. h_base_fee_per_gas (snd sh)))
       (storage_call Cold (cb_get_header_by_number cold num))"

definition confirmed_transaction ::
  "('tx, 'rc) cold_blocks \<Rightarrow> 'tx tx_ops \<Rightarrow> ('tx \<times> confirmation_meta) option \<Rightarrow> 'tx rpc_transaction option eth_result" where
  "confirmed_transaction cold X found =
     (case found of
        None \<Rightarrow> Ok None
      | Some (tx, meta) \<Rightarrow>
          rbind (base_fee_at cold (cm_block_number meta)) (\<lambda>base_fee.
            Ok (Some (build_rpc_transaction X tx meta base_fee))))"

definition transaction_by_hash ::
  "('tx, 'rc) cold_blocks \<Rightarrow> 'tx tx_ops \<Rightarrow> b256 \<Rightarrow> 'tx rpc_transaction option eth_result" where
  "transaction_by_hash cold X hash =
     await_handler
       (rbind (storage_call Cold (cb_get_tx_by_hash cold hash)) (confirmed_transaction cold X))"

definition raw_transaction_by_hash ::
  "('tx, 'rc) cold_blocks \<Rightarrow> 'tx tx_ops \<Rightarrow> b256 \<Rightarrow> u8 list option eth_result" where
  "raw_transaction_by_hash cold X hash =
     await_handler
       (rmap (map_option (\<lambda>(tx, meta). tx_encoded_2718 X tx))
         (storage_call Cold (cb_get_tx_by_hash cold hash)))"

definition transaction_by_block_and_index ::
  "('tx, 'rc) cold_blocks \<Rightarrow> 'tx tx_ops \<Rightarrow> 'f rpc_ctx \<Rightarrow> block_id \<Rightarrow> u64 \<Rightarrow> 'tx rpc_transaction option eth_result" where
  "transaction_by_block_and_index cold X cx i index =
     await_handler
       (rbind (resolve_id cx i) (\<lambda>block_num.
        rbind (storage_call Cold (cb_get_tx_by_block_and_index cold block_num index))
          (confirmed_transaction cold X)))"

definition raw_transaction_by_block_and_index ::
  "('tx, 'rc) cold_blocks \<Rightarrow> 'tx tx_ops \<Rightarrow> 'f rpc_ctx \<Rightarrow> block_id \<Rightarrow> u64 \<Rightarrow> u8 list option eth_result" where
  "raw_transaction_by_block_and_index cold X cx i index =
     await_handler
       (rbind (resolve_id cx i) (\<lambda>block_num.
        rmap (map_option (\<lambda>(tx, meta). tx_encoded_2718 X tx))
          (storage_call Cold (cb_get_tx_by_block_and_index cold block_num index))))"

definition transaction_receipt ::
  "('lg list \<Rightarrow> 'bl) \<Rightarrow> ('tx, 'lg cold_receipt) cold_blocks \<Rightarrow> 'tx tx_ops \<Rightarrow> b256
     \<Rightarrow> ('lg, 'bl) rpc_receipt option eth_result" where
  "transaction_receipt bloom cold X hash =
     await_handler
       (rbind (storage_call Cold (cb_get_receipt_by_tx_hash cold hash)) (\<lambda>found.
          case found of
            None \<Rightarrow> Ok None
          | Some cr \<Rightarrow>
              rbind (storage_call Cold (cb_get_tx_by_hash cold (cr_tx_hash cr))) (\<lambda>tx.
              rbind (storage_call Cold (cb_get_header_by_number cold (cr_block_number cr))) (\<lambda>header.
              rbind (ok_or tx (TransactionMissing (cr_tx_hash cr))) (\<lambda>(tx, meta).
                Ok (Some (build_receipt bloom X cr tx
                  (Option.bind header (\<lambda>sh. h_base_fee_per_gas (snd sh))))))))))"

section \<open>Account state\<close>

definition default_block :: "block_id \<Rightarrow> block_id option \<Rightarrow> block_id" where
  "default_block d b = opt_default d b"

definition balance :: "'f rpc_ctx \<Rightarrow> address \<Rightarrow> block_id option \<Rightarrow> b256 eth_result" where
  "balance cx a b =
     await_handler
       (rbind (hot_reader_at_block cx (default_block (BlockId_Number Latest) b)) (\<lambda>(reader, height).
        rbind (storage_call Internal (get_account_at_height reader a height)) (\<lambda>acct.
          Ok (case acct of None \<Rightarrow> 0 | Some x \<Rightarrow> acct_balance x))))"

definition storage_at :: "'f rpc_ctx \<Rightarrow> address \<Rightarrow> b256 \<Rightarrow> block_id option \<Rightarrow> b256 eth_result" where
  "storage_at cx a key b =
     await_handler
       (rbind (hot_reader_at_block cx (default_block (BlockId_Number Latest) b)) (\<lambda>(reader, height).
        rbind (storage_call Internal (get_storage_at_height reader a key height)) (\<lambda>val.
          Ok (opt_default 0 val))))"

definition addr_tx_count :: "'f rpc_ctx \<Rightarrow> address \<Rightarrow> block_id option \<Rightarrow> u64 eth_result" where
  "addr_tx_count cx a b =
     await_handler
       (rbind (hot_reader_at_block cx (default_block (BlockId_Number Latest) b)) (\<lambda>(reader, height).
        rbind (storage_call Internal (get_account_at_height reader a height)) (\<lambda>acct.
          Ok (case acct of None \<Rightarrow> 0 | Some x \<Rightarrow> acct_nonce x))))"

definition code_at :: "'f rpc_ctx \<Rightarrow> address \<Rightarrow> block_id option \<Rightarrow> u8 list eth_result" where
  "code_at cx a b =
     await_handler
       (rbind (hot_reader_at_block cx (default_block (BlockId_Number Latest) b)) (\<lambda>(reader, height).
        rbind (storage_call Internal (get_account_at_height reader a height)) (\<lambda>acct.
          case acct of
            None \<Rightarrow> Ok []
          | Some x \<Rightarrow>
              (case acct_bytecode_hash x of
                 None \<Rightarrow> Ok []
               | Some code_hash \<Rightarrow>
                   rbind (storage_call Internal (get_bytecode reader code_hash)) (\<lambda>code.
                     Ok (opt_default [] code))))))"

section \<open>Execution\<close>

record 'rest tx_request =
  rq_gas :: "u64 option"
  rq_rest :: 'rest

definition normalize_gas_stateless :: "u64 \<Rightarrow> u64 \<Rightarrow> 'rest tx_request \<Rightarrow> 'rest tx_request" where
  "normalize_gas_stateless min_gas max_gas request =
     (case rq_gas request of
        None \<Rightarrow> request
      | Some val \<Rightarrow>
          if val < min_gas then request\<lparr>rq_gas := None\<rparr>
          else if val > max_gas then request\<lparr>rq_gas := Some max_gas\<rparr>
          else request)"

datatype execution_result = Success "u8 list" | Revert "u8 list" | Halt string

datatype estimation_result = Est_Success u64 | Est_Revert "u8 list" | Est_Halt string

text \<open>
  The EVM: setting it up for a chain and a block, overrides, filling the transaction, and
  the three ways to run it. \<open>'v\<close> is its state, \<open>'al\<close> an access list.
\<close>

record ('rest, 'v, 'so, 'bo, 'al) evm_ops =
  ev_min_gas :: u64
  ev_setup :: "u64 \<Rightarrow> evm_block_context \<Rightarrow> 'v"
  ev_state_overrides :: "'so option \<Rightarrow> 'v \<Rightarrow> string + 'v"
  ev_block_overrides :: "'bo option \<Rightarrow> 'v \<Rightarrow> 'v"
  ev_fill_tx :: "'rest tx_request \<Rightarrow> 'v \<Rightarrow> 'v"
  ev_cap_tx_gas :: "'v \<Rightarrow> string + 'v"
  ev_call :: "'v \<Rightarrow> string + execution_result"
  ev_estimate_gas :: "'v \<Rightarrow> string + estimation_result"
  ev_access_list :: "'rest tx_request \<Rightarrow> 'v \<Rightarrow> (string + u64) \<times> 'al"

definition evm_prepare ::
  "('rest, 'v, 'so, 'bo, 'al) evm_ops \<Rightarrow> 'f rpc_ctx \<Rightarrow> 'rest tx_request \<Rightarrow> block_id \<Rightarrow> 'so option \<Rightarrow> 'bo option
     \<Rightarrow> 'v eth_result" where
  "evm_prepare E cx request i so bo =
     rbind (resolve_evm_block cx i) (\<lambda>ebc.
     rbind (storage_call Internal (ev_state_overrides E so (ev_setup E (cx_chain_id cx) ebc))) (\<lambda>v.
       Ok (ev_fill_tx E request (ev_block_overrides E bo v))))"

definition run_call ::
  "('rest, 'v, 'so, 'bo, 'al) evm_ops \<Rightarrow> 'f rpc_ctx \<Rightarrow> 'rest tx_request \<Rightarrow> block_id option \<Rightarrow> 'so option \<Rightarrow> 'bo option
     \<Rightarrow> execution_result eth_result" where
  "run_call E cx request b so bo =
     await_handler
       (rbind (evm_prepare E cx request (default_block (BlockId_Number Latest) b) so bo) (\<lambda>v.
        rbind (storage_call Internal (ev_cap_tx_gas E v)) (\<lambda>v1.
          storage_call Internal (ev_call E v1))))"

definition call ::
  "('rest, 'v, 'so, 'bo, 'al) evm_ops \<Rightarrow> 'f rpc_ctx \<Rightarrow> 'rest tx_request \<Rightarrow> block_id option \<Rightarrow> 'so option \<Rightarrow> 'bo option
     \<Rightarrow> u8 list eth_result" where
  "call E cx request b so bo =
     (let request = normalize_gas_stateless (ev_min_gas E) (rpc_gas_cap (cx_config cx)) request
      in await_handler
        (rbind (run_call E cx request b so bo) (\<lambda>res.
           case res of
             Success output \<Rightarrow> Ok output
           | Revert output \<Rightarrow> Err (EvmRevert output)
           | Halt reason \<Rightarrow> Err (EvmHalt reason))))"

definition estimate_gas ::
  "('rest, 'v, 'so, 'bo, 'al) evm_ops \<Rightarrow> 'f rpc_ctx \<Rightarrow> 'rest tx_request \<Rightarrow> block_id option \<Rightarrow> 'so option \<Rightarrow> 'bo option
     \<Rightarrow> u64 eth_result" where
  "estimate_gas E cx request b so bo =
     (let request = normalize_gas_stateless (ev_min_gas E) (rpc_gas_cap (cx_config cx)) request
      in await_handler
        (rbind (evm_prepare E cx request (default_block (BlockId_Number Pending) b) so bo) (\<lambda>v.
         rbind (storage_call Internal (ev_estimate_gas E v)) (\<lambda>est.
           case est of
             Est_Success limit \<Rightarrow> Ok limit
           | Est_Revert reason \<Rightarrow> Err (EvmRevert reason)
           | Est_Halt reason \<Rightarrow> Err (EvmHalt reason)))))"

definition create_access_list ::
  "('rest, 'v, 'so, 'bo, 'al) evm_ops \<Rightarrow> 'f rpc_ctx \<Rightarrow> 'rest tx_request \<Rightarrow> block_id option \<Rightarrow> 'so option \<Rightarrow> 'bo option
     \<Rightarrow> ('al \<times> u64 \<times> string option) eth_result" where
  "create_access_list E cx request b so bo =
     (let request = normalize_gas_stateless (ev_min_gas E) (rpc_gas_cap (cx_config cx)) request
      in await_handler
        (rbind (evm_prepare E cx request (default_block (BlockId_Number Pending) b) so bo) (\<lambda>v.
           case ev_access_list E request v of
             (result, access_list) \<Rightarrow>
               (case (case result of Inr gas \<Rightarrow> (gas, None) | Inl e \<Rightarrow> (0, Some e)) of
                  (gas_used, error) \<Rightarrow> Ok (access_list, gas_used, error)))))"

text \<open>
  Submission: decode and return the hash; the envelope handed to the forwarding task is
  the second component of the answer.
\<close>

definition send_raw_transaction ::
  "bool \<Rightarrow> (u8 list \<Rightarrow> string + 'env) \<Rightarrow> ('env \<Rightarrow> b256) \<Rightarrow> u8 list \<Rightarrow> (b256 \<times> 'env) eth_result" where
  "send_raw_transaction has_tx_cache decode_2718 tx_hash tx =
     (if \<not> has_tx_cache then Err (Internal ''tx-cache URL not provided'')
      else await_handler
        (rbind (storage_call InvalidParams (decode_2718 tx)) (\<lambda>envelope. Ok (tx_hash envelope, envelope))))"

section \<open>What the queries answer\<close>

text \<open>
  C32: the four account queries read one snapshot at one height, the one their block id resolves to
  in it (the latest block without an id): balance and nonce of the account, the value of the slot, and the bytecode the snapshot
  has for the code hash of the account. They answer zero, respectively no code, for an account, slot or bytecode the
  snapshot does not have; a failed read of the bytecode is an internal error.
\<close>

theorem state_queries_agree:
  assumes "cx_hot_reader cx = Inr r" "resolve_block_id cx (default_block (BlockId_Number Latest) b) = Ok height"
    and "get_account_at_height r a height = Inr acct" "get_storage_at_height r a key height = Inr slot"
  shows "balance cx a b = Ok (case acct of None \<Rightarrow> 0 | Some x \<Rightarrow> acct_balance x)
    \<and> addr_tx_count cx a b = Ok (case acct of None \<Rightarrow> 0 | Some x \<Rightarrow> acct_nonce x)
    \<and> storage_at cx a key b = Ok (case slot of None \<Rightarrow> 0 | Some v \<Rightarrow> v)
    \<and> code_at cx a b =
        (case Option.bind acct acct_bytecode_hash of
           None \<Rightarrow> Ok []
         | Some h \<Rightarrow> (case get_bytecode r h of
             Inl e \<Rightarrow> Err (Internal e) | Inr None \<Rightarrow> Ok [] | Inr (Some code) \<Rightarrow> Ok code))
    \<and> (b = None \<longrightarrow> height = tag_latest (cx_tags cx))"
proof -
  let ?i = "default_block (BlockId_Number Latest) b"
  have at: "hot_reader_at_block cx ?i = Ok (r, height)"
  proof (cases ?i)
    case (BlockId_Hash h)
    then obtain k where "get_header_number r h = Inr (Some k)" "k = height"
      using assms(1,2) by (auto simp: resolve_block_id_def rres_simps resolve_call_def split: sum.splits)
    then show ?thesis using BlockId_Hash assms(1) by (simp add: hot_reader_at_block_def)
  qed (use assms(1,2) in \<open>simp add: hot_reader_at_block_def resolve_block_id_def\<close>)
  have "code_at cx a b =
        (case Option.bind acct acct_bytecode_hash of
           None \<Rightarrow> Ok []
         | Some h \<Rightarrow> (case get_bytecode r h of
             Inl e \<Rightarrow> Err (Internal e) | Inr None \<Rightarrow> Ok [] | Inr (Some code) \<Rightarrow> Ok code))"
    using at assms(3) by (auto simp: code_at_def storage_call_def split: option.split sum.split)
  moreover have "b = None \<Longrightarrow> height = tag_latest (cx_tags cx)"
    using assms(2) by (simp add: default_block_def resolve_block_id_def)
  moreover have "opt_default 0 slot = (case slot of None \<Rightarrow> 0 | Some v \<Rightarrow> v)" by (cases slot) simp_all
  ultimately show ?thesis
    using at assms(3,4) by (simp add: balance_def addr_tx_count_def storage_at_def)
qed

text \<open>The example snapshot with a contract at address 1.\<close>

definition ex_code_tx :: hot_tx where
  "ex_code_tx = ex_hot_tx\<lparr>
     get_account_at_height := (\<lambda>a k. Inr (if a = 1 \<and> k = 4
       then Some \<lparr>acct_balance = 70, acct_nonce = 3, acct_bytecode_hash = Some 9\<rparr> else None)),
     get_storage_at_height := (\<lambda>a s k. Inr (if a = 1 \<and> s = 5 \<and> k = 4 then Some 6 else None)),
     get_bytecode := (\<lambda>h. Inr (if h = 9 then Some [96, 128] else None))\<rparr>"

theorem state_queries_agree_witness:
  "let cx = ex_ctx\<lparr>cx_hot_reader := Inr ex_code_tx\<rparr>; b = Some (BlockId_Hash 44) in
     balance cx 1 b = Ok 70 \<and> addr_tx_count cx 1 b = Ok 3 \<and> storage_at cx 1 5 b = Ok 6 \<and> code_at cx 1 b = Ok [96, 128]"
proof -
  let ?cx = "ex_ctx\<lparr>cx_hot_reader := Inr ex_code_tx\<rparr>"
  have r: "cx_hot_reader ?cx = Inr ex_code_tx" by simp
  have i: "resolve_block_id ?cx (default_block (BlockId_Number Latest) (Some (BlockId_Hash 44))) = Ok 4"
    by (simp add: default_block_def resolve_block_id_def) (simp add: ex_code_tx_def ex_hot_tx_def Let_def)
  show ?thesis
    using state_queries_agree[OF r i, of 1 _ 5] by (simp add: ex_code_tx_def Let_def)
qed

text \<open>
  C35: execution requests reach the EVM with no gas limit, or with one that is at least
  the minimum of a transaction and at most the configured cap (given a cap that is not
  below that minimum); a limit inside these bounds is kept, and nothing else of the request is changed. This is
  the request that \<^verbatim>\<open>eth_call\<close>, \<^verbatim>\<open>eth_estimateGas\<close> and \<^verbatim>\<open>eth_createAccessList\<close> fill the EVM with, set up for the
  block their id resolves to (the latest block for a call without an id, the pending one for the others)
  after the overrides. The answer of \<^verbatim>\<open>eth_call\<close> maps success, revert and halt to the output, to error code 3 with
  the revert data, and to an error without data.
\<close>

theorem execution_requests_normalized:
  fixes E :: "('rest, 'v, 'so, 'bo, 'al) evm_ops" and cx :: "'f rpc_ctx" and q :: "'rest tx_request"
  defines "n \<equiv> normalize_gas_stateless (ev_min_gas E) (rpc_gas_cap (cx_config cx)) q"
  assumes "ev_min_gas E \<le> rpc_gas_cap (cx_config cx)"
  shows "(\<forall>g. rq_gas n = Some g \<longrightarrow> ev_min_gas E \<le> g \<and> g \<le> rpc_gas_cap (cx_config cx))
    \<and> (\<forall>g. rq_gas q = Some g \<longrightarrow> ev_min_gas E \<le> g \<longrightarrow> g \<le> rpc_gas_cap (cx_config cx) \<longrightarrow> n = q)
    \<and> rq_rest n = rq_rest q
    \<and> (\<forall>ebc v. resolve_evm_block cx (default_block (BlockId_Number Latest) b) = Ok ebc \<longrightarrow>
         ev_state_overrides E so (ev_setup E (cx_chain_id cx) ebc) = Inr v \<longrightarrow>
         (case ev_cap_tx_gas E (ev_fill_tx E n (ev_block_overrides E bo v)) of
            Inl e \<Rightarrow> call E cx q b so bo = Err (Internal e)
          | Inr v1 \<Rightarrow> (case ev_call E v1 of
              Inl e \<Rightarrow> call E cx q b so bo = Err (Internal e)
            | Inr (Success out) \<Rightarrow> call E cx q b so bo = Ok out
            | Inr (Revert out) \<Rightarrow> (\<exists>e. call E cx q b so bo = Err e \<and> error_code e = 3 \<and> error_data e = Some out)
            | Inr (Halt why) \<Rightarrow> (\<exists>e. call E cx q b so bo = Err e \<and> error_code e = -32000 \<and> error_data e = None))))
    \<and> (\<forall>ebc v. resolve_evm_block cx (default_block (BlockId_Number Pending) b) = Ok ebc \<longrightarrow>
         ev_state_overrides E so (ev_setup E (cx_chain_id cx) ebc) = Inr v \<longrightarrow>
         (case ev_estimate_gas E (ev_fill_tx E n (ev_block_overrides E bo v)) of
            Inl e \<Rightarrow> estimate_gas E cx q b so bo = Err (Internal e)
          | Inr (Est_Success limit) \<Rightarrow> estimate_gas E cx q b so bo = Ok limit
          | Inr (Est_Revert out) \<Rightarrow> estimate_gas E cx q b so bo = Err (EvmRevert out)
          | Inr (Est_Halt why) \<Rightarrow> estimate_gas E cx q b so bo = Err (EvmHalt why))
         \<and> (case ev_access_list E n (ev_fill_tx E n (ev_block_overrides E bo v)) of
              (Inr gas, al) \<Rightarrow> create_access_list E cx q b so bo = Ok (al, gas, None)
            | (Inl e, al) \<Rightarrow> create_access_list E cx q b so bo = Ok (al, 0, Some e)))"
proof -
  have bounds: "\<forall>g. rq_gas n = Some g \<longrightarrow> ev_min_gas E \<le> g \<and> g \<le> rpc_gas_cap (cx_config cx)"
    using assms(2) by (auto simp: n_def normalize_gas_stateless_def split: option.splits if_splits)
  have keep: "\<forall>g. rq_gas q = Some g \<longrightarrow> ev_min_gas E \<le> g \<longrightarrow> g \<le> rpc_gas_cap (cx_config cx) \<longrightarrow> n = q"
    and rest: "rq_rest n = rq_rest q"
    by (auto simp: n_def normalize_gas_stateless_def split: option.split)
  have prep: "evm_prepare E cx n i so bo = Ok (ev_fill_tx E n (ev_block_overrides E bo v))"
    if "resolve_evm_block cx i = Ok ebc" "ev_state_overrides E so (ev_setup E (cx_chain_id cx) ebc) = Inr v" for i ebc v
    using that by (simp add: evm_prepare_def)
  have calls: "case ev_cap_tx_gas E (ev_fill_tx E n (ev_block_overrides E bo v)) of
            Inl e \<Rightarrow> call E cx q b so bo = Err (Internal e)
          | Inr v1 \<Rightarrow> (case ev_call E v1 of
              Inl e \<Rightarrow> call E cx q b so bo = Err (Internal e)
            | Inr (Success out) \<Rightarrow> call E cx q b so bo = Ok out
            | Inr (Revert out) \<Rightarrow> (\<exists>e. call E cx q b so bo = Err e \<and> error_code e = 3 \<and> error_data e = Some out)
            | Inr (Halt why) \<Rightarrow> (\<exists>e. call E cx q b so bo = Err e \<and> error_code e = -32000 \<and> error_data e = None))"
    if "resolve_evm_block cx (default_block (BlockId_Number Latest) b) = Ok ebc"
      "ev_state_overrides E so (ev_setup E (cx_chain_id cx) ebc) = Inr v" for ebc v
    unfolding call_def Let_def n_def[symmetric] run_call_def prep[OF that]
    by (auto split: sum.split execution_result.split)
  have others: "(case ev_estimate_gas E (ev_fill_tx E n (ev_block_overrides E bo v)) of
            Inl e \<Rightarrow> estimate_gas E cx q b so bo = Err (Internal e)
          | Inr (Est_Success limit) \<Rightarrow> estimate_gas E cx q b so bo = Ok limit
          | Inr (Est_Revert out) \<Rightarrow> estimate_gas E cx q b so bo = Err (EvmRevert out)
          | Inr (Est_Halt why) \<Rightarrow> estimate_gas E cx q b so bo = Err (EvmHalt why))
         \<and> (case ev_access_list E n (ev_fill_tx E n (ev_block_overrides E bo v)) of
              (Inr gas, al) \<Rightarrow> create_access_list E cx q b so bo = Ok (al, gas, None)
            | (Inl e, al) \<Rightarrow> create_access_list E cx q b so bo = Ok (al, 0, Some e))"
    if "resolve_evm_block cx (default_block (BlockId_Number Pending) b) = Ok ebc"
      "ev_state_overrides E so (ev_setup E (cx_chain_id cx) ebc) = Inr v" for ebc v
    unfolding estimate_gas_def create_access_list_def Let_def n_def[symmetric] prep[OF that]
    by (auto split: sum.split estimation_result.split prod.split)
  show ?thesis using bounds keep rest calls others by blast
qed

text \<open>An EVM whose state is the gas limit it was filled with, and which burns it all.\<close>

definition ex_evm :: "(unit, u64, unit, unit, unit) evm_ops" where
  "ex_evm =
     \<lparr>ev_min_gas = 21000, ev_setup = (\<lambda>c e. 0), ev_state_overrides = (\<lambda>so v. Inr v),
      ev_block_overrides = (\<lambda>bo v. v), ev_fill_tx = (\<lambda>q v. opt_default 0 (rq_gas q)), ev_cap_tx_gas = (\<lambda>v. Inr v),
      ev_call = (\<lambda>v. Inr (if v = 30000000 then Revert [7] else Success [])),
      ev_estimate_gas = (\<lambda>v. Inr (Est_Success v)), ev_access_list = (\<lambda>q v. (Inr v, ()))\<rparr>"

theorem execution_requests_normalized_witness:
  "estimate_gas ex_evm ex_ctx \<lparr>rq_gas = Some 99000000, rq_rest = ()\<rparr> None None None = Ok 30000000
   \<and> create_access_list ex_evm ex_ctx \<lparr>rq_gas = Some 99000000, rq_rest = ()\<rparr> None None None = Ok ((), 30000000, None)
   \<and> (\<exists>e. call ex_evm ex_ctx \<lparr>rq_gas = Some 99000000, rq_rest = ()\<rparr> None None None = Err e \<and> error_data e = Some [7])"
proof -
  have cap: "ev_min_gas ex_evm \<le> rpc_gas_cap (cx_config ex_ctx)"
    by (simp add: ex_evm_def ex_ctx_def StorageRpcConfig_default_def)
  have n: "normalize_gas_stateless (ev_min_gas ex_evm) (rpc_gas_cap (cx_config ex_ctx)) \<lparr>rq_gas = Some 99000000, rq_rest = ()\<rparr>
      = \<lparr>rq_gas = Some 30000000, rq_rest = ()\<rparr>"
    by (simp add: ex_evm_def ex_ctx_def StorageRpcConfig_default_def normalize_gas_stateless_def)
  obtain e1 e2 where e: "resolve_evm_block ex_ctx (default_block (BlockId_Number Latest) None) = Ok e1"
    "resolve_evm_block ex_ctx (default_block (BlockId_Number Pending) None) = Ok e2"
    by (simp add: default_block_def resolve_evm_block_def ex_ctx_def ex_hot_tx_def header_of_id_def is_pending_def
        BlockTags_new_def Let_def)
  have v: "ev_state_overrides ex_evm None (ev_setup ex_evm (cx_chain_id ex_ctx) e1) = Inr 0"
    "ev_state_overrides ex_evm None (ev_setup ex_evm (cx_chain_id ex_ctx) e2) = Inr 0"
    by (simp_all add: ex_evm_def)
  note t = execution_requests_normalized[OF cap, of "\<lparr>rq_gas = Some 99000000, rq_rest = ()\<rparr>" None None None, unfolded n]
  have "\<exists>e. call ex_evm ex_ctx \<lparr>rq_gas = Some 99000000, rq_rest = ()\<rparr> None None None = Err e \<and> error_data e = Some [7]"
    using t e(1) v(1) by (fastforce simp: ex_evm_def)
  moreover have "estimate_gas ex_evm ex_ctx \<lparr>rq_gas = Some 99000000, rq_rest = ()\<rparr> None None None = Ok 30000000"
    "create_access_list ex_evm ex_ctx \<lparr>rq_gas = Some 99000000, rq_rest = ()\<rparr> None None None = Ok ((), 30000000, None)"
    using t e(2) v(2) by (fastforce simp: ex_evm_def)+
  ultimately show ?thesis by blast
qed

end
