(* ===== verification/Chain_Notifier.thy ===== *)
theory Chain_Notifier
  imports Interest_Kind Rpc_Tags Rpc_View
begin

text \<open>
  The chain state shared by the node and the RPC layer (\<^verbatim>\<open>rpc/src/config/chain_notifier.rs\<close>):
  the tags, the broadcast of chain events and the ring buffer of recent reorgs. Instants
  are natural numbers read from one monotonic clock, whose current value is an argument.
  Of tokio's broadcast channel the state keeps what the code observes: its capacity, the
  number of active receivers and the events that were sent. A receiver is a position in
  these events; how it may lag behind is stated where a receiver is modelled (\<open>Node_Subs\<close>).
\<close>

definition MAX_REORG_ENTRIES :: usize where "MAX_REORG_ENTRIES = 25"

type_synonym instant = nat
type_synonym 'l reorg_buffer = "(instant \<times> 'l reorg_notification) list"

record 'l chain_notifier =
  cn_tags :: block_tags
  cn_capacity :: usize
  cn_receivers :: usize
  cn_sent :: "'l chain_event list"
  cn_reorgs :: "'l reorg_buffer"

definition ChainNotifier_new :: "usize \<Rightarrow> 'l chain_notifier" where
  "ChainNotifier_new channel_capacity =
     \<lparr>cn_tags = BlockTags_new 0 0 0, cn_capacity = channel_capacity, cn_receivers = 0, cn_sent = [], cn_reorgs = []\<rparr>"

definition send_event :: "'l chain_event \<Rightarrow> 'l chain_notifier \<Rightarrow> (usize, 'l chain_event) rresult \<times> 'l chain_notifier" where
  "send_event ev c =
     (if cn_receivers c = 0 then (Err ev, c)
      else (Ok (cn_receivers c), c\<lparr>cn_sent := cn_sent c @ [ev]\<rparr>))"

definition send_new_block ::
  "'l new_block_notification \<Rightarrow> 'l chain_notifier \<Rightarrow> (usize, 'l chain_event) rresult \<times> 'l chain_notifier" where
  "send_new_block n c = send_event (NewBlock n) c"

definition push_reorg :: "instant \<times> 'l reorg_notification \<Rightarrow> 'l reorg_buffer \<Rightarrow> 'l reorg_buffer" where
  "push_reorg e buf =
     (let buf1 = (if length buf \<ge> MAX_REORG_ENTRIES then tl buf else buf) in buf1 @ [e])"

definition send_reorg ::
  "instant \<Rightarrow> 'l reorg_notification \<Rightarrow> 'l chain_notifier \<Rightarrow> (usize, 'l chain_event) rresult \<times> 'l chain_notifier" where
  "send_reorg now n c = send_event (Reorg_Event n) (c\<lparr>cn_reorgs := push_reorg (now, n) (cn_reorgs c)\<rparr>)"

definition subscribe_chain :: "'l chain_notifier \<Rightarrow> 'l chain_notifier" where
  "subscribe_chain c = c\<lparr>cn_receivers := Suc (cn_receivers c)\<rparr>"

definition reorgs_since :: "instant \<Rightarrow> 'l chain_notifier \<Rightarrow> 'l reorg_notification list" where
  "reorgs_since since c = map snd (filter (\<lambda>(t, r). t > since) (cn_reorgs c))"

text \<open>The ring buffer keeps the most recent reorgs: the contract \<open>evict_oldest\<close>.\<close>

interpretation ring: evict_oldest push_reorg MAX_REORG_ENTRIES
proof
  fix xs :: "'a reorg_buffer" and x
  assume "length xs \<le> MAX_REORG_ENTRIES"
  then consider "length xs < MAX_REORG_ENTRIES" | "length xs = MAX_REORG_ENTRIES" by linarith
  then show "push_reorg x xs = drop (Suc (length xs) - MAX_REORG_ENTRIES) (xs @ [x])"
  proof cases
    case 2
    moreover from 2 have "xs \<noteq> []" by (auto simp: MAX_REORG_ENTRIES_def)
    moreover have "0 < MAX_REORG_ENTRIES" by (simp add: MAX_REORG_ENTRIES_def)
    ultimately show ?thesis by (cases xs) (simp_all add: push_reorg_def)
  qed (simp add: push_reorg_def)
qed

lemma send_reorg_reorgs [simp]:
  "cn_reorgs (snd (send_reorg now n c)) = push_reorg (now, n) (cn_reorgs c)"
  by (simp add: send_reorg_def send_event_def)

lemma send_reorg_tags [simp]: "cn_tags (snd (send_reorg now n c)) = cn_tags c"
  by (simp add: send_reorg_def send_event_def)

text \<open>The notifier after a history of reorgs.\<close>

definition after_reorgs :: "(instant \<times> 'l reorg_notification) list \<Rightarrow> 'l chain_notifier \<Rightarrow> 'l chain_notifier" where
  "after_reorgs hist c = fold (\<lambda>(t, r) c. snd (send_reorg t r c)) hist c"

lemma after_reorgs_buffer: "cn_reorgs (after_reorgs hist c) = fold push_reorg hist (cn_reorgs c)"
  unfolding after_reorgs_def by (induction hist arbitrary: c) (auto simp: case_prod_unfold)

text \<open>Entries at least \<open>d\<close> apart that lie in a window of length \<open>k * d\<close> are at most \<open>k\<close>.\<close>

fun spaced :: "nat \<Rightarrow> nat list \<Rightarrow> bool" where
  "spaced d (a # b # xs) = (a + d \<le> b \<and> spaced d (b # xs))"
| "spaced d [a] = True"
| "spaced d [] = True"

lemma spaced_last: "spaced d (a # xs) \<Longrightarrow> a + d * length xs \<le> last (a # xs)"
  by (induction xs arbitrary: a) fastforce+

lemma spaced_append: "spaced d (xs @ ys) \<Longrightarrow> spaced d xs \<and> spaced d ys"
proof (induction d xs rule: spaced.induct)
  case (2 d a)
  then show ?case by (cases ys) auto
qed auto

lemma spaced_sorted: "spaced d xs \<Longrightarrow> sorted xs"
  by (induction d xs rule: spaced.induct) (auto simp: less_eq_Suc_le intro: order_trans)

lemma filter_greater_drop:
  fixes xs :: "('a :: linorder \<times> 'b) list"
  assumes "sorted (map fst xs)"
  shows "filter (\<lambda>(t, r). t > s) xs = drop (length (filter (\<lambda>(t, r). \<not> t > s) xs)) xs"
  using assms
proof (induction xs)
  case (Cons x xs)
  show ?case
  proof (cases "fst x > s")
    case True
    then have "\<forall>y\<in>set xs. fst y > s" using Cons.prems by auto
    then have "filter (\<lambda>(t, r). t > s) xs = xs" "filter (\<lambda>(t, r). \<not> t > s) xs = []"
      by (auto simp: filter_id_conv filter_empty_conv case_prod_unfold not_less)
    then show ?thesis using True by (simp add: case_prod_unfold)
  next
    case False
    then show ?thesis using Cons by (simp add: case_prod_unfold)
  qed
qed simp

lemma filter_drop_le:
  assumes "filter P xs = drop k xs" "m \<le> k"
  shows "filter P (drop m xs) = drop k xs"
proof -
  have "\<forall>x\<in>set (drop k xs). P x" unfolding assms(1)[symmetric] by simp
  then have all: "filter P (drop k xs) = drop k xs" by (simp add: filter_id_conv)
  have split: "filter P xs = filter P (take k xs) @ filter P (drop k xs)" for k
    by (simp flip: filter_append)
  have "filter P (take k xs) = []" using split[of k] all assms(1) by simp
  then have "filter P (take m xs) = []"
    using set_take_subset_set_take[OF assms(2), of xs] by (force simp: filter_empty_conv)
  then show ?thesis using split[of m] assms(1) by simp
qed

text \<open>
  The ring buffer is long enough for its purpose: if reorgs come at least \<open>d\<close> time units apart
  and the last poll lies less than \<open>25 * d\<close> units back (5 minutes for the 12 second
  slot), \<^verbatim>\<open>reorgs_since\<close> returns every reorg received after that poll, in order, whatever
  was evicted.
\<close>

theorem ring_covers_window:
  assumes "spaced d (map fst hist)" "0 < d" "cn_reorgs c = []"
    and "\<forall>(t, r)\<in>set hist. t < since + MAX_REORG_ENTRIES * d"
  shows "reorgs_since since (after_reorgs hist c) = map snd (filter (\<lambda>(t, r). t > since) hist)"
proof -
  let ?new = "filter (\<lambda>(t, r). t > since) hist"
  have sorted: "sorted (map fst hist)" using spaced_sorted[OF assms(1)] .
  define k where "k = length (filter (\<lambda>(t, r). \<not> t > since) hist)"
  have new: "?new = drop k hist" using filter_greater_drop[OF sorted] by (simp add: k_def)
  have few: "length ?new \<le> MAX_REORG_ENTRIES"
  proof (cases "?new")
    case (Cons x xs)
    have "map fst hist = map fst (take k hist) @ map fst (drop k hist)"
      by (simp flip: map_append)
    then have sp: "spaced d (map fst ?new)"
      using spaced_append[of d "map fst (take k hist)" "map fst (drop k hist)"] assms(1) new by simp
    have "last ?new \<in> set hist" "fst x > since"
      using Cons last_in_set[of ?new] by (auto simp: filter_eq_Cons_iff)
    then have "fst (last ?new) < since + MAX_REORG_ENTRIES * d" using assms(4) by (auto simp: case_prod_unfold)
    moreover have "fst x + d * length xs \<le> fst (last ?new)"
      using spaced_last[of d "fst x" "map fst xs"] sp Cons by (auto simp: last_map split: if_splits)
    ultimately have "d * length xs < MAX_REORG_ENTRIES * d" using \<open>fst x > since\<close> by linarith
    then have "length xs < MAX_REORG_ENTRIES" using assms(2) by (simp add: mult.commute)
    then show ?thesis using Cons by simp
  qed simp
  have buf: "cn_reorgs (after_reorgs hist c) = drop (length hist - MAX_REORG_ENTRIES) hist"
    using ring.push_all_recent[of "[]" hist] assms(3) by (simp add: after_reorgs_buffer)
  have "length hist - MAX_REORG_ENTRIES \<le> k" using few new by simp
  from filter_drop_le[OF new this]
  have "filter (\<lambda>(t, r). t > since) (drop (length hist - MAX_REORG_ENTRIES) hist) = ?new"
    using new by simp
  then show ?thesis by (simp add: reorgs_since_def buf)
qed

theorem ring_covers_window_witness:
  "\<forall>r r'. reorgs_since 20 (after_reorgs [(12, r), (30, r')] (ChainNotifier_new 16)) = [r']"
proof (intro allI)
  fix r r' :: "'l reorg_notification"
  show "reorgs_since 20 (after_reorgs [(12, r), (30, r')] (ChainNotifier_new 16)) = [r']"
    using ring_covers_window[of 12 "[(12, r), (30, r')]" "ChainNotifier_new 16" 20]
    by (simp add: ChainNotifier_new_def MAX_REORG_ENTRIES_def)
qed

end
