(* ===== verification/Interest_Filters.thy ===== *)
theory Interest_Filters
  imports Chain_Notifier "HOL-Library.Multiset"
begin

text \<open>
  Poll-based filters (\<^verbatim>\<open>rpc/src/interest/filters.rs\<close>): one filter's cursor and what it
  computes from reorgs, and the manager that hands out ids and drops stale filters.
\<close>

record 'f active_filter =
  af_next_start_block :: u64
  af_last_poll_time :: instant
  af_kind :: "'f interest_kind"

definition mark_polled :: "instant \<Rightarrow> u64 \<Rightarrow> 'f active_filter \<Rightarrow> 'f active_filter" where
  "mark_polled now current f = f\<lparr>af_next_start_block := u64_add current 1, af_last_poll_time := now\<rparr>"

definition touch_poll_time :: "instant \<Rightarrow> 'f active_filter \<Rightarrow> 'f active_filter" where
  "touch_poll_time now f = f\<lparr>af_last_poll_time := now\<rparr>"

definition time_since_last_poll :: "instant \<Rightarrow> 'f active_filter \<Rightarrow> nat" where
  "time_since_last_poll now f = now - af_last_poll_time f"

definition rewind_start :: "'l reorg_notification \<Rightarrow> u64 \<Rightarrow> u64" where
  "rewind_start r start = min start (u64_add (common_ancestor r) 1)"

text \<open>The removed logs of one reorg, for a filter that delivered the blocks below \<open>snapshot\<close>.\<close>

definition removed_below ::
  "('f \<Rightarrow> 'l \<Rightarrow> bool) \<Rightarrow> 'f \<Rightarrow> u64 \<Rightarrow> 'l reorg_notification \<Rightarrow> 'l rpc_log list" where
  "removed_below matches flt snapshot r =
     map mark_removed (filter (\<lambda>l. matches flt (rl_inner l))
       (concat (map rm_logs (filter (\<lambda>b. \<not> rm_number b \<ge> snapshot) (removed_blocks r)))))"

fun removed_loop ::
  "('f \<Rightarrow> 'l \<Rightarrow> bool) \<Rightarrow> 'f \<Rightarrow> u64 \<Rightarrow> 'l reorg_notification list \<Rightarrow> 'l rpc_log list \<times> u64" where
  "removed_loop matches flt start [] = ([], start)"
| "removed_loop matches flt start (r # rs) =
     (case removed_loop matches flt (rewind_start r start) rs of
        (rest, start') \<Rightarrow> (removed_below matches flt start r @ rest, start'))"

definition compute_removed_logs ::
  "('f \<Rightarrow> 'l \<Rightarrow> bool) \<Rightarrow> 'l reorg_notification list \<Rightarrow> 'f active_filter
     \<Rightarrow> 'l rpc_log list \<times> 'f active_filter" where
  "compute_removed_logs matches reorgs f =
     (case as_filter (af_kind f) of
        None \<Rightarrow> ([], f\<lparr>af_next_start_block := fold rewind_start reorgs (af_next_start_block f)\<rparr>)
      | Some flt \<Rightarrow>
          (case removed_loop matches flt (af_next_start_block f) reorgs of
             (removed, start) \<Rightarrow> (removed, f\<lparr>af_next_start_block := start\<rparr>)))"

section \<open>The manager\<close>

record 'f filter_manager =
  fm_current_id :: u64
  fm_filters :: "u64 \<Rightarrow> 'f active_filter option"

definition filter_manager_new :: "'f filter_manager" where
  "filter_manager_new = \<lparr>fm_current_id = 1, fm_filters = Map.empty\<rparr>"

definition next_filter_id :: "'f filter_manager \<Rightarrow> u64 \<times> 'f filter_manager" where
  "next_filter_id m = (fm_current_id m, m\<lparr>fm_current_id := u64_add (fm_current_id m) 1\<rparr>)"

definition install_filter ::
  "instant \<Rightarrow> u64 \<Rightarrow> 'f interest_kind \<Rightarrow> 'f filter_manager \<Rightarrow> u64 \<times> 'f filter_manager" where
  "install_filter now current k m =
     (case next_filter_id m of (i, m1) \<Rightarrow>
        (i, m1\<lparr>fm_filters := (fm_filters m1)(i \<mapsto>
              \<lparr>af_next_start_block = u64_add current 1, af_last_poll_time = now, af_kind = k\<rparr>)\<rparr>))"

definition install_log_filter :: "instant \<Rightarrow> u64 \<Rightarrow> 'f \<Rightarrow> 'f filter_manager \<Rightarrow> u64 \<times> 'f filter_manager" where
  "install_log_filter now current flt = install_filter now current (Log_Kind flt)"

definition install_block_filter :: "instant \<Rightarrow> u64 \<Rightarrow> 'f filter_manager \<Rightarrow> u64 \<times> 'f filter_manager" where
  "install_block_filter now current = install_filter now current Block_Kind"

definition uninstall_filter :: "u64 \<Rightarrow> 'f filter_manager \<Rightarrow> 'f active_filter option \<times> 'f filter_manager" where
  "uninstall_filter i m = (fm_filters m i, m\<lparr>fm_filters := (fm_filters m)(i := None)\<rparr>)"

definition clean_stale :: "instant \<Rightarrow> nat \<Rightarrow> 'f filter_manager \<Rightarrow> 'f filter_manager" where
  "clean_stale now older_than m =
     m\<lparr>fm_filters := (\<lambda>i. case fm_filters m i of None \<Rightarrow> None
         | Some f \<Rightarrow> if time_since_last_poll now f < older_than then Some f else None)\<rparr>"

section \<open>Ids\<close>

text \<open>Operations of the manager, as the endpoints and the cleaning thread issue them.\<close>

datatype 'f fm_op =
    Op_Install instant u64 "'f interest_kind"
  | Op_Uninstall u64
  | Op_Update u64 "'f active_filter"
  | Op_Clean instant nat

fun fm_apply :: "'f fm_op \<Rightarrow> 'f filter_manager \<Rightarrow> 'f filter_manager" where
  "fm_apply (Op_Install now b k) m = snd (install_filter now b k m)"
| "fm_apply (Op_Uninstall i) m = snd (uninstall_filter i m)"
| "fm_apply (Op_Update i f) m =
     (if fm_filters m i = None then m else m\<lparr>fm_filters := (fm_filters m)(i \<mapsto> f)\<rparr>)"
| "fm_apply (Op_Clean now age) m = clean_stale now age m"

fun is_install :: "'f fm_op \<Rightarrow> bool" where
  "is_install (Op_Install now b k) = True"
| "is_install _ = False"

definition ids_below :: "'f filter_manager \<Rightarrow> bool" where
  "ids_below m \<longleftrightarrow> (\<forall>i. fm_filters m i \<noteq> None \<longrightarrow> 0 < i \<and> i < fm_current_id m) \<and> 0 < fm_current_id m"

lemma ids_below_new: "ids_below filter_manager_new"
  by (simp add: ids_below_def filter_manager_new_def)

lemma fm_apply_ids:
  assumes "ids_below m" "fm_current_id m < u64_max"
  shows "ids_below (fm_apply op m)
    \<and> fm_current_id (fm_apply op m) = fm_current_id m + (if is_install op then 1 else 0)"
proof (cases op)
  case (Op_Install now b k)
  then show ?thesis
    using assms by (auto simp: ids_below_def install_filter_def next_filter_id_def u64_simps)
qed (use assms in \<open>auto simp: ids_below_def uninstall_filter_def clean_stale_def
      split: option.splits if_splits\<close>)

lemma fm_fold_ids:
  "ids_below m \<Longrightarrow> fm_current_id m + length (filter is_install ops) < u64_max \<Longrightarrow>
     ids_below (fold fm_apply ops m)
     \<and> fm_current_id (fold fm_apply ops m) = fm_current_id m + length (filter is_install ops)"
proof (induction ops arbitrary: m)
  case (Cons op ops)
  have a: "ids_below (fm_apply op m)"
    "fm_current_id (fm_apply op m) = fm_current_id m + (if is_install op then 1 else 0)"
    using fm_apply_ids[OF Cons.prems(1), of op] Cons.prems(2) by auto
  then show ?case using Cons.IH[OF a(1)] Cons.prems(2) by (auto split: if_splits)
qed simp

text \<open>
  After any history of installs, uninstalls, polls and cleanups of a new manager, an
  install answers an id that was never handed out before and names no active filter, stores
  the filter under it, starting behind the current block, and changes no other filter.
\<close>

theorem install_fresh:
  assumes "length (filter is_install ops) < u64_max - 1" "current < u64_max"
  shows "let m = fold fm_apply ops filter_manager_new; (i, m') = install_filter now current k m in
    i = Suc (length (filter is_install ops)) \<and> fm_filters m i = None
    \<and> (\<exists>f. fm_filters m' i = Some f \<and> af_next_start_block f = current + 1
         \<and> af_last_poll_time f = now \<and> af_kind f = k)
    \<and> (\<forall>j. j \<noteq> i \<longrightarrow> fm_filters m' j = fm_filters m j)"
proof -
  define m :: "'a filter_manager" where "m = fold fm_apply ops filter_manager_new"
  have n: "fm_current_id (filter_manager_new :: 'a filter_manager) = 1"
    by (simp add: filter_manager_new_def)
  have m: "ids_below m" "fm_current_id m = Suc (length (filter is_install ops))"
    using fm_fold_ids[OF ids_below_new, of ops] assms(1) n by (simp_all add: m_def)
  have "fm_filters m (fm_current_id m) = None"
    using m(1) unfolding ids_below_def by (metis less_irrefl)
  then show ?thesis
    using m assms(2)
    by (simp add: m_def[symmetric] install_filter_def next_filter_id_def Let_def u64_simps)
qed

theorem install_fresh_witness:
  "fst (install_filter 9 30 (Log_Kind ''x'')
     (fold fm_apply [Op_Install 1 10 Block_Kind, Op_Uninstall 1] filter_manager_new)) = 2"
  using install_fresh[of "[Op_Install 1 10 Block_Kind, Op_Uninstall 1]" 30 9 "Log_Kind ''x''"]
  by (simp add: u64_max_def Let_def case_prod_unfold)

section \<open>Removed logs against the chain\<close>

text \<open>
  The canonical chain as the filter sees it: the logs of block \<open>0, 1, 2, \<dots>\<close>. What happens
  between two polls is a list of changes: a block with its logs is appended, or a reorg
  cuts the chain behind a common ancestor; its notification lists exactly the blocks cut.
\<close>

type_synonym 'l log_chain = "'l rpc_log list list"

datatype 'l chain_change = Append "'l rpc_log list" | Cut "'l reorg_notification"

definition names_cut :: "'l log_chain \<Rightarrow> 'l reorg_notification \<Rightarrow> bool" where
  "names_cut c r \<longleftrightarrow>
     Suc (common_ancestor r) \<le> length c
     \<and> map (\<lambda>b. (rm_number b, rm_logs b)) (removed_blocks r)
         = map (\<lambda>k. (k, c ! k)) [Suc (common_ancestor r)..<length c]"

fun change_ok :: "'l log_chain \<Rightarrow> 'l chain_change \<Rightarrow> bool" where
  "change_ok c (Append ls) = True"
| "change_ok c (Cut r) = names_cut c r"

fun apply_change :: "'l log_chain \<Rightarrow> 'l chain_change \<Rightarrow> 'l log_chain" where
  "apply_change c (Append ls) = c @ [ls]"
| "apply_change c (Cut r) = take (Suc (common_ancestor r)) c"

fun changes_ok :: "'l log_chain \<Rightarrow> 'l chain_change list \<Rightarrow> bool" where
  "changes_ok c [] = True"
| "changes_ok c (e # es) = (change_ok c e \<and> changes_ok (apply_change c e) es)"

definition final_chain :: "'l log_chain \<Rightarrow> 'l chain_change list \<Rightarrow> 'l log_chain" where
  "final_chain c es = fold (\<lambda>e c. apply_change c e) es c"

fun reorgs_of :: "'l chain_change list \<Rightarrow> 'l reorg_notification list" where
  "reorgs_of [] = []"
| "reorgs_of (Append ls # es) = reorgs_of es"
| "reorgs_of (Cut r # es) = r # reorgs_of es"

definition matching :: "('f \<Rightarrow> 'l \<Rightarrow> bool) \<Rightarrow> 'f \<Rightarrow> 'l log_chain \<Rightarrow> nat \<Rightarrow> nat \<Rightarrow> 'l rpc_log list" where
  "matching matches flt c a b =
     filter (\<lambda>l. matches flt (rl_inner l)) (concat (map (\<lambda>k. c ! k) [a..<b]))"

lemma filter_le_upt: "filter (\<lambda>k. \<not> s \<le> k) [a..<b] = [a..<min b s]"
  by (induction b) (auto simp: min_def, metis not_less_eq_eq le_antisym)

lemma names_cut_removed:
  assumes "names_cut c r" "s \<le> length c" "Suc (common_ancestor r) \<le> u64_max"
  shows "removed_below matches flt s r = map mark_removed (matching matches flt c (rewind_start r s) s)"
proof -
  let ?a = "Suc (common_ancestor r)"
  have "map rm_logs (filter (\<lambda>b. \<not> rm_number b \<ge> s) (removed_blocks r)) =
      map snd (filter (\<lambda>p. \<not> fst p \<ge> s) (map (\<lambda>b. (rm_number b, rm_logs b)) (removed_blocks r)))"
    by (simp add: filter_map comp_def)
  also have "\<dots> = map (\<lambda>k. c ! k) (filter (\<lambda>k. \<not> s \<le> k) [?a..<length c])"
    using assms(1) by (simp add: names_cut_def filter_map comp_def)
  also have "\<dots> = map (\<lambda>k. c ! k) [?a..<s]"
    using assms(2) by (simp only: filter_le_upt min.absorb2)
  also have "[?a..<s] = [rewind_start r s..<s]"
    using assms(3) by (simp add: rewind_start_def u64_simps min_def)
  finally show ?thesis by (simp add: removed_below_def matching_def)
qed

lemma matching_cong:
  "take b c = take b c' \<Longrightarrow> b \<le> length c \<Longrightarrow> b \<le> length c' \<Longrightarrow>
     matching matches flt c a b = matching matches flt c' a b"
proof -
  assume a: "take b c = take b c'" "b \<le> length c" "b \<le> length c'"
  have "map ((!) c) [a..<b] = map ((!) c') [a..<b]"
  proof (rule map_cong)
    fix k assume "k \<in> set [a..<b]"
    then have "k < b" by simp
    then have "c ! k = take b c ! k" "c' ! k = take b c' ! k" by simp_all
    then show "c ! k = c' ! k" using a(1) by simp
  qed simp
  then show ?thesis by (simp only: matching_def)
qed

lemma matching_split:
  "a \<le> b \<Longrightarrow> b \<le> d \<Longrightarrow> matching m flt c a b @ matching m flt c b d = matching m flt c a d"
proof -
  assume "a \<le> b" "b \<le> d"
  then have "[a..<b] @ [b..<d] = [a..<d]" by (metis upt_add_eq_append le_add_diff_inverse)
  then show ?thesis by (simp add: matching_def flip: filter_append concat_append map_append)
qed

lemma removed_loop_exact:
  assumes "changes_ok c es" "start \<le> length c" "\<forall>r\<in>set (reorgs_of es). common_ancestor r < u64_max"
    and "removed_loop matches flt start (reorgs_of es) = (removed, start')"
  shows "start' \<le> start \<and> start' \<le> length (final_chain c es)
    \<and> take start' (final_chain c es) = take start' c
    \<and> mset removed = mset (map mark_removed (matching matches flt c start' start))"
  using assms
proof (induction es arbitrary: c start removed)
  case Nil
  then show ?case by (simp add: final_chain_def matching_def)
next
  case (Cons e es)
  show ?case
  proof (cases e)
    case (Append ls)
    have IH: "start' \<le> start" "start' \<le> length (final_chain (c @ [ls]) es)"
      "take start' (final_chain (c @ [ls]) es) = take start' (c @ [ls])"
      "mset removed = mset (map mark_removed (matching matches flt (c @ [ls]) start' start))"
      using Cons.IH[of "c @ [ls]" start removed] Cons.prems Append by auto
    moreover have "matching matches flt (c @ [ls]) start' start = matching matches flt c start' start"
      using Cons.prems(2) by (intro matching_cong) auto
    ultimately show ?thesis using Cons.prems(2) Append by (simp add: final_chain_def)
  next
    case (Cut r)
    let ?a = "Suc (common_ancestor r)" and ?s = "rewind_start r start"
    have nc: "names_cut c r" and ok: "changes_ok (take ?a c) es" using Cons.prems(1) Cut by simp_all
    have a: "?a \<le> length c" using nc by (simp add: names_cut_def)
    have am: "?a \<le> u64_max" using Cons.prems(3) Cut by simp
    then have s: "?s = min start ?a" by (simp add: rewind_start_def u64_simps)
    obtain rest where rest: "removed_loop matches flt ?s (reorgs_of es) = (rest, start')"
      and removed: "removed = removed_below matches flt start r @ rest"
      using Cons.prems(4) Cut by (auto split: prod.splits)
    have IH: "start' \<le> ?s" "start' \<le> length (final_chain (take ?a c) es)"
      "take start' (final_chain (take ?a c) es) = take start' (take ?a c)"
      "mset rest = mset (map mark_removed (matching matches flt (take ?a c) start' ?s))"
      using Cons.IH[OF ok _ _ rest] s a Cons.prems(3) Cut by auto
    have "matching matches flt (take ?a c) start' ?s = matching matches flt c start' ?s"
      using s a by (intro matching_cong) (auto simp: min_def)
    then have "mset removed = mset (map mark_removed (matching matches flt c ?s start))
        + mset (map mark_removed (matching matches flt c start' ?s))"
      using removed IH(4) names_cut_removed[OF nc Cons.prems(2) am, of matches flt] by simp
    also have "\<dots> = mset (map mark_removed (matching matches flt c start' ?s @ matching matches flt c ?s start))"
      by simp
    also have "matching matches flt c start' ?s @ matching matches flt c ?s start = matching matches flt c start' start"
      using IH(1) s by (intro matching_split) auto
    finally have "mset removed = mset (map mark_removed (matching matches flt c start' start))" .
    moreover have "start' \<le> ?a" "start' \<le> start" using IH(1) s by simp_all
    ultimately show ?thesis using IH(2,3) Cut by (simp add: final_chain_def min_absorb1)
  qed
qed

lemma compute_removed_loop:
  assumes "compute_removed_logs matches rs f = (removed, f')" "af_kind f = Log_Kind flt"
  shows "\<exists>start'. removed_loop matches flt (af_next_start_block f) rs = (removed, start')
    \<and> f' = f\<lparr>af_next_start_block := start'\<rparr>"
  using assms by (auto simp: compute_removed_logs_def split: prod.splits)

text \<open>
  C15: for any appends and reorgs between two polls, whose notifications name the blocks
  they cut, \<^verbatim>\<open>compute_removed_logs\<close> moves the filter back to a block below which the old and
  the new chain agree, and reports as removed exactly the matching logs of the old blocks
  from there up to the filter's position, each once, marked as removed; kind and poll time stay.
\<close>

theorem compute_removed_exact:
  assumes "changes_ok c es" "af_next_start_block f \<le> length c"
    and "\<forall>r\<in>set (reorgs_of es). common_ancestor r < u64_max"
    and "af_kind f = Log_Kind flt"
    and "compute_removed_logs matches (reorgs_of es) f = (removed, f')"
  shows "af_next_start_block f' \<le> af_next_start_block f
    \<and> af_next_start_block f' \<le> length (final_chain c es)
    \<and> take (af_next_start_block f') (final_chain c es) = take (af_next_start_block f') c
    \<and> mset removed = mset (map mark_removed
        (matching matches flt c (af_next_start_block f') (af_next_start_block f)))
    \<and> af_kind f' = af_kind f \<and> af_last_poll_time f' = af_last_poll_time f"
proof -
  obtain start' where loop: "removed_loop matches flt (af_next_start_block f) (reorgs_of es) = (removed, start')"
    and f': "f' = f\<lparr>af_next_start_block := start'\<rparr>"
    using compute_removed_loop[OF assms(5,4)] by blast
  show ?thesis using removed_loop_exact[OF assms(1-3) loop] f' by simp
qed

definition ex_log :: "nat \<Rightarrow> nat rpc_log" where
  "ex_log k = \<lparr>rl_inner = k, rl_block_hash = None, rl_block_number = Some k, rl_block_timestamp = None,
     rl_transaction_hash = None, rl_transaction_index = None, rl_log_index = None, rl_removed = False\<rparr>"

definition ex_cut :: "nat reorg_notification" where
  "ex_cut = \<lparr>common_ancestor = 1, removed_blocks =
     [\<lparr>rm_number = 2, rm_hash = 2, rm_timestamp = 0, rm_logs = [ex_log 2]\<rparr>,
      \<lparr>rm_number = 3, rm_hash = 3, rm_timestamp = 0, rm_logs = [ex_log 3]\<rparr>]\<rparr>"

theorem compute_removed_exact_witness:
  "\<exists>removed f'. compute_removed_logs (\<lambda>_ _. True) [ex_cut]
       \<lparr>af_next_start_block = 3, af_last_poll_time = 0, af_kind = Log_Kind ()\<rparr> = (removed, f')
     \<and> mset removed = {#mark_removed (ex_log 2)#}"
proof -
  let ?c = "[[], [ex_log 1], [ex_log 2], [ex_log 3]]"
  let ?f = "\<lparr>af_next_start_block = 3, af_last_poll_time = 0, af_kind = Log_Kind ()\<rparr>"
  obtain removed f' where run: "compute_removed_logs (\<lambda>_ _. True) (reorgs_of [Cut ex_cut]) ?f = (removed, f')"
    by force
  have ok: "changes_ok ?c [Cut ex_cut]"
    by (simp add: names_cut_def ex_cut_def upt_rec numeral_3_eq_3 numeral_2_eq_2)
  have "af_next_start_block f' = 2"
    using run by (auto simp: compute_removed_logs_def rewind_start_def ex_cut_def u64_simps u64_max_def)
  moreover have "matching (\<lambda>_ _. True) () ?c 2 3 = [ex_log 2]" by (simp add: matching_def upt_rec)
  ultimately show ?thesis
    using compute_removed_exact[OF ok _ _ _ run, of "()"] run by (auto simp: u64_max_def ex_cut_def)
qed

end
