(* ===== verification/Eth_Filters.thy ===== *)
theory Eth_Filters
  imports Interest_Filters Eth_Error Rpc_Config Rpc_Ctx
begin

text \<open>
  The filter endpoints (\<^verbatim>\<open>rpc/src/eth/endpoints.rs\<close>): \<open>eth_getLogs\<close>, the installation of
  filters and their polling. Cold storage is a parameter. A poll reads the filter and the
  reorg buffer first and commits its position after the cold query, so it is given in two
  parts, \<open>poll_begin\<close> and \<open>poll_finish\<close>, between which other tasks may run.
\<close>

datatype filter_block_option =
    AtBlockHash b256
  | Range "block_number_or_tag option" "block_number_or_tag option"

record 'c rpc_filter =
  fl_criteria :: 'c
  fl_block_option :: filter_block_option

record ('c, 'l) cold_logs =
  cl_get_header_hashes :: "u64 list \<Rightarrow> string + b256 option list"
  cl_stream_logs :: "'c rpc_filter \<Rightarrow> usize \<Rightarrow> duration \<Rightarrow> string + (string + 'l rpc_log) list"

fun collect_log_stream :: "(string + 'l rpc_log) list \<Rightarrow> 'l rpc_log list eth_result" where
  "collect_log_stream [] = Ok []"
| "collect_log_stream (Inl e # s) = Err (Cold e)"
| "collect_log_stream (Inr l # s) = rmap (\<lambda>ls. l # ls) (collect_log_stream s)"

lemma collect_log_stream_Inr [simp]: "collect_log_stream (map Inr ls) = Ok ls"
  by (induction ls) auto

section \<open>Queries over a block range\<close>

definition resolve_bound :: "block_tags \<Rightarrow> block_number_or_tag option \<Rightarrow> u64" where
  "resolve_bound t b = (case b of Some tag \<Rightarrow> resolve_block_tag t tag | None \<Rightarrow> tag_latest t)"

definition resolve_log_filter ::
  "(u64 \<Rightarrow> string) \<Rightarrow> block_tags \<Rightarrow> u64 \<Rightarrow> 'c rpc_filter \<Rightarrow> 'c rpc_filter eth_result" where
  "resolve_log_filter show_num t max_blocks flt =
     (case fl_block_option flt of
        AtBlockHash h \<Rightarrow> Ok flt
      | Range from_block to_block \<Rightarrow>
          (let from = resolve_bound t from_block; to = resolve_bound t to_block
           in if from > to then Err (InvalidParams ''fromBlock must not exceed toBlock'')
              else if u64_sub to from \<ge> max_blocks
                then Err (InvalidParams (''query exceeds max block range ('' @ show_num max_blocks @ '')''))
              else Ok (flt\<lparr>fl_block_option := Range (Some (Number from)) (Some (Number to))\<rparr>)))"

definition get_logs ::
  "(u64 \<Rightarrow> string) \<Rightarrow> 'p storage_rpc_config \<Rightarrow> ('c, 'l) cold_logs \<Rightarrow> block_tags \<Rightarrow> 'c rpc_filter
     \<Rightarrow> 'l rpc_log list eth_result" where
  "get_logs show_num cfg cold t flt =
     await_handler
       (rbind (resolve_log_filter show_num t (max_blocks_per_filter cfg) flt) (\<lambda>resolved.
        rbind (storage_call Cold
          (cl_stream_logs cold resolved (max_logs_per_response cfg) (max_log_query_deadline cfg)))
        collect_log_stream))"

section \<open>Filters\<close>

record ('c, 'l) filter_server =
  fs_manager :: "'c rpc_filter filter_manager"
  fs_chain :: "'l chain_notifier"

definition new_filter ::
  "instant \<Rightarrow> 'c rpc_filter \<Rightarrow> ('c, 'l) filter_server \<Rightarrow> u64 eth_result \<times> ('c, 'l) filter_server" where
  "new_filter now flt sv =
     (let latest = tag_latest (cn_tags (fs_chain sv))
      in case install_log_filter now latest flt (fs_manager sv) of
           (i, m) \<Rightarrow> (Ok i, sv\<lparr>fs_manager := m\<rparr>))"

definition new_block_filter ::
  "instant \<Rightarrow> ('c, 'l) filter_server \<Rightarrow> u64 eth_result \<times> ('c, 'l) filter_server" where
  "new_block_filter now sv =
     (let latest = tag_latest (cn_tags (fs_chain sv))
      in case install_block_filter now latest (fs_manager sv) of
           (i, m) \<Rightarrow> (Ok i, sv\<lparr>fs_manager := m\<rparr>))"

definition uninstall_filter_endpoint ::
  "u64 \<Rightarrow> ('c, 'l) filter_server \<Rightarrow> bool eth_result \<times> ('c, 'l) filter_server" where
  "uninstall_filter_endpoint i sv =
     (case uninstall_filter i (fs_manager sv) of (r, m) \<Rightarrow> (Ok (r \<noteq> None), sv\<lparr>fs_manager := m\<rparr>))"

record ('c, 'l) poll_snapshot =
  ps_is_block :: bool
  ps_filter :: "'c rpc_filter option"
  ps_start :: u64
  ps_removed :: "'l rpc_log list"
  ps_empty :: "('l, b256) event_buffer"

definition put_filter :: "u64 \<Rightarrow> 'c rpc_filter active_filter \<Rightarrow> ('c, 'l) filter_server \<Rightarrow> ('c, 'l) filter_server" where
  "put_filter i f sv = sv\<lparr>fs_manager := (fs_manager sv)\<lparr>fm_filters := (fm_filters (fs_manager sv))(i \<mapsto> f)\<rparr>\<rparr>"

definition poll_begin ::
  "(u64 \<Rightarrow> string) \<Rightarrow> ('c rpc_filter \<Rightarrow> 'l \<Rightarrow> bool) \<Rightarrow> u64 \<Rightarrow> ('c, 'l) filter_server
     \<Rightarrow> ('c, 'l) poll_snapshot eth_result \<times> ('c, 'l) filter_server" where
  "poll_begin show_num matches i sv =
     (case fm_filters (fs_manager sv) i of
        None \<Rightarrow> (Err (InvalidParams (''filter not found: '' @ show_num i)), sv)
      | Some entry \<Rightarrow>
          (let reorgs = reorgs_since (af_last_poll_time entry) (fs_chain sv)
           in case compute_removed_logs matches reorgs entry of
                (removed, entry') \<Rightarrow>
                  (Ok \<lparr>ps_is_block = is_block (af_kind entry'), ps_filter = as_filter (af_kind entry'),
                       ps_start = af_next_start_block entry', ps_removed = removed,
                       ps_empty = empty_output (af_kind entry')\<rparr>,
                   put_filter i entry' sv)))"

text \<open>Re-reading the filter to commit tolerates that it was uninstalled meanwhile.\<close>

definition commit_filter ::
  "u64 \<Rightarrow> ('c rpc_filter active_filter \<Rightarrow> 'c rpc_filter active_filter)
     \<Rightarrow> ('c, 'l) filter_server \<Rightarrow> ('c, 'l) filter_server" where
  "commit_filter i upd sv =
     (case fm_filters (fs_manager sv) i of None \<Rightarrow> sv | Some entry \<Rightarrow> put_filter i (upd entry) sv)"

definition poll_query ::
  "'p storage_rpc_config \<Rightarrow> ('c, 'l) cold_logs \<Rightarrow> u64 \<Rightarrow> ('c, 'l) poll_snapshot
     \<Rightarrow> ('l, b256) event_buffer eth_result" where
  "poll_query cfg cold latest snap =
     (if ps_is_block snap then
        rbind (storage_call Cold (cl_get_header_hashes cold [ps_start snap..<Suc latest])) (\<lambda>headers.
          Ok (Block_Buf (List.map_filter (\<lambda>h. h) headers)))
      else
        rbind (expect_some (ps_filter snap)) (\<lambda>stored.
          (let resolved = stored\<lparr>fl_block_option :=
                 Range (Some (Number (ps_start snap))) (Some (Number latest))\<rparr>
           in rbind (storage_call Cold
                (cl_stream_logs cold resolved (max_logs_per_response cfg) (max_log_query_deadline cfg))) (\<lambda>stream.
              rbind (collect_log_stream stream) (\<lambda>logs.
                Ok (Log_Buf (ps_removed snap @ logs)))))))"

definition poll_finish ::
  "'p storage_rpc_config \<Rightarrow> ('c, 'l) cold_logs \<Rightarrow> instant \<Rightarrow> u64 \<Rightarrow> ('c, 'l) poll_snapshot
     \<Rightarrow> ('c, 'l) filter_server \<Rightarrow> ('l, b256) event_buffer eth_result \<times> ('c, 'l) filter_server" where
  "poll_finish cfg cold now i snap sv =
     (let latest = tag_latest (cn_tags (fs_chain sv))
      in if ps_start snap > latest then
           (Ok (if ps_removed snap = [] then ps_empty snap else Log_Buf (ps_removed snap)),
            commit_filter i (touch_poll_time now) sv)
         else
           (case poll_query cfg cold latest snap of
              Ok result \<Rightarrow> (Ok result, commit_filter i (mark_polled now latest) sv)
            | Err e \<Rightarrow> (Err e, sv)
            | Panic \<Rightarrow> (Panic, sv)))"

text \<open>
  The parts of \<open>poll_finish\<close> between which other tasks may run too: the tip is read, the answer is
  found (with a cold query unless nothing is new), and the position is committed.
\<close>

definition poll_result ::
  "'p storage_rpc_config \<Rightarrow> ('c, 'l) cold_logs \<Rightarrow> u64 \<Rightarrow> ('c, 'l) poll_snapshot
     \<Rightarrow> ('l, b256) event_buffer eth_result" where
  "poll_result cfg cold latest snap =
     (if ps_start snap > latest
      then Ok (if ps_removed snap = [] then ps_empty snap else Log_Buf (ps_removed snap))
      else poll_query cfg cold latest snap)"

definition poll_commit ::
  "instant \<Rightarrow> u64 \<Rightarrow> ('c, 'l) poll_snapshot \<Rightarrow> u64 \<Rightarrow> ('c, 'l) filter_server \<Rightarrow> ('c, 'l) filter_server" where
  "poll_commit now i snap latest sv =
     commit_filter i (if ps_start snap > latest then touch_poll_time now else mark_polled now latest) sv"

lemma poll_finish_parts:
  "poll_finish cfg cold now i snap sv =
     (let latest = tag_latest (cn_tags (fs_chain sv))
      in case poll_result cfg cold latest snap of
           Ok out \<Rightarrow> (Ok out, poll_commit now i snap latest sv)
         | Err e \<Rightarrow> (Err e, sv)
         | Panic \<Rightarrow> (Panic, sv))"
  by (simp add: poll_finish_def poll_result_def poll_commit_def Let_def split: rresult.split)

definition get_filter_changes ::
  "(u64 \<Rightarrow> string) \<Rightarrow> ('c rpc_filter \<Rightarrow> 'l \<Rightarrow> bool) \<Rightarrow> 'p storage_rpc_config \<Rightarrow> ('c, 'l) cold_logs
     \<Rightarrow> instant \<Rightarrow> u64 \<Rightarrow> ('c, 'l) filter_server \<Rightarrow> ('l, b256) event_buffer eth_result \<times> ('c, 'l) filter_server" where
  "get_filter_changes show_num matches cfg cold now i sv =
     (case poll_begin show_num matches i sv of
        (Ok snap, sv1) \<Rightarrow>
          (case poll_finish cfg cold now i snap sv1 of (r, sv2) \<Rightarrow> (await_handler r, sv2))
      | (Err e, sv1) \<Rightarrow> (Err e, sv1)
      | (Panic, sv1) \<Rightarrow> (Err task_panic, sv1))"

section \<open>A poll keeps the client in step with the chain\<close>

text \<open>
  Cold storage that holds the chain \<open>c\<close>: it may refuse a query or break off its stream, for the limits of
  the query or any other reason, but a stream it completes is the matching logs of the range.
\<close>

definition cold_holds ::
  "('c rpc_filter \<Rightarrow> 'l \<Rightarrow> bool) \<Rightarrow> ('c, 'l) cold_logs \<Rightarrow> 'l log_chain \<Rightarrow> bool" where
  "cold_holds matches cold c \<longleftrightarrow>
     (\<forall>flt a b mx d stream ls. a \<le> b \<longrightarrow> b < length c \<longrightarrow>
        cl_stream_logs cold (flt\<lparr>fl_block_option := Range (Some (Number a)) (Some (Number b))\<rparr>) mx d = Inr stream \<longrightarrow>
        collect_log_stream stream = Ok ls \<longrightarrow> ls = matching matches flt c a (Suc b))"

text \<open>What the handlers make of cold storage's answer to one query.\<close>

definition cold_answer ::
  "'p storage_rpc_config \<Rightarrow> ('c, 'l) cold_logs \<Rightarrow> 'c rpc_filter \<Rightarrow> 'l rpc_log list eth_result" where
  "cold_answer cfg cold q =
     rbind (storage_call Cold (cl_stream_logs cold q (max_logs_per_response cfg) (max_log_query_deadline cfg)))
       collect_log_stream"

lemma cold_answer_matching:
  assumes "cold_holds matches cold c" "a \<le> b" "b < length c"
    and "cold_answer cfg cold (flt\<lparr>fl_block_option := Range (Some (Number a)) (Some (Number b))\<rparr>) = Ok ls"
  shows "ls = matching matches flt c a (Suc b)"
proof -
  obtain stream where "cl_stream_logs cold (flt\<lparr>fl_block_option := Range (Some (Number a)) (Some (Number b))\<rparr>)
      (max_logs_per_response cfg) (max_log_query_deadline cfg) = Inr stream" "collect_log_stream stream = Ok ls"
    using assms(4) by (auto simp: cold_answer_def rres_simps storage_call_def split: sum.splits)
  then show ?thesis using assms(1-3) unfolding cold_holds_def by blast
qed

lemma collect_log_stream_fails: "collect_log_stream s \<noteq> Panic \<and> (collect_log_stream s = Err e \<longrightarrow> (\<exists>m. e = Cold m))"
proof (induction s rule: collect_log_stream.induct)
  case (3 l s)
  then show ?case by (cases "collect_log_stream s") auto
qed auto

lemma cold_answer_fails: "cold_answer cfg cold q \<noteq> Panic \<and> (cold_answer cfg cold q = Err e \<longrightarrow> (\<exists>m. e = Cold m))"
proof (cases "cl_stream_logs cold q (max_logs_per_response cfg) (max_log_query_deadline cfg)")
  case (Inr s)
  then show ?thesis using collect_log_stream_fails[of s e] by (simp add: cold_answer_def)
qed (auto simp: cold_answer_def)

lemma fs_filters_put [simp]:
  "fm_filters (fs_manager (put_filter i f sv)) = (fm_filters (fs_manager sv))(i \<mapsto> f)"
  "fs_chain (put_filter i f sv) = fs_chain sv"
  by (simp_all add: put_filter_def)

lemma commit_filter_some [simp]:
  "fm_filters (fs_manager sv) i = Some f \<Longrightarrow> commit_filter i upd sv = put_filter i (upd f) sv"
  by (simp add: commit_filter_def)

lemma compute_removed_kind:
  "compute_removed_logs matches rs f = (removed, f') \<Longrightarrow>
     af_kind f' = af_kind f \<and> af_last_poll_time f' = af_last_poll_time f"
  by (auto simp: compute_removed_logs_def split: option.splits prod.splits)

lemma poll_begin_Some:
  assumes "fm_filters (fs_manager sv) i = Some f"
    and "compute_removed_logs matches (reorgs_since (af_last_poll_time f) (fs_chain sv)) f = (removed, f')"
  shows "poll_begin show_num matches i sv =
    (Ok \<lparr>ps_is_block = is_block (af_kind f), ps_filter = as_filter (af_kind f),
         ps_start = af_next_start_block f', ps_removed = removed, ps_empty = empty_output (af_kind f)\<rparr>,
     put_filter i f' sv)"
  using assms compute_removed_kind[OF assms(2)] by (simp add: poll_begin_def Let_def)

lemma removed_loop_ge:
  "a \<le> start \<Longrightarrow> \<forall>r\<in>set rs. a \<le> u64_add (common_ancestor r) 1 \<Longrightarrow>
     removed_loop matches flt start rs = (removed, start') \<Longrightarrow> a \<le> start'"
proof (induction rs arbitrary: start removed)
  case (Cons r rs)
  have "a \<le> rewind_start r start" using Cons.prems(1,2) by (simp add: rewind_start_def)
  moreover obtain rest where "removed_loop matches flt (rewind_start r start) rs = (rest, start')"
    using Cons.prems(3) by (auto split: prod.splits)
  ultimately show ?case using Cons.IH Cons.prems(2) by simp
qed simp

text \<open>
  What a poll finds first: suppose that since the last poll the chain went from \<open>c0\<close> through
  any appends and reorgs to \<open>c\<close>, all of the reorgs in the ring buffer. Then the filter moves back to
  some block \<open>s\<close> below which both agree, not below the lowest fork point, and the poll will report
  the logs removed from there on.
\<close>

lemma poll_begin_finds:
  fixes sv :: "('c, 'l) filter_server"
  assumes f: "fm_filters (fs_manager sv) i = Some f" "af_kind f = Log_Kind flt"
    and chain: "changes_ok c0 es" "af_next_start_block f \<le> length c0"
      "\<forall>r\<in>set (reorgs_of es). common_ancestor r < u64_max"
    and ring: "reorgs_since (af_last_poll_time f) (fs_chain sv) = reorgs_of es"
    and tip: "c = final_chain c0 es"
  shows "\<exists>s removed f'. poll_begin show_num matches i sv =
      (Ok \<lparr>ps_is_block = False, ps_filter = Some flt, ps_start = s, ps_removed = removed, ps_empty = Log_Buf []\<rparr>,
       put_filter i f' sv)
    \<and> s \<le> af_next_start_block f \<and> s \<le> length c \<and> take s c = take s c0
    \<and> mset removed = mset (map mark_removed (matching matches flt c0 s (af_next_start_block f)))
    \<and> (\<forall>a \<le> af_next_start_block f. (\<forall>r\<in>set (reorgs_of es). a \<le> Suc (common_ancestor r)) \<longrightarrow> a \<le> s)
    \<and> f' = f\<lparr>af_next_start_block := s\<rparr>"
proof -
  obtain removed f1 where comp: "compute_removed_logs matches (reorgs_of es) f = (removed, f1)" by force
  obtain s where loop: "removed_loop matches flt (af_next_start_block f) (reorgs_of es) = (removed, s)"
    "f1 = f\<lparr>af_next_start_block := s\<rparr>"
    using compute_removed_loop[OF comp f(2)] by blast
  have ex: "s \<le> af_next_start_block f" "s \<le> length c" "take s c = take s c0"
    "mset removed = mset (map mark_removed (matching matches flt c0 s (af_next_start_block f)))"
    using removed_loop_exact[OF chain loop(1)] tip by simp_all
  have low: "a \<le> s" if "a \<le> af_next_start_block f" "\<forall>r\<in>set (reorgs_of es). a \<le> Suc (common_ancestor r)" for a
  proof -
    have "\<forall>r\<in>set (reorgs_of es). a \<le> u64_add (common_ancestor r) 1"
      using that(2) chain(3) by (simp add: u64_simps)
    from removed_loop_ge[OF that(1) this loop(1)] show ?thesis .
  qed
  have "compute_removed_logs matches (reorgs_since (af_last_poll_time f) (fs_chain sv)) f = (removed, f1)"
    using comp ring by simp
  from poll_begin_Some[OF f(1) this, of show_num] show ?thesis
    using f(2) loop(2) ex low by auto
qed

text \<open>
  What a poll answers then: when the tip it reads is that of the chain \<open>c\<close> cold storage holds, or a block
  below, it answers the removed logs followed by the matching logs from \<open>s\<close> to that tip, or fails with
  the error of cold storage.
\<close>

lemma poll_result_matching:
  assumes snap: "ps_filter snap = Some flt" "\<not> ps_is_block snap" "ps_empty snap = Log_Buf []"
    and tip: "ps_start snap \<le> Suc latest" "latest < length c" and cold: "cold_holds matches cold c"
  shows "poll_result cfg cold latest snap =
      Ok (Log_Buf (ps_removed snap @ matching matches flt c (ps_start snap) (Suc latest)))
    \<or> (\<exists>e. poll_result cfg cold latest snap = Err (Cold e) \<and> ps_start snap \<le> latest
         \<and> cold_answer cfg cold (flt\<lparr>fl_block_option :=
              Range (Some (Number (ps_start snap))) (Some (Number latest))\<rparr>) = Err (Cold e))"
proof (cases "ps_start snap > latest")
  case True
  then have "ps_start snap = Suc latest" using tip(1) by simp
  then show ?thesis using snap(3) by (simp add: poll_result_def matching_def)
next
  case False
  let ?q = "flt\<lparr>fl_block_option := Range (Some (Number (ps_start snap))) (Some (Number latest))\<rparr>"
  have r: "poll_result cfg cold latest snap = rbind (cold_answer cfg cold ?q) (\<lambda>logs. Ok (Log_Buf (ps_removed snap @ logs)))"
    using False snap
    by (cases "cl_stream_logs cold ?q (max_logs_per_response cfg) (max_log_query_deadline cfg)")
      (simp_all add: poll_result_def poll_query_def cold_answer_def storage_call_def Let_def)
  show ?thesis
  proof (cases "cold_answer cfg cold ?q")
    case (Ok ls)
    then show ?thesis
      using cold_answer_matching[OF cold _ tip(2) Ok] False by (simp add: r)
  next
    case (Err e)
    then show ?thesis using cold_answer_fails[of cfg cold ?q e] False by (auto simp: r)
  next
    case Panic
    then show ?thesis using cold_answer_fails[of cfg cold ?q] by blast
  qed
qed

text \<open>A server with one log filter on a chain whose blocks 2 and 3 were replaced.\<close>

definition ex_filter :: "unit rpc_filter" where
  "ex_filter = \<lparr>fl_criteria = (), fl_block_option = Range None None\<rparr>"

definition ex_active :: "unit rpc_filter active_filter" where
  "ex_active = \<lparr>af_next_start_block = 4, af_last_poll_time = 5, af_kind = Log_Kind ex_filter\<rparr>"

definition ex_server :: "(unit, nat) filter_server" where
  "ex_server =
     \<lparr>fs_manager = \<lparr>fm_current_id = 2, fm_filters = [1 \<mapsto> ex_active]\<rparr>,
      fs_chain = \<lparr>cn_tags = BlockTags_new 2 0 0, cn_capacity = 16, cn_receivers = 0, cn_sent = [],
                  cn_reorgs = [(7, ex_cut)]\<rparr>\<rparr>"

definition ex_cold :: "(unit, nat) cold_logs" where
  "ex_cold =
     \<lparr>cl_get_header_hashes = (\<lambda>_. Inr []),
      cl_stream_logs = (\<lambda>flt mx d.
        case fl_block_option flt of
          Range (Some (Number a)) (Some (Number b)) \<Rightarrow>
            Inr (map Inr (matching (\<lambda>_ _. True) flt [[], [ex_log 1], [ex_log 20]] a (Suc b)))
        | _ \<Rightarrow> Inr [])\<rparr>"

section \<open>Bounded queries\<close>

text \<open>
  C33: \<^verbatim>\<open>eth_getLogs\<close> sends cold storage only queries of one block hash, or of fixed block
  numbers that span at most \<^verbatim>\<open>max_blocks_per_filter\<close> blocks, namely those the tags of the user's range
  stand for, with the criteria of the user unchanged and the configured limits, and answers what storage does; so its answer is the
  matching logs of just these blocks of the chain that cold storage holds. An inverted or too wide range is refused as
  invalid parameters, whatever cold storage holds.
\<close>

theorem get_logs_bounded:
  shows "(\<exists>h. fl_block_option flt = AtBlockHash h
        \<and> get_logs show_num cfg cold t flt = await_handler (cold_answer cfg cold flt))
    \<or> (\<exists>fb tb a b. fl_block_option flt = Range fb tb \<and> a = resolve_bound t fb \<and> b = resolve_bound t tb
        \<and> (if a \<le> b \<and> card {a..b} \<le> max_blocks_per_filter cfg
           then get_logs show_num cfg cold t flt = await_handler (cold_answer cfg cold
                  \<lparr>fl_criteria = fl_criteria flt, fl_block_option = Range (Some (Number a)) (Some (Number b))\<rparr>)
                \<and> (\<forall>c ls. cold_holds matches cold c \<longrightarrow> b < length c \<longrightarrow>
                     get_logs show_num cfg cold t flt = Ok ls \<longrightarrow> ls = matching matches flt c a (Suc b))
           else \<exists>m. get_logs show_num cfg cold t flt = Err (InvalidParams m)))"
proof (cases "fl_block_option flt")
  case (AtBlockHash h)
  then show ?thesis by (simp add: get_logs_def resolve_log_filter_def cold_answer_def)
next
  case (Range fb tb)
  define a where "a = resolve_bound t fb"
  define b where "b = resolve_bound t tb"
  let ?q = "flt\<lparr>fl_block_option := Range (Some (Number a)) (Some (Number b))\<rparr>"
  have q: "?q = \<lparr>fl_criteria = fl_criteria flt, fl_block_option = Range (Some (Number a)) (Some (Number b))\<rparr>"
    by (cases flt) simp
  consider "a > b" | "a \<le> b" "b - a \<ge> max_blocks_per_filter cfg" | "a \<le> b" "b - a < max_blocks_per_filter cfg"
    by linarith
  then show ?thesis
  proof cases
    case 3
    then have g: "get_logs show_num cfg cold t flt = await_handler (cold_answer cfg cold ?q)"
      using Range
      by (simp add: get_logs_def resolve_log_filter_def cold_answer_def Let_def u64_simps a_def[symmetric] b_def[symmetric])
    have "ls = matching matches flt c a (Suc b)"
      if "cold_holds matches cold c" "b < length c" "get_logs show_num cfg cold t flt = Ok ls" for c ls
    proof -
      have "cold_answer cfg cold ?q = Ok ls"
        using that(3) g cold_answer_fails[of cfg cold ?q] by (cases "cold_answer cfg cold ?q") auto
      from cold_answer_matching[OF that(1) 3(1) that(2) this] show ?thesis .
    qed
    moreover have "card {a..b} \<le> max_blocks_per_filter cfg" using 3 by simp
    ultimately show ?thesis
      using Range 3(1) g[unfolded q] by (auto simp: a_def b_def)
  next
    case 2
    then have "\<not> card {a..b} \<le> max_blocks_per_filter cfg" by simp
    then show ?thesis using Range 2
      by (auto simp: resolve_log_filter_def get_logs_def Let_def u64_simps a_def[symmetric] b_def[symmetric])
  qed (use Range in \<open>auto simp: resolve_log_filter_def get_logs_def Let_def a_def[symmetric] b_def[symmetric]\<close>)
qed

lemma ex_cold_holds: "cold_holds (\<lambda>_ _. True) ex_cold [[], [ex_log 1], [ex_log 20]]"
  unfolding cold_holds_def ex_cold_def matching_def by (simp del: upt_Suc)

theorem get_logs_bounded_witness:
  "get_logs (\<lambda>_. []) (StorageRpcConfig_default ex_f64) ex_cold (BlockTags_new 2 0 0)
      \<lparr>fl_criteria = (), fl_block_option = Range (Some (Number 1)) None\<rparr> = Ok [ex_log 1, ex_log 20]
   \<and> (\<exists>m. get_logs (\<lambda>_. []) ((StorageRpcConfig_default ex_f64)\<lparr>max_blocks_per_filter := 1\<rparr>) ex_cold (BlockTags_new 2 0 0)
      \<lparr>fl_criteria = (), fl_block_option = Range (Some (Number 1)) None\<rparr> = Err (InvalidParams m))"
proof -
  let ?t = "BlockTags_new 2 0 0" and ?cfg = "StorageRpcConfig_default ex_f64"
  let ?flt = "\<lparr>fl_criteria = (), fl_block_option = Range (Some (Number 1)) None\<rparr>"
  note b = get_logs_bounded[where show_num = "\<lambda>_. []" and cold = ex_cold and t = ?t and flt = ?flt
      and matches = "\<lambda>_ _. True"]
  have t: "resolve_bound ?t (Some (Number 1)) = 1" "resolve_bound ?t None = 2"
    by (simp_all add: resolve_bound_def BlockTags_new_def)
  have m: "matching (\<lambda>_ _. True) ?flt [[], [ex_log 1], [ex_log 20]] 1 3 = [ex_log 1, ex_log 20]"
    by (simp add: matching_def upt_rec numeral_2_eq_2)
  obtain ls where ls: "get_logs (\<lambda>_. []) ?cfg ex_cold ?t ?flt = Ok ls"
    using b[where cfg = ?cfg]
    by (simp add: t StorageRpcConfig_default_def cold_answer_def ex_cold_def del: One_nat_def)
  then have "ls = [ex_log 1, ex_log 20]"
    using b[where cfg = ?cfg] ex_cold_holds m
    by (simp add: t StorageRpcConfig_default_def del: One_nat_def)
  moreover have "\<exists>m. get_logs (\<lambda>_. []) (?cfg\<lparr>max_blocks_per_filter := 1\<rparr>) ex_cold ?t ?flt = Err (InvalidParams m)"
    using b[where cfg = "?cfg\<lparr>max_blocks_per_filter := 1\<rparr>"] by (simp add: t del: One_nat_def)
  ultimately show ?thesis using ls by blast
qed

section \<open>Where a poll loses removals\<close>

lemma reorgs_since_now:
  "\<forall>(t', r')\<in>set (cn_reorgs c). t' \<le> now \<Longrightarrow> reorgs_since now c = []"
  by (auto simp: reorgs_since_def filter_empty_conv)

lemma set_push_reorg: "set (push_reorg e buf) \<subseteq> insert e (set buf)"
  by (cases buf) (auto simp: push_reorg_def Let_def)

lemma poll_begin_state:
  assumes "poll_begin show_num matches i sv = (Ok snap, sv1)"
  shows "\<exists>f f'. fm_filters (fs_manager sv) i = Some f \<and> fm_filters (fs_manager sv1) i = Some f'
    \<and> compute_removed_logs matches (reorgs_since (af_last_poll_time f) (fs_chain sv)) f = (ps_removed snap, f')
    \<and> af_next_start_block f' = ps_start snap \<and> fs_chain sv1 = fs_chain sv"
proof -
  obtain f where f: "fm_filters (fs_manager sv) i = Some f"
    using assms by (auto simp: poll_begin_def split: option.splits)
  obtain removed f' where c: "compute_removed_logs matches (reorgs_since (af_last_poll_time f) (fs_chain sv)) f = (removed, f')"
    by force
  show ?thesis using assms f c poll_begin_Some[OF f c, of show_num] by auto
qed

text \<open>
  C36: a reorg that arrives while a poll waits for cold storage is lost to its filter: the
  commit stamps the filter with the time after the reorg, so no later poll finds it in the
  ring buffer; the position is not moved back behind the fork, and the answer of the poll is
  the one it would give without the reorg.
\<close>

theorem reorg_during_poll_lost:
  assumes "poll_begin show_num matches i sv = (Ok snap, sv1)"
    and "t \<le> now" "\<forall>(t', r')\<in>set (cn_reorgs (fs_chain sv1)). t' \<le> now"
    and "poll_finish cfg cold now i snap
           (sv1\<lparr>fs_chain := (snd (send_reorg t r (fs_chain sv1)))\<lparr>cn_tags := tags\<rparr>\<rparr>) = (Ok out, sv3)"
  shows "\<exists>f. fm_filters (fs_manager sv3) i = Some f
    \<and> reorgs_since (af_last_poll_time f) (fs_chain sv3) = []
    \<and> af_next_start_block f = (if ps_start snap > tag_latest tags then ps_start snap else u64_add (tag_latest tags) 1)
    \<and> fst (poll_finish cfg cold now i snap (sv1\<lparr>fs_chain := (fs_chain sv1)\<lparr>cn_tags := tags\<rparr>\<rparr>)) = Ok out"
proof -
  obtain f' where f': "fm_filters (fs_manager sv1) i = Some f'" "af_next_start_block f' = ps_start snap"
    using poll_begin_state[OF assms(1)] by blast
  let ?c = "(snd (send_reorg t r (fs_chain sv1)))\<lparr>cn_tags := tags\<rparr>"
  have times: "\<forall>(t', r')\<in>set (cn_reorgs ?c). t' \<le> now"
    using assms(2,3) set_push_reorg[of "(t, r)" "cn_reorgs (fs_chain sv1)"] by fastforce
  show ?thesis
  proof (cases "ps_start snap > tag_latest tags")
    case True
    then show ?thesis
      using assms(4) f' reorgs_since_now[OF times]
      by (auto simp: poll_finish_def Let_def touch_poll_time_def)
  next
    case False
    then obtain result where "poll_query cfg cold (tag_latest tags) snap = Ok result"
      using assms(4) by (auto simp: poll_finish_def Let_def split: rresult.splits)
    then show ?thesis
      using assms(4) f' False reorgs_since_now[OF times]
      by (auto simp: poll_finish_def Let_def mark_polled_def)
  qed
qed

theorem reorg_during_poll_lost_witness:
  "\<exists>snap sv1 out sv3 f.
     poll_begin (\<lambda>_. ''1'') (\<lambda>_ _. True) 1 ex_server = (Ok snap, sv1)
     \<and> poll_finish (StorageRpcConfig_default ex_f64) ex_cold 9 1 snap
         (sv1\<lparr>fs_chain := (snd (send_reorg 8 \<lparr>common_ancestor = 0, removed_blocks = []\<rparr> (fs_chain sv1)))
           \<lparr>cn_tags := BlockTags_new 1 0 0\<rparr>\<rparr>) = (Ok out, sv3)
     \<and> fm_filters (fs_manager sv3) 1 = Some f \<and> reorgs_since (af_last_poll_time f) (fs_chain sv3) = []
     \<and> af_next_start_block f = 2"
proof -
  obtain snap sv1 where b: "poll_begin (\<lambda>_. ''1'') (\<lambda>_ _. True) 1 ex_server = (Ok snap, sv1)"
    "ps_start snap = 2" "cn_reorgs (fs_chain sv1) = [(7, ex_cut)]"
    by (simp add: poll_begin_def ex_server_def ex_active_def reorgs_since_def compute_removed_logs_def
        rewind_start_def ex_cut_def u64_add_def Let_def case_prod_unfold)
  let ?sv = "sv1\<lparr>fs_chain := (snd (send_reorg 8 \<lparr>common_ancestor = 0, removed_blocks = []\<rparr> (fs_chain sv1)))
     \<lparr>cn_tags := BlockTags_new 1 0 0\<rparr>\<rparr>"
  obtain out sv3 where fin: "poll_finish (StorageRpcConfig_default ex_f64) ex_cold 9 1 snap ?sv = (Ok out, sv3)"
    using b(2) by (simp add: poll_finish_def BlockTags_new_def Let_def)
  show ?thesis
    using reorg_during_poll_lost[OF b(1) _ _ fin] b fin by (auto simp: BlockTags_new_def)
qed

lemma removed_loop_le:
  "removed_loop matches flt start rs = (removed, start') \<Longrightarrow>
     start' \<le> start \<and> (\<forall>r\<in>set rs. start' \<le> u64_add (common_ancestor r) 1)"
proof (induction rs arbitrary: start removed)
  case (Cons r rs)
  obtain rest where "removed_loop matches flt (rewind_start r start) rs = (rest, start')"
    using Cons.prems by (auto split: prod.splits)
  from Cons.IH[OF this] show ?case by (auto simp: rewind_start_def)
qed simp

lemma removed_loop_above:
  "\<forall>r\<in>set rs. \<forall>b\<in>set (removed_blocks r). start \<le> rm_number b \<Longrightarrow>
     fst (removed_loop matches flt start rs) = []"
proof (induction rs arbitrary: start)
  case (Cons r rs)
  have "removed_below matches flt start r = []"
    using Cons.prems by (auto simp: removed_below_def filter_empty_conv)
  moreover have "rewind_start r start \<le> start" by (simp add: rewind_start_def)
  then have "fst (removed_loop matches flt (rewind_start r start) rs) = []"
    using Cons.prems by (intro Cons.IH) force
  ultimately show ?case by (simp add: case_prod_unfold)
qed simp

text \<open>
  C37: when cold storage fails after a poll computed removed logs, the error is returned
  with the filter already moved back behind the fork: the next poll sees the same reorgs
  again, but takes the removed blocks for undelivered and reports none of their logs.
\<close>

theorem failed_poll_forgets_removals:
  assumes b: "poll_begin show_num matches i sv = (Ok snap, sv1)"
    and "tag_latest (cn_tags (fs_chain sv)) \<ge> ps_start snap"
    and "poll_query cfg cold (tag_latest (cn_tags (fs_chain sv))) snap = Err e"
    and named: "\<forall>r\<in>set (map snd (cn_reorgs (fs_chain sv))). \<forall>b\<in>set (removed_blocks r).
                  u64_add (common_ancestor r) 1 \<le> rm_number b"
  shows "get_filter_changes show_num matches cfg cold now i sv = (Err e, sv1)
    \<and> (\<exists>snap'. fst (poll_begin show_num matches i sv1) = Ok snap' \<and> ps_removed snap' = [])"
proof -
  obtain f f' where f: "fm_filters (fs_manager sv) i = Some f" "fm_filters (fs_manager sv1) i = Some f'"
    "compute_removed_logs matches (reorgs_since (af_last_poll_time f) (fs_chain sv)) f = (ps_removed snap, f')"
    "fs_chain sv1 = fs_chain sv"
    using poll_begin_state[OF b] by blast
  have k: "af_kind f' = af_kind f" "af_last_poll_time f' = af_last_poll_time f"
    using compute_removed_kind[OF f(3)] by simp_all
  have none: "fst (compute_removed_logs matches (reorgs_since (af_last_poll_time f) (fs_chain sv)) f') = []"
  proof (cases "as_filter (af_kind f)")
    case (Some flt)
    let ?rs = "reorgs_since (af_last_poll_time f) (fs_chain sv)"
    have sub: "set ?rs \<subseteq> set (map snd (cn_reorgs (fs_chain sv)))" by (auto simp: reorgs_since_def)
    obtain s' where loop: "removed_loop matches flt (af_next_start_block f) ?rs = (ps_removed snap, s')"
      "af_next_start_block f' = s'"
      using f(3) Some by (auto simp: compute_removed_logs_def split: prod.splits)
    have low: "\<forall>r\<in>set ?rs. s' \<le> u64_add (common_ancestor r) 1"
      using removed_loop_le[OF loop(1)] by blast
    have "\<forall>r\<in>set ?rs. \<forall>b\<in>set (removed_blocks r). s' \<le> rm_number b"
      using low named sub by (meson order_trans subsetD)
    then show ?thesis
      using Some k(1) loop(2) removed_loop_above by (simp add: compute_removed_logs_def case_prod_unfold)
  qed (simp add: compute_removed_logs_def k(1))
  obtain removed2 f2 where c2: "compute_removed_logs matches (reorgs_since (af_last_poll_time f') (fs_chain sv1)) f' = (removed2, f2)"
    by force
  then have "removed2 = []" using none k(2) f(4) by simp
  then have "\<exists>snap'. fst (poll_begin show_num matches i sv1) = Ok snap' \<and> ps_removed snap' = []"
    using poll_begin_Some[OF f(2) c2, of show_num] by simp
  moreover have "poll_finish cfg cold now i snap sv1 = (Err e, sv1)"
    using assms(2,3) f(4) by (simp add: poll_finish_def)
  ultimately show ?thesis using b by (simp add: get_filter_changes_def)
qed

theorem failed_poll_forgets_removals_witness:
  "\<exists>snap sv1 snap'.
     poll_begin (\<lambda>_. ''1'') (\<lambda>_ _. True) 1 ex_server = (Ok snap, sv1)
     \<and> ps_removed snap \<noteq> []
     \<and> get_filter_changes (\<lambda>_. ''1'') (\<lambda>_ _. True) (StorageRpcConfig_default ex_f64)
         (ex_cold\<lparr>cl_stream_logs := (\<lambda>_ _ _. Inl ''deadline'')\<rparr>) 9 1 ex_server = (Err (Cold ''deadline''), sv1)
     \<and> fst (poll_begin (\<lambda>_. ''1'') (\<lambda>_ _. True) 1 sv1) = Ok snap' \<and> ps_removed snap' = []"
proof -
  let ?cold = "ex_cold\<lparr>cl_stream_logs := (\<lambda>_ _ _. Inl ''deadline'')\<rparr>"
  obtain snap sv1 where b: "poll_begin (\<lambda>_. ''1'') (\<lambda>_ _. True) 1 ex_server = (Ok snap, sv1)"
    "ps_start snap = 2" "ps_removed snap \<noteq> []" "\<not> ps_is_block snap" "ps_filter snap = Some ex_filter"
    by (simp add: poll_begin_def ex_server_def ex_active_def reorgs_since_def compute_removed_logs_def
        rewind_start_def removed_below_def ex_cut_def u64_add_def Let_def case_prod_unfold)
  have q: "poll_query (StorageRpcConfig_default ex_f64) ?cold 2 snap = Err (Cold ''deadline'')"
    using b by (simp add: poll_query_def Let_def)
  have t: "tag_latest (cn_tags (fs_chain ex_server)) = 2" by (simp add: ex_server_def BlockTags_new_def)
  have n: "\<forall>r\<in>set (map snd (cn_reorgs (fs_chain ex_server))). \<forall>b\<in>set (removed_blocks r).
      u64_add (common_ancestor r) 1 \<le> rm_number b"
    by (simp add: ex_server_def ex_cut_def u64_add_def)
  show ?thesis
    using failed_poll_forgets_removals[OF b(1) _ q[folded t] n] b t by auto
qed

text \<open>
  A fresh log filter never delivered anything, yet after a reorg below the block it was installed at its
  next poll reports the matching logs of all removed blocks up to that block as removed.
\<close>

theorem fresh_filter_reports_undelivered:
  assumes "tag_latest (cn_tags (fs_chain sv)) < u64_max"
    and "new_filter now flt sv = (Ok i, sv1)"
    and "sv2 = sv1\<lparr>fs_chain := (snd (send_reorg t r (fs_chain sv1)))\<lparr>cn_tags := tags\<rparr>\<rparr>"
    and "now < t" "\<forall>(t', r')\<in>set (cn_reorgs (fs_chain sv)). t' \<le> now"
    and "\<forall>b\<in>set (removed_blocks r). rm_number b \<le> tag_latest (cn_tags (fs_chain sv))"
  shows "\<exists>snap sv3. poll_begin show_num matches i sv2 = (Ok snap, sv3)
    \<and> ps_removed snap = map mark_removed
        (filter (\<lambda>l. matches flt (rl_inner l)) (concat (map rm_logs (removed_blocks r))))"
proof -
  let ?tip = "tag_latest (cn_tags (fs_chain sv))"
  let ?f = "\<lparr>af_next_start_block = u64_add ?tip 1, af_last_poll_time = now, af_kind = Log_Kind flt\<rparr>"
  have sv1: "fm_filters (fs_manager sv1) i = Some ?f" "fs_chain sv1 = fs_chain sv"
    using assms(2)
    by (auto simp: new_filter_def install_log_filter_def install_filter_def next_filter_id_def Let_def)
  have c2: "cn_reorgs (fs_chain sv2) = push_reorg (t, r) (cn_reorgs (fs_chain sv))"
    using assms(3) sv1(2) by simp
  have old: "filter (\<lambda>(t', r'). t' > now) xs = []" if "set xs \<subseteq> set (cn_reorgs (fs_chain sv))" for xs
    using assms(5) that by (fastforce simp: filter_empty_conv)
  have tl_sub: "set (tl (cn_reorgs (fs_chain sv))) \<subseteq> set (cn_reorgs (fs_chain sv))"
    by (cases "cn_reorgs (fs_chain sv)") auto
  have "filter (\<lambda>(t', r'). t' > now) (push_reorg (t, r) (cn_reorgs (fs_chain sv))) = [(t, r)]"
    using assms(4) old[of "cn_reorgs (fs_chain sv)"] old[of "tl (cn_reorgs (fs_chain sv))"] tl_sub
    by (simp add: push_reorg_def Let_def)
  then have rs: "reorgs_since (af_last_poll_time ?f) (fs_chain sv2) = [r]"
    by (simp add: reorgs_since_def c2)
  have "filter (\<lambda>b. \<not> u64_add ?tip 1 \<le> rm_number b) (removed_blocks r) = removed_blocks r"
    using assms(1,6) by (auto simp: filter_id_conv u64_simps)
  then obtain f2 where c: "compute_removed_logs matches (reorgs_since (af_last_poll_time ?f) (fs_chain sv2)) ?f =
      (map mark_removed (filter (\<lambda>l. matches flt (rl_inner l)) (concat (map rm_logs (removed_blocks r)))), f2)"
    by (simp only: rs) (simp add: compute_removed_logs_def removed_below_def)
  have "fm_filters (fs_manager sv2) i = Some ?f" using sv1(1) assms(3) by simp
  from poll_begin_Some[OF this c, of show_num] show ?thesis by simp
qed

theorem fresh_filter_reports_undelivered_witness:
  "\<exists>i sv1 snap sv3.
     new_filter 10 ex_filter (ex_server\<lparr>fs_chain := (ChainNotifier_new 16)\<lparr>cn_tags := BlockTags_new 3 0 0\<rparr>\<rparr>) = (Ok i, sv1)
     \<and> poll_begin (\<lambda>_. ''2'') (\<lambda>_ _. True) i
         (sv1\<lparr>fs_chain := (snd (send_reorg 11 ex_cut (fs_chain sv1)))\<lparr>cn_tags := BlockTags_new 1 0 0\<rparr>\<rparr>) = (Ok snap, sv3)
     \<and> ps_removed snap = [mark_removed (ex_log 2), mark_removed (ex_log 3)]"
proof -
  let ?sv = "ex_server\<lparr>fs_chain := (ChainNotifier_new 16)\<lparr>cn_tags := BlockTags_new 3 0 0\<rparr>\<rparr>"
  obtain i sv1 where n: "new_filter 10 ex_filter ?sv = (Ok i, sv1)"
    by (simp add: new_filter_def install_log_filter_def install_filter_def next_filter_id_def Let_def)
  show ?thesis
    using fresh_filter_reports_undelivered[OF _ n refl, where t = 11 and r = ex_cut
        and tags = "BlockTags_new 1 0 0" and show_num = "\<lambda>_. ''2''" and matches = "\<lambda>_ _. True"] n
    by (auto simp: BlockTags_new_def ChainNotifier_new_def u64_max_def ex_cut_def)
qed

end
