(* ===== verification/Blob_Fetch.thy ===== *)
theory Blob_Fetch
  imports Node_Prelude
begin

text \<open>
  The blob fetcher and its sources (\<^verbatim>\<open>crates/blobber/src\<close>: \<^verbatim>\<open>error.rs\<close>, \<^verbatim>\<open>blobs/error.rs\<close>,
  \<^verbatim>\<open>coder/error.rs\<close>, \<^verbatim>\<open>blobs/fetch.rs\<close>, \<^verbatim>\<open>blobs/builder.rs\<close>, \<^verbatim>\<open>blobs/config.rs\<close>,
  \<^verbatim>\<open>blobs/sources\<close>). A source is a function of the request and of the outside world \<open>'w\<close>;
  the HTTP requests of the three remote sources (\<open>Blob_Sources\<close>) are arguments that already contain
  transport, status and JSON decoding.
\<close>

section \<open>Errors\<close>

datatype decode_error =
    Non4844Transaction
  | BlobDecodeError
  | BlockDataNotFound b256
  | BlockDecodeError string

datatype fetch_error =
    Reqwest string
  | MissingSidecar b256
  | BlobSource string
  | UrlParse string

datatype blobber_error = Fetch fetch_error | Decode decode_error

fun is_decode :: "blobber_error \<Rightarrow> bool" where
  "is_decode (Decode e) = True"
| "is_decode (Fetch e) = False"

fun is_fetch :: "blobber_error \<Rightarrow> bool" where
  "is_fetch (Fetch e) = True"
| "is_fetch (Decode e) = False"

definition non_4844_transaction :: blobber_error where
  "non_4844_transaction = Decode Non4844Transaction"

definition blob_decode_error :: blobber_error where
  "blob_decode_error = Decode BlobDecodeError"

definition block_decode_error :: "string \<Rightarrow> blobber_error" where
  "block_decode_error e = Decode (BlockDecodeError e)"

definition block_data_not_found :: "b256 \<Rightarrow> blobber_error" where
  "block_data_not_found h = Decode (BlockDataNotFound h)"

definition missing_sidecar :: "b256 \<Rightarrow> blobber_error" where
  "missing_sidecar tx = Fetch (MissingSidecar tx)"

definition blob_source_error :: "string \<Rightarrow> blobber_error" where
  "blob_source_error e = Fetch (BlobSource e)"

section \<open>Blobs\<close>

text \<open>alloy's sidecar variants, of which the code reads the blobs.\<close>

datatype 'b sidecar_variant = Eip4844 "'b list" | Eip7594 "'b list"

datatype 'b blobs = FromSidecar "'b sidecar_variant" | Other "'b list"

fun blobs_as_vec :: "'b blobs \<Rightarrow> 'b list" where
  "blobs_as_vec (FromSidecar (Eip4844 bs)) = bs"
| "blobs_as_vec (FromSidecar (Eip7594 bs)) = bs"
| "blobs_as_vec (Other bs) = bs"

definition blobs_len :: "'b blobs \<Rightarrow> usize" where
  "blobs_len b = length (blobs_as_vec b)"

definition blobs_is_empty :: "'b blobs \<Rightarrow> bool" where
  "blobs_is_empty b = (blobs_len b = 0)"

lemma blobs_is_empty_iff [simp]: "blobs_is_empty b \<longleftrightarrow> blobs_as_vec b = []"
  by (simp add: blobs_is_empty_def blobs_len_def)

section \<open>Sources\<close>

record blob_spec =
  bs_tx_hash :: b256
  bs_slot :: usize
  bs_versioned_hashes :: "b256 list"

type_synonym ('w, 'b) blob_source = "blob_spec \<Rightarrow> 'w \<Rightarrow> (string + 'b blobs option) \<times> 'w"

fun nonempty_blobs :: "'b blobs \<Rightarrow> 'b blobs option" where
  "nonempty_blobs b = (if \<not> blobs_is_empty b then Some b else None)"

definition beacon_source ::
  "(usize \<Rightarrow> b256 list \<Rightarrow> 'w \<Rightarrow> (string + 'b list) \<times> 'w) \<Rightarrow> ('w, 'b) blob_source" where
  "beacon_source fetch_from_cl spec w =
     (case fetch_from_cl (bs_slot spec) (bs_versioned_hashes spec) w of
        (Inl e, w1) \<Rightarrow> (Inl e, w1)
      | (Inr data, w1) \<Rightarrow> (Inr (nonempty_blobs (Other data)), w1))"

definition explorer_source ::
  "(b256 \<Rightarrow> 'w \<Rightarrow> (string + 'b list) \<times> 'w) \<Rightarrow> ('w, 'b) blob_source" where
  "explorer_source transaction spec w =
     (case transaction (bs_tx_hash spec) w of
        (Inl e, w1) \<Rightarrow> (Inl e, w1)
      | (Inr data, w1) \<Rightarrow> (Inr (nonempty_blobs (Other data)), w1))"

definition pylon_source ::
  "(b256 \<Rightarrow> 'w \<Rightarrow> (string + 'b sidecar_variant) \<times> 'w) \<Rightarrow> ('w, 'b) blob_source" where
  "pylon_source fetch_from_pylon spec w =
     (case fetch_from_pylon (bs_tx_hash spec) w of
        (Inl e, w1) \<Rightarrow> (Inl e, w1)
      | (Inr sidecar, w1) \<Rightarrow> (Inr (nonempty_blobs (FromSidecar sidecar)), w1))"

text \<open>The memory source: its map is the world.\<close>

definition memory_insert :: "b256 \<Rightarrow> 'b sidecar_variant \<Rightarrow> (b256 \<rightharpoonup> 'b sidecar_variant) \<Rightarrow> (b256 \<rightharpoonup> 'b sidecar_variant)" where
  "memory_insert tx sidecar m = m(tx \<mapsto> sidecar)"

definition memory_remove :: "b256 \<Rightarrow> (b256 \<rightharpoonup> 'b sidecar_variant) \<Rightarrow> (b256 \<rightharpoonup> 'b sidecar_variant)" where
  "memory_remove tx m = m(tx := None)"

definition memory_source :: "(b256 \<rightharpoonup> 'b sidecar_variant, 'b) blob_source" where
  "memory_source spec m = (Inr (map_option FromSidecar (m (bs_tx_hash spec))), m)"

section \<open>The fetcher\<close>

record ('w, 'b) blob_fetcher =
  sync_sources :: "('w, 'b) blob_source list"
  async_sources :: "('w, 'b) blob_source list"

text \<open>Trying sources one after the other until one has blobs.\<close>

fun try_sources :: "('w, 'b) blob_source list \<Rightarrow> blob_spec \<Rightarrow> 'w \<Rightarrow> 'b blobs option \<times> 'w" where
  "try_sources [] spec w = (None, w)"
| "try_sources (s # ss) spec w =
     (case s spec w of
        (Inr (Some blobs), w1) \<Rightarrow> (Some blobs, w1)
      | (_, w1) \<Rightarrow> try_sources ss spec w1)"

text \<open>
  The asynchronous sources are polled together; \<open>select_all\<close> hands out their results in
  the order in which they complete, which is an argument: the positions of the sources in
  completion order, of which the world decides.
\<close>

definition fetcher_fetch ::
  "('w \<Rightarrow> nat list) \<Rightarrow> ('w, 'b) blob_fetcher \<Rightarrow> blob_spec \<Rightarrow> 'w \<Rightarrow> ('b blobs, fetch_error) rresult \<times> 'w" where
  "fetcher_fetch completion f spec w =
     (case try_sources (sync_sources f) spec w of
        (Some blobs, w1) \<Rightarrow> (Ok blobs, w1)
      | (None, w1) \<Rightarrow>
          (case try_sources (map ((!) (async_sources f)) (completion w1)) spec w1 of
             (Some blobs, w2) \<Rightarrow> (Ok blobs, w2)
           | (None, w2) \<Rightarrow> (Err (MissingSidecar (bs_tx_hash spec)), w2)))"

definition completes :: "('w \<Rightarrow> nat list) \<Rightarrow> ('w, 'b) blob_fetcher \<Rightarrow> bool" where
  "completes completion f \<longleftrightarrow>
     (\<forall>w. distinct (completion w) \<and> set (completion w) = {..<length (async_sources f)})"

text \<open>All sources of a fetcher answer for a request: some blobs, or nothing of use.\<close>

definition serves :: "('w, 'b) blob_source \<Rightarrow> blob_spec \<Rightarrow> ('b blobs \<Rightarrow> bool) \<Rightarrow> bool" where
  "serves s spec P \<longleftrightarrow> (\<forall>w r w1. s spec w = (r, w1) \<longrightarrow> (\<forall>b. r = Inr (Some b) \<longrightarrow> P b))"

definition delivers :: "('w, 'b) blob_source \<Rightarrow> blob_spec \<Rightarrow> bool" where
  "delivers s spec \<longleftrightarrow> (\<forall>w. \<exists>b w1. s spec w = (Inr (Some b), w1))"

lemma try_sources_from:
  assumes "try_sources ss spec w = (Some b, w')"
  shows "\<exists>s\<in>set ss. \<exists>w1 w2. s spec w1 = (Inr (Some b), w2)"
  using assms
proof (induction ss arbitrary: w)
  case (Cons s ss)
  then show ?case by (fastforce split: prod.splits sum.splits option.splits)
qed simp

lemma try_sources_delivers:
  assumes "s \<in> set ss" "delivers s spec"
  shows "\<exists>b w'. try_sources ss spec w = (Some b, w')"
  using assms
proof (induction ss arbitrary: w)
  case (Cons a ss)
  show ?case
  proof (cases "a = s")
    case True
    then obtain b w1 where "a spec w = (Inr (Some b), w1)" using Cons.prems(2) unfolding delivers_def by blast
    then show ?thesis by simp
  next
    case False
    then show ?thesis using Cons by (fastforce split: prod.splits sum.splits option.splits)
  qed
qed simp

lemma completion_sources:
  assumes "completes completion f"
  shows "set (map ((!) (async_sources f)) (completion w)) = set (async_sources f)"
  using assms nth_image[of "length (async_sources f)" "async_sources f"]
  by (simp add: completes_def lessThan_atLeast0)

text \<open>
  C22: the fetcher gives blobs only as one of its sources gave them, and gives them
  whenever one of its sources has them, whatever the others do and in whatever order the
  asynchronous ones answer; it fails with exactly the missing sidecar of the transaction.
\<close>

theorem fetcher_finds_blobs:
  assumes "completes completion f"
  shows "(case fst (fetcher_fetch completion f spec w) of
        Ok b \<Rightarrow> \<exists>s\<in>set (sync_sources f) \<union> set (async_sources f). \<exists>w1 w2. s spec w1 = (Inr (Some b), w2)
      | Err e \<Rightarrow> e = MissingSidecar (bs_tx_hash spec)
          \<and> (\<forall>s\<in>set (sync_sources f) \<union> set (async_sources f). \<not> delivers s spec)
      | Panic \<Rightarrow> False)"
proof -
  obtain r1 w1 where s: "try_sources (sync_sources f) spec w = (r1, w1)" by force
  obtain r2 w2 where a: "try_sources (map ((!) (async_sources f)) (completion w1)) spec w1 = (r2, w2)" by force
  note c = completion_sources[OF assms, of w1]
  show ?thesis
  proof (cases r1)
    case (Some b)
    then show ?thesis using s try_sources_from[of "sync_sources f" spec w b w1]
      by (auto simp: fetcher_fetch_def)
  next
    case None
    have n: "\<not> delivers t spec" if "t \<in> set (sync_sources f)" for t
      using try_sources_delivers[OF that, of spec w] s None by auto
    show ?thesis
    proof (cases r2)
      case None': None
      have "\<not> delivers t spec" if "t \<in> set (async_sources f)" for t
        using try_sources_delivers[of t "map ((!) (async_sources f)) (completion w1)" spec w1] that c a None'
        by auto
      then show ?thesis using s a None None' n by (auto simp: fetcher_fetch_def)
    next
      case (Some b)
      then show ?thesis
        using s a None c try_sources_from[of "map ((!) (async_sources f)) (completion w1)" spec w1 b w2]
        by (auto simp: fetcher_fetch_def)
    qed
  qed
qed

definition ex_spec :: blob_spec where
  "ex_spec = \<lparr>bs_tx_hash = 5, bs_slot = 3, bs_versioned_hashes = [9]\<rparr>"

definition ex_fetcher :: "(b256 \<rightharpoonup> nat sidecar_variant, nat) blob_fetcher" where
  "ex_fetcher = \<lparr>sync_sources = [memory_source],
     async_sources = [explorer_source (\<lambda>tx w. (Inl ''503'', w)), beacon_source (\<lambda>slot hs w. (Inr [7, 8], w))]\<rparr>"

theorem fetcher_finds_blobs_witness:
  "fst (fetcher_fetch (\<lambda>_. [1, 0]) ex_fetcher ex_spec (\<lambda>_. None)) = Ok (Other [7, 8])
   \<and> (\<exists>s\<in>set (sync_sources ex_fetcher) \<union> set (async_sources ex_fetcher). \<exists>w1 w2. s ex_spec w1 = (Inr (Some (Other [7, 8])), w2))"
proof -
  have c: "completes (\<lambda>_. [1, 0]) ex_fetcher" by (auto simp: completes_def ex_fetcher_def)
  have r: "fst (fetcher_fetch (\<lambda>_. [1, 0]) ex_fetcher ex_spec (\<lambda>_. None)) = Ok (Other [7, 8])"
    by (simp add: fetcher_fetch_def ex_fetcher_def ex_spec_def memory_source_def explorer_source_def beacon_source_def)
  show ?thesis using fetcher_finds_blobs[OF c, of ex_spec "\<lambda>_. None"] r by simp
qed

section \<open>Configuration and builder\<close>

record blob_fetcher_config =
  bc_blob_explorer_url :: string
  bc_cl_url :: "string option"
  bc_pylon_url :: "string option"

definition BlobFetcherConfig_new :: "string \<Rightarrow> blob_fetcher_config" where
  "BlobFetcherConfig_new url = \<lparr>bc_blob_explorer_url = url, bc_cl_url = None, bc_pylon_url = None\<rparr>"

definition set_blob_explorer_url :: "string \<Rightarrow> blob_fetcher_config \<Rightarrow> blob_fetcher_config" where
  "set_blob_explorer_url url c = c\<lparr>bc_blob_explorer_url := url\<rparr>"

definition set_cl_url :: "string \<Rightarrow> blob_fetcher_config \<Rightarrow> blob_fetcher_config" where
  "set_cl_url url c = c\<lparr>bc_cl_url := Some url\<rparr>"

definition set_pylon_url :: "string \<Rightarrow> blob_fetcher_config \<Rightarrow> blob_fetcher_config" where
  "set_pylon_url url c = c\<lparr>bc_pylon_url := Some url\<rparr>"

text \<open>The remote sources as functions of their URL, and \<open>Url::parse\<close>.\<close>

record ('w, 'b, 'u) remote_sources =
  rs_parse_url :: "string \<Rightarrow> string + 'u"
  rs_explorer :: "string \<Rightarrow> b256 \<Rightarrow> 'w \<Rightarrow> (string + 'b list) \<times> 'w"
  rs_fetch_from_cl :: "'u \<Rightarrow> usize \<Rightarrow> b256 list \<Rightarrow> 'w \<Rightarrow> (string + 'b list) \<times> 'w"
  rs_fetch_from_pylon :: "'u \<Rightarrow> b256 \<Rightarrow> 'w \<Rightarrow> (string + 'b sidecar_variant) \<times> 'w"

definition with_source :: "('w, 'b) blob_source \<Rightarrow> ('w, 'b) blob_fetcher \<Rightarrow> ('w, 'b) blob_fetcher" where
  "with_source s b = b\<lparr>sync_sources := sync_sources b @ [s]\<rparr>"

definition with_async_source :: "('w, 'b) blob_source \<Rightarrow> ('w, 'b) blob_fetcher \<Rightarrow> ('w, 'b) blob_fetcher" where
  "with_async_source s b = b\<lparr>async_sources := async_sources b @ [s]\<rparr>"

definition fetcher_builder :: "('w, 'b) blob_fetcher" where
  "fetcher_builder = \<lparr>sync_sources = [], async_sources = []\<rparr>"

definition with_config ::
  "('w, 'b, 'u) remote_sources \<Rightarrow> blob_fetcher_config \<Rightarrow> ('w, 'b) blob_fetcher
     \<Rightarrow> (('w, 'b) blob_fetcher, string) rresult" where
  "with_config rs config b =
     (let b1 = with_async_source (explorer_source (rs_explorer rs (bc_blob_explorer_url config))) b
      in rbind (case bc_cl_url config of
                  Some cl \<Rightarrow>
                    (case rs_parse_url rs cl of
                       Inl e \<Rightarrow> Err e
                     | Inr url \<Rightarrow> Ok (with_async_source (beacon_source (rs_fetch_from_cl rs url)) b1))
                | None \<Rightarrow> Ok b1) (\<lambda>b2.
          case bc_pylon_url config of
            Some pylon \<Rightarrow>
              (case rs_parse_url rs pylon of
                 Inl e \<Rightarrow> Err e
               | Inr url \<Rightarrow> Ok (with_async_source (pylon_source (rs_fetch_from_pylon rs url)) b2))
          | None \<Rightarrow> Ok b2))"

definition fetcher_build :: "('w, 'b) blob_fetcher \<Rightarrow> ('w, 'b) blob_fetcher" where
  "fetcher_build b = b"

text \<open>No configured fetcher ever gives an empty list of blobs.\<close>

lemma remote_nonempty:
  "serves (explorer_source ex) spec (\<lambda>b. blobs_as_vec b \<noteq> [])"
  "serves (beacon_source cl) spec (\<lambda>b. blobs_as_vec b \<noteq> [])"
  "serves (pylon_source py) spec (\<lambda>b. blobs_as_vec b \<noteq> [])"
  by (auto simp: serves_def explorer_source_def beacon_source_def pylon_source_def
      split: prod.splits sum.splits if_splits)

lemma with_config_sources:
  assumes "with_config rs config fetcher_builder = Ok b"
  shows "sync_sources b = [] \<and> (\<forall>s\<in>set (async_sources b). \<forall>spec. serves s spec (\<lambda>b. blobs_as_vec b \<noteq> []))"
proof -
  have add: "sync_sources (with_async_source s a) = sync_sources a"
    "async_sources (with_async_source s a) = async_sources a @ [s]" for s and a :: "('a, 'b) blob_fetcher"
    by (simp_all add: with_async_source_def)
  have e: "sync_sources (fetcher_builder :: ('a, 'b) blob_fetcher) = []"
    "async_sources (fetcher_builder :: ('a, 'b) blob_fetcher) = []"
    by (simp_all add: fetcher_builder_def)
  show ?thesis
    using assms
    by (cases "bc_cl_url config"; cases "bc_pylon_url config")
      (auto simp: with_config_def Let_def add e remote_nonempty split: sum.splits)
qed

end
