(* ===== verification/Blob_Cache.thy ===== *)
theory Blob_Cache
  imports Blob_Fetch
begin

text \<open>
  The blob cache and its handle (\<^verbatim>\<open>blobber/src/blobs/cache.rs\<close>) and the block decoder
  (\<^verbatim>\<open>blobber/src/coder/trait.rs\<close>). The LRU map, the sidecar coder, the hash function and the
  construction of a zenith block come from other crates and are arguments. A request of the
  handle is answered by its own task; the model runs it at once, and a cache task that has
  gone away is the flag \<open>alive\<close>.
\<close>

section \<open>The cache\<close>

definition FETCH_RETRIES :: usize where "FETCH_RETRIES = 3"

type_synonym blob_key = "usize \<times> b256"

record ('m, 'b) lru_ops =
  lru_get :: "blob_key \<Rightarrow> 'm \<Rightarrow> 'b blobs option \<times> 'm"
  lru_insert :: "blob_key \<Rightarrow> 'b blobs \<Rightarrow> 'm \<Rightarrow> 'm"

text \<open>
  What the cache relies on: a lookup gives only what was inserted last under the key, and
  moving or evicting entries invents none; an entry just inserted is there.
\<close>

definition lru_laws :: "('m, 'b) lru_ops \<Rightarrow> ('m \<Rightarrow> blob_key \<rightharpoonup> 'b blobs) \<Rightarrow> bool" where
  "lru_laws L contents \<longleftrightarrow>
     (\<forall>k m. fst (lru_get L k m) = contents m k \<and> contents (snd (lru_get L k m)) = contents m)
     \<and> (\<forall>k b m. contents (lru_insert L k b m) k = Some b
          \<and> contents (lru_insert L k b m) \<subseteq>\<^sub>m (contents m)(k \<mapsto> b))"

record ('w, 'b, 'm) blob_cacher =
  bc_fetcher :: "('w, 'b) blob_fetcher"
  bc_cache :: 'm

text \<open>
  The effects of the outside world a fetch depends on: the completion order of the
  asynchronous sources and the passing of time between two attempts.
\<close>

record 'w fetch_env =
  fe_completion :: "'w \<Rightarrow> nat list"
  fe_sleep :: "'w \<Rightarrow> 'w"

fun fetch_attempts ::
  "'w fetch_env \<Rightarrow> ('w, 'b) blob_fetcher \<Rightarrow> blob_spec \<Rightarrow> nat \<Rightarrow> 'w \<Rightarrow> 'b blobs option \<times> 'w" where
  "fetch_attempts env f spec 0 w = (None, w)"
| "fetch_attempts env f spec (Suc k) w =
     (case fetcher_fetch (fe_completion env) f spec w of
        (Ok blobs, w1) \<Rightarrow> (Some blobs, w1)
      | (_, w1) \<Rightarrow> fetch_attempts env f spec k (fe_sleep env w1))"

definition BlobCacher_new :: "'m \<Rightarrow> ('w, 'b) blob_fetcher \<Rightarrow> ('w, 'b, 'm) blob_cacher" where
  "BlobCacher_new lru_new f = \<lparr>bc_fetcher = f, bc_cache = lru_new\<rparr>"

definition cacher_fetch_blobs ::
  "('m, 'b) lru_ops \<Rightarrow> 'w fetch_env \<Rightarrow> usize \<Rightarrow> b256 \<Rightarrow> b256 list \<Rightarrow> ('w, 'b, 'm) blob_cacher \<Rightarrow> 'w
     \<Rightarrow> ('b blobs, blobber_error) rresult \<times> ('w, 'b, 'm) blob_cacher \<times> 'w" where
  "cacher_fetch_blobs L env slot tx_hash versioned_hashes c w =
     (case lru_get L (slot, tx_hash) (bc_cache c) of
        (Some blobs, m) \<Rightarrow> (Ok blobs, c\<lparr>bc_cache := m\<rparr>, w)
      | (None, m) \<Rightarrow>
          (let spec = \<lparr>bs_tx_hash = tx_hash, bs_slot = slot, bs_versioned_hashes = versioned_hashes\<rparr>
           in case fetch_attempts env (bc_fetcher c) spec FETCH_RETRIES w of
                (Some blobs, w1) \<Rightarrow> (Ok blobs, c\<lparr>bc_cache := lru_insert L (slot, tx_hash) blobs m\<rparr>, w1)
              | (None, w1) \<Rightarrow> (Err (missing_sidecar tx_hash), c\<lparr>bc_cache := m\<rparr>, w1)))"

text \<open>\<open>handle_inst\<close>: the response, if any, that goes back to the listener.\<close>

definition handle_inst ::
  "('m, 'b) lru_ops \<Rightarrow> 'w fetch_env \<Rightarrow> usize \<Rightarrow> b256 \<Rightarrow> b256 list \<Rightarrow> ('w, 'b, 'm) blob_cacher \<Rightarrow> 'w
     \<Rightarrow> 'b blobs option \<times> ('w, 'b, 'm) blob_cacher \<times> 'w" where
  "handle_inst L env slot tx_hash version_hashes c w =
     (case cacher_fetch_blobs L env slot tx_hash version_hashes c w of
        (Ok blobs, c1, w1) \<Rightarrow> (Some blobs, c1, w1)
      | (_, c1, w1) \<Rightarrow> (None, c1, w1))"

section \<open>The handle\<close>

record ('w, 'b, 'm) cache_server =
  cs_alive :: bool
  cs_cacher :: "('w, 'b, 'm) blob_cacher"
  cs_world :: 'w

definition handle_fetch_blobs ::
  "('m, 'b) lru_ops \<Rightarrow> 'w fetch_env \<Rightarrow> usize \<Rightarrow> b256 \<Rightarrow> b256 list \<Rightarrow> ('w, 'b, 'm) cache_server
     \<Rightarrow> ('b blobs, blobber_error) rresult \<times> ('w, 'b, 'm) cache_server" where
  "handle_fetch_blobs L env slot tx_hash version_hashes s =
     (if \<not> cs_alive s then (Err (missing_sidecar tx_hash), s)
      else (case handle_inst L env slot tx_hash version_hashes (cs_cacher s) (cs_world s) of
              (resp, c, w) \<Rightarrow>
                (case resp of Some blobs \<Rightarrow> Ok blobs | None \<Rightarrow> Err (missing_sidecar tx_hash),
                 s\<lparr>cs_cacher := c, cs_world := w\<rparr>)))"

text \<open>
  What the code reads of the extracted submission: the transaction's hash and, for an
  EIP-4844 transaction, its versioned hashes, the hash of the block data, and its header.
\<close>

record 'hdr submission =
  sub_tx_hash :: b256
  sub_versioned_hashes :: "b256 list option"
  sub_block_data_hash :: b256
  sub_ru_header :: "u64 \<Rightarrow> 'hdr"

record ('b, 'hdr, 'zb) zenith_ops =
  zo_decode_all :: "'b list \<Rightarrow> u8 list list option"
  zo_keccak256 :: "u8 list \<Rightarrow> b256"
  zo_from_header_and_data :: "'hdr \<Rightarrow> u8 list \<Rightarrow> 'zb"

definition find_block_data :: "('b, 'hdr, 'zb) zenith_ops \<Rightarrow> b256 \<Rightarrow> 'b blobs \<Rightarrow> (u8 list, decode_error) rresult" where
  "find_block_data Z h blobs =
     rbind (ok_or (zo_decode_all Z (blobs_as_vec blobs)) BlobDecodeError)
       (\<lambda>datas. ok_or (find (\<lambda>data. zo_keccak256 Z data = h) datas) (BlockDataNotFound h))"

definition lift_decode :: "('a, decode_error) rresult \<Rightarrow> ('a, blobber_error) rresult" where
  "lift_decode r = (case r of Ok a \<Rightarrow> Ok a | Err e \<Rightarrow> Err (Decode e) | Panic \<Rightarrow> Panic)"

definition fetch_and_decode ::
  "('b, 'hdr, 'zb) zenith_ops \<Rightarrow> ('m, 'b) lru_ops \<Rightarrow> 'w fetch_env \<Rightarrow> usize \<Rightarrow> 'hdr submission
     \<Rightarrow> ('w, 'b, 'm) cache_server \<Rightarrow> (u8 list, blobber_error) rresult \<times> ('w, 'b, 'm) cache_server" where
  "fetch_and_decode Z L env slot extract s =
     (case sub_versioned_hashes extract of
        None \<Rightarrow> (Err non_4844_transaction, s)
      | Some versioned_hashes \<Rightarrow>
          (case handle_fetch_blobs L env slot (sub_tx_hash extract) versioned_hashes s of
             (Ok blobs, s1) \<Rightarrow> (lift_decode (find_block_data Z (sub_block_data_hash extract) blobs), s1)
           | (Err e, s1) \<Rightarrow> (Err e, s1)
           | (Panic, s1) \<Rightarrow> (Panic, s1)))"

definition signet_block ::
  "('b, 'hdr, 'zb) zenith_ops \<Rightarrow> ('m, 'b) lru_ops \<Rightarrow> 'w fetch_env \<Rightarrow> u64 \<Rightarrow> usize \<Rightarrow> 'hdr submission
     \<Rightarrow> ('w, 'b, 'm) cache_server \<Rightarrow> ('zb, fetch_error) rresult \<times> ('w, 'b, 'm) cache_server" where
  "signet_block Z L env host_block_number slot extract s =
     (let header = sub_ru_header extract host_block_number
      in case fetch_and_decode Z L env slot extract s of
           (Ok buf, s1) \<Rightarrow> (Ok (zo_from_header_and_data Z header buf), s1)
         | (Err (Decode e), s1) \<Rightarrow> (Ok (zo_from_header_and_data Z header []), s1)
         | (Err (Fetch e), s1) \<Rightarrow> (Err e, s1)
         | (Panic, s1) \<Rightarrow> (Panic, s1))"

section \<open>The decoder trait\<close>

definition decode_block :: "('b, 'hdr, 'zb) zenith_ops \<Rightarrow> 'b blobs \<Rightarrow> 'hdr \<Rightarrow> b256 \<Rightarrow> ('zb, decode_error) rresult" where
  "decode_block Z blobs header data_hash =
     rbind (ok_or (zo_decode_all Z (blobs_as_vec blobs)) BlobDecodeError) (\<lambda>datas.
     rbind (ok_or (find (\<lambda>data. zo_keccak256 Z data = data_hash) datas) (BlockDataNotFound data_hash)) (\<lambda>block_data.
     Ok (zo_from_header_and_data Z header block_data)))"

definition decode_block_or_default :: "('b, 'hdr, 'zb) zenith_ops \<Rightarrow> 'b blobs \<Rightarrow> 'hdr \<Rightarrow> b256 \<Rightarrow> 'zb" where
  "decode_block_or_default Z blobs header data_hash =
     (case decode_block Z blobs header data_hash of
        Ok b \<Rightarrow> b
      | _ \<Rightarrow> zo_from_header_and_data Z header [])"

section \<open>Facts\<close>

definition cached_blobs :: "('m \<Rightarrow> blob_key \<rightharpoonup> 'b blobs) \<Rightarrow> ('w, 'b, 'm) cache_server \<Rightarrow> blob_key \<rightharpoonup> 'b blobs" where
  "cached_blobs contents s = contents (bc_cache (cs_cacher s))"

lemma lru_lawsD:
  assumes "lru_laws L contents"
  shows "lru_get L k m = (r, m') \<Longrightarrow> r = contents m k \<and> contents m' = contents m"
    and "contents (lru_insert L k b m) k = Some b"
    and "contents (lru_insert L k b m) k' = Some b' \<Longrightarrow> k' \<noteq> k \<Longrightarrow> contents m k' = Some b'"
proof -
  show "lru_get L k m = (r, m') \<Longrightarrow> r = contents m k \<and> contents m' = contents m"
    using assms unfolding lru_laws_def by (metis fst_conv snd_conv)
  show "contents (lru_insert L k b m) k = Some b" using assms unfolding lru_laws_def by blast
  assume "contents (lru_insert L k b m) k' = Some b'" "k' \<noteq> k"
  moreover have "contents (lru_insert L k b m) \<subseteq>\<^sub>m (contents m)(k \<mapsto> b)"
    using assms unfolding lru_laws_def by blast
  ultimately show "contents m k' = Some b'" unfolding map_le_def by (metis domI fun_upd_other)
qed

lemma handle_fetch_never_panics: "fst (handle_fetch_blobs L env slot tx vh s) \<noteq> Panic"
  by (auto simp: handle_fetch_blobs_def split: prod.splits option.splits)

lemma handle_fetch_cases:
  assumes "lru_laws L contents" "handle_fetch_blobs L env slot tx vh s = (r, s1)"
  shows "(\<exists>b. r = Ok b \<and> cs_alive s \<and> cached_blobs contents s1 (slot, tx) = Some b
            \<and> (cached_blobs contents s (slot, tx) = None \<or> cached_blobs contents s (slot, tx) = Some b))
       \<or> (r = Err (missing_sidecar tx) \<and> (\<not> cs_alive s \<or> cached_blobs contents s (slot, tx) = None))"
proof (cases "cs_alive s")
  case True
  obtain r0 m where g: "lru_get L (slot, tx) (bc_cache (cs_cacher s)) = (r0, m)" by force
  note c = lru_lawsD(1)[OF assms(1) g]
  show ?thesis
    using assms(2) True g c lru_lawsD(2)[OF assms(1)]
    by (auto simp: handle_fetch_blobs_def handle_inst_def cacher_fetch_blobs_def cached_blobs_def Let_def
        split: option.splits prod.splits)
qed (use assms(2) in \<open>auto simp: handle_fetch_blobs_def\<close>)

lemma handle_fetch_hit:
  assumes "lru_laws L contents" "cs_alive s" "cached_blobs contents s (slot, tx) = Some b"
  shows "\<exists>s'. handle_fetch_blobs L env slot tx vh s = (Ok b, s')
    \<and> cached_blobs contents s' = cached_blobs contents s \<and> cs_world s' = cs_world s \<and> cs_alive s'"
proof -
  obtain r0 m where g: "lru_get L (slot, tx) (bc_cache (cs_cacher s)) = (r0, m)" by force
  show ?thesis
    using lru_lawsD(1)[OF assms(1) g] assms g
    by (auto simp: handle_fetch_blobs_def handle_inst_def cacher_fetch_blobs_def cached_blobs_def)
qed

text \<open>The data of the block built from some blobs.\<close>

definition block_data_of :: "('b, 'hdr, 'zb) zenith_ops \<Rightarrow> b256 \<Rightarrow> 'b blobs \<Rightarrow> u8 list" where
  "block_data_of Z h blobs = (case find_block_data Z h blobs of Ok data \<Rightarrow> data | _ \<Rightarrow> [])"

lemma find_block_data_hash: "find_block_data Z h blobs = Ok data \<Longrightarrow> zo_keccak256 Z data = h"
  by (auto simp: find_block_data_def rres_simps find_Some_iff)

lemma block_data_of_hash: "block_data_of Z h blobs = [] \<or> zo_keccak256 Z (block_data_of Z h blobs) = h"
  using find_block_data_hash[of Z h blobs]
  by (cases "find_block_data Z h blobs") (simp_all add: block_data_of_def)

lemma find_block_data_no_panic: "find_block_data Z h blobs \<noteq> Panic"
  by (cases "zo_decode_all Z (blobs_as_vec blobs)"; cases "find (\<lambda>d. zo_keccak256 Z d = h) (the (zo_decode_all Z (blobs_as_vec blobs)))")
    (auto simp: find_block_data_def)

lemma signet_block_fetched:
  assumes "sub_versioned_hashes extract = Some vh"
    and "handle_fetch_blobs L env slot (sub_tx_hash extract) vh s = (Ok b, s0)"
  shows "signet_block Z L env n slot extract s =
    (Ok (zo_from_header_and_data Z (sub_ru_header extract n) (block_data_of Z (sub_block_data_hash extract) b)), s0)"
  using assms find_block_data_no_panic[of Z "sub_block_data_hash extract" b]
  by (cases "find_block_data Z (sub_block_data_hash extract) b")
    (simp_all add: signet_block_def fetch_and_decode_def lift_decode_def block_data_of_def)

lemma signet_block_missing:
  assumes "sub_versioned_hashes extract = Some vh"
    and "handle_fetch_blobs L env slot (sub_tx_hash extract) vh s = (Err (missing_sidecar tx), s0)"
  shows "signet_block Z L env n slot extract s = (Err (MissingSidecar tx), s0)"
  using assms by (simp add: signet_block_def fetch_and_decode_def missing_sidecar_def)

lemma signet_block_not_4844:
  "sub_versioned_hashes extract = None \<Longrightarrow>
     signet_block Z L env n slot extract s = (Ok (zo_from_header_and_data Z (sub_ru_header extract n) []), s)"
  by (simp add: signet_block_def fetch_and_decode_def non_4844_transaction_def)

text \<open>
  C14: whatever the sources and the cache do, \<^verbatim>\<open>signet_block\<close> gives a block whose data
  hash to the hash the host chain committed to, or an empty block, or fails with the missing sidecar
  of the transaction; an EIP-4844 submission that succeeded once is answered again from
  the cache, with the same block and without asking any source, as long as its entry stays.
\<close>

theorem signet_block_committed:
  assumes laws: "lru_laws L contents"
    and run: "signet_block Z L env n slot extract s = (r, s1)"
    and alive: "cs_alive s2"
    and same: "cached_blobs contents s2 (slot, sub_tx_hash extract) = cached_blobs contents s1 (slot, sub_tx_hash extract)"
  shows "((\<exists>data. r = Ok (zo_from_header_and_data Z (sub_ru_header extract n) data)
              \<and> (data = [] \<or> zo_keccak256 Z data = sub_block_data_hash extract))
          \<or> r = Err (MissingSidecar (sub_tx_hash extract)))
    \<and> (\<forall>zb. r = Ok zb \<longrightarrow> (\<exists>s3. signet_block Z L env n slot extract s2 = (Ok zb, s3) \<and> cs_world s3 = cs_world s2))"
proof (cases "sub_versioned_hashes extract")
  case None
  then show ?thesis using run signet_block_not_4844[OF None, of Z L env n slot] by auto
next
  case (Some vh)
  obtain r0 s0 where h: "handle_fetch_blobs L env slot (sub_tx_hash extract) vh s = (r0, s0)" by force
  from handle_fetch_cases[OF laws h] show ?thesis
  proof
    assume "\<exists>b. r0 = Ok b \<and> cs_alive s \<and> cached_blobs contents s0 (slot, sub_tx_hash extract) = Some b
      \<and> (cached_blobs contents s (slot, sub_tx_hash extract) = None
         \<or> cached_blobs contents s (slot, sub_tx_hash extract) = Some b)"
    then obtain b where b: "r0 = Ok b" "cached_blobs contents s0 (slot, sub_tx_hash extract) = Some b" by blast
    let ?zb = "zo_from_header_and_data Z (sub_ru_header extract n) (block_data_of Z (sub_block_data_hash extract) b)"
    have r: "r = Ok ?zb" "s1 = s0" using run signet_block_fetched[OF Some, of L env slot s b s0 Z n] h b(1) by auto
    obtain s3 where "handle_fetch_blobs L env slot (sub_tx_hash extract) vh s2 = (Ok b, s3)" "cs_world s3 = cs_world s2"
      using handle_fetch_hit[OF laws alive, of slot "sub_tx_hash extract" b env vh] same b(2) r(2) by auto
    then have "signet_block Z L env n slot extract s2 = (Ok ?zb, s3)" "cs_world s3 = cs_world s2"
      using signet_block_fetched[OF Some] by blast+
    then show ?thesis using r(1) block_data_of_hash[of Z "sub_block_data_hash extract" b] by auto
  next
    assume "r0 = Err (missing_sidecar (sub_tx_hash extract))
      \<and> (\<not> cs_alive s \<or> cached_blobs contents s (slot, sub_tx_hash extract) = None)"
    then show ?thesis using run h signet_block_missing[OF Some, of L env slot s "sub_tx_hash extract" s0 Z n] by auto
  qed
qed

text \<open>A host with one submission, two remote sources of which one has only part of its blobs.\<close>

definition ex_zenith :: "(u8 list, nat, nat \<times> u8 list) zenith_ops" where
  "ex_zenith = \<lparr>zo_decode_all = (\<lambda>bs. Some [concat bs]), zo_keccak256 = (\<lambda>d. of_nat (length d)),
     zo_from_header_and_data = Pair\<rparr>"

definition ex_submission :: "nat submission" where
  "ex_submission = \<lparr>sub_tx_hash = 5, sub_versioned_hashes = Some [1, 2], sub_block_data_hash = 2, sub_ru_header = id\<rparr>"

definition ex_lru :: "(blob_key \<rightharpoonup> 'b blobs, 'b) lru_ops" where
  "ex_lru = \<lparr>lru_get = (\<lambda>k m. (m k, m)), lru_insert = (\<lambda>k b m. m(k \<mapsto> b))\<rparr>"

lemma ex_lru_laws: "lru_laws ex_lru id"
  by (simp add: lru_laws_def ex_lru_def)

definition ex_env :: "nat list \<Rightarrow> unit fetch_env" where
  "ex_env order = \<lparr>fe_completion = (\<lambda>_. order), fe_sleep = id\<rparr>"

definition ex_blob_server :: "(unit, u8 list, blob_key \<rightharpoonup> u8 list blobs) cache_server" where
  "ex_blob_server = \<lparr>cs_alive = True, cs_cacher = BlobCacher_new Map.empty
     \<lparr>sync_sources = [], async_sources = [beacon_source (\<lambda>slot hs w. (Inr [[7]], w)), explorer_source (\<lambda>tx w. (Inr [[7], [8]], w))]\<rparr>,
     cs_world = ()\<rparr>"

lemmas ex_blob_defs = ex_blob_server_def BlobCacher_new_def ex_env_def ex_lru_def ex_submission_def ex_zenith_def
  handle_fetch_blobs_def handle_inst_def cacher_fetch_blobs_def FETCH_RETRIES_def fetcher_fetch_def
  beacon_source_def explorer_source_def

lemma ex_signet_block:
  "fst (signet_block ex_zenith ex_lru (ex_env [1, 0]) 4 3 ex_submission ex_blob_server) = Ok (4, [7, 8])"
proof -
  obtain s0 where h: "handle_fetch_blobs ex_lru (ex_env [1, 0]) 3 (sub_tx_hash ex_submission) [1, 2] ex_blob_server
      = (Ok (Other [[7], [8]]), s0)"
    by (simp add: ex_blob_defs eval_nat_numeral)
  have "sub_versioned_hashes ex_submission = Some [1, 2]" by (simp add: ex_submission_def)
  from signet_block_fetched[OF this h, of ex_zenith 4] show ?thesis
    by (simp add: ex_submission_def block_data_of_def find_block_data_def ex_zenith_def)
qed

theorem signet_block_committed_witness:
  "\<exists>s1 s3. signet_block ex_zenith ex_lru (ex_env [1, 0]) 4 3 ex_submission ex_blob_server = (Ok (4, [7, 8]), s1)
     \<and> signet_block ex_zenith ex_lru (ex_env [1, 0]) 4 3 ex_submission (s1\<lparr>cs_alive := True\<rparr>) = (Ok (4, [7, 8]), s3)"
proof -
  obtain s1 where s1: "signet_block ex_zenith ex_lru (ex_env [1, 0]) 4 3 ex_submission ex_blob_server = (Ok (4, [7, 8]), s1)"
    using ex_signet_block by (metis prod.collapse)
  from signet_block_committed[OF ex_lru_laws this, of "s1\<lparr>cs_alive := True\<rparr>"]
  show ?thesis using s1 by (auto simp: cached_blobs_def)
qed

text \<open>
  The first asynchronous source that has any blobs decides the block: when it has
  only some of the blobs of a submission, so that they do not decode to the committed data, the
  block is taken to be empty, although a source that completes later may have all of them, and stays
  empty for as long as the cache keeps the answer.
\<close>

theorem partial_answer_empties_block:
  assumes laws: "lru_laws L contents" and alive: "cs_alive s"
    and miss: "cached_blobs contents s (slot, sub_tx_hash extract) = None"
    and vh: "sub_versioned_hashes extract = Some vh"
    and f: "sync_sources (bc_fetcher (cs_cacher s)) = []"
    and comp: "fe_completion env (cs_world s) = i # later"
    and part: "(async_sources (bc_fetcher (cs_cacher s)) ! i)
        \<lparr>bs_tx_hash = sub_tx_hash extract, bs_slot = slot, bs_versioned_hashes = vh\<rparr> (cs_world s) = (Inr (Some some_blobs), w1)"
    and bad: "find_block_data Z (sub_block_data_hash extract) some_blobs = Err e"
  shows "\<exists>s1. signet_block Z L env n slot extract s = (Ok (zo_from_header_and_data Z (sub_ru_header extract n) []), s1)
    \<and> (\<forall>s2. cs_alive s2 \<longrightarrow>
          cached_blobs contents s2 (slot, sub_tx_hash extract) = cached_blobs contents s1 (slot, sub_tx_hash extract) \<longrightarrow>
          fst (signet_block Z L env n slot extract s2) = Ok (zo_from_header_and_data Z (sub_ru_header extract n) []))"
proof -
  let ?k = "(slot, sub_tx_hash extract)"
  obtain r0 m where g: "lru_get L ?k (bc_cache (cs_cacher s)) = (r0, m)" by force
  have "r0 = None" using lru_lawsD(1)[OF laws g] miss by (simp add: cached_blobs_def)
  then obtain s1 where h: "handle_fetch_blobs L env slot (sub_tx_hash extract) vh s = (Ok some_blobs, s1)"
    using g alive f comp part
    by (simp add: handle_fetch_blobs_def handle_inst_def cacher_fetch_blobs_def FETCH_RETRIES_def
        numeral_3_eq_3 fetcher_fetch_def)
  have c: "cached_blobs contents s1 ?k = Some some_blobs" using handle_fetch_cases[OF laws h] by auto
  have e: "block_data_of Z (sub_block_data_hash extract) some_blobs = []" using bad by (simp add: block_data_of_def)
  have "fst (signet_block Z L env n slot extract s2) = Ok (zo_from_header_and_data Z (sub_ru_header extract n) [])"
    if a: "cs_alive s2" "cached_blobs contents s2 ?k = cached_blobs contents s1 ?k" for s2
    using handle_fetch_hit[OF laws a(1), of slot "sub_tx_hash extract" some_blobs env vh] a(2) c e
      signet_block_fetched[OF vh, of L env slot s2 some_blobs _ Z n] by auto
  then show ?thesis using signet_block_fetched[OF vh h, of Z n] e by auto
qed

theorem partial_answer_empties_block_witness:
  "fst (signet_block ex_zenith ex_lru (ex_env [0, 1]) 4 3 ex_submission ex_blob_server) = Ok (4, [])
   \<and> fst (signet_block ex_zenith ex_lru (ex_env [1, 0]) 4 3 ex_submission ex_blob_server) = Ok (4, [7, 8])"
proof -
  have c: "cached_blobs id ex_blob_server (3, sub_tx_hash ex_submission) = None"
    by (simp add: cached_blobs_def ex_blob_server_def BlobCacher_new_def)
  have "find_block_data ex_zenith (sub_block_data_hash ex_submission) (Other [[7]]) = Err (BlockDataNotFound 2)"
    by (simp add: find_block_data_def ex_zenith_def ex_submission_def)
  from partial_answer_empties_block[OF ex_lru_laws _ c _ _ _ _ this, of "[1, 2]" "ex_env [0, 1]" 0 "[1]" "()" 4]
  show ?thesis using ex_signet_block
    by (auto simp: ex_submission_def ex_blob_server_def BlobCacher_new_def ex_env_def beacon_source_def ex_zenith_def)
qed

end
