(* ===== verification/Host_Alias.thy ===== *)
theory Host_Alias
  imports Node_Prelude
begin

text \<open>
  Alias oracles: which host senders are contracts whose address has to be aliased. The
  contract (\<^verbatim>\<open>block-processor/src/alias.rs\<close>) as a locale, the fixed set used in tests, the
  oracle over RPC with its shared cache (\<^verbatim>\<open>host-rpc/src/alias.rs\<close>), the oracle over a reth
  state provider (\<^verbatim>\<open>host-reth/src/alias.rs\<close>), and the scan of a block's senders
  (\<^verbatim>\<open>block-processor/src/v1/processor.rs\<close>). The EIP-7702 designator, the hash of empty
  code and the provider calls belong to other crates: they are arguments. The lock of the
  shared cache is not modelled: no code panics while it holds it, so it is never poisoned.
\<close>

datatype alias_error = Internal string

section \<open>Scanning the senders of a block\<close>

text \<open>\<open>ask\<close> answers for one address and may change the oracle's state.\<close>

type_synonym 'o asking = "'o \<Rightarrow> address \<Rightarrow> (bool, alias_error) rresult \<times> 'o"

fun alias_scan :: "'o asking \<Rightarrow> address list \<Rightarrow> address set \<Rightarrow> 'o
    \<Rightarrow> (address set, alias_error) rresult \<times> 'o" where
  "alias_scan ask [] to_alias oc = (Ok to_alias, oc)"
| "alias_scan ask (addr # senders) to_alias oc =
     (if addr \<in> to_alias then alias_scan ask senders to_alias oc
      else (case ask oc addr of
              (Ok True, oc1) \<Rightarrow> alias_scan ask senders (insert addr to_alias) oc1
            | (Ok False, oc1) \<Rightarrow> alias_scan ask senders to_alias oc1
            | (Err e, oc1) \<Rightarrow> (Err e, oc1)
            | (Panic, oc1) \<Rightarrow> (Panic, oc1)))"

text \<open>
  The contract: while its invariant holds an oracle that answers tells the truth, and
  asking keeps the invariant.
\<close>

locale alias_oracle =
  fixes ask :: "'o \<Rightarrow> address \<Rightarrow> (bool, alias_error) rresult \<times> 'o"
    and inv :: "'o \<Rightarrow> bool"
    and truth :: "address \<Rightarrow> bool"
  assumes ask_truth: "inv oc \<Longrightarrow> ask oc a = (Ok b, oc') \<Longrightarrow> b = truth a"
    and ask_inv: "inv oc \<Longrightarrow> ask oc a = (r, oc') \<Longrightarrow> inv oc'"
begin

lemma scan_truth:
  assumes "inv oc" "alias_scan ask senders S oc = (Ok S', oc')"
  shows "S' = S \<union> {a \<in> set senders. truth a \<or> a \<in> S} \<and> inv oc'"
  using assms
proof (induction senders arbitrary: S oc)
  case (Cons a senders)
  show ?case
  proof (cases "a \<in> S")
    case False
    obtain r oc1 where r: "ask oc a = (r, oc1)" by force
    then obtain b where b: "r = Ok b"
      using Cons.prems(2) False by (cases r) auto
    have "b = truth a" "inv oc1"
      using ask_truth[OF Cons.prems(1)] ask_inv[OF Cons.prems(1)] r b by blast+
    then show ?thesis
      using Cons.IH[of oc1 "if b then insert a S else S"] Cons.prems(2) False r b
      by (cases b) auto
  qed (use Cons in auto)
qed simp

lemma scan_exact:
  "inv oc \<Longrightarrow> alias_scan ask senders {} oc = (Ok S, oc') \<Longrightarrow> S = {a \<in> set senders. truth a}"
  using scan_truth[of oc senders "{}"] by simp

end

section \<open>A fixed set\<close>

definition set_should_alias :: "address set asking" where
  "set_should_alias s a = (Ok (a \<in> s), s)"

definition set_create :: "address set \<Rightarrow> (address set, alias_error) rresult" where
  "set_create s = Ok s"

text \<open>
  A shared factory creates through its content; one behind a lock does unless an earlier user of
  the lock panicked.
\<close>

definition mutex_create ::
    "('f \<Rightarrow> ('o, alias_error) rresult) \<Rightarrow> bool \<times> 'f \<Rightarrow> ('o, alias_error) rresult" where
  "mutex_create create m =
     (case m of (poisoned, factory) \<Rightarrow>
        if poisoned then Err (Internal ''poisoned lock: another task failed inside'') else create factory)"

definition arc_create :: "('f \<Rightarrow> ('o, alias_error) rresult) \<Rightarrow> 'f \<Rightarrow> ('o, alias_error) rresult" where
  "arc_create create factory = create factory"

lemma shared_set_create:
  "arc_create (mutex_create set_create) (poisoned, s) = Ok oc \<longleftrightarrow> \<not> poisoned \<and> oc = s"
  by (auto simp: arc_create_def mutex_create_def set_create_def)

interpretation fixed_set: alias_oracle set_should_alias "\<lambda>s. s = S" "\<lambda>a. a \<in> S" for S
  by unfold_locales (auto simp: set_should_alias_def)

section \<open>The oracle over RPC\<close>

definition EIP7702_DELEGATION_LEN :: usize where "EIP7702_DELEGATION_LEN = 23"

definition should_alias_bytecode :: "u8 list \<Rightarrow> u8 list \<Rightarrow> bool" where
  "should_alias_bytecode designator code =
     (if code = [] then False
      else if length code = EIP7702_DELEGATION_LEN \<and> take (length designator) code = designator
        then False
      else True)"

text \<open>
  The provider answers from the host chain, whose state \<open>'w\<close> may change between calls.
  The cache is shared by all clones, so it is part of the state that is passed on.
\<close>

record 'w rpc_alias_oracle =
  ao_get_code_at :: "address \<Rightarrow> 'w \<Rightarrow> (string + u8 list) \<times> 'w"
  ao_cache :: "address set"

definition RpcAliasOracle_new :: "(address \<Rightarrow> 'w \<Rightarrow> (string + u8 list) \<times> 'w) \<Rightarrow> 'w rpc_alias_oracle" where
  "RpcAliasOracle_new p = \<lparr>ao_get_code_at = p, ao_cache = {}\<rparr>"

definition rpc_should_alias :: "u8 list \<Rightarrow> ('w rpc_alias_oracle \<times> 'w) asking" where
  "rpc_should_alias designator ow address =
     (case ow of (orc, w) \<Rightarrow>
        if address \<in> ao_cache orc then (Ok True, orc, w)
        else (case ao_get_code_at orc address w of
                (Inl e, w1) \<Rightarrow> (Err (Internal e), orc, w1)
              | (Inr code, w1) \<Rightarrow>
                  (let alias = should_alias_bytecode designator code
                   in (Ok alias,
                       (if alias then orc\<lparr>ao_cache := insert address (ao_cache orc)\<rparr> else orc), w1))))"

definition rpc_alias_create :: "'w rpc_alias_oracle \<Rightarrow> ('w rpc_alias_oracle, alias_error) rresult" where
  "rpc_alias_create orc = Ok orc"

text \<open>
  The status of an address is permanent: whatever the state of the host chain, the code
  the provider returns classifies it the same way; the cache holds contracts only.
\<close>

definition permanent_status :: "u8 list \<Rightarrow> (address \<Rightarrow> bool) \<Rightarrow> (address \<Rightarrow> 'w \<Rightarrow> (string + u8 list) \<times> 'w) \<Rightarrow> bool" where
  "permanent_status designator contract p \<longleftrightarrow>
     (\<forall>a w1 code w2. p a w1 = (Inr code, w2) \<longrightarrow> should_alias_bytecode designator code = contract a)"

definition rpc_alias_inv :: "u8 list \<Rightarrow> (address \<Rightarrow> bool) \<Rightarrow> 'w rpc_alias_oracle \<times> 'w \<Rightarrow> bool" where
  "rpc_alias_inv designator contract ow =
     (permanent_status designator contract (ao_get_code_at (fst ow))
        \<and> ao_cache (fst ow) \<subseteq> {a. contract a})"

lemma permanent_statusD:
  "permanent_status designator contract p \<Longrightarrow> p a w1 = (Inr code, w2) \<Longrightarrow>
     should_alias_bytecode designator code = contract a"
  unfolding permanent_status_def by blast

interpretation rpc_oracle: alias_oracle "rpc_should_alias designator" "rpc_alias_inv designator contract" contract
  for designator contract
proof unfold_locales
  fix oc :: "'a rpc_alias_oracle \<times> 'a" and a b oc'
  assume "rpc_alias_inv designator contract oc" "rpc_should_alias designator oc a = (Ok b, oc')"
  then show "b = contract a"
    using permanent_statusD[of designator contract "ao_get_code_at (fst oc)" a "snd oc"]
    by (auto simp: rpc_alias_inv_def rpc_should_alias_def Let_def split: prod.splits if_splits sum.splits)
next
  fix oc :: "'a rpc_alias_oracle \<times> 'a" and a r oc'
  assume "rpc_alias_inv designator contract oc" "rpc_should_alias designator oc a = (r, oc')"
  then show "rpc_alias_inv designator contract oc'"
    using permanent_statusD[of designator contract "ao_get_code_at (fst oc)" a "snd oc"]
    by (auto simp: rpc_alias_inv_def rpc_should_alias_def Let_def split: prod.splits if_splits sum.splits)
qed

section \<open>The oracle over a reth state provider\<close>

record 'code state_provider =
  sp_basic_account :: "address \<Rightarrow> string + b256 option option"
  sp_bytecode_by_hash :: "b256 \<Rightarrow> string + 'code option"

definition check_alias :: "b256 \<Rightarrow> ('code \<Rightarrow> bool) \<Rightarrow> 'code state_provider \<Rightarrow> address
    \<Rightarrow> (bool, alias_error) rresult" where
  "check_alias keccak_empty is_eip7702 sp address =
     (case sp_basic_account sp address of
        Inl e \<Rightarrow> Err (Internal e)
      | Inr None \<Rightarrow> Ok False
      | Inr (Some None) \<Rightarrow> Ok False
      | Inr (Some (Some bch)) \<Rightarrow>
          if bch = keccak_empty then Ok False
          else (case sp_bytecode_by_hash sp bch of
                  Inl e \<Rightarrow> Err (Internal e)
                | Inr None \<Rightarrow> Err (Internal ''code not found. This indicates a corrupted database'')
                | Inr (Some code) \<Rightarrow> Ok (\<not> is_eip7702 code)))"

definition reth_should_alias :: "b256 \<Rightarrow> ('code \<Rightarrow> bool) \<Rightarrow> 'code state_provider asking" where
  "reth_should_alias keccak_empty is_eip7702 sp address = (check_alias keccak_empty is_eip7702 sp address, sp)"

definition reth_alias_create :: "(string + 'code state_provider) \<Rightarrow> ('code state_provider, alias_error) rresult" where
  "reth_alias_create latest = (case latest of Inl e \<Rightarrow> Err (Internal e) | Inr sp \<Rightarrow> Ok sp)"

section \<open>Agreement of the oracles\<close>

text \<open>
  What both oracles look at: the code of every account on the host (no bytes for an account without
  code). A delegation, as EIP-7702 defines it, is the designator followed by an address.
\<close>

definition is_delegation :: "u8 list \<Rightarrow> u8 list \<Rightarrow> bool" where
  "is_delegation designator code \<longleftrightarrow> (\<exists>delegate. length delegate = 20 \<and> code = designator @ delegate)"

definition host_contract :: "u8 list \<Rightarrow> (address \<Rightarrow> u8 list) \<Rightarrow> address \<Rightarrow> bool" where
  "host_contract designator code_of a \<longleftrightarrow> code_of a \<noteq> [] \<and> \<not> is_delegation designator (code_of a)"

text \<open>
  The bytes the RPC provider answers, now and later: the code of a contract never changes; an account that is none
  may get, change or lose a delegation.
\<close>

definition rpc_sees :: "u8 list \<Rightarrow> (address \<Rightarrow> u8 list) \<Rightarrow> (address \<Rightarrow> 'w \<Rightarrow> (string + u8 list) \<times> 'w) \<Rightarrow> bool" where
  "rpc_sees designator code_of p \<longleftrightarrow>
     (\<forall>a w1 code w2. p a w1 = (Inr code, w2) \<longrightarrow>
        (if host_contract designator code_of a then code = code_of a
         else code = [] \<or> is_delegation designator code))"

text \<open>
  A reth snapshot of the same host: accounts have the hash of no code just when they have no code, a hash
  finds the bytes of the code it belongs to, and reth takes for a delegation what EIP-7702 defines as one.
\<close>

definition reth_sees ::
    "b256 \<Rightarrow> ('code \<Rightarrow> bool) \<Rightarrow> ('code \<Rightarrow> u8 list) \<Rightarrow> u8 list \<Rightarrow> (address \<Rightarrow> u8 list) \<Rightarrow> 'code state_provider \<Rightarrow> bool" where
  "reth_sees keccak_empty is_eip7702 bytes designator code_of sp \<longleftrightarrow>
     (\<forall>code. is_eip7702 code = is_delegation designator (bytes code))
     \<and> (\<forall>a. sp_basic_account sp a = Inr None \<or> sp_basic_account sp a = Inr (Some None) \<longrightarrow> code_of a = [])
     \<and> (\<forall>a bch. sp_basic_account sp a = Inr (Some (Some bch)) \<longrightarrow>
          (bch = keccak_empty \<longleftrightarrow> code_of a = [])
          \<and> (\<forall>code. sp_bytecode_by_hash sp bch = Inr (Some code) \<longrightarrow> bytes code = code_of a))"

lemma is_delegation_iff:
  assumes "length designator = 3"
  shows "is_delegation designator code \<longleftrightarrow> length code = 23 \<and> take 3 code = designator"
proof
  assume a: "length code = 23 \<and> take 3 code = designator"
  then have "length (drop 3 code) = 20" by simp
  moreover have "code = designator @ drop 3 code" using a append_take_drop_id[of 3 code] by simp
  ultimately show "is_delegation designator code" unfolding is_delegation_def by blast
qed (use assms in \<open>auto simp: is_delegation_def\<close>)

text \<open>The classification of bytes by the RPC oracle, with a designator of three bytes, is that of EIP-7702.\<close>

lemma should_alias_bytecode_iff:
  assumes "length designator = 3"
  shows "should_alias_bytecode designator code \<longleftrightarrow> code \<noteq> [] \<and> \<not> is_delegation designator code"
  using assms by (auto simp: should_alias_bytecode_def EIP7702_DELEGATION_LEN_def is_delegation_iff)

lemma rpc_sees_permanent:
  "length designator = 3 \<Longrightarrow> rpc_sees designator code_of p \<Longrightarrow> permanent_status designator (host_contract designator code_of) p"
  unfolding permanent_status_def rpc_sees_def
  by (fastforce simp: should_alias_bytecode_iff host_contract_def split: if_splits)

interpretation reth_host: alias_oracle "reth_should_alias keccak_empty is_eip7702"
    "reth_sees keccak_empty is_eip7702 bytes designator code_of" "host_contract designator code_of"
  for keccak_empty is_eip7702 bytes designator code_of
proof unfold_locales
  fix sp :: "'a state_provider" and a b sp'
  assume v: "reth_sees keccak_empty is_eip7702 bytes designator code_of sp"
    and r: "reth_should_alias keccak_empty is_eip7702 sp a = (Ok b, sp')"
  show "b = host_contract designator code_of a"
  proof (cases "sp_basic_account sp a")
    case (Inr acct)
    show ?thesis
    proof (cases "Option.bind acct (\<lambda>h. h)")
      case None
      then have "code_of a = []" using v Inr by (cases acct) (auto simp: reth_sees_def)
      then show ?thesis using None r Inr
        by (cases acct) (auto simp: reth_should_alias_def check_alias_def host_contract_def)
    next
      case (Some bch)
      then have acct: "sp_basic_account sp a = Inr (Some (Some bch))" using Inr by (cases acct) auto
      then have h: "bch = keccak_empty \<longleftrightarrow> code_of a = []"
        "\<And>code. sp_bytecode_by_hash sp bch = Inr (Some code) \<Longrightarrow> bytes code = code_of a"
        "\<And>code. is_eip7702 code = is_delegation designator (bytes code)"
        using v unfolding reth_sees_def by blast+
      show ?thesis using r acct h
        by (auto simp: reth_should_alias_def check_alias_def host_contract_def split: if_splits sum.splits option.splits)
    qed
  qed (use r in \<open>simp add: reth_should_alias_def check_alias_def\<close>)
qed (auto simp: reth_should_alias_def)

text \<open>
  C23: both production oracles make the same decision for a block: when the RPC provider answers with the
  code of the host's accounts, and the reth snapshot is one of the same host, scanning the senders through the RPC
  oracle, whatever contracts it has cached and however the host moves on, and through the reth oracle gives the same
  set of addresses, namely the senders with code that is not an EIP-7702 delegation of 23 bytes.
\<close>

theorem oracles_agree:
  assumes "length designator = 3" "rpc_sees designator code_of (ao_get_code_at orc)"
    and "\<forall>a\<in>ao_cache orc. host_contract designator code_of a"
    and "reth_sees keccak_empty is_eip7702 bytes designator code_of sp"
    and "alias_scan (rpc_should_alias designator) senders {} (orc, w) = (Ok S, ow')"
    and "alias_scan (reth_should_alias keccak_empty is_eip7702) senders {} sp = (Ok S', sp')"
  shows "S = S' \<and> S = {a \<in> set senders. code_of a \<noteq> [] \<and>
      \<not> (length (code_of a) = 23 \<and> take 3 (code_of a) = designator)}
    \<and> (\<forall>a\<in>ao_cache (fst ow'). host_contract designator code_of a)"
proof -
  have inv: "rpc_alias_inv designator (host_contract designator code_of) (orc, w)"
    using rpc_sees_permanent[OF assms(1,2)] assms(3) by (auto simp: rpc_alias_inv_def)
  have truth: "host_contract designator code_of a \<longleftrightarrow> code_of a \<noteq> [] \<and>
      \<not> (length (code_of a) = 23 \<and> take 3 (code_of a) = designator)" for a
    by (simp add: host_contract_def is_delegation_iff[OF assms(1)])
  show ?thesis
    using reth_host.scan_exact[OF assms(4,6)] rpc_oracle.scan_truth[OF inv assms(5)] truth
    by (auto simp: rpc_alias_inv_def)
qed

text \<open>A host with a contract, a delegated account, a contract whose code is a byte too long for a delegation, and plain accounts.\<close>

definition ex_designator :: "u8 list" where "ex_designator = [0xef, 0x01, 0x00]"

definition ex_code_of :: "address \<Rightarrow> u8 list" where
  "ex_code_of a = (if a = 1 then [0x60, 0x80] else if a = 2 then ex_designator @ replicate 20 0xab
     else if a = 3 then ex_designator @ replicate 21 0xab else [])"

definition ex_state_provider :: "u8 list state_provider" where
  "ex_state_provider = \<lparr>sp_basic_account = (\<lambda>a. Inr (if a = 1 then Some (Some 11) else if a = 2 then Some (Some 12)
       else if a = 3 then Some (Some 13) else None)),
     sp_bytecode_by_hash = (\<lambda>h. Inr (if h = 11 then Some (ex_code_of 1) else if h = 12 then Some (ex_code_of 2)
       else if h = 13 then Some (ex_code_of 3) else None))\<rparr>"

definition ex_is_eip7702 :: "u8 list \<Rightarrow> bool" where
  "ex_is_eip7702 code = (length code = 23 \<and> take 3 code = ex_designator)"

definition ex_alias_oracle :: "nat rpc_alias_oracle" where
  "ex_alias_oracle = \<lparr>ao_get_code_at = (\<lambda>a w. (Inr (ex_code_of a), Suc w)), ao_cache = {1}\<rparr>"

lemma ex_is_delegation: "is_delegation ex_designator code = ex_is_eip7702 code"
  by (simp add: is_delegation_iff ex_is_eip7702_def ex_designator_def)

theorem oracles_agree_witness:
  "\<exists>orc'. alias_scan (rpc_should_alias ex_designator) [1, 2, 3, 4] {} (ex_alias_oracle, 0) = (Ok {1, 3}, (orc', 3))
   \<and> {1, 3} = {a \<in> set [1, 2, 3, 4]. ex_code_of a \<noteq> [] \<and>
        \<not> (length (ex_code_of a) = 23 \<and> take 3 (ex_code_of a) = ex_designator)}"
proof -
  have l: "length ex_designator = 3" by (simp add: ex_designator_def)
  have rpc: "rpc_sees ex_designator ex_code_of (ao_get_code_at ex_alias_oracle)"
    by (auto simp: rpc_sees_def ex_alias_oracle_def host_contract_def)
  have cache: "\<forall>a\<in>ao_cache ex_alias_oracle. host_contract ex_designator ex_code_of a"
    by (simp add: ex_alias_oracle_def host_contract_def ex_is_delegation ex_is_eip7702_def ex_code_of_def)
  have reth: "reth_sees 0 ex_is_eip7702 (\<lambda>code. code) ex_designator ex_code_of ex_state_provider"
    by (auto simp: reth_sees_def ex_state_provider_def ex_is_delegation ex_code_of_def split: if_splits)
  obtain orc' where a: "alias_scan (rpc_should_alias ex_designator) [1, 2, 3, 4] {} (ex_alias_oracle, 0) = (Ok {1, 3}, (orc', 3))"
    by (simp add: rpc_should_alias_def ex_alias_oracle_def should_alias_bytecode_def insert_commute
        ex_code_of_def ex_designator_def EIP7702_DELEGATION_LEN_def Let_def)
  have b: "alias_scan (reth_should_alias 0 ex_is_eip7702) [1, 2, 3, 4] {} ex_state_provider = (Ok {1, 3}, ex_state_provider)"
    by (simp add: reth_should_alias_def check_alias_def ex_state_provider_def insert_commute
        ex_code_of_def ex_is_eip7702_def ex_designator_def)
  show ?thesis using oracles_agree[OF l rpc cache reth a b] a by blast
qed

end
