(* ===== verification/Metrics.thy ===== *)
theory Metrics
  imports Host_Types
begin

text \<open>
  Metrics of the four crates that keep any (\<^verbatim>\<open>metrics.rs\<close> of \<^verbatim>\<open>block-processor\<close>, \<^verbatim>\<open>host-rpc\<close>,
  \<^verbatim>\<open>host-reth\<close> and \<^verbatim>\<open>node\<close>). The \<^verbatim>\<open>metrics\<close> library hands each operation to whatever recorder
  is installed, so the state is the list of operations emitted, together with the crate's
  cell that describes its metrics once. Values keep the number they are made from: the code
  converts them to floating point on the way out.
\<close>

section \<open>Recorders\<close>

datatype metric_kind = Counter | Gauge | Histogram

datatype sample = Of_U64 u64 | Of_Duration_Millis nat | Of_Whole_Millis nat

datatype metric_op =
    Describe metric_kind string string
  | Counter_Increment string "(string \<times> string) list" u64
  | Gauge_Set string sample
  | Histogram_Record string sample

record recorder =
  rec_described :: bool
  rec_ops :: "metric_op list"

definition recorder_new :: recorder where
  "recorder_new = \<lparr>rec_described = False, rec_ops = []\<rparr>"

type_synonym metric_table = "(metric_kind \<times> string \<times> string) list"

text \<open>The cell (\<^verbatim>\<open>LazyLock\<close> or \<^verbatim>\<open>OnceLock\<close>): forcing it describes everything the first time only.\<close>

definition ensure_described :: "metric_table \<Rightarrow> recorder \<Rightarrow> recorder" where
  "ensure_described table r =
     (if rec_described r then r
      else r\<lparr>rec_described := True, rec_ops := rec_ops r @ map (\<lambda>(k, n, h). Describe k n h) table\<rparr>)"

definition emit :: "metric_table \<Rightarrow> metric_op \<Rightarrow> recorder \<Rightarrow> recorder" where
  "emit table op r = (let r1 = ensure_described table r in r1\<lparr>rec_ops := rec_ops r1 @ [op]\<rparr>)"

fun op_metric :: "metric_op \<Rightarrow> metric_kind \<times> string" where
  "op_metric (Describe k n h) = (k, n)"
| "op_metric (Counter_Increment n ls v) = (Counter, n)"
| "op_metric (Gauge_Set n v) = (Gauge, n)"
| "op_metric (Histogram_Record n v) = (Histogram, n)"

fun is_describe :: "metric_op \<Rightarrow> bool" where
  "is_describe (Describe k n h) = True"
| "is_describe _ = False"

text \<open>What was counted under a name, whatever its labels.\<close>

fun counted :: "string \<Rightarrow> metric_op list \<Rightarrow> nat" where
  "counted n [] = 0"
| "counted n (Counter_Increment m ls v # ops) = (if m = n then v else 0) + counted n ops"
| "counted n (_ # ops) = counted n ops"

fun recorded :: "string \<Rightarrow> metric_op list \<Rightarrow> sample list" where
  "recorded n [] = []"
| "recorded n (Histogram_Record m v # ops) = (if m = n then [v] else []) @ recorded n ops"
| "recorded n (_ # ops) = recorded n ops"

lemma counted_append [simp]: "counted n (xs @ ys) = counted n xs + counted n ys"
  by (induction n xs rule: counted.induct) auto

lemma recorded_append [simp]: "recorded n (xs @ ys) = recorded n xs @ recorded n ys"
  by (induction n xs rule: recorded.induct) auto

lemma no_values_described [simp]:
  "counted n (map (\<lambda>(k, n, h). Describe k n h) table) = 0"
  "recorded n (map (\<lambda>(k, n, h). Describe k n h) table) = []"
  by (induction table) auto

lemma counted_emit:
  "counted n (rec_ops (emit table op r)) = counted n (rec_ops r) + counted n [op]"
  by (simp add: emit_def ensure_described_def Let_def)

lemma recorded_emit:
  "recorded n (rec_ops (emit table op r)) = recorded n (rec_ops r) @ recorded n [op]"
  by (simp add: emit_def ensure_described_def Let_def)

lemmas emitted = counted_emit recorded_emit

text \<open>
  A recorder in order: descriptions come first and once, and only metrics of the table, in the
  kind they are described with, are used.
\<close>

definition recorder_ok :: "metric_table \<Rightarrow> recorder \<Rightarrow> bool" where
  "recorder_ok table r \<longleftrightarrow>
     (if rec_described r
      then (\<exists>uses. rec_ops r = map (\<lambda>(k, n, h). Describe k n h) table @ uses
              \<and> (\<forall>op\<in>set uses. \<not> is_describe op \<and> op_metric op \<in> set (map (\<lambda>(k, n, h). (k, n)) table)))
      else rec_ops r = [])"

lemma recorder_ok_new: "recorder_ok table recorder_new"
  by (simp add: recorder_ok_def recorder_new_def)

lemma recorder_ok_emit:
  assumes "recorder_ok table r" "\<not> is_describe op" "op_metric op \<in> set (map (\<lambda>(k, n, h). (k, n)) table)"
  shows "recorder_ok table (emit table op r)"
proof -
  let ?d = "map (\<lambda>(k, n, h). Describe k n h) table"
  obtain uses where "rec_ops (ensure_described table r) = ?d @ uses" "rec_described (ensure_described table r)"
    "\<forall>op\<in>set uses. \<not> is_describe op \<and> op_metric op \<in> set (map (\<lambda>(k, n, h). (k, n)) table)"
    using assms(1) by (cases "rec_described r") (auto simp: recorder_ok_def ensure_described_def)
  then show ?thesis
    unfolding recorder_ok_def emit_def Let_def using assms(2,3)
    by (auto intro!: exI[of _ "uses @ [op]"])
qed

section \<open>Block processor\<close>

definition BUILDER_BLOCKS_EXTRACTED :: string where "BUILDER_BLOCKS_EXTRACTED = ''signet.block_processor.builder_blocks.extracted''"
definition BLOCKS_PROCESSED :: string where "BLOCKS_PROCESSED = ''signet.block_processor.processed''"
definition TRANSACTIONS_PROCESSED :: string where "TRANSACTIONS_PROCESSED = ''signet.block_processor.transactions_processed''"
definition HOST_WITHOUT_BUILDER_BLOCK :: string where "HOST_WITHOUT_BUILDER_BLOCK = ''signet.block_processor.host_without_builder_block''"
definition TRANSACTIONS_PER_BUILDER_BLOCK :: string where "TRANSACTIONS_PER_BUILDER_BLOCK = ''signet.block_processor.txns_per_builder_block''"
definition TRANSACT_EXTRACTS :: string where "TRANSACT_EXTRACTS = ''signet.block_processor.transact_events.extracted''"
definition ENTER_EXTRACTS :: string where "ENTER_EXTRACTS = ''signet.block_processor.enter_events.extracted''"
definition ENTER_TOKEN_EXTRACTS :: string where "ENTER_TOKEN_EXTRACTS = ''signet.block_processor.enter_token_events.extracted''"
definition ENTER_PROCESSED :: string where "ENTER_PROCESSED = ''signet.block_processor.enter_events.processed''"
definition ENTER_TOKEN_PROCESSED :: string where "ENTER_TOKEN_PROCESSED = ''signet.block_processor.enter_token_events.processed''"
definition TRANSACT_PROCESSED :: string where "TRANSACT_PROCESSED = ''signet.block_processor.transact_events.processed''"
definition PROCESSING_TIME :: string where "PROCESSING_TIME = ''signet.block_processor.processing.time''"
definition BLOCK_GAS_USED :: string where "BLOCK_GAS_USED = ''signet.block_processor.block.gas_used''"

lemmas block_metric_names = BUILDER_BLOCKS_EXTRACTED_def BLOCKS_PROCESSED_def TRANSACTIONS_PROCESSED_def
  HOST_WITHOUT_BUILDER_BLOCK_def TRANSACTIONS_PER_BUILDER_BLOCK_def TRANSACT_EXTRACTS_def ENTER_EXTRACTS_def
  ENTER_TOKEN_EXTRACTS_def ENTER_PROCESSED_def ENTER_TOKEN_PROCESSED_def TRANSACT_PROCESSED_def
  PROCESSING_TIME_def BLOCK_GAS_USED_def

definition block_metrics :: metric_table where
  "block_metrics =
     [(Counter, BUILDER_BLOCKS_EXTRACTED, ''Number of builder blocks extracted from host''),
      (Counter, BLOCKS_PROCESSED, ''Number of signet blocks processed''),
      (Counter, TRANSACTIONS_PROCESSED, ''Number of transactions processed in signet blocks''),
      (Counter, HOST_WITHOUT_BUILDER_BLOCK, ''Number of host blocks without builder blocks''),
      (Histogram, TRANSACTIONS_PER_BUILDER_BLOCK, ''Histogram of number of transactions per builder block''),
      (Histogram, TRANSACT_EXTRACTS, ''Transact events extracted from host per block''),
      (Histogram, ENTER_EXTRACTS, ''Enter events extracted from host per block''),
      (Histogram, ENTER_TOKEN_EXTRACTS, ''Enter token events extracted from host per block, labeled by token''),
      (Histogram, ENTER_PROCESSED, ''Histogram of number of enter events processed per block''),
      (Histogram, ENTER_TOKEN_PROCESSED, ''Histogram of number of enter token events processed per block''),
      (Histogram, TRANSACT_PROCESSED, ''Histogram of number of transact events processed per block''),
      (Histogram, PROCESSING_TIME, ''Time taken to process a single signet block from extracts, in milliseconds.''),
      (Histogram, BLOCK_GAS_USED, ''Gas used per signet block processed.'')]"

definition inc_blocks_extracted :: "recorder \<Rightarrow> recorder" where
  "inc_blocks_extracted = emit block_metrics (Counter_Increment BUILDER_BLOCKS_EXTRACTED [] 1)"

definition inc_blocks_processed :: "recorder \<Rightarrow> recorder" where
  "inc_blocks_processed = emit block_metrics (Counter_Increment BLOCKS_PROCESSED [] 1)"

definition inc_transactions_processed :: "u64 \<Rightarrow> recorder \<Rightarrow> recorder" where
  "inc_transactions_processed v = emit block_metrics (Counter_Increment TRANSACTIONS_PROCESSED [] v)"

definition inc_host_without_builder_block :: "recorder \<Rightarrow> recorder" where
  "inc_host_without_builder_block = emit block_metrics (Counter_Increment HOST_WITHOUT_BUILDER_BLOCK [] 1)"

definition record_transactions_per_builder_block :: "u64 \<Rightarrow> recorder \<Rightarrow> recorder" where
  "record_transactions_per_builder_block v = emit block_metrics (Histogram_Record TRANSACTIONS_PER_BUILDER_BLOCK (Of_U64 v))"

definition record_transact_extracts :: "u64 \<Rightarrow> recorder \<Rightarrow> recorder" where
  "record_transact_extracts v = emit block_metrics (Histogram_Record TRANSACT_EXTRACTS (Of_U64 v))"

definition record_enter_extracts :: "u64 \<Rightarrow> recorder \<Rightarrow> recorder" where
  "record_enter_extracts v = emit block_metrics (Histogram_Record ENTER_EXTRACTS (Of_U64 v))"

definition record_enter_token_events :: "u64 \<Rightarrow> recorder \<Rightarrow> recorder" where
  "record_enter_token_events v = emit block_metrics (Histogram_Record ENTER_TOKEN_EXTRACTS (Of_U64 v))"

definition record_enters_processed :: "u64 \<Rightarrow> recorder \<Rightarrow> recorder" where
  "record_enters_processed v = emit block_metrics (Histogram_Record ENTER_PROCESSED (Of_U64 v))"

definition record_enter_token_processed :: "u64 \<Rightarrow> recorder \<Rightarrow> recorder" where
  "record_enter_token_processed v = emit block_metrics (Histogram_Record ENTER_TOKEN_PROCESSED (Of_U64 v))"

definition record_transacts_processed :: "u64 \<Rightarrow> recorder \<Rightarrow> recorder" where
  "record_transacts_processed v = emit block_metrics (Histogram_Record TRANSACT_PROCESSED (Of_U64 v))"

definition record_processing_time :: "nat \<Rightarrow> recorder \<Rightarrow> recorder" where
  "record_processing_time elapsed = emit block_metrics (Histogram_Record PROCESSING_TIME (Of_Whole_Millis elapsed))"

definition record_block_gas_used :: "u64 \<Rightarrow> recorder \<Rightarrow> recorder" where
  "record_block_gas_used v = emit block_metrics (Histogram_Record BLOCK_GAS_USED (Of_U64 v))"

lemmas block_metric_defs = inc_blocks_extracted_def inc_blocks_processed_def inc_transactions_processed_def
  inc_host_without_builder_block_def record_transactions_per_builder_block_def record_transact_extracts_def
  record_enter_extracts_def record_enter_token_events_def record_enters_processed_def
  record_enter_token_processed_def record_transacts_processed_def record_processing_time_def record_block_gas_used_def

text \<open>The extracts' part: how many enters, token enters and transacts, and whether a block was submitted.\<close>

definition record_extracts :: "nat \<Rightarrow> nat \<Rightarrow> nat \<Rightarrow> bool \<Rightarrow> recorder \<Rightarrow> recorder" where
  "record_extracts enters enter_tokens transacts submitted r =
     (let r1 = record_transact_extracts transacts (record_enter_token_events enter_tokens (record_enter_extracts enters r))
      in if submitted then inc_blocks_extracted r1 else inc_host_without_builder_block r1)"

section \<open>Counting the transactions of a block\<close>

text \<open>
  \<^verbatim>\<open>slice::partition_point\<close>: a binary search for the first element at which the predicate fails, given
  that it never holds again behind it. \<open>base\<close> and \<open>sz\<close> (the \<^verbatim>\<open>size\<close>) are the variables of the standard library's loop.
\<close>

function partition_loop :: "('a \<Rightarrow> bool) \<Rightarrow> 'a list \<Rightarrow> nat \<Rightarrow> nat \<Rightarrow> nat" where
  "partition_loop p xs sz base =
     (if sz > 1 then
        (let half = sz div 2; mid = base + half
         in partition_loop p xs (sz - half) (if p (xs ! mid) then mid else base))
      else base)"
  by pat_completeness auto
termination by (relation "measure (\<lambda>(p, xs, sz, base). sz)") auto

declare partition_loop.simps [simp del]

definition partition_point :: "('a \<Rightarrow> bool) \<Rightarrow> 'a list \<Rightarrow> usize" where
  "partition_point p xs =
     (if xs = [] then 0
      else (let base = partition_loop p xs (length xs) 0 in base + (if p (xs ! base) then 1 else 0)))"

lemma partition_loop_bound:
  "0 < sz \<Longrightarrow> partition_loop p xs sz base < base + sz"
proof (induction p xs sz base rule: partition_loop.induct)
  case (1 p xs sz base)
  show ?case
  proof (cases "sz > 1")
    case True
    have "0 < sz - sz div 2" "sz - sz div 2 + sz div 2 = sz" using True by simp_all
    then show ?thesis
      using 1(1)[OF True refl refl] True
      by (subst partition_loop.simps) (auto simp: Let_def)
  qed (use 1(2) in \<open>simp add: partition_loop.simps\<close>)
qed

lemma partition_point_le: "partition_point p xs \<le> length xs"
  using partition_loop_bound[of "length xs" p xs 0] by (cases xs) (auto simp: partition_point_def Let_def)

text \<open>The search keeps the boundary \<open>k\<close> between its ends.\<close>

lemma partition_loop_exact:
  assumes "\<forall>i<length xs. p (xs ! i) \<longleftrightarrow> i < k"
  shows "0 < sz \<Longrightarrow> base + sz \<le> length xs \<Longrightarrow> base = 0 \<or> base < k \<Longrightarrow> k \<le> base + sz \<Longrightarrow>
    (let b = partition_loop p xs sz base in (b = 0 \<or> b < k) \<and> k \<le> b + 1 \<and> b < length xs)"
  using assms
proof (induction p xs sz base rule: partition_loop.induct)
  case (1 p xs sz base)
  show ?case
  proof (cases "sz > 1")
    case True
    let ?half = "sz div 2"
    let ?mid = "base + ?half"
    let ?base = "if p (xs ! ?mid) then ?mid else base"
    have half: "0 < ?half" "?half < sz" using True by simp_all
    have mid: "p (xs ! ?mid) \<longleftrightarrow> ?mid < k" using 1(3,6) half by auto
    have len: "0 < sz - ?half" "?base + (sz - ?half) \<le> length xs" "?base = 0 \<or> ?base < k" "k \<le> ?base + (sz - ?half)"
      using half 1(3-5) mid by auto
    show ?thesis
      using 1(1)[OF True refl refl len 1(6)] True
      by (subst partition_loop.simps) (simp add: Let_def)
  next
    case False
    then have "sz = 1" using 1(2) by simp
    then show ?thesis using 1(3-5) by (subst partition_loop.simps) (auto simp: Let_def)
  qed
qed

lemma partition_point_takeWhile:
  assumes "xs = us @ ss" "\<forall>x\<in>set us. p x" "\<forall>x\<in>set ss. \<not> p x"
  shows "partition_point p xs = length us"
proof (cases "xs = []")
  case False
  have k: "\<forall>i<length xs. p (xs ! i) \<longleftrightarrow> i < length us"
    using assms by (auto simp: nth_append nth_mem)
  let ?b = "partition_loop p xs (length xs) 0"
  have b: "?b = 0 \<or> ?b < length us" "length us \<le> ?b + 1" "?b < length xs"
    using partition_loop_exact[OF k, of "length xs" 0] False assms(1) by (auto simp: Let_def)
  then show ?thesis using False k by (auto simp: partition_point_def Let_def)
qed (use assms in \<open>simp add: partition_point_def\<close>)

text \<open>
  What a magic signature says of a transaction. The type of the source may gain further
  cases, and the code takes each of them, and a missing signature, for unreachable.
\<close>

datatype magic_info = Magic_Enter | Magic_EnterToken | Magic_Transact | Magic_Unknown

fun count_system :: "('tx \<Rightarrow> magic_info option) \<Rightarrow> 'tx list \<Rightarrow> nat \<times> nat \<times> nat \<Rightarrow> (nat \<times> nat \<times> nat, 'e) rresult" where
  "count_system magic [] counts = Ok counts"
| "count_system magic (tx # txs) (enters, enter_tokens, transacts) =
     (case magic tx of
        Some Magic_Enter \<Rightarrow> count_system magic txs (Suc enters, enter_tokens, transacts)
      | Some Magic_EnterToken \<Rightarrow> count_system magic txs (enters, Suc enter_tokens, transacts)
      | Some Magic_Transact \<Rightarrow> count_system magic txs (enters, enter_tokens, Suc transacts)
      | _ \<Rightarrow> Panic)"

definition transaction_counts :: "('tx \<Rightarrow> magic_info option) \<Rightarrow> 'tx list \<Rightarrow> (nat \<times> nat \<times> nat \<times> nat, 'e) rresult" where
  "transaction_counts magic txns =
     (let txns_processed = partition_point (\<lambda>tx. magic tx = None) txns
      in rmap (\<lambda>(enters, enter_tokens, transacts). (txns_processed, enters, enter_tokens, transacts))
           (count_system magic (drop txns_processed txns) (0, 0, 0)))"

definition record_block_result ::
  "('tx \<Rightarrow> magic_info option) \<Rightarrow> 'tx list \<Rightarrow> u64 \<Rightarrow> nat \<Rightarrow> recorder \<Rightarrow> (unit, 'e) rresult \<times> recorder" where
  "record_block_result magic txns gas_used elapsed r =
     (let r1 = record_processing_time elapsed (inc_transactions_processed (length txns) (inc_blocks_processed r))
      in case transaction_counts magic txns of
           Ok (txns_processed, enters, enter_tokens, transacts) \<Rightarrow>
             (Ok (), record_transacts_processed transacts
                (record_enter_token_processed enter_tokens
                (record_enters_processed enters
                (record_transactions_per_builder_block txns_processed
                (record_block_gas_used gas_used r1)))))
         | Err e \<Rightarrow> (Err e, r1)
         | Panic \<Rightarrow> (Panic, r1))"

lemma count_system_exact:
  "count_system magic txs (a, b, c) =
     (if \<forall>tx\<in>set txs. magic tx \<noteq> None \<and> magic tx \<noteq> Some Magic_Unknown
      then Ok (a + length (filter (\<lambda>tx. magic tx = Some Magic_Enter) txs),
               b + length (filter (\<lambda>tx. magic tx = Some Magic_EnterToken) txs),
               c + length (filter (\<lambda>tx. magic tx = Some Magic_Transact) txs))
      else Panic)"
proof (induction txs arbitrary: a b c)
  case (Cons tx txs)
  show ?case
  proof (cases "magic tx")
    case (Some i)
    then show ?thesis by (cases i) (simp_all add: Cons.IH)
  qed simp
qed simp

lemma kinds_partition:
  "\<forall>tx\<in>set txs. magic tx \<noteq> None \<and> magic tx \<noteq> Some Magic_Unknown \<Longrightarrow>
     length (filter (\<lambda>tx. magic tx = Some Magic_Enter) txs)
     + length (filter (\<lambda>tx. magic tx = Some Magic_EnterToken) txs)
     + length (filter (\<lambda>tx. magic tx = Some Magic_Transact) txs) = length txs"
proof (induction txs)
  case (Cons tx txs)
  then obtain i where "magic tx = Some i" "i \<noteq> Magic_Unknown" by auto
  then show ?case using Cons by (cases i) auto
qed simp

text \<open>
  The documented order of a block's transactions: user transactions without a magic
  signature, then system transactions that each have one of a known kind.
\<close>

definition system_last :: "('tx \<Rightarrow> magic_info option) \<Rightarrow> 'tx list \<Rightarrow> 'tx list \<Rightarrow> 'tx list \<Rightarrow> bool" where
  "system_last magic txns us ss \<longleftrightarrow>
     txns = us @ ss \<and> (\<forall>tx\<in>set us. magic tx = None)
     \<and> (\<forall>tx\<in>set ss. magic tx \<noteq> None \<and> magic tx \<noteq> Some Magic_Unknown)"

lemma transaction_counts_exact:
  assumes "system_last magic txns us ss"
  shows "transaction_counts magic txns =
    Ok (length us, length (filter (\<lambda>tx. magic tx = Some Magic_Enter) ss),
        length (filter (\<lambda>tx. magic tx = Some Magic_EnterToken) ss),
        length (filter (\<lambda>tx. magic tx = Some Magic_Transact) ss))"
proof -
  have "partition_point (\<lambda>tx. magic tx = None) txns = length us"
    using assms by (intro partition_point_takeWhile[where ss = ss]) (auto simp: system_last_def)
  moreover have "\<forall>tx\<in>set ss. magic tx \<noteq> None \<and> magic tx \<noteq> Some Magic_Unknown" "drop (length us) txns = ss"
    using assms by (simp_all add: system_last_def)
  ultimately show ?thesis by (simp add: transaction_counts_def count_system_exact)
qed

lemma transaction_counts_users [simp]: "transaction_counts (\<lambda>_. None) txns = Ok (length txns, 0, 0, 0)"
  using transaction_counts_exact[of "\<lambda>_. None" txns txns "[]"] by (simp add: system_last_def)

text \<open>Counts are only given when everything from the boundary found on is a system transaction.\<close>

lemma transaction_counts_Ok:
  assumes "(transaction_counts magic txns :: (nat \<times> nat \<times> nat \<times> nat, 'e) rresult) = Ok (k, a, b, c)"
  shows "k \<le> length txns \<and> k + a + b + c = length txns
    \<and> (\<forall>tx\<in>set (drop k txns). magic tx \<noteq> None \<and> magic tx \<noteq> Some Magic_Unknown)"
proof -
  have k: "k = partition_point (\<lambda>tx. magic tx = None) txns"
    and c: "count_system magic (drop k txns) (0, 0, 0) = (Ok (a, b, c) :: (nat \<times> nat \<times> nat, 'e) rresult)"
    using assms by (auto simp: transaction_counts_def Let_def rres_simps)
  have le: "k \<le> length txns" unfolding k by (rule partition_point_le)
  have sys: "\<forall>tx\<in>set (drop k txns). magic tx \<noteq> None \<and> magic tx \<noteq> Some Magic_Unknown"
    using c unfolding count_system_exact by (simp split: if_splits)
  have "a + b + c = length (drop k txns)"
    using c kinds_partition[OF sys] unfolding count_system_exact using sys by simp
  then show ?thesis using le sys by simp
qed

theorem block_metrics_exact:
  fixes out :: "(unit, 'e) rresult"
  assumes "system_last magic txns us ss"
    and "record_block_result magic txns gas_used elapsed r = (out, r')"
  shows "out = Ok ()
    \<and> counted BLOCKS_PROCESSED (rec_ops r') = Suc (counted BLOCKS_PROCESSED (rec_ops r))
    \<and> counted TRANSACTIONS_PROCESSED (rec_ops r') = counted TRANSACTIONS_PROCESSED (rec_ops r) + length txns
    \<and> recorded TRANSACTIONS_PER_BUILDER_BLOCK (rec_ops r')
        = recorded TRANSACTIONS_PER_BUILDER_BLOCK (rec_ops r) @ [Of_U64 (length us)]
    \<and> (\<exists>a b c. a + b + c = length ss
        \<and> recorded ENTER_PROCESSED (rec_ops r') = recorded ENTER_PROCESSED (rec_ops r) @ [Of_U64 a]
        \<and> recorded ENTER_TOKEN_PROCESSED (rec_ops r') = recorded ENTER_TOKEN_PROCESSED (rec_ops r) @ [Of_U64 b]
        \<and> recorded TRANSACT_PROCESSED (rec_ops r') = recorded TRANSACT_PROCESSED (rec_ops r) @ [Of_U64 c])"
proof -
  have sys: "\<forall>tx\<in>set ss. magic tx \<noteq> None \<and> magic tx \<noteq> Some Magic_Unknown" using assms(1) by (simp add: system_last_def)
  let ?a = "length (filter (\<lambda>tx. magic tx = Some Magic_Enter) ss)"
    and ?b = "length (filter (\<lambda>tx. magic tx = Some Magic_EnterToken) ss)"
    and ?c = "length (filter (\<lambda>tx. magic tx = Some Magic_Transact) ss)"
  have t: "(transaction_counts magic txns :: (nat \<times> nat \<times> nat \<times> nat, 'e) rresult) = Ok (length us, ?a, ?b, ?c)"
    by (rule transaction_counts_exact[OF assms(1)])
  have r': "out = Ok ()" "r' = record_transacts_processed ?c (record_enter_token_processed ?b (record_enters_processed ?a
      (record_transactions_per_builder_block (length us) (record_block_gas_used gas_used
        (record_processing_time elapsed (inc_transactions_processed (length txns) (inc_blocks_processed r)))))))"
    using assms(2) t by (auto simp: record_block_result_def Let_def)
  have "recorded ENTER_PROCESSED (rec_ops r') = recorded ENTER_PROCESSED (rec_ops r) @ [Of_U64 ?a]
      \<and> recorded ENTER_TOKEN_PROCESSED (rec_ops r') = recorded ENTER_TOKEN_PROCESSED (rec_ops r) @ [Of_U64 ?b]
      \<and> recorded TRANSACT_PROCESSED (rec_ops r') = recorded TRANSACT_PROCESSED (rec_ops r) @ [Of_U64 ?c]"
    unfolding r'(2) block_metric_defs emitted by (simp add: block_metric_names)
  moreover have "counted BLOCKS_PROCESSED (rec_ops r') = Suc (counted BLOCKS_PROCESSED (rec_ops r))"
    "counted TRANSACTIONS_PROCESSED (rec_ops r') = counted TRANSACTIONS_PROCESSED (rec_ops r) + length txns"
    "recorded TRANSACTIONS_PER_BUILDER_BLOCK (rec_ops r')
        = recorded TRANSACTIONS_PER_BUILDER_BLOCK (rec_ops r) @ [Of_U64 (length us)]"
    unfolding r'(2) block_metric_defs emitted by (simp_all add: block_metric_names)
  ultimately show ?thesis using r'(1) kinds_partition[OF sys] by blast
qed

lemma block_metrics_ok:
  assumes "recorder_ok block_metrics r"
  shows "recorder_ok block_metrics (record_extracts a b c s r)"
    "recorder_ok block_metrics (snd (record_block_result magic txns gas elapsed r))"
  using assms
  by (simp_all add: record_extracts_def record_block_result_def block_metric_defs Let_def block_metrics_def[symmetric]
      split: rresult.split prod.split)
    (auto intro!: recorder_ok_emit simp: block_metrics_def)

section \<open>Host backends\<close>

definition host_rpc_metrics :: metric_table where
  "host_rpc_metrics =
     [(Counter, ''host_rpc.blocks_fetched'', ''Total blocks fetched via RPC''),
      (Counter, ''host_rpc.reorgs'', ''Chain reorg events detected''),
      (Counter, ''host_rpc.walk_exhausted'', ''Walk exhausted the chain view buffer''),
      (Counter, ''host_rpc.backfill_batches'', ''Backfill batches completed''),
      (Counter, ''host_rpc.tag_refreshes'', ''Epoch boundary tag refreshes''),
      (Counter, ''host_rpc.stale_hints'', ''Stale subscription hints that fell back to latest''),
      (Counter, ''host_rpc.rpc_errors'', ''RPC transport/provider errors''),
      (Counter, ''host_rpc.headers_coalesced'', ''Stale subscription headers coalesced''),
      (Histogram, ''host_rpc.walk_chain.duration_ms'', ''Time to walk the chain (ms)''),
      (Histogram, ''host_rpc.fetch_block.duration_ms'', ''Single block+receipts fetch (ms)''),
      (Histogram, ''host_rpc.backfill_batch.duration_ms'', ''Full backfill batch (ms)''),
      (Histogram, ''host_rpc.handle_new_head.duration_ms'', ''Full new-head processing (ms)''),
      (Histogram, ''host_rpc.reorg.depth'', ''Number of blocks reverted in a reorg''),
      (Gauge, ''host_rpc.chain_view.len'', ''Current chain view buffer size''),
      (Gauge, ''host_rpc.tip.number'', ''Current tip block number'')]"

definition record_walk_duration :: "nat \<Rightarrow> recorder \<Rightarrow> recorder" where
  "record_walk_duration d = emit host_rpc_metrics (Histogram_Record ''host_rpc.walk_chain.duration_ms'' (Of_Duration_Millis d))"

definition inc_walk_exhausted :: "recorder \<Rightarrow> recorder" where
  "inc_walk_exhausted = emit host_rpc_metrics (Counter_Increment ''host_rpc.walk_exhausted'' [] 1)"

definition record_fetch_block_duration :: "nat \<Rightarrow> recorder \<Rightarrow> recorder" where
  "record_fetch_block_duration d = emit host_rpc_metrics (Histogram_Record ''host_rpc.fetch_block.duration_ms'' (Of_Duration_Millis d))"

definition inc_blocks_fetched :: "u64 \<Rightarrow> string \<Rightarrow> recorder \<Rightarrow> recorder" where
  "inc_blocks_fetched k mode = emit host_rpc_metrics (Counter_Increment ''host_rpc.blocks_fetched'' [(''mode'', mode)] k)"

definition inc_reorgs :: "u64 \<Rightarrow> recorder \<Rightarrow> recorder" where
  "inc_reorgs depth r = emit host_rpc_metrics (Histogram_Record ''host_rpc.reorg.depth'' (Of_U64 depth))
     (emit host_rpc_metrics (Counter_Increment ''host_rpc.reorgs'' [] 1) r)"

definition inc_stale_hints :: "recorder \<Rightarrow> recorder" where
  "inc_stale_hints = emit host_rpc_metrics (Counter_Increment ''host_rpc.stale_hints'' [] 1)"

definition inc_rpc_errors :: "recorder \<Rightarrow> recorder" where
  "inc_rpc_errors = emit host_rpc_metrics (Counter_Increment ''host_rpc.rpc_errors'' [] 1)"

definition rpc_record_backfill_batch :: "nat \<Rightarrow> recorder \<Rightarrow> recorder" where
  "rpc_record_backfill_batch d r = emit host_rpc_metrics (Histogram_Record ''host_rpc.backfill_batch.duration_ms'' (Of_Duration_Millis d))
     (emit host_rpc_metrics (Counter_Increment ''host_rpc.backfill_batches'' [] 1) r)"

definition record_handle_new_head_duration :: "nat \<Rightarrow> recorder \<Rightarrow> recorder" where
  "record_handle_new_head_duration d =
     emit host_rpc_metrics (Histogram_Record ''host_rpc.handle_new_head.duration_ms'' (Of_Duration_Millis d))"

definition inc_tag_refreshes :: "recorder \<Rightarrow> recorder" where
  "inc_tag_refreshes = emit host_rpc_metrics (Counter_Increment ''host_rpc.tag_refreshes'' [] 1)"

definition set_chain_view_len :: "usize \<Rightarrow> recorder \<Rightarrow> recorder" where
  "set_chain_view_len k = emit host_rpc_metrics (Gauge_Set ''host_rpc.chain_view.len'' (Of_U64 k))"

definition set_tip :: "u64 \<Rightarrow> recorder \<Rightarrow> recorder" where
  "set_tip k = emit host_rpc_metrics (Gauge_Set ''host_rpc.tip.number'' (Of_U64 k))"

definition inc_headers_coalesced :: "u64 \<Rightarrow> recorder \<Rightarrow> recorder" where
  "inc_headers_coalesced k = emit host_rpc_metrics (Counter_Increment ''host_rpc.headers_coalesced'' [] k)"

lemmas host_rpc_metric_defs = record_walk_duration_def inc_walk_exhausted_def record_fetch_block_duration_def
  inc_blocks_fetched_def inc_reorgs_def inc_stale_hints_def inc_rpc_errors_def rpc_record_backfill_batch_def
  record_handle_new_head_duration_def inc_tag_refreshes_def set_chain_view_len_def set_tip_def inc_headers_coalesced_def

lemma host_rpc_metrics_ok:
  assumes "recorder_ok host_rpc_metrics r"
  shows "recorder_ok host_rpc_metrics (record_walk_duration d r)" "recorder_ok host_rpc_metrics (inc_walk_exhausted r)"
    "recorder_ok host_rpc_metrics (record_fetch_block_duration d r)" "recorder_ok host_rpc_metrics (inc_blocks_fetched k m r)"
    "recorder_ok host_rpc_metrics (inc_reorgs k r)" "recorder_ok host_rpc_metrics (inc_stale_hints r)"
    "recorder_ok host_rpc_metrics (inc_rpc_errors r)" "recorder_ok host_rpc_metrics (rpc_record_backfill_batch d r)"
    "recorder_ok host_rpc_metrics (record_handle_new_head_duration d r)" "recorder_ok host_rpc_metrics (inc_tag_refreshes r)"
    "recorder_ok host_rpc_metrics (set_chain_view_len n r)" "recorder_ok host_rpc_metrics (set_tip k r)"
    "recorder_ok host_rpc_metrics (inc_headers_coalesced k r)"
  unfolding host_rpc_metric_defs using assms
  by (auto intro!: recorder_ok_emit simp: host_rpc_metrics_def)

definition host_reth_metrics :: metric_table where
  "host_reth_metrics =
     [(Counter, ''host_reth.db_backfill.blocks_fetched'', ''Total blocks read from DB during backfill''),
      (Counter, ''host_reth.db_backfill.batches_completed'', ''DB backfill batches completed''),
      (Histogram, ''host_reth.db_backfill.batch_duration_ms'', ''DB backfill batch duration (ms)''),
      (Gauge, ''host_reth.db_backfill.cursor'', ''Current DB backfill cursor position'')]"

definition reth_record_backfill_batch :: "u64 \<Rightarrow> nat \<Rightarrow> recorder \<Rightarrow> recorder" where
  "reth_record_backfill_batch blocks d r =
     emit host_reth_metrics (Histogram_Record ''host_reth.db_backfill.batch_duration_ms'' (Of_Duration_Millis d))
       (emit host_reth_metrics (Counter_Increment ''host_reth.db_backfill.batches_completed'' [] 1)
         (emit host_reth_metrics (Counter_Increment ''host_reth.db_backfill.blocks_fetched'' [] blocks) r))"

definition set_backfill_cursor :: "u64 \<Rightarrow> recorder \<Rightarrow> recorder" where
  "set_backfill_cursor k = emit host_reth_metrics (Gauge_Set ''host_reth.db_backfill.cursor'' (Of_U64 k))"

section \<open>Node\<close>

definition NOTIFICATION_RECEIVED :: string where "NOTIFICATION_RECEIVED = ''signet.node.notification_received''"
definition REORGS_RECEIVED :: string where "REORGS_RECEIVED = ''signet.node.reorgs_received''"
definition NOTIFICATIONS_PROCESSED :: string where "NOTIFICATIONS_PROCESSED = ''signet.node.notifications_processed''"
definition REORGS_PROCESSED :: string where "REORGS_PROCESSED = ''signet.node.reorgs_processed''"

lemmas node_metric_names = NOTIFICATION_RECEIVED_def REORGS_RECEIVED_def NOTIFICATIONS_PROCESSED_def REORGS_PROCESSED_def

definition node_metrics :: metric_table where
  "node_metrics =
     [(Counter, NOTIFICATION_RECEIVED, ''Number of notifications received''),
      (Counter, REORGS_RECEIVED, ''Number of reorgs received''),
      (Counter, NOTIFICATIONS_PROCESSED, ''Number of notifications processed''),
      (Counter, REORGS_PROCESSED, ''Number of reorgs processed'')]"

definition inc_notifications_received :: "recorder \<Rightarrow> recorder" where
  "inc_notifications_received = emit node_metrics (Counter_Increment NOTIFICATION_RECEIVED [] 1)"

definition inc_reorgs_received :: "recorder \<Rightarrow> recorder" where
  "inc_reorgs_received = emit node_metrics (Counter_Increment REORGS_RECEIVED [] 1)"

definition inc_notifications_processed :: "recorder \<Rightarrow> recorder" where
  "inc_notifications_processed = emit node_metrics (Counter_Increment NOTIFICATIONS_PROCESSED [] 1)"

definition inc_reorgs_processed :: "recorder \<Rightarrow> recorder" where
  "inc_reorgs_processed = emit node_metrics (Counter_Increment REORGS_PROCESSED [] 1)"

definition record_notification_received :: "'c host_notification \<Rightarrow> recorder \<Rightarrow> recorder" where
  "record_notification_received nt r =
     (let r1 = inc_notifications_received r
      in if notif_revert_range nt \<noteq> None then inc_reorgs_received r1 else r1)"

definition record_notification_processed :: "'c host_notification \<Rightarrow> recorder \<Rightarrow> recorder" where
  "record_notification_processed nt r =
     (let r1 = inc_notifications_processed r
      in if notif_revert_range nt \<noteq> None then inc_reorgs_processed r1 else r1)"

lemmas node_metric_defs = inc_notifications_received_def inc_reorgs_received_def inc_notifications_processed_def
  inc_reorgs_processed_def

end
