(* ===== verification/Block_Processor.thy ===== *)
theory Block_Processor
  imports Blob_Cache Host_Alias Chain_Data Metrics
begin

text \<open>
  The block processor (\<^verbatim>\<open>block-processor/src/v1/processor.rs\<close>): from what was extracted of
  one host block to an executed rollup block. Hot storage, the EVM driver and the
  conversions of transactions and receipts belong to other crates and are arguments; the
  alias oracle is any implementation of its contract, the blob handle is the one of
  \<open>Blob_Cache\<close>. Of the metrics (\<open>Metrics\<close>) a run keeps what can end it: the count of the block's
  transactions panics when they are not in the expected order.
\<close>

section \<open>Extracts and executed blocks\<close>

record ('en, 'et, 'tr, 'hdr) extracts =
  ex_ru_height :: u64
  ex_host_number :: u64
  ex_host_timestamp :: u64
  ex_submitted :: "'hdr submission option"
  ex_enters :: "'en list"
  ex_enter_tokens :: "'et list"
  ex_transacts :: "'tr list"
  ex_ru_header :: "'hdr option"

datatype ('en, 'et, 'tr) signet_event = Enter u64 'en | EnterToken u64 'et | Transact u64 'tr

text \<open>
  What the driver gives: the sealed header and the transactions of the block, and of the
  execution outcome its receipts and the bundle of state changes, which the processor hands on
  without looking into it; here it stands for itself as a number.
\<close>

type_synonym bundle_state = nat

record ('tx, 'rc) driven =
  dv_header :: header
  dv_bundle :: bundle_state
  dv_transactions :: "('tx \<times> address) list"
  dv_receipts :: "'rc list"

record ('tx, 'rc, 'ev, 'hdr) executed_block =
  eb_header :: header
  eb_bundle :: bundle_state
  eb_transactions :: "('tx \<times> address) list"
  eb_receipts :: "'rc list"
  eb_signet_events :: "'ev list"
  eb_zenith_header :: "'hdr option"

section \<open>The processor\<close>

record ('st, 'rd, 'x, 'ptx, 'tx, 'renv, 'rc, 'ev, 'hdr, 'zb, 'ztx, 'tr) processor_ops =
  po_reader :: "'st \<Rightarrow> string + 'rd"
  po_get_header :: "'rd \<Rightarrow> u64 \<Rightarrow> string + header option"
  po_drive :: "'rd \<Rightarrow> u64 \<Rightarrow> nat \<Rightarrow> 'x \<Rightarrow> address set \<Rightarrow> 'ptx list \<Rightarrow> header \<Rightarrow> string + ('tx, 'renv) driven"
  po_slot_ending_at :: "u64 \<Rightarrow> usize option"
  po_transactions :: "'zb \<Rightarrow> 'ztx list"
  po_is_eip4844 :: "'ztx \<Rightarrow> bool"
  po_into_tx :: "'ztx \<Rightarrow> 'ptx"
  po_host_sender :: "'tr \<Rightarrow> address"
  po_into_receipt :: "'renv \<Rightarrow> 'rc"
  po_magic :: "'tx \<Rightarrow> magic_info option"
  po_build :: "('tx, 'rc, 'ev, 'hdr) executed_block \<Rightarrow> string + ('tx, 'rc, 'ev, 'hdr) executed_block"

text \<open>Reports (\<^verbatim>\<open>eyre::Report\<close>): the error they were made from, or a context around one.\<close>

datatype report =
    Report string
  | Fetch_Report fetch_error
  | Alias_Report alias_error
  | Wrap string report

fun eyre :: "(string + 'a) \<Rightarrow> ('a, report) rresult" where
  "eyre (Inl e) = Err (Report e)"
| "eyre (Inr a) = Ok a"

definition map_report :: "('e \<Rightarrow> 'e2) \<Rightarrow> ('a, 'e) rresult \<Rightarrow> ('a, 'e2) rresult" where
  "map_report f r = (case r of Ok a \<Rightarrow> Ok a | Err e \<Rightarrow> Err (f e) | Panic \<Rightarrow> Panic)"

lemma report_Ok [rres_simps]:
  "eyre v = Ok a \<longleftrightarrow> v = Inr a" "map_report f r = Ok b \<longleftrightarrow> r = Ok b"
  by (cases v; simp) (cases r; simp add: map_report_def)

text \<open>The transactions of the submitted block, from the blob cache.\<close>

definition submitted_txns ::
  "('st, 'rd, ('en, 'et, 'tr, 'hdr) extracts, 'ptx, 'tx, 'renv, 'rc, 'ev, 'hdr, 'zb, 'ztx, 'tr) processor_ops
     \<Rightarrow> ('b, 'hdr, 'zb) zenith_ops \<Rightarrow> ('m, 'b) lru_ops \<Rightarrow> 'w fetch_env
     \<Rightarrow> ('en, 'et, 'tr, 'hdr) extracts \<Rightarrow> ('w, 'b, 'm) cache_server
     \<Rightarrow> ('ptx list, report) rresult \<times> ('w, 'b, 'm) cache_server" where
  "submitted_txns P Z L env x blobs =
     (case ex_submitted x of
        Some submitted \<Rightarrow>
          (case po_slot_ending_at P (ex_host_timestamp x) of
             None \<Rightarrow> (Panic, blobs)
           | Some slot \<Rightarrow>
               (case signet_block Z L env (ex_host_number x) slot submitted blobs of
                  (r, blobs1) \<Rightarrow>
                    (rmap (\<lambda>zb. map (po_into_tx P) (filter (\<lambda>tx. \<not> po_is_eip4844 P tx) (po_transactions P zb)))
                       (map_report Fetch_Report r), blobs1)))
      | None \<Rightarrow> (Ok [], blobs))"

definition number_events :: "('en, 'et, 'tr) signet_event list \<Rightarrow> ('en, 'et, 'tr) signet_event list" where
  "number_events evs = map (\<lambda>(i, e). case e of
       Enter _ v \<Rightarrow> Enter i v | EnterToken _ v \<Rightarrow> EnterToken i v | Transact _ v \<Rightarrow> Transact i v)
     (enumerate 0 evs)"

definition signet_events_of :: "('en, 'et, 'tr, 'hdr) extracts \<Rightarrow> ('en, 'et, 'tr) signet_event list" where
  "signet_events_of x = number_events
     (map (Enter 0) (ex_enters x) @ map (EnterToken 0) (ex_enter_tokens x) @ map (Transact 0) (ex_transacts x))"

text \<open>The assembly of the executed block from what the driver gives.\<close>

definition assemble ::
  "('st, 'rd, ('en, 'et, 'tr, 'hdr) extracts, 'ptx, 'tx, 'renv, 'rc, ('en, 'et, 'tr) signet_event, 'hdr, 'zb, 'ztx, 'tr) processor_ops
     \<Rightarrow> ('en, 'et, 'tr, 'hdr) extracts \<Rightarrow> ('tx, 'renv) driven
     \<Rightarrow> ('tx, 'rc, ('en, 'et, 'tr) signet_event, 'hdr) executed_block" where
  "assemble P x dv =
     \<lparr>eb_header = dv_header dv,
      eb_bundle = dv_bundle dv,
      eb_transactions = map (\<lambda>(tx, sender). (tx, sender)) (dv_transactions dv),
      eb_receipts = map (po_into_receipt P) (dv_receipts dv),
      eb_signet_events = signet_events_of x,
      eb_zenith_header = ex_ru_header x\<rparr>"

definition parent_header ::
  "('st, 'rd, ('en, 'et, 'tr, 'hdr) extracts, 'ptx, 'tx, 'renv, 'rc, 'ev, 'hdr, 'zb, 'ztx, 'tr) processor_ops
     \<Rightarrow> 'st \<Rightarrow> u64 \<Rightarrow> (header, report) rresult" where
  "parent_header P hot ru_height =
     rbind (eyre (po_reader P hot)) (\<lambda>rd.
     rbind (eyre (po_get_header P rd (saturating_sub ru_height 1))) (\<lambda>h.
     ok_or h (Report ''parent ru block not present in DB'')))"

text \<open>
  The state the EVM runs on, a reader of hot storage at the parent's height, and the machine:
  that state with its hardfork.
\<close>

definition revm_state ::
  "('st, 'rd, 'x, 'ptx, 'tx, 'renv, 'rc, 'ev, 'hdr, 'zb, 'ztx, 'tr) processor_ops
     \<Rightarrow> 'st \<Rightarrow> u64 \<Rightarrow> ('rd \<times> u64, report) rresult" where
  "revm_state P hot parent_height = rbind (eyre (po_reader P hot)) (\<lambda>reader. Ok (reader, parent_height))"

definition trevm ::
  "('st, 'rd, 'x, 'ptx, 'tx, 'renv, 'rc, 'ev, 'hdr, 'zb, 'ztx, 'tr) processor_ops
     \<Rightarrow> 'st \<Rightarrow> u64 \<Rightarrow> nat \<Rightarrow> ('rd \<times> u64 \<times> nat, report) rresult" where
  "trevm P hot parent_height spec_id =
     rbind (revm_state P hot parent_height) (\<lambda>(reader, at). Ok (reader, at, spec_id))"

lemma trevm_Ok: "trevm P hot n spec = Ok (rd, at, s) \<longleftrightarrow> po_reader P hot = Inr rd \<and> at = n \<and> s = spec"
  by (cases "po_reader P hot") (auto simp: trevm_def revm_state_def)

definition run_evm ::
  "('st, 'rd, ('en, 'et, 'tr, 'hdr) extracts, 'ptx, 'tx, 'renv, 'rc, ('en, 'et, 'tr) signet_event, 'hdr, 'zb, 'ztx, 'tr) processor_ops
     \<Rightarrow> ('b, 'hdr, 'zb) zenith_ops \<Rightarrow> ('m, 'b) lru_ops \<Rightarrow> 'w fetch_env
     \<Rightarrow> ('f \<Rightarrow> ('o, alias_error) rresult) \<Rightarrow> 'o asking \<Rightarrow> nat \<Rightarrow> 'st \<Rightarrow> 'f
     \<Rightarrow> ('en, 'et, 'tr, 'hdr) extracts \<Rightarrow> ('w, 'b, 'm) cache_server
     \<Rightarrow> (('tx, 'rc, ('en, 'et, 'tr) signet_event, 'hdr) executed_block, report) rresult \<times> ('w, 'b, 'm) cache_server" where
  "run_evm P Z L env create ask spec_id hot factory x blobs =
     (case parent_header P hot (ex_ru_height x) of
           Err e \<Rightarrow> (Err e, blobs)
         | Panic \<Rightarrow> (Panic, blobs)
         | Ok parent \<Rightarrow>
             (case submitted_txns P Z L env x blobs of
                (txns, blobs1) \<Rightarrow>
                  (rbind txns (\<lambda>txs.
                   rbind (map_report Alias_Report (create factory)) (\<lambda>oracle.
                   rbind (map_report Alias_Report (fst (alias_scan ask (map (po_host_sender P) (ex_transacts x)) {} oracle))) (\<lambda>to_alias.
                   rbind (trevm P hot (h_number parent) spec_id) (\<lambda>(rd, at, spec).
                   rbind (eyre (po_drive P rd at spec x to_alias txs parent)) (\<lambda>dv.
                   rbind (transaction_counts (po_magic P) (map fst (dv_transactions dv))) (\<lambda>_.
                   map_report (Wrap ''failed to build ExecutedBlock'') (eyre (po_build P (assemble P x dv))))))))), blobs1)))"

definition process_block ::
  "('st, 'rd, ('en, 'et, 'tr, 'hdr) extracts, 'ptx, 'tx, 'renv, 'rc, ('en, 'et, 'tr) signet_event, 'hdr, 'zb, 'ztx, 'tr) processor_ops
     \<Rightarrow> ('b, 'hdr, 'zb) zenith_ops \<Rightarrow> ('m, 'b) lru_ops \<Rightarrow> 'w fetch_env
     \<Rightarrow> ('f \<Rightarrow> ('o, alias_error) rresult) \<Rightarrow> 'o asking \<Rightarrow> nat \<Rightarrow> 'st \<Rightarrow> 'f
     \<Rightarrow> ('en, 'et, 'tr, 'hdr) extracts \<Rightarrow> ('w, 'b, 'm) cache_server
     \<Rightarrow> (('tx, 'rc, ('en, 'et, 'tr) signet_event, 'hdr) executed_block, report) rresult \<times> ('w, 'b, 'm) cache_server" where
  "process_block P Z L env create ask spec_id hot factory x blobs =
     run_evm P Z L env create ask spec_id hot factory x blobs"

section \<open>Facts\<close>

fun event_index :: "('en, 'et, 'tr) signet_event \<Rightarrow> u64" where
  "event_index (Enter i _) = i"
| "event_index (EnterToken i _) = i"
| "event_index (Transact i _) = i"

fun event_at :: "u64 \<Rightarrow> ('en, 'et, 'tr) signet_event \<Rightarrow> ('en, 'et, 'tr) signet_event" where
  "event_at i (Enter _ v) = Enter i v"
| "event_at i (EnterToken _ v) = EnterToken i v"
| "event_at i (Transact _ v) = Transact i v"

lemma event_at_simps [simp]: "event_index (event_at i e) = i" "event_at j (event_at i e) = event_at j e"
  by (cases e; simp)+

lemma number_events_nth: "i < length evs \<Longrightarrow> number_events evs ! i = event_at i (evs ! i)"
  by (cases "evs ! i") (simp_all add: number_events_def nth_enumerate_eq)

lemma number_events_length [simp]: "length (number_events evs) = length evs"
  by (simp add: number_events_def)

lemma number_events_indices:
  "map event_index (number_events evs) = [0..<length evs]"
  "map (event_at 0) (number_events evs) = map (event_at 0) evs"
  by (rule nth_equalityI; simp add: number_events_nth)+

text \<open>
  C13: a block the processor gives is the one the driver makes on the state of the parent
  rollup block, from the submitted block's transactions without any blob transaction (and from
  no transaction when nothing was submitted), with exactly the host senders aliased that are
  contracts; it has the driver's header, state changes, transactions and converted receipts; its
  events are all enters, token enters and transacts in this order,
  numbered from zero.
\<close>

theorem process_block_sound:
  assumes tells: "alias_oracle ask good contract" "\<And>oc. create factory = Ok oc \<Longrightarrow> good oc"
    and parents: "\<And>rd n h. po_get_header P rd n = Inr (Some h) \<Longrightarrow> h_number h = n"
    and build: "\<And>b. po_build P b = Inr b"
    and ok: "process_block P Z L env create ask spec_id hot factory x blobs = (Ok b, blobs1)"
  shows "\<exists>rd parent txs dv.
      po_reader P hot = Inr rd \<and> po_get_header P rd (ex_ru_height x - 1) = Inr (Some parent)
    \<and> po_drive P rd (ex_ru_height x - 1) spec_id x
        {a \<in> set (map (po_host_sender P) (ex_transacts x)). contract a} txs parent = Inr dv
    \<and> (ex_submitted x = None \<longrightarrow> txs = [])
    \<and> (\<forall>sub. ex_submitted x = Some sub \<longrightarrow> (\<exists>zb slot. po_slot_ending_at P (ex_host_timestamp x) = Some slot
          \<and> fst (signet_block Z L env (ex_host_number x) slot sub blobs) = Ok zb
          \<and> txs = map (po_into_tx P) (filter (\<lambda>tx. \<not> po_is_eip4844 P tx) (po_transactions P zb))))
    \<and> eb_header b = dv_header dv \<and> eb_bundle b = dv_bundle dv \<and> eb_transactions b = dv_transactions dv
    \<and> eb_receipts b = map (po_into_receipt P) (dv_receipts dv) \<and> eb_zenith_header b = ex_ru_header x
    \<and> map event_index (eb_signet_events b) = [0..<length (ex_enters x) + length (ex_enter_tokens x) + length (ex_transacts x)]
    \<and> map (event_at 0) (eb_signet_events b)
        = map (Enter 0) (ex_enters x) @ map (EnterToken 0) (ex_enter_tokens x) @ map (Transact 0) (ex_transacts x)"
proof -
  obtain parent where p: "parent_header P hot (ex_ru_height x) = Ok parent"
    using ok by (cases "parent_header P hot (ex_ru_height x)") (simp_all add: process_block_def run_evm_def)
  then obtain rd where rd: "po_reader P hot = Inr rd" "po_get_header P rd (ex_ru_height x - 1) = Inr (Some parent)"
    by (auto simp: parent_header_def saturating_sub_def rres_simps)
  obtain r where t: "submitted_txns P Z L env x blobs = (r, blobs1)"
    using ok p by (cases "submitted_txns P Z L env x blobs") (simp add: process_block_def run_evm_def)
  obtain txs oc S dv where run: "r = Ok txs" "create factory = Ok oc"
      "fst (alias_scan ask (map (po_host_sender P) (ex_transacts x)) {} oc) = Ok S"
      "po_drive P rd (h_number parent) spec_id x S txs parent = Inr dv" "b = assemble P x dv"
    using ok rd(1) p t by (auto simp: process_block_def run_evm_def rres_simps trevm_Ok build)
  obtain oc1 where "alias_scan ask (map (po_host_sender P) (ex_transacts x)) {} oc = (Ok S, oc1)"
    using run(3) by (metis prod.collapse)
  from alias_oracle.scan_exact[OF tells(1) tells(2)[OF run(2)] this]
  have S: "S = {a \<in> set (map (po_host_sender P) (ex_transacts x)). contract a}" .
  have tx: "(ex_submitted x = None \<longrightarrow> txs = [])
    \<and> (\<forall>sub. ex_submitted x = Some sub \<longrightarrow> (\<exists>zb slot. po_slot_ending_at P (ex_host_timestamp x) = Some slot
          \<and> fst (signet_block Z L env (ex_host_number x) slot sub blobs) = Ok zb
          \<and> txs = map (po_into_tx P) (filter (\<lambda>tx. \<not> po_is_eip4844 P tx) (po_transactions P zb))))"
    using t run(1) by (auto simp: submitted_txns_def rres_simps split: option.splits prod.splits)
  have ev: "eb_signet_events b = signet_events_of x" using run(5) by (simp add: assemble_def)
  have "map event_index (signet_events_of x)
      = [0..<length (ex_enters x) + length (ex_enter_tokens x) + length (ex_transacts x)]"
    "map (event_at 0) (signet_events_of x)
      = map (Enter 0) (ex_enters x) @ map (EnterToken 0) (ex_enter_tokens x) @ map (Transact 0) (ex_transacts x)"
    unfolding signet_events_of_def by (simp_all add: number_events_indices add.assoc)
  then show ?thesis
    using rd run(4,5) parents[OF rd(2)] S tx ev by (auto simp: assemble_def)
qed

definition ex_header :: "u64 \<Rightarrow> header" where
  "ex_header n = \<lparr>h_number = n, h_parent_hash = of_nat (n - 1), h_timestamp = 12 * n, h_gas_limit = 30, h_gas_used = 0,
     h_base_fee_per_gas = None, h_rest = 0\<rparr>"

definition ex_extracts :: "(nat, nat, address, nat) extracts" where
  "ex_extracts = \<lparr>ex_ru_height = 2, ex_host_number = 4, ex_host_timestamp = 48, ex_submitted = Some ex_submission,
     ex_enters = [10], ex_enter_tokens = [20, 21], ex_transacts = [1, 2, 1], ex_ru_header = Some 4\<rparr>"

definition ex_processor ::
  "('st, unit, (nat, nat, address, nat) extracts, nat, nat, nat, nat, (nat, nat, address) signet_event, nat,
    nat \<times> u8 list, u8, address) processor_ops" where
  "ex_processor = \<lparr>po_reader = (\<lambda>_. Inr ()), po_get_header = (\<lambda>_ n. Inr (Some (ex_header n))),
     po_drive = (\<lambda>rd h spec x S txs parent. Inr \<lparr>dv_header = ex_header (ex_ru_height x), dv_bundle = length txs, dv_transactions = map (\<lambda>t. (t, 0)) txs, dv_receipts = txs\<rparr>),
     po_slot_ending_at = (\<lambda>t. Some 3), po_transactions = snd, po_is_eip4844 = (\<lambda>t. t = 7), po_into_tx = unat,
     po_host_sender = id, po_into_receipt = id,
     po_magic = (\<lambda>_. None), po_build = Inr\<rparr>"

theorem process_block_sound_witness:
  "\<exists>b blobs1. process_block ex_processor ex_zenith ex_lru (ex_env [1, 0]) set_create set_should_alias 0 () {1} ex_extracts ex_blob_server
      = (Ok b, blobs1)
    \<and> eb_transactions b = [(8, 0)]
    \<and> map event_index (eb_signet_events b) = [0, 1, 2, 3, 4, 5]"
proof -
  obtain blobs1 where s: "signet_block ex_zenith ex_lru (ex_env [1, 0]) 4 3 ex_submission ex_blob_server = (Ok (4, [7, 8]), blobs1)"
    using ex_signet_block by (metis prod.collapse)
  obtain b where b: "process_block ex_processor ex_zenith ex_lru (ex_env [1, 0]) set_create set_should_alias 0 () {1} ex_extracts ex_blob_server
      = (Ok b, blobs1)" "eb_transactions b = [(8, 0)]"
    using s
    by (simp add: process_block_def run_evm_def trevm_def revm_state_def parent_header_def saturating_sub_def ex_processor_def ex_extracts_def
        submitted_txns_def map_report_def set_create_def set_should_alias_def assemble_def)
  have tells: "alias_oracle set_should_alias (\<lambda>s. s = {1}) (\<lambda>a. a \<in> {1})"
    by (rule fixed_set.alias_oracle_axioms)
  have h: "h_number h = n" if "po_get_header ex_processor rd n = Inr (Some h)" for rd n h
    using that by (auto simp: ex_processor_def ex_header_def)
  have bd: "po_build ex_processor e = Inr e" for e by (simp add: ex_processor_def)
  have "map event_index (eb_signet_events b)
      = [0..<length (ex_enters ex_extracts) + length (ex_enter_tokens ex_extracts) + length (ex_transacts ex_extracts)]"
    using process_block_sound[OF tells _ h bd b(1)] by (simp add: set_create_def) blast
  then have "map event_index (eb_signet_events b) = [0, 1, 2, 3, 4, 5]" by (simp add: ex_extracts_def eval_nat_numeral)
  with b show ?thesis by auto
qed

text \<open>A driver that makes the block of the extracted height gives the processor that property.\<close>

lemma process_block_height:
  assumes "\<And>rd h spec S txs parent dv. po_drive P rd h spec x S txs parent = Inr dv \<Longrightarrow> h_number (dv_header dv) = ex_ru_height x"
    and "\<And>b. po_build P b = Inr b"
    and "process_block P Z L env create ask spec_id hot factory x blobs = (Ok b, blobs1)"
  shows "h_number (eb_header b) = ex_ru_height x"
proof -
  obtain parent where p: "parent_header P hot (ex_ru_height x) = Ok parent"
    using assms(3) by (cases "parent_header P hot (ex_ru_height x)") (simp_all add: process_block_def run_evm_def)
  obtain r where t: "submitted_txns P Z L env x blobs = (r, blobs1)"
    using assms(3) p by (cases "submitted_txns P Z L env x blobs") (simp add: process_block_def run_evm_def)
  show ?thesis
    using assms(3) p t by (auto simp: process_block_def run_evm_def rres_simps trevm_Ok assms(2) assemble_def dest: assms(1))
qed

end
