(* ===== verification/Node_Core.thy ===== *)
theory Node_Core
  imports Block_Processor Chain_Notifier Host_Types
begin

text \<open>
  The node (\<^verbatim>\<open>crates/node/src/node.rs\<close>, \<^verbatim>\<open>status.rs\<close>, \<^verbatim>\<open>rpc.rs\<close>): startup, the loop over host
  notifications, reverts and commits, block tags and events. Unified storage, the
  extractor and the paired-heights arithmetic of the system constants belong to other
  crates, the notifier is any implementation of its trait: all are fields of \<open>node_env\<close>.
  Metrics, tracing spans and the launch of the server itself are left out.
\<close>

section \<open>Environment and state\<close>

record paired_heights =
  ph_host :: u64
  ph_rollup :: u64

record constants_ops =
  co_host_deploy_height :: u64
  co_pair_ru :: "u64 \<Rightarrow> paired_heights"
  co_pair_host :: "u64 \<Rightarrow> paired_heights option"
  co_host_block_to_rollup_block_num :: "u64 \<Rightarrow> u64 option"

record 'l drained_block =
  db_header :: header
  db_hash :: b256
  db_receipt_logs :: "'l rpc_log list list"

record ('st, 'rd, 'eb, 'l) storage_ops =
  so_reader :: "'st \<Rightarrow> string + 'rd"
  so_last_block_number :: "'rd \<Rightarrow> string + u64 option"
  so_cold_latest :: "'st \<Rightarrow> string + u64 option"
  so_unwind_above :: "u64 \<Rightarrow> 'st \<Rightarrow> (string + unit) \<times> 'st"
  so_append_blocks :: "'eb list \<Rightarrow> 'st \<Rightarrow> (string + unit) \<times> 'st"
  so_drain_above :: "u64 \<Rightarrow> 'st \<Rightarrow> (string + 'l drained_block list) \<times> 'st"

record ('n, 'c) notifier_ops =
  no_next_notification :: "'n \<Rightarrow> ('c host_notification, string) rresult option \<times> 'n"
  no_set_head :: "u64 \<Rightarrow> 'n \<Rightarrow> 'n"
  no_set_backfill_thresholds :: "u64 option \<Rightarrow> 'n \<Rightarrow> 'n"
  no_send_finished_height :: "u64 \<Rightarrow> 'n \<Rightarrow> (string + unit) \<times> 'n"

datatype node_status = Booting | AtHeight u64

record ('st, 'n, 's, 'l) node_state =
  ns_storage :: 'st
  ns_notifier :: 'n
  ns_blobs :: 's
  ns_chain :: "'l chain_notifier"
  ns_status :: node_status
  ns_rpc_running :: bool

text \<open>
  The parts that never change: \<open>ne_execute\<close> is the processor built for one block with the
  hardforks active at it (\<open>node_execute\<close> below), \<open>ne_notif\<close> the conversion of an executed
  block into its notification.
\<close>

record ('st, 'rd, 'eb, 'l, 'n, 'c, 'x, 's) node_env =
  ne_storage :: "('st, 'rd, 'eb, 'l) storage_ops"
  ne_constants :: constants_ops
  ne_notifier :: "('n, 'c) notifier_ops"
  ne_extract :: "'c \<Rightarrow> 'x list"
  ne_ru_height :: "'x \<Rightarrow> u64"
  ne_execute :: "'st \<Rightarrow> 'x \<Rightarrow> 's \<Rightarrow> ('eb, report) rresult \<times> 's"
  ne_notif :: "'eb \<Rightarrow> 'l new_block_notification"
  ne_launch_rpc :: "string + unit"
  ne_backfill_max_blocks :: "u64 option"

definition new_unsafe :: "'st \<Rightarrow> 'n \<Rightarrow> 's \<Rightarrow> ('st, 'n, 's, 'l) node_state" where
  "new_unsafe storage notifier blobs =
     \<lparr>ns_storage = storage, ns_notifier = notifier, ns_blobs = blobs, ns_chain = ChainNotifier_new 128,
      ns_status = Booting, ns_rpc_running = False\<rparr>"

section \<open>Processing one block\<close>

text \<open>
  The processor of one block: \<^verbatim>\<open>active_hardforks\<close> (here its spec) at the host block, a new
  processor on hot storage, and its \<open>process_block\<close>.
\<close>

definition node_execute where
  "node_execute P Z L env create ask spec_at factory st x blobs =
     process_block P Z L env create ask (spec_at (ex_host_number x) (ex_host_timestamp x)) st factory x blobs"

definition block_notification ::
  "('tx \<Rightarrow> b256) \<Rightarrow> ('rc \<Rightarrow> 'l list) \<Rightarrow> ('tx, 'rc, 'ev, 'hdr) executed_block \<Rightarrow> 'l new_block_notification" where
  "block_notification tx_hash logs b =
     \<lparr>nb_header = eb_header b, nb_tx_hashes = map (\<lambda>(tx, sender). tx_hash tx) (eb_transactions b),
      nb_receipt_logs = map logs (eb_receipts b)\<rparr>"

definition notify_new_block ::
  "('st, 'rd, 'eb, 'l, 'n, 'c, 'x, 's) node_env \<Rightarrow> 'eb \<Rightarrow> ('st, 'n, 's, 'l) node_state \<Rightarrow> ('st, 'n, 's, 'l) node_state" where
  "notify_new_block E b ns = ns\<lparr>ns_chain := snd (send_new_block (ne_notif E b) (ns_chain ns))\<rparr>"

definition last_rollup_block ::
  "('st, 'rd, 'eb, 'l, 'n, 'c, 'x, 's) node_env \<Rightarrow> 'st \<Rightarrow> (u64, report) rresult" where
  "last_rollup_block E st =
     rbind (eyre (so_reader (ne_storage E) st)) (\<lambda>reader.
     rbind (eyre (so_last_block_number (ne_storage E) reader)) (\<lambda>n. Ok (opt_default 0 n)))"

fun process_extracts ::
  "('st, 'rd, 'eb, 'l, 'n, 'c, 'x, 's) node_env \<Rightarrow> u64 \<Rightarrow> 'x list \<Rightarrow> bool \<Rightarrow> ('st, 'n, 's, 'l) node_state
     \<Rightarrow> (bool, report) rresult \<times> ('st, 'n, 's, 'l) node_state" where
  "process_extracts E last_height [] processed ns = (Ok processed, ns)"
| "process_extracts E last_height (x # xs) processed ns =
     (if ne_ru_height E x > last_height then
        (case ne_execute E (ns_storage ns) x (ns_blobs ns) of
           (Err e, bl) \<Rightarrow> (Err e, ns\<lparr>ns_blobs := bl\<rparr>)
         | (Panic, bl) \<Rightarrow> (Panic, ns\<lparr>ns_blobs := bl\<rparr>)
         | (Ok executed, bl) \<Rightarrow>
             (let ns1 = notify_new_block E executed (ns\<lparr>ns_blobs := bl\<rparr>)
              in case so_append_blocks (ne_storage E) [executed] (ns_storage ns1) of
                   (Inl e, st) \<Rightarrow> (Err (Report e), ns1\<lparr>ns_storage := st\<rparr>)
                 | (Inr _, st) \<Rightarrow> process_extracts E last_height xs True (ns1\<lparr>ns_storage := st\<rparr>)))
      else process_extracts E last_height xs processed ns)"

definition process_committed_chain ::
  "('st, 'rd, 'eb, 'l, 'n, 'c, 'x, 's) node_env \<Rightarrow> 'c \<Rightarrow> ('st, 'n, 's, 'l) node_state
     \<Rightarrow> (bool, report) rresult \<times> ('st, 'n, 's, 'l) node_state" where
  "process_committed_chain E chain ns =
     (case last_rollup_block E (ns_storage ns) of
        Ok last_height \<Rightarrow> process_extracts E last_height (ne_extract E chain) False ns
      | Err e \<Rightarrow> (Err e, ns)
      | Panic \<Rightarrow> (Panic, ns))"

section \<open>Reverts\<close>

definition removed_of :: "'l drained_block \<Rightarrow> 'l removed_block" where
  "removed_of d =
     \<lparr>rm_number = h_number (db_header d), rm_hash = db_hash d, rm_timestamp = h_timestamp (db_header d),
      rm_logs = concat (db_receipt_logs d)\<rparr>"

definition notify_reorg ::
  "instant \<Rightarrow> 'l drained_block list \<Rightarrow> u64 \<Rightarrow> ('st, 'n, 's, 'l) node_state \<Rightarrow> ('st, 'n, 's, 'l) node_state" where
  "notify_reorg now drained ancestor ns =
     ns\<lparr>ns_chain := snd (send_reorg now \<lparr>common_ancestor = ancestor, removed_blocks = map removed_of drained\<rparr> (ns_chain ns))\<rparr>"

definition revert_target :: "constants_ops \<Rightarrow> u64 \<Rightarrow> u64" where
  "revert_target C first_blk = saturating_sub (opt_default 0 (co_host_block_to_rollup_block_num C first_blk)) 1"

definition on_host_revert ::
  "('st, 'rd, 'eb, 'l, 'n, 'c, 'x, 's) node_env \<Rightarrow> instant \<Rightarrow> revert_range \<Rightarrow> ('st, 'n, 's, 'l) node_state
     \<Rightarrow> (bool, report) rresult \<times> ('st, 'n, 's, 'l) node_state" where
  "on_host_revert E now rg ns =
     (let tip_blk = rr_tip rg; C = ne_constants E
      in if tip_blk \<le> co_host_deploy_height C then (Ok False, ns)
         else
           (case rbind (last_rollup_block E (ns_storage ns)) (\<lambda>rollup_tip.
                 rbind (ok_or (co_host_block_to_rollup_block_num C tip_blk)
                          (Report ''revert range tip does not map to a rollup block number'')) (\<lambda>range_tip_ru.
                 if range_tip_ru \<ge> rollup_tip then Ok ()
                 else Err (Report ''does not cover stored rollup tip''))) of
              Err e \<Rightarrow> (Err e, ns)
            | Panic \<Rightarrow> (Panic, ns)
            | Ok _ \<Rightarrow>
                (let target = revert_target C (rr_first rg)
                 in case so_drain_above (ne_storage E) target (ns_storage ns) of
                      (Inl e, st) \<Rightarrow> (Err (Report e), ns\<lparr>ns_storage := st\<rparr>)
                    | (Inr drained, st) \<Rightarrow>
                        (let ns1 = ns\<lparr>ns_storage := st,
                               ns_chain := (ns_chain ns)\<lparr>cn_tags := rewind_to target (cn_tags (ns_chain ns))\<rparr>\<rparr>
                         in (Ok True, if drained \<noteq> [] then notify_reorg now drained target ns1 else ns1)))))"

section \<open>Notifications\<close>

definition update_status_channel ::
  "('st, 'rd, 'eb, 'l, 'n, 'c, 'x, 's) node_env \<Rightarrow> ('st, 'n, 's, 'l) node_state
     \<Rightarrow> (unit, report) rresult \<times> ('st, 'n, 's, 'l) node_state" where
  "update_status_channel E ns =
     (case last_rollup_block E (ns_storage ns) of
        Ok h \<Rightarrow> (Ok (), ns\<lparr>ns_status := AtHeight h\<rparr>)
      | Err e \<Rightarrow> (Err e, ns)
      | Panic \<Rightarrow> (Panic, ns))"

text \<open>The two phases of a notification, each only if the notification has that part.\<close>

definition revert_phase ::
  "('st, 'rd, 'eb, 'l, 'n, 'c, 'x, 's) node_env \<Rightarrow> instant \<Rightarrow> 'c host_notification \<Rightarrow> ('st, 'n, 's, 'l) node_state
     \<Rightarrow> (bool, report) rresult \<times> ('st, 'n, 's, 'l) node_state" where
  "revert_phase E now notification ns =
     (case notif_revert_range notification of
        Some rg \<Rightarrow>
          (case on_host_revert E now rg ns of
             (r, ns1) \<Rightarrow> (map_report (Wrap ''error encountered during revert'') r, ns1))
      | None \<Rightarrow> (Ok False, ns))"

definition commit_phase ::
  "('st, 'rd, 'eb, 'l, 'n, 'c, 'x, 's) node_env \<Rightarrow> 'c host_notification \<Rightarrow> ('st, 'n, 's, 'l) node_state
     \<Rightarrow> (bool, report) rresult \<times> ('st, 'n, 's, 'l) node_state" where
  "commit_phase E notification ns =
     (case committed_chain notification of
        Some chain \<Rightarrow>
          (case process_committed_chain E chain ns of
             (r, ns1) \<Rightarrow> (map_report (Wrap ''error encountered during commit'') r, ns1))
      | None \<Rightarrow> (Ok False, ns))"

definition on_notification ::
  "('st, 'rd, 'eb, 'l, 'n, 'c, 'x, 's) node_env \<Rightarrow> instant \<Rightarrow> 'c host_notification \<Rightarrow> ('st, 'n, 's, 'l) node_state
     \<Rightarrow> (bool, report) rresult \<times> ('st, 'n, 's, 'l) node_state" where
  "on_notification E now notification ns =
     (case revert_phase E now notification ns of
        (Err e, ns1) \<Rightarrow> (Err e, ns1)
      | (Panic, ns1) \<Rightarrow> (Panic, ns1)
      | (Ok changed1, ns1) \<Rightarrow>
          (case commit_phase E notification ns1 of
             (Err e, ns2) \<Rightarrow> (Err e, ns2)
           | (Panic, ns2) \<Rightarrow> (Panic, ns2)
           | (Ok changed2, ns2) \<Rightarrow>
               if changed1 \<or> changed2 then
                 (case update_status_channel E ns2 of
                    (r, ns3) \<Rightarrow> (rmap (\<lambda>_. True) r, ns3))
               else (Ok False, ns2)))"

section \<open>Block tags\<close>

definition clamp_host_heights :: "constants_ops \<Rightarrow> u64 \<Rightarrow> u64 option \<Rightarrow> paired_heights" where
  "clamp_host_heights C ru_height host_block_number =
     (case Option.bind host_block_number (co_pair_host C) of
        None \<Rightarrow> \<lparr>ph_host = co_host_deploy_height C, ph_rollup = 0\<rparr>
      | Some heights \<Rightarrow> if ph_rollup heights > ru_height then co_pair_ru C ru_height else heights)"

definition update_highest_processed_height ::
  "('st, 'rd, 'eb, 'l, 'n, 'c, 'x, 's) node_env \<Rightarrow> u64 \<Rightarrow> ('st, 'n, 's, 'l) node_state
     \<Rightarrow> (unit, report) rresult \<times> ('st, 'n, 's, 'l) node_state" where
  "update_highest_processed_height E finalized_host_height ns =
     (let adjusted_height = saturating_sub finalized_host_height 1
      in case no_send_finished_height (ne_notifier E) adjusted_height (ns_notifier ns) of
           (r, n) \<Rightarrow> (eyre r, ns\<lparr>ns_notifier := n\<rparr>))"

definition update_block_tags ::
  "('st, 'rd, 'eb, 'l, 'n, 'c, 'x, 's) node_env \<Rightarrow> u64 \<Rightarrow> u64 option \<Rightarrow> u64 option \<Rightarrow> ('st, 'n, 's, 'l) node_state
     \<Rightarrow> (unit, report) rresult \<times> ('st, 'n, 's, 'l) node_state" where
  "update_block_tags E ru_height safe_number finalized_number ns =
     (let safe_heights = clamp_host_heights (ne_constants E) ru_height safe_number;
          finalized_heights = clamp_host_heights (ne_constants E) ru_height finalized_number;
          ns1 = ns\<lparr>ns_chain := (ns_chain ns)\<lparr>cn_tags :=
                   update_all ru_height (ph_rollup safe_heights) (ph_rollup finalized_heights) (cn_tags (ns_chain ns))\<rparr>\<rparr>
      in if ph_rollup finalized_heights > 0
         then update_highest_processed_height E (ph_host finalized_heights) ns1
         else (Ok (), ns1))"

section \<open>Startup and main loop\<close>

definition reconcile ::
  "('st, 'rd, 'eb, 'l, 'n, 'c, 'x, 's) node_env \<Rightarrow> ('st, 'n, 's, 'l) node_state
     \<Rightarrow> (unit, report) rresult \<times> ('st, 'n, 's, 'l) node_state" where
  "reconcile E ns =
     (case rbind (last_rollup_block E (ns_storage ns)) (\<lambda>hot_tip.
           rbind (eyre (so_cold_latest (ne_storage E) (ns_storage ns))) (\<lambda>c. Ok (hot_tip, opt_default 0 c))) of
        Err e \<Rightarrow> (Err e, ns)
      | Panic \<Rightarrow> (Panic, ns)
      | Ok (hot_tip, cold_tip) \<Rightarrow>
          (let target = min hot_tip cold_tip
           in if target < hot_tip \<or> target < cold_tip
              then (case so_unwind_above (ne_storage E) target (ns_storage ns) of
                      (r, st) \<Rightarrow> (eyre r, ns\<lparr>ns_storage := st\<rparr>))
              else (Ok (), ns)))"

text \<open>One turn of the loop: \<open>None\<close> goes on, \<open>Some\<close> ends it.\<close>

definition node_turn ::
  "('st, 'rd, 'eb, 'l, 'n, 'c, 'x, 's) node_env \<Rightarrow> instant \<Rightarrow> ('st, 'n, 's, 'l) node_state
     \<Rightarrow> (unit, report) rresult option \<times> ('st, 'n, 's, 'l) node_state" where
  "node_turn E now ns =
     (case no_next_notification (ne_notifier E) (ns_notifier ns) of
        (None, n) \<Rightarrow> (Some (Ok ()), ns\<lparr>ns_notifier := n\<rparr>)
      | (Some (Err e), n) \<Rightarrow> (Some (Err (Wrap ''error in host notifications stream'' (Report e))), ns\<lparr>ns_notifier := n\<rparr>)
      | (Some Panic, n) \<Rightarrow> (Some Panic, ns\<lparr>ns_notifier := n\<rparr>)
      | (Some (Ok notification), n) \<Rightarrow>
          (case on_notification E now notification (ns\<lparr>ns_notifier := n\<rparr>) of
             (Err e, ns1) \<Rightarrow> (Some (Err (Wrap ''error while processing notification'' e)), ns1)
           | (Panic, ns1) \<Rightarrow> (Some Panic, ns1)
           | (Ok changed, ns1) \<Rightarrow>
               if \<not> changed then (None, ns1)
               else (case last_rollup_block E (ns_storage ns1) of
                       Err e \<Rightarrow> (Some (Err e), ns1)
                     | Panic \<Rightarrow> (Some Panic, ns1)
                     | Ok ru_height \<Rightarrow>
                         (case update_block_tags E ru_height (safe_block_number notification)
                                 (finalized_block_number notification) ns1 of
                            (Ok _, ns2) \<Rightarrow> (None, ns2)
                          | (Err e, ns2) \<Rightarrow> (Some (Err e), ns2)
                          | (Panic, ns2) \<Rightarrow> (Some Panic, ns2)))))"

text \<open>The loop, a turn per tick of the clock; without turns left it has not ended.\<close>

fun node_loop ::
  "('st, 'rd, 'eb, 'l, 'n, 'c, 'x, 's) node_env \<Rightarrow> instant list \<Rightarrow> ('st, 'n, 's, 'l) node_state
     \<Rightarrow> (unit, report) rresult option \<times> ('st, 'n, 's, 'l) node_state" where
  "node_loop E [] ns = (None, ns)"
| "node_loop E (now # clock) ns =
     (case node_turn E now ns of
        (None, ns1) \<Rightarrow> node_loop E clock ns1
      | (Some r, ns1) \<Rightarrow> (Some r, ns1))"

definition start_rpc ::
  "('st, 'rd, 'eb, 'l, 'n, 'c, 'x, 's) node_env \<Rightarrow> ('st, 'n, 's, 'l) node_state
     \<Rightarrow> (unit, report) rresult \<times> ('st, 'n, 's, 'l) node_state" where
  "start_rpc E ns = (case ne_launch_rpc E of
     Inl e \<Rightarrow> (Err (Report e), ns) | Inr _ \<Rightarrow> (Ok (), ns\<lparr>ns_rpc_running := True\<rparr>))"

text \<open>The start up to the loop.\<close>

definition start_prepare ::
  "('st, 'rd, 'eb, 'l, 'n, 'c, 'x, 's) node_env \<Rightarrow> ('st, 'n, 's, 'l) node_state
     \<Rightarrow> (unit, report) rresult \<times> ('st, 'n, 's, 'l) node_state" where
  "start_prepare E ns =
     (case start_rpc E ns of
        (Err e, ns1) \<Rightarrow> (Err e, ns1)
      | (Panic, ns1) \<Rightarrow> (Panic, ns1)
      | (Ok _, ns1) \<Rightarrow>
          (case last_rollup_block E (ns_storage ns1) of
             Err e \<Rightarrow> (Err e, ns1)
           | Panic \<Rightarrow> (Panic, ns1)
           | Ok last_ru \<Rightarrow>
               (let host_height = (if last_ru = 0 then co_host_deploy_height (ne_constants E)
                                   else ph_host (co_pair_ru (ne_constants E) last_ru));
                    n = no_set_backfill_thresholds (ne_notifier E) (ne_backfill_max_blocks E)
                          (no_set_head (ne_notifier E) host_height (ns_notifier ns1))
                in (Ok (), ns1\<lparr>ns_status := AtHeight last_ru, ns_notifier := n\<rparr>))))"

definition start_inner ::
  "('st, 'rd, 'eb, 'l, 'n, 'c, 'x, 's) node_env \<Rightarrow> instant list \<Rightarrow> ('st, 'n, 's, 'l) node_state
     \<Rightarrow> (unit, report) rresult option \<times> ('st, 'n, 's, 'l) node_state" where
  "start_inner E clock ns =
     (case start_prepare E ns of
        (Ok _, ns1) \<Rightarrow> node_loop E clock ns1
      | (r, ns1) \<Rightarrow> (Some r, ns1))"

definition start ::
  "('st, 'rd, 'eb, 'l, 'n, 'c, 'x, 's) node_env \<Rightarrow> instant list \<Rightarrow> ('st, 'n, 's, 'l) node_state
     \<Rightarrow> (unit, report) rresult option \<times> ('st, 'n, 's, 'l) node_state" where
  "start E clock ns =
     (case reconcile E ns of
        (Ok _, ns1) \<Rightarrow> start_inner E clock ns1
      | (r, ns1) \<Rightarrow> (Some r, ns1))"

end
