(* ===== verification/Node_Facts.thy ===== *)
theory Node_Facts
  imports Node_Core
begin

text \<open>
  Facts about the node: what a commit, a revert and a tag update do to storage, events and
  tags, the invariant of all states the main loop goes through, and two behaviours at
  the edges (a failing append, a restart).
\<close>

section \<open>What the node relies on\<close>

text \<open>
  \<open>height\<close> is the rollup height hot storage holds. Reads report it, an append of one block moves it
  to that block, draining or unwinding cuts it down and hands back the blocks above, and the
  processor makes the block of the extracted height.
\<close>

definition block_number_of :: "('st, 'rd, 'eb, 'l, 'n, 'c, 'x, 's) node_env \<Rightarrow> 'eb \<Rightarrow> u64" where
  "block_number_of E b = h_number (nb_header (ne_notif E b))"

definition node_laws :: "('st, 'rd, 'eb, 'l, 'n, 'c, 'x, 's) node_env \<Rightarrow> ('st \<Rightarrow> u64) \<Rightarrow> bool" where
  "node_laws E height \<longleftrightarrow>
     (\<forall>st rd k. so_reader (ne_storage E) st = Inr rd \<longrightarrow> so_last_block_number (ne_storage E) rd = Inr k \<longrightarrow>
        opt_default 0 k = height st)
     \<and> (\<forall>b st u st'. so_append_blocks (ne_storage E) [b] st = (Inr u, st') \<longrightarrow> height st' = block_number_of E b)
     \<and> (\<forall>t st ds st'. so_drain_above (ne_storage E) t st = (Inr ds, st') \<longrightarrow>
          height st' = min t (height st) \<and> map (h_number \<circ> db_header) ds = [Suc t..<Suc (height st)])
     \<and> (\<forall>st x bl b bl'. ne_execute E st x bl = (Ok b, bl') \<longrightarrow> block_number_of E b = ne_ru_height E x)"

lemma last_rollup_block_height:
  "node_laws E height \<Longrightarrow> last_rollup_block E st = Ok h \<Longrightarrow> h = height st"
  by (auto simp: node_laws_def last_rollup_block_def rres_simps)

lemma last_rollup_block_no_panic: "last_rollup_block E st \<noteq> Panic"
  by (cases "so_reader (ne_storage E) st"; cases "so_last_block_number (ne_storage E) (projr (so_reader (ne_storage E) st))")
    (simp_all add: last_rollup_block_def)

lemma append_height:
  "node_laws E height \<Longrightarrow> so_append_blocks (ne_storage E) [b] st = (Inr u, st') \<Longrightarrow> height st' = block_number_of E b"
  unfolding node_laws_def by blast

lemma drain_height:
  assumes "node_laws E height" "so_drain_above (ne_storage E) t st = (Inr ds, st')"
  shows "height st' = min t (height st)" "map (h_number \<circ> db_header) ds = [Suc t..<Suc (height st)]"
  using assms unfolding node_laws_def by blast+

lemma execute_height:
  "node_laws E height \<Longrightarrow> ne_execute E st x bl = (Ok b, bl') \<Longrightarrow> block_number_of E b = ne_ru_height E x"
  unfolding node_laws_def by blast

text \<open>Paired heights: rollup block \<open>n\<close> belongs to the host block \<open>n\<close> behind the deployment.\<close>

definition constants_ok :: "constants_ops \<Rightarrow> bool" where
  "constants_ok C \<longleftrightarrow>
     (\<forall>n. co_pair_ru C n = \<lparr>ph_host = co_host_deploy_height C + n, ph_rollup = n\<rparr>)
     \<and> (\<forall>h. co_pair_host C h = map_option (\<lambda>n. \<lparr>ph_host = h, ph_rollup = n\<rparr>) (co_host_block_to_rollup_block_num C h))
     \<and> (\<forall>h > co_host_deploy_height C. co_host_block_to_rollup_block_num C h = Some (h - co_host_deploy_height C))
     \<and> (\<forall>h \<le> co_host_deploy_height C. opt_default 0 (co_host_block_to_rollup_block_num C h) = 0)"

section \<open>Commits\<close>

text \<open>The events a list of notifications becomes: none without a receiver.\<close>

definition sent_events :: "'l chain_notifier \<Rightarrow> 'l new_block_notification list \<Rightarrow> 'l chain_event list" where
  "sent_events c ns = (if cn_receivers c = 0 then [] else map NewBlock ns)"

lemma notify_new_block_chain:
  "ns_chain (notify_new_block E b ns) = (ns_chain ns)\<lparr>cn_sent := cn_sent (ns_chain ns) @ sent_events (ns_chain ns) [ne_notif E b]\<rparr>"
  "ns_storage (notify_new_block E b ns) = ns_storage ns"
  "ns_status (notify_new_block E b ns) = ns_status ns"
  "ns_notifier (notify_new_block E b ns) = ns_notifier ns"
  by (simp_all add: notify_new_block_def send_new_block_def send_event_def sent_events_def)

lemma process_extracts_effect:
  assumes laws: "node_laws E height"
    and "process_extracts E h xs p ns = (Ok p', ns')"
  defines "new \<equiv> filter (\<lambda>x. ne_ru_height E x > h) xs"
  shows "p' = (p \<or> new \<noteq> [])
    \<and> height (ns_storage ns') = (if new = [] then height (ns_storage ns) else ne_ru_height E (last new))
    \<and> (new = [] \<longrightarrow> ns' = ns)
    \<and> (\<exists>l. map (h_number \<circ> nb_header) l = map (ne_ru_height E) new
         \<and> ns_chain ns' = (ns_chain ns)\<lparr>cn_sent := cn_sent (ns_chain ns) @ sent_events (ns_chain ns) l\<rparr>)
    \<and> ns_status ns' = ns_status ns \<and> ns_notifier ns' = ns_notifier ns"
  using assms(2) unfolding new_def
proof (induction xs arbitrary: p ns)
  case Nil
  then show ?case by (auto simp: sent_events_def)
next
  case (Cons x xs)
  show ?case
  proof (cases "ne_ru_height E x > h")
    case True
    obtain b bl where b: "ne_execute E (ns_storage ns) x (ns_blobs ns) = (Ok b, bl)"
      using Cons.prems True by (cases "ne_execute E (ns_storage ns) x (ns_blobs ns)"; cases "fst (ne_execute E (ns_storage ns) x (ns_blobs ns))") auto
    obtain u st where a: "so_append_blocks (ne_storage E) [b] (ns_storage ns) = (Inr u, st)"
      using Cons.prems True b
      by (cases "so_append_blocks (ne_storage E) [b] (ns_storage ns)"; cases "fst (so_append_blocks (ne_storage E) [b] (ns_storage ns))")
        (auto simp: Let_def notify_new_block_chain)
    let ?ns1 = "notify_new_block E b (ns\<lparr>ns_blobs := bl\<rparr>)\<lparr>ns_storage := st\<rparr>"
    have run: "process_extracts E h xs True ?ns1 = (Ok p', ns')"
      using Cons.prems True b a by (simp add: Let_def notify_new_block_chain)
    have n: "h_number (nb_header (ne_notif E b)) = ne_ru_height E x" "height st = ne_ru_height E x"
      using execute_height[OF laws b] append_height[OF laws a] by (simp_all add: block_number_of_def)
    obtain l where l: "map (h_number \<circ> nb_header) l = map (ne_ru_height E) (filter (\<lambda>x. ne_ru_height E x > h) xs)"
      "ns_chain ns' = (ns_chain ?ns1)\<lparr>cn_sent := cn_sent (ns_chain ?ns1) @ sent_events (ns_chain ?ns1) l\<rparr>"
      using Cons.IH[OF run] by blast
    have "ns_chain ns' = (ns_chain ns)\<lparr>cn_sent := cn_sent (ns_chain ns) @ sent_events (ns_chain ns) (ne_notif E b # l)\<rparr>"
      using l(2) by (simp add: notify_new_block_chain sent_events_def)
    moreover have "map (h_number \<circ> nb_header) (ne_notif E b # l)
        = map (ne_ru_height E) (filter (\<lambda>x. ne_ru_height E x > h) (x # xs))"
      using l(1) n(1) True by simp
    ultimately have ev: "\<exists>l. map (h_number \<circ> nb_header) l
          = map (ne_ru_height E) (filter (\<lambda>x. ne_ru_height E x > h) (x # xs))
        \<and> ns_chain ns' = (ns_chain ns)\<lparr>cn_sent := cn_sent (ns_chain ns) @ sent_events (ns_chain ns) l\<rparr>"
      by blast
    have rest: "p' \<and> height (ns_storage ns') = (if filter (\<lambda>x. ne_ru_height E x > h) xs = [] then height st
          else ne_ru_height E (last (filter (\<lambda>x. ne_ru_height E x > h) xs)))
        \<and> ns_status ns' = ns_status ns \<and> ns_notifier ns' = ns_notifier ns"
      using Cons.IH[OF run] by (simp add: notify_new_block_chain)
    show ?thesis
    proof (intro conjI ev)
      show "height (ns_storage ns') = (if filter (\<lambda>x. h < ne_ru_height E x) (x # xs) = []
          then height (ns_storage ns) else ne_ru_height E (last (filter (\<lambda>x. h < ne_ru_height E x) (x # xs))))"
        using rest True n(2) by simp
    qed (use rest True in simp_all)
  next
    case False
    then show ?thesis using Cons.IH[of p ns] Cons.prems by simp
  qed
qed

lemma filter_greater_upt:
  "a \<le> Suc h \<Longrightarrow> filter (\<lambda>n. n > h) [a..<b] = [Suc h..<b]"
  by (induction b) (auto simp: not_less_eq_eq)

lemma committed_heights:
  assumes laws: "node_laws E height"
    and r: "process_extracts E (height (ns_storage ns)) xs p ns = (Ok p', ns')"
    and cons: "consec (map (ne_ru_height E) xs)"
    and gap: "xs \<noteq> [] \<longrightarrow> ne_ru_height E (hd xs) \<le> Suc (height (ns_storage ns))"
  shows "map (ne_ru_height E) (filter (\<lambda>x. ne_ru_height E x > height (ns_storage ns)) xs)
        = [Suc (height (ns_storage ns))..<Suc (height (ns_storage ns'))]
      \<and> height (ns_storage ns') = (if xs = [] then height (ns_storage ns)
          else max (height (ns_storage ns)) (ne_ru_height E (last xs)))"
proof (cases "xs = []")
  case False
  let ?h = "height (ns_storage ns)" and ?a = "ne_ru_height E (hd xs)"
  let ?new = "filter (\<lambda>x. ne_ru_height E x > ?h) xs"
  note eff = process_extracts_effect[OF laws r]
  have new: "map (ne_ru_height E) ?new = filter (\<lambda>n. n > ?h) (map (ne_ru_height E) xs)"
    by (simp add: filter_map comp_def)
  have upt: "map (ne_ru_height E) xs = [?a..<?a + length xs]"
    using consec_upt_iff[of "map (ne_ru_height E) xs"] cons False by (simp add: hd_map)
  have lst: "ne_ru_height E (last xs) = ?a + length xs - 1"
    using consec_last[OF cons] False by (simp add: last_map hd_map)
  have f: "map (ne_ru_height E) ?new = [Suc ?h..<?a + length xs]"
    using new upt filter_greater_upt[OF mp[OF gap False], of "?a + length xs"] by simp
  show ?thesis
  proof (cases "?new = []")
    case True
    then have "[Suc ?h..<?a + length xs] = []" by (metis f list.map_disc_iff)
    then have "?a + length xs \<le> Suc ?h" by auto
    then show ?thesis using eff True f lst False by (cases xs) auto
  next
    case False': False
    then have "[Suc ?h..<?a + length xs] \<noteq> []" by (metis f list.map_disc_iff)
    then have lt: "Suc ?h < ?a + length xs" by auto
    have "ne_ru_height E (last ?new) = last (map (ne_ru_height E) ?new)" using False' by (simp add: last_map)
    then have "height (ns_storage ns') = ?a + length xs - 1" using eff False' f lt by simp
    then show ?thesis using f lt lst False by (cases xs) (auto simp: max_def)
  qed
qed (use process_extracts_effect[OF laws r] in auto)

text \<open>Extracts at or below the height are passed over.\<close>

lemma nothing_new:
  "\<forall>x\<in>set xs. \<not> ne_ru_height E x > h \<Longrightarrow> process_extracts E h xs p ns = (Ok p, ns)"
  by (induction xs) auto

text \<open>
  C5: a committed chain whose extracts are consecutive and continue what is stored moves the rollup
  height to the last extract, announces exactly the blocks it adds, each once and in
  order, leaves the tags alone and reports a change exactly when it added something;
  delivering the same chain again changes nothing, so redelivery after a restart is harmless.
\<close>

theorem committed_chain_exact:
  assumes laws: "node_laws E height"
    and run: "process_committed_chain E chain ns = (Ok changed, ns')"
    and cons: "consec (map (ne_ru_height E) (ne_extract E chain))"
    and gap: "ne_extract E chain \<noteq> [] \<Longrightarrow> ne_ru_height E (hd (ne_extract E chain)) \<le> Suc (height (ns_storage ns))"
  shows "height (ns_storage ns') = (if ne_extract E chain = [] then height (ns_storage ns)
            else max (height (ns_storage ns)) (ne_ru_height E (last (ne_extract E chain))))
    \<and> (changed \<longleftrightarrow> height (ns_storage ns') \<noteq> height (ns_storage ns))
    \<and> (\<exists>l. map (h_number \<circ> nb_header) l = [Suc (height (ns_storage ns))..<Suc (height (ns_storage ns'))]
         \<and> ns_chain ns' = (ns_chain ns)\<lparr>cn_sent := cn_sent (ns_chain ns) @ sent_events (ns_chain ns) l\<rparr>)
    \<and> (\<forall>h. last_rollup_block E (ns_storage ns') = Ok h \<longrightarrow> process_committed_chain E chain ns' = (Ok False, ns'))"
proof -
  let ?h = "height (ns_storage ns)" and ?xs = "ne_extract E chain"
  let ?new = "filter (\<lambda>x. ne_ru_height E x > ?h) ?xs"
  obtain k where k: "last_rollup_block E (ns_storage ns) = Ok k"
    using run by (cases "last_rollup_block E (ns_storage ns)") (simp_all add: process_committed_chain_def)
  then have r: "process_extracts E ?h ?xs False ns = (Ok changed, ns')"
    using run last_rollup_block_height[OF laws k] by (simp add: process_committed_chain_def)
  note eff = process_extracts_effect[OF laws r]
  have "?xs \<noteq> [] \<longrightarrow> ne_ru_height E (hd ?xs) \<le> Suc ?h" using gap by blast
  note heights = committed_heights[OF laws r cons this]
  have ch: "changed \<longleftrightarrow> height (ns_storage ns') \<noteq> ?h"
  proof -
    have "?new = [] \<longleftrightarrow> [Suc ?h..<Suc (height (ns_storage ns'))] = []" using heights by (metis list.map_disc_iff)
    then have "?new = [] \<longleftrightarrow> height (ns_storage ns') \<le> ?h" by auto
    moreover have "?h \<le> height (ns_storage ns')" using heights by auto
    ultimately show ?thesis using eff by auto
  qed
  have again: "process_committed_chain E chain ns' = (Ok False, ns')"
    if "last_rollup_block E (ns_storage ns') = Ok h" for h
  proof -
    have h: "h = height (ns_storage ns')" using last_rollup_block_height[OF laws that] .
    have "x \<notin> set ?xs" if gt: "ne_ru_height E x > h" for x
    proof
      assume "x \<in> set ?xs"
      moreover have "?h \<le> h" using h heights by auto
      ultimately have "ne_ru_height E x \<in> set (map (ne_ru_height E) ?new)" using gt by auto
      then have "ne_ru_height E x \<in> set [Suc ?h..<Suc (height (ns_storage ns'))]"
        by (simp only: conjunct1[OF heights])
      then show False using gt h by simp
    qed
    then have "process_extracts E h ?xs False ns' = (Ok False, ns')" by (intro nothing_new) blast
    then show ?thesis using that by (simp add: process_committed_chain_def)
  qed
  have ev: "\<exists>l. map (h_number \<circ> nb_header) l = [Suc ?h..<Suc (height (ns_storage ns'))]
      \<and> ns_chain ns' = (ns_chain ns)\<lparr>cn_sent := cn_sent (ns_chain ns) @ sent_events (ns_chain ns) l\<rparr>"
    using eff conjunct1[OF heights] by metis
  show ?thesis
    by (rule conjI[OF conjunct2[OF heights] conjI[OF ch conjI[OF ev]]]) (simp add: again)
qed

section \<open>Reverts\<close>

lemma removed_numbers: "map rm_number (map removed_of ds) = map (h_number \<circ> db_header) ds"
  by (simp add: removed_of_def)

lemma revert_target_exact:
  "constants_ok C \<Longrightarrow> revert_target C f = f - co_host_deploy_height C - 1"
  by (cases "f > co_host_deploy_height C")
    (auto simp: revert_target_def constants_ok_def saturating_sub_def)

lemma drained_something:
  assumes "node_laws E height" "so_drain_above (ne_storage E) t st = (Inr ds, st')"
  shows "ds \<noteq> [] \<longleftrightarrow> t < height st"
proof -
  have "ds = [] \<longleftrightarrow> [Suc t..<Suc (height st)] = []"
    using drain_height(2)[OF assms] by (metis list.map_disc_iff)
  then show ?thesis by auto
qed

text \<open>A reorg of drained blocks, recorded and announced behind a cut.\<close>

lemma notify_reorg_effect:
  assumes "ns' = notify_reorg now ds t (ns\<lparr>ns_storage := st,
      ns_chain := (ns_chain ns)\<lparr>cn_tags := rewind_to t (cn_tags (ns_chain ns))\<rparr>\<rparr>)"
  shows "ns_storage ns' = st" "cn_tags (ns_chain ns') = rewind_to t (cn_tags (ns_chain ns))"
    "cn_reorgs (ns_chain ns') =
       push_reorg (now, \<lparr>common_ancestor = t, removed_blocks = map removed_of ds\<rparr>) (cn_reorgs (ns_chain ns))"
    "cn_receivers (ns_chain ns) \<noteq> 0 \<Longrightarrow>
       cn_sent (ns_chain ns') = cn_sent (ns_chain ns) @ [Reorg_Event \<lparr>common_ancestor = t, removed_blocks = map removed_of ds\<rparr>]"
  by (simp_all add: assms notify_reorg_def send_reorg_def send_event_def)

text \<open>
  C6: a host revert behind the deployment that covers the stored tip cuts storage down to the
  rollup block before the first reverted host block, caps every tag there, and records and
  announces one reorg naming that block as common ancestor and exactly the blocks removed;
  a revert that ends at or before the deployment changes nothing, and one that does not cover the stored tip
  is refused with nothing changed.
\<close>

theorem host_revert_exact:
  assumes laws: "node_laws E height" and C: "constants_ok (ne_constants E)"
    and run: "on_host_revert E now rg ns = (r, ns')"
  defines "t \<equiv> rr_first rg - co_host_deploy_height (ne_constants E) - 1"
  shows "(r = Ok True \<longrightarrow>
        height (ns_storage ns') = min t (height (ns_storage ns))
      \<and> cn_tags (ns_chain ns') = rewind_to t (cn_tags (ns_chain ns))
      \<and> (if t < height (ns_storage ns)
         then \<exists>rs. map rm_number rs = [Suc t..<Suc (height (ns_storage ns))]
           \<and> cn_reorgs (ns_chain ns') = push_reorg (now, \<lparr>common_ancestor = t, removed_blocks = rs\<rparr>) (cn_reorgs (ns_chain ns))
           \<and> (cn_receivers (ns_chain ns) \<noteq> 0 \<longrightarrow>
                cn_sent (ns_chain ns') = cn_sent (ns_chain ns) @ [Reorg_Event \<lparr>common_ancestor = t, removed_blocks = rs\<rparr>])
         else cn_reorgs (ns_chain ns') = cn_reorgs (ns_chain ns) \<and> cn_sent (ns_chain ns') = cn_sent (ns_chain ns)))
    \<and> (r = Ok False \<longrightarrow> ns' = ns \<and> rr_tip rg \<le> co_host_deploy_height (ne_constants E))
    \<and> (co_host_deploy_height (ne_constants E) < rr_tip rg \<longrightarrow>
        rr_tip rg < co_host_deploy_height (ne_constants E) + height (ns_storage ns) \<longrightarrow> (\<exists>e. r = Err e) \<and> ns' = ns)"
proof (cases "rr_tip rg \<le> co_host_deploy_height (ne_constants E)")
  case False
  let ?C = "ne_constants E" and ?h = "height (ns_storage ns)"
  have tip: "co_host_block_to_rollup_block_num ?C (rr_tip rg) = Some (rr_tip rg - co_host_deploy_height ?C)"
    using C False by (simp add: constants_ok_def)
  have t: "revert_target ?C (rr_first rg) = t" using revert_target_exact[OF C] by (simp add: t_def)
  show ?thesis
  proof (cases "last_rollup_block E (ns_storage ns)")
    case (Ok k)
    then have k: "k = ?h" using last_rollup_block_height[OF laws] by blast
    show ?thesis
    proof (cases "rr_tip rg - co_host_deploy_height ?C \<ge> ?h")
      case True
      obtain x st where d: "so_drain_above (ne_storage E) t (ns_storage ns) = (x, st)" by force
      show ?thesis
      proof (cases x)
        case (Inl e)
        then show ?thesis using run False Ok tip k True t d by (auto simp: on_host_revert_def)
      next
        case (Inr ds)
        note dh = drain_height[OF laws d[unfolded Inr]]
        note e = drained_something[OF laws d[unfolded Inr]]
        have rm: "map rm_number (map removed_of ds) = [Suc t..<Suc ?h]" using dh(2) removed_numbers[of ds] by simp
        show ?thesis
        proof (cases "ds = []")
          case True': True
          then show ?thesis using run False Ok tip k True t d Inr dh(1) e
            by (auto simp: on_host_revert_def)
        next
          case False': False
          have res: "r = Ok True"
            "ns' = notify_reorg now ds t (ns\<lparr>ns_storage := st,
               ns_chain := (ns_chain ns)\<lparr>cn_tags := rewind_to t (cn_tags (ns_chain ns))\<rparr>\<rparr>)"
            using run False Ok tip k True t d Inr False' by (auto simp: on_host_revert_def)
          show ?thesis
            using res(1) e False' rm True dh(1) notify_reorg_effect[OF res(2)] by (auto simp del: map_map)
        qed
      qed
    qed (use run False Ok tip k in \<open>auto simp: on_host_revert_def\<close>)
  qed (use run False last_rollup_block_no_panic[of E "ns_storage ns"] in \<open>auto simp: on_host_revert_def\<close>)
qed (use run in \<open>auto simp: on_host_revert_def\<close>)

end
