(* ===== verification/Node_Invariant.thy ===== *)
theory Node_Invariant
  imports Node_Facts
begin

text \<open>
  Block tags, the invariant of the node's main loop over all reachable states, and the
  restart. Reachability is the closure of \<open>node_turn\<close> on turns that go on.
\<close>

section \<open>Block tags\<close>

definition rollup_of :: "constants_ops \<Rightarrow> u64 option \<Rightarrow> u64" where
  "rollup_of C h = (case h of None \<Rightarrow> 0 | Some n \<Rightarrow> n - co_host_deploy_height C)"

lemma clamp_exact:
  assumes "constants_ok C"
  shows "ph_rollup (clamp_host_heights C ru h) = min ru (rollup_of C h)"
    and "0 < ph_rollup (clamp_host_heights C ru h) \<Longrightarrow>
           ph_host (clamp_host_heights C ru h) = co_host_deploy_height C + ph_rollup (clamp_host_heights C ru h)"
proof -
  have pr: "co_pair_ru C n = \<lparr>ph_host = co_host_deploy_height C + n, ph_rollup = n\<rparr>"
    and ph: "co_pair_host C k = map_option (\<lambda>n. \<lparr>ph_host = k, ph_rollup = n\<rparr>) (co_host_block_to_rollup_block_num C k)"
    for n k using assms unfolding constants_ok_def by blast+
  have up: "co_host_deploy_height C < k \<Longrightarrow> co_host_block_to_rollup_block_num C k = Some (k - co_host_deploy_height C)"
    and low: "k \<le> co_host_deploy_height C \<Longrightarrow> opt_default 0 (co_host_block_to_rollup_block_num C k) = 0"
    for k using assms unfolding constants_ok_def by blast+
  show "ph_rollup (clamp_host_heights C ru h) = min ru (rollup_of C h)"
  proof (cases h)
    case (Some k)
    then show ?thesis using up[of k] low[of k]
      by (cases "co_host_deploy_height C < k"; cases "co_host_block_to_rollup_block_num C k")
        (auto simp: clamp_host_heights_def rollup_of_def ph pr)
  qed (simp add: clamp_host_heights_def rollup_of_def)
  show "0 < ph_rollup (clamp_host_heights C ru h) \<Longrightarrow>
           ph_host (clamp_host_heights C ru h) = co_host_deploy_height C + ph_rollup (clamp_host_heights C ru h)"
  proof (cases h)
    case (Some k)
    assume "0 < ph_rollup (clamp_host_heights C ru h)"
    then show ?thesis using Some up[of k] low[of k]
      by (cases "co_host_deploy_height C < k"; cases "co_host_block_to_rollup_block_num C k")
        (auto simp: clamp_host_heights_def ph pr)
  qed (simp add: clamp_host_heights_def)
qed

lemma update_highest_frame:
  "update_highest_processed_height E h ns = (r, ns') \<Longrightarrow>
     ns_storage ns' = ns_storage ns \<and> ns_chain ns' = ns_chain ns \<and> ns_status ns' = ns_status ns"
  by (auto simp: update_highest_processed_height_def Let_def split: prod.splits)

lemma update_block_tags_frame:
  assumes "update_block_tags E ru s f ns = (r, ns')"
  shows "ns_storage ns' = ns_storage ns \<and> ns_status ns' = ns_status ns
    \<and> cn_tags (ns_chain ns') = update_all ru (ph_rollup (clamp_host_heights (ne_constants E) ru s))
        (ph_rollup (clamp_host_heights (ne_constants E) ru f)) (cn_tags (ns_chain ns))"
  using assms by (auto simp: update_block_tags_def Let_def dest!: update_highest_frame split: if_splits)

text \<open>
  C24: after a processed notification the latest tag is the rollup height, safe and finalized are
  the rollup blocks of the host's safe and finalized blocks, cut at the rollup height (genesis for a
  host block at or before the deployment or an unknown one), in order when the host's are;
  the host is told to prune up to the block before the finalized one, and only when the
  finalized rollup block is not genesis.
\<close>

theorem block_tags_from_host:
  assumes C: "constants_ok (ne_constants E)"
    and run: "update_block_tags E ru s f ns = (r, ns')"
  defines "fin \<equiv> min ru (rollup_of (ne_constants E) f)"
  shows "cn_tags (ns_chain ns') = (cn_tags (ns_chain ns))\<lparr>tag_latest := ru,
           tag_safe := min ru (rollup_of (ne_constants E) s), tag_finalized := fin\<rparr>
    \<and> ((\<forall>b. f = Some b \<longrightarrow> (\<exists>a \<ge> b. s = Some a)) \<longrightarrow> tags_ordered (cn_tags (ns_chain ns')))
    \<and> (if fin = 0 then r = Ok () \<and> ns_notifier ns' = ns_notifier ns
       else (eyre (fst (no_send_finished_height (ne_notifier E) (co_host_deploy_height (ne_constants E) + fin - 1) (ns_notifier ns))) = r
          \<and> ns_notifier ns' = snd (no_send_finished_height (ne_notifier E) (co_host_deploy_height (ne_constants E) + fin - 1) (ns_notifier ns))))"
proof -
  let ?F = "clamp_host_heights (ne_constants E) ru f"
  have F: "ph_rollup ?F = fin" by (simp add: clamp_exact(1)[OF C] fin_def)
  have tags: "cn_tags (ns_chain ns') = (cn_tags (ns_chain ns))\<lparr>tag_latest := ru,
           tag_safe := min ru (rollup_of (ne_constants E) s), tag_finalized := fin\<rparr>"
    using update_block_tags_frame[OF run] F by (simp add: update_all_result clamp_exact(1)[OF C])
  have ord: "tags_ordered (cn_tags (ns_chain ns'))" if "\<forall>b. f = Some b \<longrightarrow> (\<exists>a \<ge> b. s = Some a)"
  proof -
    have "rollup_of (ne_constants E) f \<le> rollup_of (ne_constants E) s"
      using that by (cases f) (auto simp: rollup_of_def diff_le_mono)
    then show ?thesis using tags by (simp add: tags_ordered_def fin_def)
  qed
  have snd: "if fin = 0 then r = Ok () \<and> ns_notifier ns' = ns_notifier ns
       else (eyre (fst (no_send_finished_height (ne_notifier E) (co_host_deploy_height (ne_constants E) + fin - 1) (ns_notifier ns))) = r
          \<and> ns_notifier ns' = snd (no_send_finished_height (ne_notifier E) (co_host_deploy_height (ne_constants E) + fin - 1) (ns_notifier ns)))"
  proof (cases "fin = 0")
    case False
    then have h: "ph_host ?F = co_host_deploy_height (ne_constants E) + fin" using clamp_exact(2)[OF C, of ru f] F by simp
    show ?thesis using run False F h
      by (auto simp: update_block_tags_def update_highest_processed_height_def saturating_sub_def Let_def
          split: prod.splits)
  qed (use run F in \<open>auto simp: update_block_tags_def Let_def\<close>)
  show ?thesis using tags ord snd by blast
qed

section \<open>Reachable states\<close>

inductive node_reach ::
  "('st, 'rd, 'eb, 'l, 'n, 'c, 'x, 's) node_env \<Rightarrow> ('st, 'n, 's, 'l) node_state \<Rightarrow> ('st, 'n, 's, 'l) node_state \<Rightarrow> bool"
  for E and ns0 where
  start: "node_reach E ns0 ns0"
| turn: "node_reach E ns0 ns \<Longrightarrow> node_turn E now ns = (None, ns') \<Longrightarrow> node_reach E ns0 ns'"

lemma node_loop_reach:
  "node_loop E clock ns = (None, ns') \<Longrightarrow> node_reach E ns0 ns \<Longrightarrow> node_reach E ns0 ns'"
proof (induction clock arbitrary: ns)
  case (Cons now clock)
  obtain r ns1 where t: "node_turn E now ns = (r, ns1)" by force
  with Cons.prems(1) have "r = None" by (cases r) auto
  with t have "node_reach E ns0 ns1" using node_reach.turn[OF Cons.prems(2)] by simp
  then show ?case using Cons t \<open>r = None\<close> by simp
qed simp

text \<open>
  The invariant: no tag lies above the stored height, \<open>latest\<close> names the stored tip or no
  tag was ever set, and the status channel shows the stored height.
\<close>

definition node_ok :: "('st \<Rightarrow> u64) \<Rightarrow> ('st, 'n, 's, 'l) node_state \<Rightarrow> bool" where
  "node_ok height ns \<longleftrightarrow>
     (let t = cn_tags (ns_chain ns); h = height (ns_storage ns) in
        (tag_latest t = h \<or> tag_latest t = 0) \<and> tag_safe t \<le> tag_latest t \<and> tag_finalized t \<le> tag_latest t)
     \<and> ns_status ns = AtHeight (height (ns_storage ns))"

text \<open>The phases of one notification.\<close>

lemma revert_frame:
  assumes "on_host_revert E now rg ns = (r, ns')"
  shows "ns_status ns' = ns_status ns \<and> ns_notifier ns' = ns_notifier ns \<and> (r = Ok False \<longrightarrow> ns' = ns)"
  using assms
  by (auto simp: on_host_revert_def notify_reorg_def Let_def split: if_splits rresult.splits prod.splits sum.splits)

lemma commit_frame:
  assumes "node_laws E height" "process_committed_chain E chain ns = (Ok changed, ns')"
  shows "(\<not> changed \<longrightarrow> ns' = ns) \<and> cn_tags (ns_chain ns') = cn_tags (ns_chain ns) \<and> ns_status ns' = ns_status ns"
proof -
  obtain k where "process_extracts E k (ne_extract E chain) False ns = (Ok changed, ns')"
    using assms(2) by (cases "last_rollup_block E (ns_storage ns)") (auto simp: process_committed_chain_def)
  from process_extracts_effect[OF assms(1) this] show ?thesis by auto
qed

lemma on_notification_effect:
  assumes laws: "node_laws E height"
    and run: "on_notification E now notification ns = (Ok changed, ns')"
  shows "(\<not> changed \<longrightarrow> ns' = ns) \<and> (changed \<longrightarrow> ns_status ns' = AtHeight (height (ns_storage ns')))"
proof -
  obtain c1 ns1 where a: "revert_phase E now notification ns = (Ok c1, ns1)"
    using run unfolding on_notification_def by (auto split: prod.splits rresult.splits)
  then have a1: "\<not> c1 \<longrightarrow> ns1 = ns"
    by (auto simp: revert_phase_def rres_simps dest: revert_frame split: option.splits prod.splits)
  obtain c2 ns2 where b: "commit_phase E notification ns1 = (Ok c2, ns2)"
    using run a unfolding on_notification_def by (auto split: prod.splits rresult.splits)
  then have b1: "\<not> c2 \<longrightarrow> ns2 = ns1"
    by (auto simp: commit_phase_def rres_simps dest: commit_frame[OF laws] split: option.splits prod.splits)
  have e: "(if c1 \<or> c2 then (case update_status_channel E ns2 of (r, ns3) \<Rightarrow> (rmap (\<lambda>_. True) r, ns3))
      else (Ok False, ns2)) = (Ok changed, ns')"
    using run a b by (simp add: on_notification_def)
  show ?thesis
  proof (cases "c1 \<or> c2")
    case True
    then obtain h where "last_rollup_block E (ns_storage ns2) = Ok h" "ns' = ns2\<lparr>ns_status := AtHeight h\<rparr>" "changed"
      using e by (cases "last_rollup_block E (ns_storage ns2)") (auto simp: update_status_channel_def)
    then show ?thesis using last_rollup_block_height[OF laws, of "ns_storage ns2" h] by auto
  next
    case False
    then show ?thesis using e a1 b1 by auto
  qed
qed

lemma node_turn_ok:
  assumes laws: "node_laws E height" and C: "constants_ok (ne_constants E)"
    and "node_turn E now ns = (None, ns')" "node_ok height ns"
  shows "node_ok height ns'"
proof -
  obtain notification n where nx: "no_next_notification (ne_notifier E) (ns_notifier ns) = (Some (Ok notification), n)"
    using assms(3) unfolding node_turn_def by (auto split: prod.splits option.splits rresult.splits)
  obtain changed ns1 where on: "on_notification E now notification (ns\<lparr>ns_notifier := n\<rparr>) = (Ok changed, ns1)"
    using assms(3) nx unfolding node_turn_def by (auto split: prod.splits rresult.splits)
  note eff = on_notification_effect[OF laws on]
  show ?thesis
  proof (cases changed)
    case False
    then have "ns' = ns\<lparr>ns_notifier := n\<rparr>" using assms(3) nx on eff unfolding node_turn_def by simp
    then show ?thesis using assms(4) by (simp add: node_ok_def)
  next
    case True
    obtain h where h: "last_rollup_block E (ns_storage ns1) = Ok h"
      using assms(3) nx on True unfolding node_turn_def by (auto split: rresult.splits)
    then have hh: "h = height (ns_storage ns1)" using last_rollup_block_height[OF laws] by blast
    obtain u where ub: "update_block_tags E h (safe_block_number notification) (finalized_block_number notification) ns1 = (Ok u, ns')"
      using assms(3) nx on True h unfolding node_turn_def by (auto split: prod.splits rresult.splits)
    show ?thesis
      using update_block_tags_frame[OF ub] eff True hh
      by (simp add: node_ok_def update_all_result clamp_exact(1)[OF C] Let_def)
  qed
qed

text \<open>
  C7: in every state the main loop reaches the block tags stay within storage: latest is the
  stored rollup height (or no tag was set yet), safe and finalized do not exceed it, and the
  status channel shows the stored height; this holds through any mixture of commits, reverts and reorgs, in any order.
\<close>

theorem node_reachable_ok:
  assumes laws: "node_laws E height" and C: "constants_ok (ne_constants E)"
    and init: "node_ok height ns0"
  shows "(\<forall>ns. node_reach E ns0 ns \<longrightarrow> node_ok height ns)
    \<and> (\<forall>clock ns'. node_loop E clock ns0 = (None, ns') \<longrightarrow> node_ok height ns')"
proof -
  have inv: "node_ok height s" if "node_reach E ns0 s" for s
    using that by (induction rule: node_reach.induct) (auto intro: init node_turn_ok[OF laws C])
  then show ?thesis using node_loop_reach[OF _ node_reach.start] by blast
qed

section \<open>Announcements before storage\<close>

text \<open>
  A block is announced before it is stored: when the append of a new block fails, the receivers
  have been told of a block that storage does not hold.
\<close>

theorem announced_before_stored:
  assumes laws: "node_laws E height"
    and x: "ne_extract E chain = x # xs" "ne_ru_height E x > height (ns_storage ns)"
    and rd: "last_rollup_block E (ns_storage ns) = Ok h"
    and ex: "ne_execute E (ns_storage ns) x (ns_blobs ns) = (Ok b, bl)"
    and ap: "so_append_blocks (ne_storage E) [b] (ns_storage ns) = (Inl e, st)" "height st = height (ns_storage ns)"
    and rc: "cn_receivers (ns_chain ns) \<noteq> 0"
  shows "\<exists>ns'. process_committed_chain E chain ns = (Err (Report e), ns')
    \<and> NewBlock (ne_notif E b) \<in> set (cn_sent (ns_chain ns'))
    \<and> h_number (nb_header (ne_notif E b)) > height (ns_storage ns')"
proof -
  have "h = height (ns_storage ns)" using last_rollup_block_height[OF laws rd] .
  moreover have "h_number (nb_header (ne_notif E b)) = ne_ru_height E x"
    using execute_height[OF laws ex] by (simp add: block_number_of_def)
  ultimately show ?thesis
    using x rd ex ap rc
    by (simp add: process_committed_chain_def Let_def notify_new_block_chain sent_events_def)
qed

section \<open>Restart\<close>

text \<open>
  A restarted node asks the host for the block of the last stored rollup block and shows its
  height on the status channel, but its block tags stay at genesis until a notification
  brings a block it does not have: delivering the blocks it already stored again, however
  often, leaves latest, safe and finalized at zero.
\<close>

theorem restart_serves_genesis:
  assumes laws: "node_laws E height" and C: "constants_ok (ne_constants E)"
    and up: "start_prepare E (new_unsafe st n bl) = (Ok (), ns1)"
  shows "ns_status ns1 = AtHeight (height st)
    \<and> ns_notifier ns1 = no_set_backfill_thresholds (ne_notifier E) (ne_backfill_max_blocks E)
        (no_set_head (ne_notifier E) (co_host_deploy_height (ne_constants E) + height st) n)
    \<and> cn_tags (ns_chain ns1) = BlockTags_new 0 0 0 \<and> node_ok height ns1
    \<and> (\<forall>now notification chain n'.
         no_next_notification (ne_notifier E) (ns_notifier ns1) = (Some (Ok notification), n') \<longrightarrow>
         kind notification = ChainCommitted chain \<longrightarrow>
         (\<forall>x\<in>set (ne_extract E chain). ne_ru_height E x \<le> height st) \<longrightarrow>
         node_turn E now ns1 = (None, ns1\<lparr>ns_notifier := n'\<rparr>))"
proof -
  obtain h where h: "last_rollup_block E st = Ok h"
    and ns1: "ns1 = (new_unsafe st n bl)\<lparr>ns_rpc_running := True, ns_status := AtHeight h,
        ns_notifier := no_set_backfill_thresholds (ne_notifier E) (ne_backfill_max_blocks E)
          (no_set_head (ne_notifier E) (if h = 0 then co_host_deploy_height (ne_constants E)
             else ph_host (co_pair_ru (ne_constants E) h)) n)\<rparr>"
    using up unfolding start_prepare_def start_rpc_def
    by (cases "ne_launch_rpc E"; cases "last_rollup_block E st") (auto simp: new_unsafe_def Let_def)
  have hh: "h = height st" using last_rollup_block_height[OF laws h] .
  have host: "(if h = 0 then co_host_deploy_height (ne_constants E) else ph_host (co_pair_ru (ne_constants E) h))
      = co_host_deploy_height (ne_constants E) + height st"
    using C hh by (auto simp: constants_ok_def)
  have skip: "process_extracts E h xs False ns = (Ok False, ns)" if "\<forall>x\<in>set xs. ne_ru_height E x \<le> h" for xs ns
    using that by (induction xs) auto
  have turn: "node_turn E now ns1 = (None, ns1\<lparr>ns_notifier := n'\<rparr>)"
    if "no_next_notification (ne_notifier E) (ns_notifier ns1) = (Some (Ok notification), n')"
      "kind notification = ChainCommitted chain" "\<forall>x\<in>set (ne_extract E chain). ne_ru_height E x \<le> height st"
    for now notification chain n'
  proof -
    have "process_committed_chain E chain (ns1\<lparr>ns_notifier := n'\<rparr>) = (Ok False, ns1\<lparr>ns_notifier := n'\<rparr>)"
      using that(3) h hh skip by (simp add: process_committed_chain_def ns1 new_unsafe_def)
    then have "on_notification E now notification (ns1\<lparr>ns_notifier := n'\<rparr>) = (Ok False, ns1\<lparr>ns_notifier := n'\<rparr>)"
      using that(2) by (simp add: on_notification_def revert_phase_def commit_phase_def notif_revert_range_def committed_chain_def map_report_def)
    then show ?thesis using that(1) by (simp add: node_turn_def)
  qed
  show ?thesis using turn hh host
    by (simp add: ns1 new_unsafe_def ChainNotifier_new_def node_ok_def BlockTags_new_def)
qed

end
