(* ===== verification/Node_Example.thy ===== *)
theory Node_Example
  imports Node_Invariant
begin

text \<open>
  A concrete node for the facts of \<open>Node_Facts\<close> and \<open>Node_Invariant\<close>: storage is its height, host chains are lists of extracts,
  the notifier plays a script, and blocks are made by the processor of \<open>Block_Processor\<close>.
\<close>

type_synonym ex_block = "(nat, nat, (nat, nat, address) signet_event, nat) executed_block"
type_synonym ex_chain = "(nat, nat, address, nat) extracts list"

definition ex_drained :: "u64 \<Rightarrow> nat drained_block" where
  "ex_drained n = \<lparr>db_header = ex_header n, db_hash = of_nat n, db_receipt_logs = []\<rparr>"

definition ex_storage :: "(u64, u64, ex_block, nat) storage_ops" where
  "ex_storage = \<lparr>so_reader = Inr, so_last_block_number = (\<lambda>h. Inr (Some h)), so_cold_latest = (\<lambda>h. Inr (Some h)),
     so_unwind_above = (\<lambda>t h. (Inr (), min t h)),
     so_append_blocks = (\<lambda>bs h. case bs of [b] \<Rightarrow> if h_number (eb_header b) = Suc h then (Inr (), Suc h) else (Inl ''gap'', h)
        | _ \<Rightarrow> (Inl ''batch'', h)),
     so_drain_above = (\<lambda>t h. (Inr (map ex_drained [Suc t..<Suc h]), min t h))\<rparr>"

definition ex_constants :: constants_ops where
  "ex_constants = \<lparr>co_host_deploy_height = 100, co_pair_ru = (\<lambda>n. \<lparr>ph_host = 100 + n, ph_rollup = n\<rparr>),
     co_pair_host = (\<lambda>h. if h > 100 then Some \<lparr>ph_host = h, ph_rollup = h - 100\<rparr> else None),
     co_host_block_to_rollup_block_num = (\<lambda>h. if h > 100 then Some (h - 100) else None)\<rparr>"

definition ex_script :: "(ex_chain host_notification list, ex_chain) notifier_ops" where
  "ex_script = \<lparr>no_next_notification = (\<lambda>ns. case ns of [] \<Rightarrow> (None, []) | n # rest \<Rightarrow> (Some (Ok n), rest)),
     no_set_head = (\<lambda>h n. n), no_set_backfill_thresholds = (\<lambda>m n. n), no_send_finished_height = (\<lambda>h n. (Inr (), n))\<rparr>"

type_synonym ex_blobs = "(unit, u8 list, blob_key \<rightharpoonup> u8 list blobs) cache_server"

definition ex_node :: "(u64, u64, ex_block, nat, ex_chain host_notification list, ex_chain,
    (nat, nat, address, nat) extracts, ex_blobs) node_env" where
  "ex_node = \<lparr>ne_storage = ex_storage, ne_constants = ex_constants, ne_notifier = ex_script, ne_extract = id,
     ne_ru_height = ex_ru_height,
     ne_execute = node_execute ex_processor ex_zenith ex_lru (ex_env [1, 0]) set_create set_should_alias (\<lambda>_ _. 0) {1},
     ne_notif = block_notification of_nat (\<lambda>r. [r]), ne_launch_rpc = Inr (), ne_backfill_max_blocks = Some 10000\<rparr>"

lemma ex_node_sel:
  "ne_storage ex_node = ex_storage" "ne_constants ex_node = ex_constants" "ne_notifier ex_node = ex_script"
  "ne_extract ex_node = id" "ne_ru_height ex_node = ex_ru_height" "ne_launch_rpc ex_node = Inr ()"
  by (simp_all add: ex_node_def)

lemma ex_node_laws: "node_laws ex_node id"
proof -
  have "block_number_of ex_node b = ne_ru_height ex_node x"
    if "ne_execute ex_node st x bl = (Ok b, bl')" for st x bl b bl'
    using that
    by (auto simp: ex_node_def node_execute_def block_number_of_def block_notification_def ex_header_def ex_processor_def
        intro!: process_block_height[of ex_processor x, unfolded ex_processor_def])
  then show ?thesis
    by (auto simp: node_laws_def ex_node_def ex_storage_def block_number_of_def block_notification_def ex_drained_def
        ex_header_def comp_def min_def split: list.splits if_splits simp del: upt_Suc)
qed

lemma ex_constants_ok: "constants_ok (ne_constants ex_node)"
  by (auto simp: constants_ok_def ex_node_def ex_constants_def)

text \<open>Extracts without a submission, and the block each becomes.\<close>

definition ex_plain :: "u64 \<Rightarrow> (nat, nat, address, nat) extracts" where
  "ex_plain n = \<lparr>ex_ru_height = n, ex_host_number = 100 + n, ex_host_timestamp = 12 * n, ex_submitted = None,
     ex_enters = [], ex_enter_tokens = [], ex_transacts = [], ex_ru_header = None\<rparr>"

definition ex_plain_block :: "u64 \<Rightarrow> ex_block" where
  "ex_plain_block n = \<lparr>eb_header = ex_header n, eb_bundle = 0, eb_transactions = [], eb_receipts = [], eb_signet_events = [], eb_zenith_header = None\<rparr>"

lemma ex_execute_plain: "ne_execute ex_node st (ex_plain n) bl = (Ok (ex_plain_block n), bl)"
  by (simp add: ex_node_def node_execute_def process_block_def run_evm_def trevm_def revm_state_def parent_header_def saturating_sub_def
      ex_processor_def ex_plain_def submitted_txns_def map_report_def set_create_def assemble_def ex_plain_block_def
      signet_events_of_def number_events_def)

definition ex_state :: "u64 \<Rightarrow> ex_chain host_notification list \<Rightarrow> (u64, ex_chain host_notification list, ex_blobs, nat) node_state" where
  "ex_state h ns = \<lparr>ns_storage = h, ns_notifier = ns, ns_blobs = ex_blob_server,
     ns_chain = \<lparr>cn_tags = BlockTags_new h h h, cn_capacity = 128, cn_receivers = 1, cn_sent = [], cn_reorgs = []\<rparr>,
     ns_status = AtHeight h, ns_rpc_running = True\<rparr>"

lemma ex_last: "last_rollup_block ex_node h = Ok h"
  by (simp add: last_rollup_block_def ex_node_def ex_storage_def)

lemma ex_append: "so_append_blocks (ne_storage ex_node) [ex_plain_block (Suc h)] h = (Inr (), Suc h)"
  by (simp add: ex_node_def ex_storage_def ex_plain_block_def ex_header_def)

section \<open>Instances\<close>

theorem committed_chain_exact_witness:
  "\<exists>ns'. process_committed_chain ex_node [ex_plain 1, ex_plain 2] (ex_state 1 []) = (Ok True, ns')
     \<and> ns_storage ns' = 2 \<and> process_committed_chain ex_node [ex_plain 1, ex_plain 2] ns' = (Ok False, ns')"
proof -
  let ?c = "[ex_plain 1, ex_plain 2]"
  have sel: "ne_extract ex_node = id" "ne_ru_height ex_node (ex_plain n) = n" for n
    by (simp_all add: ex_node_def ex_plain_def)
  obtain ns' where run: "process_committed_chain ex_node ?c (ex_state 1 []) = (Ok True, ns')"
    using ex_append[of 1]
    by (simp add: process_committed_chain_def ex_last sel ex_execute_plain ex_state_def notify_new_block_chain
        Let_def numeral_2_eq_2)
  from committed_chain_exact[OF ex_node_laws run] have
    "ns_storage ns' = 2 \<and> (\<forall>h. last_rollup_block ex_node (ns_storage ns') = Ok h \<longrightarrow>
       process_committed_chain ex_node ?c ns' = (Ok False, ns'))"
    by (simp add: sel ex_state_def)
  then show ?thesis using run ex_last by blast
qed

theorem host_revert_exact_witness:
  "\<exists>ns'. on_host_revert ex_node 7 \<lparr>rr_first = 102, rr_tip = 103\<rparr> (ex_state 3 []) = (Ok True, ns')
     \<and> ns_storage ns' = 1 \<and> tag_latest (cn_tags (ns_chain ns')) = 1"
proof -
  let ?rg = "\<lparr>rr_first = 102, rr_tip = 103\<rparr>"
  obtain ns' where run: "on_host_revert ex_node 7 ?rg (ex_state 3 []) = (Ok True, ns')"
    using ex_last[of 3]
    by (simp add: on_host_revert_def revert_target_def ex_state_def ex_constants_def Let_def saturating_sub_def
        ex_node_sel ex_storage_def)
  from host_revert_exact[OF ex_node_laws ex_constants_ok run]
  have "ns_storage ns' = 1 \<and> cn_tags (ns_chain ns') = rewind_to 1 (BlockTags_new 3 3 3)"
    by (simp add: ex_state_def ex_node_def ex_constants_def)
  then show ?thesis using run by (simp add: rewind_to_result BlockTags_new_def)
qed

theorem block_tags_from_host_witness:
  "\<exists>ns'. update_block_tags ex_node 3 (Some 105) (Some 102) (ex_state 3 []) = (Ok (), ns')
     \<and> tag_safe (cn_tags (ns_chain ns')) = 3 \<and> tag_finalized (cn_tags (ns_chain ns')) = 2"
proof -
  obtain ns' where run: "update_block_tags ex_node 3 (Some 105) (Some 102) (ex_state 3 []) = (Ok (), ns')"
    by (simp add: update_block_tags_def clamp_host_heights_def update_highest_processed_height_def ex_node_def
        ex_constants_def ex_script_def Let_def)
  from block_tags_from_host[OF ex_constants_ok run] show ?thesis
    using run by (simp add: rollup_of_def ex_node_def ex_constants_def)
qed

theorem node_reachable_ok_witness:
  "\<exists>ns'. node_loop ex_node [5] (ex_state 1 [\<lparr>kind = ChainCommitted [ex_plain 2],
        safe_block_number = None, finalized_block_number = Some 101\<rparr>]) = (None, ns')
     \<and> node_ok id ns' \<and> ns_storage ns' = 2"
proof -
  let ?n = "\<lparr>kind = ChainCommitted [ex_plain 2], safe_block_number = None, finalized_block_number = Some 101\<rparr>"
  have sel: "ne_extract ex_node = id" "ne_ru_height ex_node (ex_plain n) = n" for n
    by (simp_all add: ex_node_def ex_plain_def)
  have nx: "no_next_notification (ne_notifier ex_node) [?n] = (Some (Ok ?n), [])"
    by (simp add: ex_node_def ex_script_def)
  have fin: "no_send_finished_height (ne_notifier ex_node) h n = (Inr (), n)" for h n
    by (simp add: ex_node_def ex_script_def)
  have ap: "so_append_blocks (ne_storage ex_node) [ex_plain_block 2] 1 = (Inr (), 2)"
    using ex_append[of 1] by (simp add: numeral_2_eq_2)
  have "\<exists>ns'. node_loop ex_node [5] (ex_state 1 [?n]) = (None, ns') \<and> ns_storage ns' = 2"
    by (simp add: node_turn_def nx on_notification_def revert_phase_def commit_phase_def notif_revert_range_def
        committed_chain_def process_committed_chain_def ex_last sel ex_execute_plain ex_state_def notify_new_block_chain
        Let_def ap[simplified] update_status_channel_def map_report_def update_block_tags_def
        update_highest_processed_height_def fin)
  then obtain ns' where run: "node_loop ex_node [5] (ex_state 1 [?n]) = (None, ns')" "ns_storage ns' = 2" by blast
  have "node_ok id (ex_state 1 [?n])" by (simp add: node_ok_def ex_state_def BlockTags_new_def Let_def)
  from node_reachable_ok[OF ex_node_laws ex_constants_ok this] show ?thesis using run by blast
qed

text \<open>A storage that refuses appends.\<close>

definition ex_full_node where
  "ex_full_node = ex_node\<lparr>ne_storage := ex_storage\<lparr>so_append_blocks := (\<lambda>bs h. (Inl ''disk full'', h))\<rparr>\<rparr>"

lemma ex_full_node_laws: "node_laws ex_full_node id"
  using ex_node_laws
  by (simp add: node_laws_def ex_full_node_def ex_node_def ex_storage_def block_number_of_def)

theorem announced_before_stored_witness:
  "\<exists>ns'. process_committed_chain ex_full_node [ex_plain 2] (ex_state 1 []) = (Err (Report ''disk full''), ns')
     \<and> NewBlock (ne_notif ex_full_node (ex_plain_block 2)) \<in> set (cn_sent (ns_chain ns')) \<and> ns_storage ns' = 1"
proof -
  have x: "ne_extract ex_full_node [ex_plain 2] = ex_plain 2 # []" "ne_ru_height ex_full_node (ex_plain 2) > id (ns_storage (ex_state 1 []))"
    by (simp_all add: ex_full_node_def ex_node_def ex_plain_def ex_state_def)
  have rd: "last_rollup_block ex_full_node (ns_storage (ex_state 1 [])) = Ok 1"
    by (simp add: last_rollup_block_def ex_full_node_def ex_node_def ex_storage_def ex_state_def)
  have e: "ne_execute ex_full_node (ns_storage (ex_state 1 [])) (ex_plain 2) (ns_blobs (ex_state 1 []))
      = (Ok (ex_plain_block 2), ns_blobs (ex_state 1 []))"
    using ex_execute_plain by (simp add: ex_full_node_def)
  have a: "so_append_blocks (ne_storage ex_full_node) [ex_plain_block 2] (ns_storage (ex_state 1 [])) = (Inl ''disk full'', 1)"
    "id 1 = id (ns_storage (ex_state 1 []))" "cn_receivers (ns_chain (ex_state 1 [])) \<noteq> 0"
    by (simp_all add: ex_full_node_def ex_state_def)
  from announced_before_stored[OF ex_full_node_laws x rd e a] obtain ns' where
    r: "process_committed_chain ex_full_node [ex_plain 2] (ex_state 1 []) = (Err (Report ''disk full''), ns')"
    "NewBlock (ne_notif ex_full_node (ex_plain_block 2)) \<in> set (cn_sent (ns_chain ns'))" by blast
  moreover have "ns_storage ns' = 1"
    using r(1) rd e a x by (auto simp: process_committed_chain_def Let_def notify_new_block_chain)
  ultimately show ?thesis by blast
qed

theorem restart_serves_genesis_witness:
  "\<exists>ns1. start_prepare ex_node (new_unsafe 3 [\<lparr>kind = ChainCommitted [ex_plain 3], safe_block_number = Some 103,
        finalized_block_number = Some 102\<rparr>] ex_blob_server) = (Ok (), ns1)
     \<and> ns_status ns1 = AtHeight 3 \<and> tag_latest (cn_tags (ns_chain (snd (node_turn ex_node 5 ns1)))) = 0"
proof -
  let ?n = "\<lparr>kind = ChainCommitted [ex_plain 3], safe_block_number = Some 103, finalized_block_number = Some 102\<rparr>"
  obtain ns1 where up: "start_prepare ex_node (new_unsafe 3 [?n] ex_blob_server) = (Ok (), ns1)" "ns_notifier ns1 = [?n]"
    using ex_last[of 3]
    by (simp add: start_prepare_def start_rpc_def new_unsafe_def Let_def ex_node_sel ex_script_def)
  have nx: "no_next_notification (ne_notifier ex_node) (ns_notifier ns1) = (Some (Ok ?n), [])"
    using up(2) by (simp add: ex_node_def ex_script_def)
  have old: "\<forall>x\<in>set (ne_extract ex_node [ex_plain 3]). ne_ru_height ex_node x \<le> id 3"
    by (simp add: ex_node_def ex_plain_def)
  from restart_serves_genesis[OF ex_node_laws ex_constants_ok up(1)] nx old
  have "ns_status ns1 = AtHeight 3" "cn_tags (ns_chain ns1) = BlockTags_new 0 0 0"
    "node_turn ex_node 5 ns1 = (None, ns1\<lparr>ns_notifier := []\<rparr>)"
    by (simp_all add: host_notification.simps)
  then show ?thesis using up(1) by (simp add: BlockTags_new_def)
qed

end
