(* ===== verification/Rpc_Serve.thy ===== *)
theory Rpc_Serve
  imports Node_Prelude
begin

text \<open>
  The transports of the RPC server (\<^verbatim>\<open>rpc/src/serve.rs\<close>): their configuration from the
  environment, the CORS settings, and starting and dropping the servers. Binding a listener
  and the socket libraries are parameters.
\<close>

section \<open>Configuration\<close>

record 'a serve_config =
  sc_http :: "'a list"
  sc_http_cors :: "string option"
  sc_ws :: "'a list"
  sc_ws_cors :: "string option"
  sc_ipc :: "string option"

record serve_config_env =
  se_http_addr :: "string option"
  se_http_port :: "nat option"
  se_http_cors :: "string option"
  se_ws_addr :: "string option"
  se_ws_port :: "nat option"
  se_ws_cors :: "string option"
  se_ipc :: "string option"

text \<open>The addresses of one transport: none without a port; the address defaults to all interfaces.\<close>

definition env_addrs ::
  "(string \<Rightarrow> string + 'ip) \<Rightarrow> string option \<Rightarrow> nat option \<Rightarrow> (('ip \<times> nat) list, string) rresult" where
  "env_addrs parse addr port =
     (case port of
        None \<Rightarrow> Ok []
      | Some p \<Rightarrow>
          (case parse (opt_default ''0.0.0.0'' addr) of
             Inl e \<Rightarrow> Err e
           | Inr ip \<Rightarrow> Ok [(ip, p)]))"

definition serve_config_of_env ::
  "(string \<Rightarrow> string + 'ip) \<Rightarrow> serve_config_env \<Rightarrow> (('ip \<times> nat) serve_config, string) rresult" where
  "serve_config_of_env parse env =
     rbind (env_addrs parse (se_http_addr env) (se_http_port env)) (\<lambda>http.
     rbind (env_addrs parse (se_ws_addr env) (se_ws_port env)) (\<lambda>ws.
       Ok \<lparr>sc_http = http, sc_http_cors = se_http_cors env, sc_ws = ws, sc_ws_cors = se_ws_cors env,
           sc_ipc = se_ipc env\<rparr>))"

section \<open>Cross-origin settings\<close>

datatype cors_domain_error = WildCardNotAllowed string | InvalidHeader string

datatype serve_error = Serve_Io string | Serve_Cors cors_domain_error

datatype 'hv allow_origin = Allow_Any | Allow_List "'hv list"

text \<open>\<^verbatim>\<open>split(',')\<close>: the pieces between commas, at least one.\<close>

fun split_comma :: "string \<Rightarrow> string list" where
  "split_comma [] = [[]]"
| "split_comma (c # cs) =
     (if c = CHR '','' then [] # split_comma cs
      else (case split_comma cs of p # ps \<Rightarrow> (c # p) # ps | [] \<Rightarrow> [[c]]))"

fun parse_domains :: "(string \<Rightarrow> 'hv option) \<Rightarrow> string list \<Rightarrow> ('hv list, cors_domain_error) rresult" where
  "parse_domains parse [] = Ok []"
| "parse_domains parse (d # ds) =
     rbind (ok_or (parse d) (InvalidHeader d)) (\<lambda>h. rmap (\<lambda>hs. h # hs) (parse_domains parse ds))"

text \<open>The layer always allows GET and POST and every header; what it varies is the origins.\<close>

definition make_cors :: "(string \<Rightarrow> 'hv option) \<Rightarrow> string option \<Rightarrow> ('hv allow_origin, cors_domain_error) rresult" where
  "make_cors parse cors =
     (case cors of
        None \<Rightarrow> Ok Allow_Any
      | Some s \<Rightarrow>
          if s = ''*'' then Ok Allow_Any
          else if (\<exists>d \<in> set (split_comma s). d = ''*'') then Err (WildCardNotAllowed s)
          else rmap Allow_List (parse_domains parse (split_comma s)))"

section \<open>Starting and stopping\<close>

text \<open>A running server task.\<close>

datatype 'hv transport = Http_Server "'hv allow_origin" | Ws_Server "'hv allow_origin" | Ipc_Server string

record 'hv rpc_server_guard =
  rg_http :: "'hv transport option"
  rg_ws :: "'hv transport option"
  rg_ipc :: "'hv transport option"

definition map_serve :: "('e \<Rightarrow> serve_error) \<Rightarrow> ('a, 'e) rresult \<Rightarrow> ('a, serve_error) rresult" where
  "map_serve f r = (case r of Ok a \<Rightarrow> Ok a | Err e \<Rightarrow> Err (f e) | Panic \<Rightarrow> Panic)"

text \<open>
  Each transport: check its CORS settings, bind, and spawn the server task, here the second
  component. \<open>bind\<close> is the listener of the given addresses.
\<close>

definition serve_tcp ::
  "(string \<Rightarrow> 'hv option) \<Rightarrow> ('a list \<Rightarrow> string option) \<Rightarrow> ('hv allow_origin \<Rightarrow> 'hv transport)
     \<Rightarrow> 'a list \<Rightarrow> string option \<Rightarrow> ('hv transport, serve_error) rresult" where
  "serve_tcp parse bind server addrs cors =
     rbind (map_serve Serve_Cors (make_cors parse cors)) (\<lambda>origins.
       case bind addrs of
         Some e \<Rightarrow> Err (Serve_Io e)
       | None \<Rightarrow> Ok (server origins))"

definition serve_axum ::
  "(string \<Rightarrow> 'hv option) \<Rightarrow> ('a list \<Rightarrow> string option) \<Rightarrow> 'a list \<Rightarrow> string option \<Rightarrow> ('hv transport, serve_error) rresult" where
  "serve_axum parse bind addrs cors = serve_tcp parse bind Http_Server addrs cors"

definition serve_ws_transport ::
  "(string \<Rightarrow> 'hv option) \<Rightarrow> ('a list \<Rightarrow> string option) \<Rightarrow> 'a list \<Rightarrow> string option \<Rightarrow> ('hv transport, serve_error) rresult" where
  "serve_ws_transport parse bind addrs cors = serve_tcp parse bind Ws_Server addrs cors"

text \<open>\<open>bind_ipc\<close> makes the platform's name of the endpoint and listens on it.\<close>

definition serve_ipc_endpoint :: "(string \<Rightarrow> string option) \<Rightarrow> string \<Rightarrow> ('hv transport, serve_error) rresult" where
  "serve_ipc_endpoint bind_ipc endpoint =
     (case bind_ipc endpoint of Some e \<Rightarrow> Err (Serve_Io e) | None \<Rightarrow> Ok (Ipc_Server endpoint))"

lemmas serve_transport_defs = serve_axum_def serve_ws_transport_def serve_ipc_endpoint_def serve_tcp_def

definition serve_http :: "(string \<Rightarrow> 'hv option) \<Rightarrow> ('a list \<Rightarrow> string option) \<Rightarrow> 'a serve_config
     \<Rightarrow> ('hv transport option, serve_error) rresult" where
  "serve_http parse bind cfg =
     (if sc_http cfg = [] then Ok None
      else rmap Some (serve_axum parse bind (sc_http cfg) (sc_http_cors cfg)))"

definition serve_ws :: "(string \<Rightarrow> 'hv option) \<Rightarrow> ('a list \<Rightarrow> string option) \<Rightarrow> 'a serve_config
     \<Rightarrow> ('hv transport option, serve_error) rresult" where
  "serve_ws parse bind cfg =
     (if sc_ws cfg = [] then Ok None
      else rmap Some (serve_ws_transport parse bind (sc_ws cfg) (sc_ws_cors cfg)))"

definition serve_ipc :: "(string \<Rightarrow> string option) \<Rightarrow> 'a serve_config \<Rightarrow> ('hv transport option, serve_error) rresult" where
  "serve_ipc bind_ipc cfg =
     (case sc_ipc cfg of
        None \<Rightarrow> Ok None
      | Some endpoint \<Rightarrow> rmap Some (serve_ipc_endpoint bind_ipc endpoint))"

text \<open>The tasks a result spawned: one where the transport is on and came up.\<close>

definition spawned :: "('hv transport option, serve_error) rresult \<Rightarrow> 'hv transport list" where
  "spawned r = (case r of Ok (Some t) \<Rightarrow> [t] | _ \<Rightarrow> [])"

text \<open>
  \<^verbatim>\<open>try_join!\<close> polls the three in order and returns the first error at once. Dropping the
  handle of a task detaches it, so the TCP servers spawned before the failing one keep
  running; the IPC server's handle shuts it down when dropped.
\<close>

definition serve ::
  "(string \<Rightarrow> 'hv option) \<Rightarrow> ('a list \<Rightarrow> string option) \<Rightarrow> ('a list \<Rightarrow> string option) \<Rightarrow> (string \<Rightarrow> string option)
     \<Rightarrow> 'a serve_config
     \<Rightarrow> ('hv rpc_server_guard, serve_error) rresult \<times> 'hv transport list" where
  "serve parse bind_http bind_ws bind_ipc cfg =
     (let http = serve_http parse bind_http cfg; ws = serve_ws parse bind_ws cfg; ipc = serve_ipc bind_ipc cfg
      in case http of
           Ok h \<Rightarrow>
             (case ws of
                Ok w \<Rightarrow>
                  (case ipc of
                     Ok i \<Rightarrow> (Ok \<lparr>rg_http = h, rg_ws = w, rg_ipc = i\<rparr>, spawned http @ spawned ws @ spawned ipc)
                   | Err e \<Rightarrow> (Err e, spawned http @ spawned ws)
                   | Panic \<Rightarrow> (Panic, spawned http @ spawned ws))
              | Err e \<Rightarrow> (Err e, spawned http)
              | Panic \<Rightarrow> (Panic, spawned http))
         | Err e \<Rightarrow> (Err e, [])
         | Panic \<Rightarrow> (Panic, []))"

text \<open>Dropping the guard: abort HTTP and WebSocket; the IPC server's own guard shuts it down.\<close>

definition guard_drop :: "'hv rpc_server_guard \<Rightarrow> 'hv transport list \<Rightarrow> 'hv transport list" where
  "guard_drop g running =
     filter (\<lambda>t. Some t \<noteq> rg_http g \<and> Some t \<noteq> rg_ws g \<and> Some t \<noteq> rg_ipc g) running"

section \<open>Facts\<close>

lemma split_comma_not_Nil [simp]: "split_comma s \<noteq> []"
  by (induction s) (auto split: list.split)

text \<open>Splitting loses nothing: the pieces put together with commas are the input, and none has one.\<close>

fun join_comma :: "string list \<Rightarrow> string" where
  "join_comma [] = []"
| "join_comma [p] = p"
| "join_comma (p # ps) = p @ CHR '','' # join_comma ps"

lemma join_split_comma: "join_comma (split_comma s) = s"
proof (induction s)
  case (Cons c cs)
  obtain p ps where "split_comma cs = p # ps" by (cases "split_comma cs") auto
  with Cons show ?case by (cases ps) auto
qed simp

lemma split_comma_pieces: "p \<in> set (split_comma s) \<Longrightarrow> CHR '','' \<notin> set p"
proof (induction s arbitrary: p)
  case (Cons c cs)
  obtain q qs where "split_comma cs = q # qs" by (cases "split_comma cs") auto
  with Cons show ?case by (auto split: if_splits)
qed simp

lemma parse_domains_Ok:
  "parse_domains parse ds = Ok hs \<longleftrightarrow> map parse ds = map Some hs"
  by (induction ds arbitrary: hs) (auto simp: rres_simps)

text \<open>
  A list of origins is accepted only if no piece is the wildcard and every piece is a
  header value, and exactly these are allowed; the wildcard alone or no setting allows any.
\<close>

lemma make_cors_Ok:
  "make_cors parse cors = Ok origins \<longleftrightarrow>
     (case cors of None \<Rightarrow> origins = Allow_Any
      | Some s \<Rightarrow> (s = ''*'' \<and> origins = Allow_Any)
          \<or> (s \<noteq> ''*'' \<and> ''*'' \<notin> set (split_comma s)
             \<and> (\<exists>hs. origins = Allow_List hs \<and> map parse (split_comma s) = map Some hs)))"
  by (auto simp: make_cors_def rres_simps parse_domains_Ok split: option.split if_splits)

lemma guard_drop_all:
  assumes "serve parse bind_http bind_ws bind_ipc cfg = (Ok g, running)"
  shows "guard_drop g running = []"
  using assms
  by (auto simp: serve_def Let_def guard_drop_def spawned_def filter_empty_conv
      split: rresult.splits option.splits)

text \<open>A failed start leaves the servers before the failing one running.\<close>

lemma serve_failure_detaches:
  assumes "sc_http cfg \<noteq> []" "make_cors parse (sc_http_cors cfg) = Ok o1" "bind_http (sc_http cfg) = None"
    and "sc_ws cfg \<noteq> []" "make_cors parse (sc_ws_cors cfg) = Ok o2" "bind_ws (sc_ws cfg) = Some e"
  shows "serve parse bind_http bind_ws bind_ipc cfg = (Err (Serve_Io e), [Http_Server o1])"
  using assms by (simp add: serve_def serve_http_def serve_ws_def serve_transport_defs map_serve_def spawned_def)

end
