(* ===== verification/Host_Reth.thy ===== *)
theory Host_Reth
  imports Rpc_Segment Rpc_Config Rpc_Serve Blob_Fetch
begin

text \<open>
  The host backend inside reth (\<^verbatim>\<open>crates/host-reth\<close>): segments read from the database and live
  chains, the batched database backfill, the notifier with its switch from backfill
  to live notifications, and the translation of reth's settings. reth's provider and
  its ExEx notification stream are arguments; a reth chain is its list of blocks with receipts, which
  is not empty. Metrics are left to \<open>Metered\<close>, the shim of the blocks to \<open>Host_Shim\<close>.
\<close>

section \<open>Errors and segments\<close>

datatype reth_host_error =
    Notification string
  | Provider string
  | EventSend
  | MissingHeader u64
  | MissingBlock u64
  | MissingReceipts u64

record ('tx, 'r) db_block =
  dbk_block :: "'tx recovered_block"
  dbk_receipts :: "'r list"

datatype ('tx, 'r) db_chain_segment = DbChainSegment (dbs_blocks: "('tx, 'r) db_block list")

definition block_number :: "'tx recovered_block \<Rightarrow> u64" where
  "block_number b = h_number (rec_header b)"

definition dbs_blocks_and_receipts :: "('tx, 'r) db_chain_segment \<Rightarrow> ('tx recovered_block \<times> 'r list) list" where
  "dbs_blocks_and_receipts s = map (\<lambda>b. (dbk_block b, dbk_receipts b)) (dbs_blocks s)"

definition dbs_first_number :: "('tx, 'r) db_chain_segment \<Rightarrow> (u64, 'e) rresult" where
  "dbs_first_number s = expect_some (map_option (\<lambda>b. block_number (dbk_block b)) (first_opt (dbs_blocks s)))"

definition dbs_tip_number :: "('tx, 'r) db_chain_segment \<Rightarrow> (u64, 'e) rresult" where
  "dbs_tip_number s = expect_some (map_option (\<lambda>b. block_number (dbk_block b)) (last_opt (dbs_blocks s)))"

definition dbs_len :: "('tx, 'r) db_chain_segment \<Rightarrow> usize" where
  "dbs_len s = length (dbs_blocks s)"

datatype ('tx, 'r) reth_chain = RethChain (rc_blocks: "('tx recovered_block \<times> 'r list) list")

definition rc_first_number :: "('tx, 'r) reth_chain \<Rightarrow> (u64, 'e) rresult" where
  "rc_first_number c = expect_some (map_option (block_number \<circ> fst) (first_opt (rc_blocks c)))"

definition rc_tip_number :: "('tx, 'r) reth_chain \<Rightarrow> (u64, 'e) rresult" where
  "rc_tip_number c = expect_some (map_option (block_number \<circ> fst) (last_opt (rc_blocks c)))"

datatype ('tx, 'r) host_chain = Backfill "('tx, 'r) db_chain_segment" | Live "('tx, 'r) reth_chain"

fun hc_blocks_and_receipts :: "('tx, 'r) host_chain \<Rightarrow> ('tx recovered_block \<times> 'r list) list" where
  "hc_blocks_and_receipts (Backfill s) = dbs_blocks_and_receipts s"
| "hc_blocks_and_receipts (Live c) = rc_blocks c"

fun hc_first_number :: "('tx, 'r) host_chain \<Rightarrow> (u64, 'e) rresult" where
  "hc_first_number (Backfill s) = dbs_first_number s"
| "hc_first_number (Live c) = rc_first_number c"

fun hc_tip_number :: "('tx, 'r) host_chain \<Rightarrow> (u64, 'e) rresult" where
  "hc_tip_number (Backfill s) = dbs_tip_number s"
| "hc_tip_number (Live c) = rc_tip_number c"

fun hc_len :: "('tx, 'r) host_chain \<Rightarrow> usize" where
  "hc_len (Backfill s) = dbs_len s"
| "hc_len (Live c) = length (rc_blocks c)"

lemmas dbs_defs = dbs_blocks_and_receipts_def dbs_first_number_def dbs_tip_number_def dbs_len_def
lemmas rc_defs = rc_first_number_def rc_tip_number_def

text \<open>Both variants, and so their union, satisfy the contract of a chain segment.\<close>

interpretation hseg: extractable hc_blocks_and_receipts hc_first_number hc_tip_number hc_len block_number
proof
  fix s :: "('a, 'b) host_chain"
  show "hc_len s = length (hc_blocks_and_receipts s)" by (cases s) (simp_all add: dbs_defs)
  show "hc_blocks_and_receipts s \<noteq> [] \<Longrightarrow> hc_first_number s = Ok (block_number (fst (hd (hc_blocks_and_receipts s))))"
    by (cases s) (auto simp: dbs_defs rc_defs first_opt_def hd_map split: list.split)
  show "hc_blocks_and_receipts s \<noteq> [] \<Longrightarrow> hc_tip_number s = Ok (block_number (fst (last (hc_blocks_and_receipts s))))"
    by (cases s) (auto simp: dbs_defs rc_defs last_opt_def last_map split: list.split)
qed

section \<open>The database backfill\<close>

text \<open>Reth's provider; \<open>rp_block_bytes\<close> is the size in memory of a block with its receipts (\<^verbatim>\<open>DbBlock\<close>), made of reth's types.\<close>

record ('w, 'tx, 'r) reth_provider =
  rp_block_bytes :: nat
  rp_finalized_block_number :: "'w \<Rightarrow> (string + u64 option) \<times> 'w"
  rp_safe_block_number :: "'w \<Rightarrow> (string + u64 option) \<times> 'w"
  rp_recovered_block :: "u64 \<Rightarrow> 'w \<Rightarrow> (string + 'tx recovered_block option) \<times> 'w"
  rp_receipts_by_block :: "u64 \<Rightarrow> 'w \<Rightarrow> (string + 'r list option) \<times> 'w"
  rp_sealed_header :: "u64 \<Rightarrow> 'w \<Rightarrow> (string + (b256 \<times> header) option) \<times> 'w"

definition DEFAULT_BATCH_SIZE :: u64 where "DEFAULT_BATCH_SIZE = 1000"

record db_backfill =
  bf_cursor :: u64
  bf_batch_size :: u64

definition DbBackfill_new :: "u64 \<Rightarrow> db_backfill" where
  "DbBackfill_new cursor = \<lparr>bf_cursor = cursor, bf_batch_size = DEFAULT_BATCH_SIZE\<rparr>"

definition set_batch_size :: "u64 \<Rightarrow> db_backfill \<Rightarrow> db_backfill" where
  "set_batch_size n b = b\<lparr>bf_batch_size := max n 1\<rparr>"

definition reset_batch_size :: "db_backfill \<Rightarrow> db_backfill" where
  "reset_batch_size b = b\<lparr>bf_batch_size := DEFAULT_BATCH_SIZE\<rparr>"

fun read_blocks ::
  "('w, 'tx, 'r) reth_provider \<Rightarrow> u64 list \<Rightarrow> 'w \<Rightarrow> (('tx, 'r) db_block list, reth_host_error) rresult \<times> 'w" where
  "read_blocks p [] w = (Ok [], w)"
| "read_blocks p (n # ns) w =
     (case rp_recovered_block p n w of
        (Inl e, w1) \<Rightarrow> (Err (Provider e), w1)
      | (Inr None, w1) \<Rightarrow> (Err (MissingBlock n), w1)
      | (Inr (Some blk), w1) \<Rightarrow>
          (case rp_receipts_by_block p n w1 of
             (Inl e, w2) \<Rightarrow> (Err (Provider e), w2)
           | (Inr None, w2) \<Rightarrow> (Err (MissingReceipts n), w2)
           | (Inr (Some receipts), w2) \<Rightarrow>
               (case read_blocks p ns w2 of
                  (r, w3) \<Rightarrow> (rmap (\<lambda>bs. \<lparr>dbk_block = blk, dbk_receipts = receipts\<rparr> # bs) r, w3))))"

text \<open>A vector cannot have a capacity beyond \<open>isize::MAX\<close> bytes: asking for one panics.\<close>

definition read_block_range ::
  "('w, 'tx, 'r) reth_provider \<Rightarrow> u64 \<Rightarrow> u64 \<Rightarrow> 'w \<Rightarrow> (('tx, 'r) db_chain_segment, reth_host_error) rresult \<times> 'w" where
  "read_block_range p frm to w =
     (if u64_add (u64_sub to frm) 1 * rp_block_bytes p > 2 ^ 63 - 1 then (Panic, w)
      else (case read_blocks p [frm..<Suc to] w of (r, w1) \<Rightarrow> (rmap DbChainSegment r, w1)))"

definition next_batch ::
  "('w, 'tx, 'r) reth_provider \<Rightarrow> db_backfill \<Rightarrow> 'w
     \<Rightarrow> (('tx, 'r) db_chain_segment option, reth_host_error) rresult \<times> db_backfill \<times> 'w" where
  "next_batch p b w =
     (case rp_finalized_block_number p w of
        (Inl e, w1) \<Rightarrow> (Err (Provider e), b, w1)
      | (Inr None, w1) \<Rightarrow> (Ok None, b, w1)
      | (Inr (Some finalized), w1) \<Rightarrow>
          if bf_cursor b > finalized then (Ok None, b, w1)
          else
            (let frm = bf_cursor b;
                 to = min finalized (u64_sub (u64_add (bf_cursor b) (bf_batch_size b)) 1)
             in case read_block_range p frm to w1 of
                  (Ok segment, w2) \<Rightarrow> (Ok (Some segment), b\<lparr>bf_cursor := u64_add to 1\<rparr>, w2)
                | (Err e, w2) \<Rightarrow> (Err e, b, w2)
                | (Panic, w2) \<Rightarrow> (Panic, b, w2)))"

section \<open>The notifier\<close>

datatype ('tx, 'r) exex_notification =
    ExExCommitted "('tx, 'r) reth_chain"
  | ExExReverted "('tx, 'r) reth_chain"
  | ExExReorged "('tx, 'r) reth_chain" "('tx, 'r) reth_chain"

record ('x, 'tx, 'r) exex_ops =
  xo_next :: "'x \<Rightarrow> (('tx, 'r) exex_notification, string) rresult option \<times> 'x"
  xo_set_with_head :: "u64 \<Rightarrow> b256 \<Rightarrow> 'x \<Rightarrow> 'x"

text \<open>The channel back to reth is the list of events sent, and whether reth still listens.\<close>

record 'x reth_host_notifier =
  rn_notifications :: 'x
  rn_events :: "(u64 \<times> b256) list"
  rn_listening :: bool
  rn_backfill :: "db_backfill option"
  rn_head_set :: bool

definition RethHostNotifier_new :: "'x \<Rightarrow> 'x reth_host_notifier" where
  "RethHostNotifier_new x =
     \<lparr>rn_notifications = x, rn_events = [], rn_listening = True, rn_backfill = None, rn_head_set = False\<rparr>"

type_synonym ('tx, 'r) reth_notification = "('tx, 'r) host_chain host_notification"

definition tag_or_none :: "(string + u64 option) \<Rightarrow> u64 option" where
  "tag_or_none r = (case r of Inl e \<Rightarrow> None | Inr t \<Rightarrow> t)"

definition read_tags :: "('w, 'tx, 'r) reth_provider \<Rightarrow> 'w \<Rightarrow> (u64 option \<times> u64 option) \<times> 'w" where
  "read_tags p w =
     (case rp_safe_block_number p w of
        (s, w1) \<Rightarrow> (case rp_finalized_block_number p w1 of
           (f, w2) \<Rightarrow> ((tag_or_none s, tag_or_none f), w2)))"

definition revert_range_of :: "('tx, 'r) reth_chain \<Rightarrow> (revert_range, 'e) rresult" where
  "revert_range_of old = rbind (rc_first_number old) (\<lambda>a. rbind (rc_tip_number old) (RevertRange_new a))"

fun kind_of_exex :: "('tx, 'r) exex_notification \<Rightarrow> (('tx, 'r) host_chain host_notification_kind, reth_host_error) rresult" where
  "kind_of_exex (ExExCommitted new) = Ok (ChainCommitted (Live new))"
| "kind_of_exex (ExExReverted old) = rmap ChainReverted (revert_range_of old)"
| "kind_of_exex (ExExReorged old new) = rmap (\<lambda>rg. ChainReorged rg (Live new)) (revert_range_of old)"

text \<open>Phase 2: live notifications.\<close>

definition live_notification ::
  "('w, 'tx, 'r) reth_provider \<Rightarrow> ('x, 'tx, 'r) exex_ops \<Rightarrow> 'x reth_host_notifier \<Rightarrow> 'w
     \<Rightarrow> (('tx, 'r) reth_notification, reth_host_error) rresult option \<times> 'x reth_host_notifier \<times> 'w" where
  "live_notification p X n w =
     (case xo_next X (rn_notifications n) of
        (None, x) \<Rightarrow> (None, n\<lparr>rn_notifications := x\<rparr>, w)
      | (Some (Err e), x) \<Rightarrow> (Some (Err (Notification e)), n\<lparr>rn_notifications := x\<rparr>, w)
      | (Some Panic, x) \<Rightarrow> (Some Panic, n\<lparr>rn_notifications := x\<rparr>, w)
      | (Some (Ok nt), x) \<Rightarrow>
          (case read_tags p w of
             ((safe, finalized), w1) \<Rightarrow>
               (Some (rmap (\<lambda>k. \<lparr>kind = k, safe_block_number = safe, finalized_block_number = finalized\<rparr>)
                        (kind_of_exex nt)),
                n\<lparr>rn_notifications := x\<rparr>, w1)))"

definition reth_next_notification ::
  "('w, 'tx, 'r) reth_provider \<Rightarrow> ('x, 'tx, 'r) exex_ops \<Rightarrow> 'x reth_host_notifier \<Rightarrow> 'w
     \<Rightarrow> (('tx, 'r) reth_notification, reth_host_error) rresult option \<times> 'x reth_host_notifier \<times> 'w" where
  "reth_next_notification p X n w =
     (case rn_backfill n of
        None \<Rightarrow> live_notification p X n w
      | Some backfill \<Rightarrow>
          (case next_batch p backfill w of
             (Ok (Some segment), b, w1) \<Rightarrow>
               (case read_tags p w1 of
                  ((safe, finalized), w2) \<Rightarrow>
                    (Some (Ok \<lparr>kind = ChainCommitted (Backfill segment), safe_block_number = safe,
                               finalized_block_number = finalized\<rparr>),
                     n\<lparr>rn_backfill := Some b\<rparr>, w2))
           | (Ok None, b, w1) \<Rightarrow>
               (let n1 = n\<lparr>rn_backfill := None\<rparr>;
                    last_backfilled = saturating_sub (bf_cursor b) 1
                in case rp_sealed_header p last_backfilled w1 of
                     (Inr (Some (hash, hdr)), w2) \<Rightarrow>
                       live_notification p X
                         (n1\<lparr>rn_notifications := xo_set_with_head X last_backfilled hash (rn_notifications n1)\<rparr>) w2
                   | (Inr None, w2) \<Rightarrow> (Some (Err (MissingHeader last_backfilled)), n1, w2)
                   | (Inl e, w2) \<Rightarrow> (Some (Err (Provider e)), n1, w2))
           | (Err e, b, w1) \<Rightarrow> (Some (Err e), n\<lparr>rn_backfill := Some b\<rparr>, w1)
           | (Panic, b, w1) \<Rightarrow> (Some Panic, n\<lparr>rn_backfill := Some b\<rparr>, w1)))"

definition reth_set_head :: "u64 \<Rightarrow> 'x reth_host_notifier \<Rightarrow> 'x reth_host_notifier" where
  "reth_set_head block n =
     (if rn_head_set n then n
      else n\<lparr>rn_head_set := True, rn_backfill := Some (DbBackfill_new block)\<rparr>)"

definition reth_set_backfill_thresholds :: "u64 option \<Rightarrow> 'x reth_host_notifier \<Rightarrow> 'x reth_host_notifier" where
  "reth_set_backfill_thresholds max_blocks n =
     (case rn_backfill n of
        None \<Rightarrow> n
      | Some b \<Rightarrow>
          (case max_blocks of
             Some m \<Rightarrow> n\<lparr>rn_backfill := Some (set_batch_size m b)\<rparr>
           | None \<Rightarrow> n\<lparr>rn_backfill := Some (reset_batch_size b)\<rparr>))"

definition reth_send_finished_height ::
  "('w, 'tx, 'r) reth_provider \<Rightarrow> u64 \<Rightarrow> 'x reth_host_notifier \<Rightarrow> 'w
     \<Rightarrow> (unit, reth_host_error) rresult \<times> 'x reth_host_notifier \<times> 'w" where
  "reth_send_finished_height p number n w =
     (case rp_sealed_header p number w of
        (Inl e, w1) \<Rightarrow> (Err (Provider e), n, w1)
      | (Inr None, w1) \<Rightarrow> (Err (MissingHeader number), n, w1)
      | (Inr (Some (hash, hdr)), w1) \<Rightarrow>
          if rn_listening n then (Ok (), n\<lparr>rn_events := rn_events n @ [(number, hash)]\<rparr>, w1)
          else (Err EventSend, n, w1))"

text \<open>
  The configuration contract of a notifier. With no backfill under way there is no batch
  size to speak of, and changing it is ignored.
\<close>

interpretation rethn: host_notifier_config reth_set_head reth_set_backfill_thresholds rn_head_set
  "\<lambda>n. map_option bf_cursor (rn_backfill n)" "\<lambda>n. map_option bf_batch_size (rn_backfill n)"
  by unfold_locales
    (auto simp: reth_set_head_def reth_set_backfill_thresholds_def set_batch_size_def reset_batch_size_def
      DbBackfill_new_def DEFAULT_BATCH_SIZE_def max_def split: option.splits)

section \<open>Settings and the transaction pool\<close>

record 'a rpc_server_args =
  ra_http :: bool
  ra_http_socket :: 'a
  ra_http_corsdomain :: "string option"
  ra_ws :: bool
  ra_ws_socket :: 'a
  ra_ws_allowed_origins :: "string option"
  ra_ipcdisable :: bool
  ra_ipcpath :: string
  ra_rpc_gas_cap :: u64
  ra_rpc_max_tracing_requests :: usize
  ra_gpo_blocks :: u64
  ra_gpo_percentile :: u64
  ra_gpo_ignore_price :: u64
  ra_gpo_max_price :: u64

definition rpc_config_from_args :: "'f f64_ops \<Rightarrow> 'a rpc_server_args \<Rightarrow> 'f storage_rpc_config" where
  "rpc_config_from_args F a =
     config_build
      (set_max_price (Some (ra_gpo_max_price a))
      (set_ignore_price (Some (ra_gpo_ignore_price a))
      (set_gas_oracle_percentile (f_of_u64 F (ra_gpo_percentile a))
      (set_gas_oracle_block_count (ra_gpo_blocks a)
      (set_max_tracing_requests (ra_rpc_max_tracing_requests a)
      (set_rpc_gas_cap (ra_rpc_gas_cap a) (config_builder F)))))))"

definition serve_config_from_args :: "'a rpc_server_args \<Rightarrow> 'a serve_config" where
  "serve_config_from_args a =
     \<lparr>sc_http = (if ra_http a then [ra_http_socket a] else []),
      sc_http_cors = ra_http_corsdomain a,
      sc_ws = (if ra_ws a then [ra_ws_socket a] else []),
      sc_ws_cors = ra_ws_allowed_origins a,
      sc_ipc = (if \<not> ra_ipcdisable a then Some (ra_ipcpath a) else None)\<rparr>"

text \<open>The parts of an ExEx context, and what it is decomposed into.\<close>

record ('x, 'a, 'pl) exex_context =
  ex_notifications :: 'x
  ex_chain_name :: string
  ex_rpc_args :: "'a rpc_server_args"
  ex_pool :: 'pl

record ('x, 'a, 'f, 'pl) decomposed_context =
  dc_notifier :: "'x reth_host_notifier"
  dc_serve_config :: "'a serve_config"
  dc_rpc_config :: "'f storage_rpc_config"
  dc_pool :: 'pl
  dc_chain_name :: string

definition decompose_exex_context ::
  "'f f64_ops \<Rightarrow> ('x, 'a, 'pl) exex_context \<Rightarrow> ('x, 'a, 'f, 'pl) decomposed_context" where
  "decompose_exex_context F ctx =
     \<lparr>dc_notifier = RethHostNotifier_new (ex_notifications ctx),
      dc_serve_config = serve_config_from_args (ex_rpc_args ctx),
      dc_rpc_config = rpc_config_from_args F (ex_rpc_args ctx),
      dc_pool = ex_pool ctx, dc_chain_name = ex_chain_name ctx\<rparr>"

text \<open>The transaction pool as a blob source.\<close>

definition reth_blob_source ::
  "(b256 \<Rightarrow> 'w \<Rightarrow> (string + 'b sidecar_variant option) \<times> 'w) \<Rightarrow> ('w, 'b) blob_source" where
  "reth_blob_source pool_get_blob spec w =
     (case pool_get_blob (bs_tx_hash spec) w of
        (Inl e, w1) \<Rightarrow> (Inl e, w1)
      | (Inr b, w1) \<Rightarrow> (Inr (map_option FromSidecar b), w1))"

end
