(* ===== verification/Host_Reth_Facts.thy ===== *)
theory Host_Reth_Facts
  imports Host_Reth
begin

text \<open>
  Facts about the backend inside reth: what one batch of the database backfill delivers, that the
  backfill ends having delivered every finalized block once, and the switch to live notifications.
\<close>

section \<open>Batches\<close>

definition segment_numbers :: "('tx, 'r) db_chain_segment \<Rightarrow> u64 list" where
  "segment_numbers s = map (block_number \<circ> fst) (hc_blocks_and_receipts (Backfill s))"

definition numbers_right :: "('w, 'tx, 'r) reth_provider \<Rightarrow> bool" where
  "numbers_right p \<longleftrightarrow> (\<forall>n w b w1. rp_recovered_block p n w = (Inr (Some b), w1) \<longrightarrow> block_number b = n)"

lemma read_blocks_numbers:
  assumes "numbers_right p" "read_blocks p ns w = (Ok bs, w')"
  shows "map (block_number \<circ> dbk_block) bs = ns"
  using assms(2)
proof (induction ns arbitrary: w bs)
  case (Cons n ns)
  obtain blk w1 where b: "rp_recovered_block p n w = (Inr (Some blk), w1)"
    using Cons.prems by (auto split: prod.splits sum.splits option.splits)
  obtain rs w2 where r: "rp_receipts_by_block p n w1 = (Inr (Some rs), w2)"
    using Cons.prems b by (auto split: prod.splits sum.splits option.splits)
  obtain bs' where "read_blocks p ns w2 = (Ok bs', w')" "bs = \<lparr>dbk_block = blk, dbk_receipts = rs\<rparr> # bs'"
    using Cons.prems b r by (auto simp: rres_simps split: prod.splits)
  then show ?case using Cons.IH[of w2 bs'] assms(1) b unfolding numbers_right_def by auto
qed simp

lemma read_block_range_numbers:
  assumes "numbers_right p" "read_block_range p frm to w = (Ok s, w')"
  shows "segment_numbers s = [frm..<Suc to]"
proof -
  obtain bs where "read_blocks p [frm..<Suc to] w = (Ok bs, w')" "s = DbChainSegment bs"
    using assms(2) by (auto simp: read_block_range_def rres_simps split: if_splits prod.splits)
  then show ?thesis using read_blocks_numbers[OF assms(1)]
    by (auto simp: segment_numbers_def dbs_defs comp_def)
qed

definition batch_end :: "db_backfill \<Rightarrow> u64 \<Rightarrow> u64" where
  "batch_end b finalized = min finalized (bf_cursor b + bf_batch_size b - 1)"

lemma batch_end_u64:
  "0 < bf_batch_size b \<Longrightarrow> bf_cursor b + bf_batch_size b \<le> u64_max \<Longrightarrow>
     min finalized (u64_sub (u64_add (bf_cursor b) (bf_batch_size b)) 1) = batch_end b finalized"
  by (simp add: batch_end_def u64_simps)

lemma batch_delivers:
  assumes nr: "numbers_right p" and pos: "0 < bf_batch_size b" "bf_cursor b + bf_batch_size b \<le> u64_max"
    and run: "next_batch p b w = (Ok (Some s), b', w')"
  shows "\<exists>finalized w1. rp_finalized_block_number p w = (Inr (Some finalized), w1)
    \<and> segment_numbers s = [bf_cursor b..<bf_cursor b'] \<and> bf_cursor b < bf_cursor b'
    \<and> bf_cursor b' \<le> Suc finalized \<and> bf_cursor b' \<le> bf_cursor b + bf_batch_size b"
proof -
  obtain k w1 where f: "rp_finalized_block_number p w = (Inr (Some k), w1)" "bf_cursor b \<le> k"
    using run by (auto simp: next_batch_def split: prod.splits sum.splits option.splits if_splits)
  let ?to = "batch_end b k"
  have to: "bf_cursor b \<le> ?to" "?to \<le> k" "?to < bf_cursor b + bf_batch_size b"
    using f(2) pos by (auto simp: batch_end_def)
  then have add: "u64_add ?to 1 = Suc ?to" using pos(2) by (intro u64_add_Suc) linarith
  obtain w2 where r: "read_block_range p (bf_cursor b) ?to w1 = (Ok s, w2)" "b' = b\<lparr>bf_cursor := Suc ?to\<rparr>"
    using run f batch_end_u64[OF pos] add
    by (auto simp: next_batch_def Let_def split: prod.splits rresult.splits)
  then have "segment_numbers s = [bf_cursor b..<Suc ?to]"
    using read_block_range_numbers[OF nr] by blast
  then show ?thesis using f(1) r(2) to by simp
qed

text \<open>
  C20: a batch of the database backfill is the consecutive finalized blocks from the cursor on,
  at least one and at most the batch size, the segment's accessors name its ends, and the
  cursor moves right behind it; the backfill is over exactly when nothing finalized is
  left from the cursor on, and an error leaves the cursor where it is.
\<close>

theorem reth_batch_exact:
  assumes nr: "numbers_right p" and pos: "0 < bf_batch_size b" "bf_cursor b + bf_batch_size b \<le> u64_max"
    and run: "next_batch p b w = (r, b', w')"
  shows "(\<forall>s. r = Ok (Some s) \<longrightarrow> (\<exists>finalized w1. rp_finalized_block_number p w = (Inr (Some finalized), w1)
          \<and> segment_numbers s = [bf_cursor b..<bf_cursor b'] \<and> bf_cursor b < bf_cursor b'
          \<and> bf_cursor b' \<le> Suc finalized \<and> bf_cursor b' \<le> bf_cursor b + bf_batch_size b
          \<and> hc_first_number (Backfill s) = (Ok (bf_cursor b) :: (u64, unit) rresult)
          \<and> hc_tip_number (Backfill s) = (Ok (bf_cursor b' - 1) :: (u64, unit) rresult)))
    \<and> (r = Ok None \<longrightarrow> b' = b \<and> (\<exists>f w1. rp_finalized_block_number p w = (Inr f, w1) \<and> (\<forall>k. f = Some k \<longrightarrow> k < bf_cursor b)))
    \<and> ((\<exists>e. r = Err e) \<longrightarrow> b' = b)"
proof (intro conjI allI impI)
  fix s assume "r = Ok (Some s)"
  then obtain finalized w1 where d: "rp_finalized_block_number p w = (Inr (Some finalized), w1)"
    "segment_numbers s = [bf_cursor b..<bf_cursor b']" "bf_cursor b < bf_cursor b'"
    "bf_cursor b' \<le> Suc finalized" "bf_cursor b' \<le> bf_cursor b + bf_batch_size b"
    using batch_delivers[OF nr pos] run by blast
  have ne: "hc_blocks_and_receipts (Backfill s) \<noteq> []"
  proof
    assume "hc_blocks_and_receipts (Backfill s) = []"
    then have "segment_numbers s = []" by (simp add: segment_numbers_def)
    then show False using d(2,3) by simp
  qed
  have "consec (map (block_number \<circ> fst) (hc_blocks_and_receipts (Backfill s)))"
    using d(2) by (simp add: segment_numbers_def consec_upt del: hc_blocks_and_receipts.simps)
  then obtain a where
    a: "hc_first_number (Backfill s) = (Ok a :: (u64, unit) rresult)"
    "hc_tip_number (Backfill s) = (Ok (a + hc_len (Backfill s) - 1) :: (u64, unit) rresult)"
    "segment_numbers s = [a..<a + hc_len (Backfill s)]"
    using hseg.numbers_of_segment[OF _ ne] unfolding segment_numbers_def by metis
  have "a = bf_cursor b \<and> a + hc_len (Backfill s) = bf_cursor b'"
    using a(3) d(2,3) by (intro upt_inj) simp_all
  then show "\<exists>finalized w1. rp_finalized_block_number p w = (Inr (Some finalized), w1)
          \<and> segment_numbers s = [bf_cursor b..<bf_cursor b'] \<and> bf_cursor b < bf_cursor b'
          \<and> bf_cursor b' \<le> Suc finalized \<and> bf_cursor b' \<le> bf_cursor b + bf_batch_size b
          \<and> hc_first_number (Backfill s) = (Ok (bf_cursor b) :: (u64, unit) rresult)
          \<and> hc_tip_number (Backfill s) = (Ok (bf_cursor b' - 1) :: (u64, unit) rresult)"
    using d a(1,2) by auto
qed (use run in \<open>auto simp: next_batch_def Let_def split: prod.splits sum.splits option.splits if_splits rresult.splits\<close>)

section \<open>The whole backfill\<close>

text \<open>Batches until none is left; \<open>None\<close> without fuel or on an error.\<close>

fun drain_reth ::
  "nat \<Rightarrow> ('w, 'tx, 'r) reth_provider \<Rightarrow> db_backfill \<Rightarrow> 'w
     \<Rightarrow> (('tx, 'r) db_chain_segment list \<times> db_backfill \<times> 'w) option" where
  "drain_reth 0 p b w = None"
| "drain_reth (Suc fuel) p b w =
     (case next_batch p b w of
        (Ok None, b1, w1) \<Rightarrow> Some ([], b1, w1)
      | (Ok (Some s), b1, w1) \<Rightarrow> map_option (\<lambda>(ss, b2, w2). (s # ss, b2, w2)) (drain_reth fuel p b1 w1)
      | _ \<Rightarrow> None)"

text \<open>A provider with a steady finalized block that has every block up to it.\<close>

definition reth_steady :: "('w, 'tx, 'r) reth_provider \<Rightarrow> u64 \<Rightarrow> bool" where
  "reth_steady p finalized \<longleftrightarrow>
     (\<forall>w. \<exists>w1. rp_finalized_block_number p w = (Inr (Some finalized), w1))
     \<and> (\<forall>n \<le> finalized. \<forall>w. \<exists>b w1. rp_recovered_block p n w = (Inr (Some b), w1))
     \<and> (\<forall>n \<le> finalized. \<forall>w. \<exists>rs w1. rp_receipts_by_block p n w = (Inr (Some rs), w1))"

lemma reth_steadyD:
  assumes "reth_steady p finalized"
  shows "\<exists>w1. rp_finalized_block_number p w = (Inr (Some finalized), w1)"
    and "n \<le> finalized \<Longrightarrow> \<exists>b w1. rp_recovered_block p n w = (Inr (Some b), w1)"
    and "n \<le> finalized \<Longrightarrow> \<exists>rs w1. rp_receipts_by_block p n w = (Inr (Some rs), w1)"
  using assms unfolding reth_steady_def by blast+

lemma steady_read_blocks:
  "reth_steady p finalized \<Longrightarrow> \<forall>n\<in>set ns. n \<le> finalized \<Longrightarrow> \<exists>bs w'. read_blocks p ns w = (Ok bs, w')"
proof (induction ns arbitrary: w)
  case (Cons n ns)
  obtain b w1 where b: "rp_recovered_block p n w = (Inr (Some b), w1)"
    using reth_steadyD(2)[OF Cons.prems(1)] Cons.prems(2) by (metis list.set_intros(1))
  obtain rs w2 where r: "rp_receipts_by_block p n w1 = (Inr (Some rs), w2)"
    using reth_steadyD(3)[OF Cons.prems(1)] Cons.prems(2) by (metis list.set_intros(1))
  obtain bs w' where "read_blocks p ns w2 = (Ok bs, w')" using Cons.IH[of w2] Cons.prems by auto
  then show ?case using b r by simp
qed simp

lemma steady_next_batch:
  assumes st: "reth_steady p finalized" and pos: "0 < bf_batch_size b" "bf_cursor b + bf_batch_size b \<le> u64_max"
    and small: "finalized < 2 ^ 62" "Suc finalized * rp_block_bytes p < 2 ^ 63" and cur: "bf_cursor b \<le> finalized"
  shows "\<exists>s w'. next_batch p b w = (Ok (Some s), b\<lparr>bf_cursor := Suc (batch_end b finalized)\<rparr>, w')"
proof -
  let ?to = "batch_end b finalized"
  obtain w1 where f: "rp_finalized_block_number p w = (Inr (Some finalized), w1)" using reth_steadyD(1)[OF st] by blast
  have to: "bf_cursor b \<le> ?to" "?to \<le> finalized" using pos cur by (auto simp: batch_end_def)
  have u: "finalized < u64_max" using small(1) by (simp add: u64_max_def)
  have sub: "u64_sub ?to (bf_cursor b) = ?to - bf_cursor b" using to by (simp add: u64_sub_exact)
  have "u64_add (u64_sub ?to (bf_cursor b)) 1 \<le> Suc finalized"
    using to u sub u64_add_Suc[of "?to - bf_cursor b"] by simp
  then have cap: "\<not> u64_add (u64_sub ?to (bf_cursor b)) 1 * rp_block_bytes p > 2 ^ 63 - 1"
    using small(2) mult_le_mono1[of "u64_add (u64_sub ?to (bf_cursor b)) 1" "Suc finalized" "rp_block_bytes p"]
    by linarith
  obtain bs w2 where "read_blocks p [bf_cursor b..<Suc ?to] w1 = (Ok bs, w2)"
    using steady_read_blocks[OF st, of "[bf_cursor b..<Suc ?to]" w1] to by auto
  then have "read_block_range p (bf_cursor b) ?to w1 = (Ok (DbChainSegment bs), w2)"
    using cap by (simp add: read_block_range_def del: upt_Suc)
  moreover have "u64_add ?to 1 = Suc ?to" using to u by (intro u64_add_Suc) linarith
  ultimately show ?thesis using f cur batch_end_u64[OF pos] by (simp add: next_batch_def Let_def)
qed

text \<open>
  C21: with a steady finalized block, and blocks that a vector in memory can hold, the database backfill ends, after no more batches than
  there are blocks to read, having delivered every block from the cursor up to the
  finalized one exactly once and in order, and leaves the cursor right behind it.
\<close>

theorem reth_backfill_terminates:
  assumes "reth_steady p finalized" "numbers_right p" "finalized < 2 ^ 62" "bf_batch_size b < 2 ^ 62"
    and "Suc finalized * rp_block_bytes p < 2 ^ 63" "0 < bf_batch_size b" "bf_cursor b \<le> Suc finalized" "Suc finalized - bf_cursor b < fuel"
  shows "\<exists>ss b' w'. drain_reth fuel p b w = Some (ss, b', w') \<and> bf_cursor b' = Suc finalized
    \<and> concat (map segment_numbers ss) = [bf_cursor b..<Suc finalized]
    \<and> length ss \<le> Suc finalized - bf_cursor b"
  using assms
proof (induction fuel arbitrary: b w)
  case (Suc fuel)
  show ?case
  proof (cases "bf_cursor b \<le> finalized")
    case True
    have lim: "bf_cursor b + bf_batch_size b \<le> u64_max" using Suc.prems(3,4) True by (simp add: u64_max_def)
    obtain s w1 where nb: "next_batch p b w = (Ok (Some s), b\<lparr>bf_cursor := Suc (batch_end b finalized)\<rparr>, w1)"
      using steady_next_batch[OF Suc.prems(1,6) lim Suc.prems(3,5) True] by blast
    let ?b1 = "b\<lparr>bf_cursor := Suc (batch_end b finalized)\<rparr>"
    have ns: "segment_numbers s = [bf_cursor b..<bf_cursor ?b1]" "bf_cursor b < bf_cursor ?b1"
      using batch_delivers[OF Suc.prems(2,6) lim nb] by blast+
    have le: "bf_cursor ?b1 \<le> Suc finalized" by (simp add: batch_end_def)
    have "\<exists>ss b' w'. drain_reth fuel p ?b1 w1 = Some (ss, b', w') \<and> bf_cursor b' = Suc finalized
        \<and> concat (map segment_numbers ss) = [bf_cursor ?b1..<Suc finalized]
        \<and> length ss \<le> Suc finalized - bf_cursor ?b1"
      using Suc.prems ns(2) le by (intro Suc.IH) simp_all
    then obtain ss b' w' where IH: "drain_reth fuel p ?b1 w1 = Some (ss, b', w')" "bf_cursor b' = Suc finalized"
      "concat (map segment_numbers ss) = [bf_cursor ?b1..<Suc finalized]" "length ss \<le> Suc finalized - bf_cursor ?b1"
      by blast
    then have "drain_reth (Suc fuel) p b w = Some (s # ss, b', w')" using nb by simp
    moreover have "concat (map segment_numbers (s # ss)) = [bf_cursor b..<Suc finalized]"
      using IH(3) ns upt_glue[of "bf_cursor b" "bf_cursor ?b1" "Suc finalized"] le by (simp del: upt_Suc)
    moreover have "length (s # ss) \<le> Suc finalized - bf_cursor b"
      using IH(4) ns(2) le by (simp del: upt_Suc)
    ultimately show ?thesis using IH(2) by blast
  next
    case False
    obtain w1 where "rp_finalized_block_number p w = (Inr (Some finalized), w1)" using reth_steadyD(1)[OF Suc.prems(1)] by blast
    then show ?thesis using False Suc.prems(7) by (auto simp: next_batch_def)
  qed
qed simp

section \<open>Switching to live notifications\<close>

text \<open>
  When the backfill is over the live stream is started right behind the last block it
  delivered, once, and the notifier stays live; when the header of that block cannot be read the
  backfill is gone all the same, so the next call reads the live stream without it ever
  having been told where to start.
\<close>

theorem reth_handover:
  assumes "rn_backfill n = Some b" "next_batch p b w = (Ok None, b1, w1)"
  shows "case rp_sealed_header p (bf_cursor b1 - 1) w1 of
      (Inr (Some (hash, hdr)), w2) \<Rightarrow>
        reth_next_notification p X n w = live_notification p X
          (n\<lparr>rn_backfill := None, rn_notifications := xo_set_with_head X (bf_cursor b1 - 1) hash (rn_notifications n)\<rparr>) w2
        \<and> rn_backfill (fst (snd (reth_next_notification p X n w))) = None
    | (Inr None, w2) \<Rightarrow>
        reth_next_notification p X n w = (Some (Err (MissingHeader (bf_cursor b1 - 1))), n\<lparr>rn_backfill := None\<rparr>, w2)
        \<and> (\<forall>v. reth_next_notification p X (n\<lparr>rn_backfill := None\<rparr>) v = live_notification p X (n\<lparr>rn_backfill := None\<rparr>) v)
    | (Inl e, w2) \<Rightarrow> reth_next_notification p X n w = (Some (Err (Provider e)), n\<lparr>rn_backfill := None\<rparr>, w2)"
proof -
  have live: "rn_backfill (fst (snd (live_notification p X m v))) = rn_backfill m" for m v
    by (simp add: live_notification_def split: prod.split option.split rresult.split)
  show ?thesis
    using assms live
    by (auto simp: reth_next_notification_def saturating_sub_def Let_def split: prod.splits sum.splits option.splits)
qed

section \<open>A concrete host\<close>

definition ex_reth_block :: "u64 \<Rightarrow> nat recovered_block" where
  "ex_reth_block n = \<lparr>rec_header = \<lparr>h_number = n, h_parent_hash = of_nat (n - 1), h_timestamp = n, h_gas_limit = 0,
     h_gas_used = 0, h_base_fee_per_gas = None, h_rest = 0\<rparr>, rec_hash = of_nat n, rec_transactions = []\<rparr>"

definition ex_reth :: "(nat, nat, nat) reth_provider" where
  "ex_reth = \<lparr>rp_block_bytes = 800, rp_finalized_block_number = (\<lambda>w. (Inr (Some 12), w)), rp_safe_block_number = (\<lambda>w. (Inl ''none'', w)),
     rp_recovered_block = (\<lambda>n w. (Inr (Some (ex_reth_block n)), w)), rp_receipts_by_block = (\<lambda>n w. (Inr (Some []), w)),
     rp_sealed_header = (\<lambda>n w. (Inr (if n \<le> 12 then Some (of_nat n, rec_header (ex_reth_block n)) else None), w))\<rparr>"

lemma ex_reth_right: "numbers_right ex_reth" "reth_steady ex_reth 12"
  by (simp_all add: numbers_right_def reth_steady_def ex_reth_def ex_reth_block_def block_number_def)

lemma ex_reth_bytes: "rp_block_bytes ex_reth = 800" by (simp add: ex_reth_def)

definition ex_db :: db_backfill where "ex_db = set_batch_size 2 (DbBackfill_new 9)"

lemma ex_db_sel: "bf_cursor ex_db = 9" "bf_batch_size ex_db = 2"
  by (simp_all add: ex_db_def set_batch_size_def DbBackfill_new_def)

theorem reth_batch_exact_witness:
  "\<exists>s w'. next_batch ex_reth ex_db 0 = (Ok (Some s), ex_db\<lparr>bf_cursor := 11\<rparr>, w') \<and> segment_numbers s = [9, 10]"
proof -
  have pos: "0 < bf_batch_size ex_db" "bf_cursor ex_db + bf_batch_size ex_db \<le> u64_max"
    by (simp_all add: ex_db_sel u64_max_def)
  obtain s w' where s: "next_batch ex_reth ex_db 0 = (Ok (Some s), ex_db\<lparr>bf_cursor := Suc (batch_end ex_db 12)\<rparr>, w')"
    using steady_next_batch[OF ex_reth_right(2) pos] by (force simp: ex_db_sel ex_reth_bytes)
  have "segment_numbers s = [bf_cursor ex_db..<Suc (batch_end ex_db 12)]"
    using reth_batch_exact[OF ex_reth_right(1) pos s] by (auto simp del: upt_Suc)
  then show ?thesis using s by (simp add: batch_end_def ex_db_sel upt_rec)
qed

theorem reth_backfill_terminates_witness:
  "\<exists>ss b' w'. drain_reth 5 ex_reth ex_db 0 = Some (ss, b', w') \<and> concat (map segment_numbers ss) = [9, 10, 11, 12]"
  using reth_backfill_terminates[OF ex_reth_right(2,1), of ex_db 5 0] by (auto simp: ex_db_sel ex_reth_bytes upt_rec)

definition ex_exex :: "(nat, nat, nat) exex_ops" where
  "ex_exex = \<lparr>xo_next = (\<lambda>x. (None, x)), xo_set_with_head = (\<lambda>k h x. k)\<rparr>"

theorem reth_handover_witness:
  "rn_notifications (fst (snd (reth_next_notification ex_reth ex_exex
      (reth_set_head 13 (RethHostNotifier_new 0)) 0))) = 12"
proof -
  let ?n = "reth_set_head 13 (RethHostNotifier_new (0 :: nat))"
  have b: "rn_backfill ?n = Some (DbBackfill_new 13)" by (simp add: reth_set_head_def RethHostNotifier_new_def)
  have nb: "next_batch ex_reth (DbBackfill_new 13) 0 = (Ok None, DbBackfill_new 13, 0)"
    by (simp add: next_batch_def ex_reth_def DbBackfill_new_def)
  show ?thesis using reth_handover[OF b nb, of ex_exex]
    by (simp add: ex_reth_def DbBackfill_new_def live_notification_def ex_exex_def)
qed

end
