(* ===== verification/Trace_Error.thy ===== *)
theory Trace_Error
  imports Rpc_Ctx
begin

text \<open>
  Errors of the \<^verbatim>\<open>debug\<close> and \<^verbatim>\<open>trace\<close> namespaces (\<^verbatim>\<open>rpc/src/debug/error.rs\<close>,
  \<^verbatim>\<open>rpc/src/trace/error.rs\<close>): the variants, their JSON-RPC payloads, and the conversions the
  handlers use. The printed form of a hash, a block id and a number are parameters.
\<close>

section \<open>The debug namespace\<close>

datatype debug_error =
    D_Cold string
  | D_Hot string
  | D_Resolve resolve_error
  | D_InvalidTracerConfig
  | D_Unsupported string
  | D_EvmHalt string
  | D_BlockNotFound block_id
  | D_TransactionNotFound b256
  | D_Internal string
  | D_RlpDecode string
  | D_SenderRecovery

fun debug_error_code :: "debug_error \<Rightarrow> int" where
  "debug_error_code (D_Cold e) = -32000"
| "debug_error_code (D_Hot e) = -32000"
| "debug_error_code (D_EvmHalt r) = -32000"
| "debug_error_code (D_Internal m) = -32000"
| "debug_error_code (D_Resolve r) = resolve_error_code r"
| "debug_error_code D_InvalidTracerConfig = -32602"
| "debug_error_code (D_RlpDecode m) = -32602"
| "debug_error_code (D_Unsupported m) = -32601"
| "debug_error_code (D_BlockNotFound i) = -32001"
| "debug_error_code (D_TransactionNotFound h) = -32001"
| "debug_error_code D_SenderRecovery = -32000"

fun debug_error_message :: "(b256 \<Rightarrow> string) \<Rightarrow> (block_id \<Rightarrow> string) \<Rightarrow> debug_error \<Rightarrow> string" where
  "debug_error_message sh si (D_Cold e) = ''server error''"
| "debug_error_message sh si (D_Hot e) = ''server error''"
| "debug_error_message sh si (D_Internal m) = m"
| "debug_error_message sh si (D_Resolve r) = resolve_error_message sh r"
| "debug_error_message sh si D_InvalidTracerConfig = ''invalid tracer config''"
| "debug_error_message sh si (D_Unsupported m) = ''unsupported: '' @ m"
| "debug_error_message sh si (D_EvmHalt r) = ''execution halted: '' @ r"
| "debug_error_message sh si (D_BlockNotFound i) = ''block not found: '' @ si i"
| "debug_error_message sh si (D_TransactionNotFound h) = ''transaction not found: '' @ sh h"
| "debug_error_message sh si (D_RlpDecode m) = ''RLP decode error: '' @ m"
| "debug_error_message sh si D_SenderRecovery = ''sender recovery failed''"

definition debug_error_data :: "debug_error \<Rightarrow> unit option" where
  "debug_error_data e = None"

section \<open>The trace namespace\<close>

datatype trace_error =
    T_Cold string
  | T_Hot string
  | T_Resolve resolve_error
  | T_EvmHalt string
  | T_BlockNotFound block_id
  | T_TransactionNotFound b256
  | T_RlpDecode string
  | T_SenderRecovery
  | T_InvalidBlockRange string
  | T_BlockRangeExceeded u64 u64

fun trace_error_code :: "trace_error \<Rightarrow> int" where
  "trace_error_code (T_Cold e) = -32000"
| "trace_error_code (T_Hot e) = -32000"
| "trace_error_code (T_EvmHalt r) = -32000"
| "trace_error_code T_SenderRecovery = -32000"
| "trace_error_code (T_Resolve r) = resolve_error_code r"
| "trace_error_code (T_BlockNotFound i) = -32001"
| "trace_error_code (T_TransactionNotFound h) = -32001"
| "trace_error_code (T_RlpDecode m) = -32602"
| "trace_error_code (T_InvalidBlockRange m) = -32602"
| "trace_error_code (T_BlockRangeExceeded requested limit) = -32602"

fun trace_error_message ::
  "(b256 \<Rightarrow> string) \<Rightarrow> (block_id \<Rightarrow> string) \<Rightarrow> (u64 \<Rightarrow> string) \<Rightarrow> trace_error \<Rightarrow> string" where
  "trace_error_message sh si sn (T_Cold e) = ''server error''"
| "trace_error_message sh si sn (T_Hot e) = ''server error''"
| "trace_error_message sh si sn (T_Resolve r) = resolve_error_message sh r"
| "trace_error_message sh si sn (T_EvmHalt r) = ''execution halted: '' @ r"
| "trace_error_message sh si sn (T_BlockNotFound i) = ''block not found: '' @ si i"
| "trace_error_message sh si sn (T_TransactionNotFound h) = ''transaction not found: '' @ sh h"
| "trace_error_message sh si sn (T_RlpDecode m) = ''RLP decode error: '' @ m"
| "trace_error_message sh si sn (T_InvalidBlockRange m) = ''invalid block range: '' @ m"
| "trace_error_message sh si sn T_SenderRecovery = ''sender recovery failed''"
| "trace_error_message sh si sn (T_BlockRangeExceeded requested limit) =
     ''block range too large: '' @ sn requested @ '' blocks (max '' @ sn limit @ '')''"

definition trace_error_data :: "trace_error \<Rightarrow> unit option" where
  "trace_error_data e = None"

text \<open>The outcomes of the handlers of each namespace.\<close>

type_synonym 'a debug_result = "('a, debug_error) rresult"
type_synonym 'a trace_result = "('a, trace_error) rresult"

section \<open>Conversions\<close>

text \<open>
  \<open>Display\<close> of a resolve error and of an ETH error, as \<^verbatim>\<open>to_string\<close> prints them: the
  \<^verbatim>\<open>#[error(..)]\<close> attributes of \<^verbatim>\<open>rpc/src/config/resolve.rs\<close> and \<^verbatim>\<open>rpc/src/eth/error.rs\<close>.
\<close>

fun resolve_error_display :: "(b256 \<Rightarrow> string) \<Rightarrow> resolve_error \<Rightarrow> string" where
  "resolve_error_display sh (Resolve_Storage e) = e"
| "resolve_error_display sh (Resolve_Db e) = e"
| "resolve_error_display sh (HashNotFound h) = ''block hash not found: '' @ sh h"

fun eth_error_display :: "(b256 \<Rightarrow> string) \<Rightarrow> (block_id \<Rightarrow> string) \<Rightarrow> eth_error \<Rightarrow> string" where
  "eth_error_display sh si (Cold e) = ''cold storage: '' @ e"
| "eth_error_display sh si (Hot e) = ''hot storage: '' @ e"
| "eth_error_display sh si (Resolve r) = ''resolve: '' @ resolve_error_display sh r"
| "eth_error_display sh si (BlockNotFound i) = ''block not found: '' @ si i"
| "eth_error_display sh si (TransactionMissing h) = ''transaction not found: '' @ sh h"
| "eth_error_display sh si (EvmRevert out) = ''execution reverted''"
| "eth_error_display sh si (EvmHalt r) = ''execution halted: '' @ r"
| "eth_error_display sh si (InvalidParams m) = m"
| "eth_error_display sh si (Internal m) = m"

text \<open>The \<^verbatim>\<open>Display\<close> of a debug error, printed when a tracer fails under a trace endpoint.\<close>

fun debug_error_display :: "(b256 \<Rightarrow> string) \<Rightarrow> (block_id \<Rightarrow> string) \<Rightarrow> debug_error \<Rightarrow> string" where
  "debug_error_display sh si (D_Cold e) = ''cold storage error''"
| "debug_error_display sh si (D_Hot e) = ''hot storage error''"
| "debug_error_display sh si (D_Resolve r) = ''resolve: '' @ resolve_error_display sh r"
| "debug_error_display sh si D_InvalidTracerConfig = ''invalid tracer config''"
| "debug_error_display sh si (D_Unsupported m) = ''unsupported: '' @ m"
| "debug_error_display sh si (D_EvmHalt r) = ''execution halted: '' @ r"
| "debug_error_display sh si (D_BlockNotFound i) = ''block not found: '' @ si i"
| "debug_error_display sh si (D_TransactionNotFound h) = ''transaction not found: '' @ sh h"
| "debug_error_display sh si (D_Internal m) = m"
| "debug_error_display sh si (D_RlpDecode m) = ''RLP decode: '' @ m"
| "debug_error_display sh si D_SenderRecovery = ''sender recovery failed''"

text \<open>\<^verbatim>\<open>map_err\<close> on a storage call, and on any result.\<close>

definition map_err :: "('d \<Rightarrow> 'e) \<Rightarrow> ('a, 'd) rresult \<Rightarrow> ('a, 'e) rresult" where
  "map_err f r = (case r of Ok a \<Rightarrow> Ok a | Err d \<Rightarrow> Err (f d) | Panic \<Rightarrow> Panic)"

lemma map_err_simps [simp]:
  "map_err f (Ok a) = Ok a" "map_err f (Err d) = Err (f d)" "map_err f Panic = Panic"
  by (simp_all add: map_err_def)

lemma map_err_Ok [rres_simps]: "map_err f r = Ok a \<longleftrightarrow> r = Ok a"
  by (cases r) simp_all

definition storage_err :: "(string \<Rightarrow> 'e) \<Rightarrow> (string + 'a) \<Rightarrow> ('a, 'e) rresult" where
  "storage_err wrap r = (case r of Inl e \<Rightarrow> Err (wrap e) | Inr a \<Rightarrow> Ok a)"

lemma storage_err_simps [simp]:
  "storage_err wrap (Inr a) = Ok a" "storage_err wrap (Inl e) = Err (wrap e)"
  by (simp_all add: storage_err_def)

lemma storage_err_Ok [rres_simps]: "storage_err wrap r = Ok a \<longleftrightarrow> r = Inr a"
  by (auto simp: storage_err_def split: sum.split)

text \<open>
  \<^verbatim>\<open>await_handler!\<close> of the two namespaces: the given error where the task panicked or was
  cancelled.
\<close>

fun await_or :: "'e \<Rightarrow> ('a, 'e) rresult \<Rightarrow> ('a, 'e) rresult" where
  "await_or e Panic = Err e"
| "await_or e r = r"

lemma await_or_Ok [rres_simps]: "await_or e r = Ok a \<longleftrightarrow> r = Ok a"
  by (cases r) auto

lemma await_or_no_panic [simp]: "await_or e r \<noteq> Panic"
  by (cases r) auto

abbreviation trace_await :: "'a trace_result \<Rightarrow> 'a trace_result" where
  "trace_await \<equiv> await_or (T_EvmHalt ''task panicked or cancelled'')"

abbreviation debug_await :: "'a debug_result \<Rightarrow> 'a debug_result" where
  "debug_await \<equiv> await_or (D_Internal ''task panicked or cancelled'')"

text \<open>
  What the client sees of an error does not name the storage failure behind it, and every
  code is one of the five the two namespaces use.
\<close>

lemma debug_storage_opaque:
  "debug_error_message sh si (D_Cold e) = debug_error_message sh si (D_Hot e')"
  "debug_error_message sh si (D_Resolve (Resolve_Db e)) = debug_error_message sh si (D_Cold e')"
  by simp_all

lemma debug_code_cases: "debug_error_code e \<in> {-32000, -32001, -32601, -32602}"
proof (cases e)
  case (D_Resolve r)
  then show ?thesis by (cases r) auto
qed auto

lemma trace_code_cases: "trace_error_code e \<in> {-32000, -32001, -32602}"
proof (cases e)
  case (T_Resolve r)
  then show ?thesis by (cases r) auto
qed auto

end
