(* ===== verification/Trace_Tracer.thy ===== *)
theory Trace_Tracer
  imports Trace_Error Eth_Queries
begin

text \<open>
  Tracing one transaction (\<^verbatim>\<open>rpc/src/debug/tracer.rs\<close>) and the loops that trace a block or
  replay the transactions before a target (\<^verbatim>\<open>rpc/src/debug/endpoints.rs\<close>,
  \<^verbatim>\<open>rpc/src/trace/endpoints.rs\<close>). Parameters: the EVM with its three stages (needing a
  transaction, ready, executed), and the inspectors of \<^verbatim>\<open>revm-inspectors\<close> with the builders
  that turn what they recorded into frames.
\<close>

section \<open>The EVM and the inspectors\<close>

text \<open>
  \<open>'v\<close> is an EVM that needs a transaction, \<open>'r\<close> one that is ready to run, \<open>'x\<close> one that has
  run and holds its uncommitted state, \<open>'res\<close> the result with that state; \<open>'db\<close> is the state
  a block starts from and \<open>'i\<close> an inspector.
\<close>

record ('tx, 'req, 'db, 'v, 'r, 'x, 'res, 'i) trevm =
  tv_state_at_height :: "u64 \<Rightarrow> string + 'db"
  tv_read_at_height :: "u64 \<Rightarrow> 'db"
  tv_fill_block :: "u64 \<Rightarrow> nat \<Rightarrow> header \<Rightarrow> 'db \<Rightarrow> 'v"
  tv_fill_tx :: "'tx \<Rightarrow> 'v \<Rightarrow> 'r"
  tv_fill_request :: "'req \<Rightarrow> 'v \<Rightarrow> 'r"
  tv_run :: "'r \<Rightarrow> string + 'x"
  tv_run_tx :: "'tx \<Rightarrow> 'v \<Rightarrow> string + 'x"
  tv_run_with_inspector :: "'i \<Rightarrow> 'r \<Rightarrow> string + ('i \<times> 'x)"
  tv_ready_gas_limit :: "'r \<Rightarrow> u64"
  tv_gas_limit :: "'x \<Rightarrow> u64"
  tv_gas_used :: "'x \<Rightarrow> u64"
  tv_accept_state :: "'x \<Rightarrow> 'v"
  tv_take_result_and_state :: "'x \<Rightarrow> 'res \<times> 'v"
  tv_commit :: "'res \<Rightarrow> 'v \<Rightarrow> 'v"

record tx_info =
  ti_hash :: "b256 option"
  ti_index :: "u64 option"
  ti_block_hash :: "b256 option"
  ti_block_number :: "u64 option"
  ti_base_fee :: "u64 option"

datatype builtin_tracer =
  FourByteTracer | CallTracer | FlatCallTracer | PreStateTracer | NoopTracer | MuxTracer | Erc7562Tracer

datatype tracer_type = BuiltInTracer builtin_tracer | JsTracer string

text \<open>\<open>'j\<close> is the tracer's own configuration, still as JSON.\<close>

record 'j tracing_options =
  to_tracer :: "tracer_type option"
  to_tracer_config :: 'j

datatype ('f, 'lt) geth_trace =
    FourByteFrame 'f
  | CallFrame 'f
  | FlatCallFrame "'lt list"
  | PreStateFrame 'f
  | NoopFrame
  | MuxFrame 'f

text \<open>
  The inspectors: reading a tracer's configuration \<open>'c\<close> out of the JSON, a fresh inspector
  for it, and the frame built from what an inspector recorded.
\<close>

record ('j, 'c, 'i, 'v, 'res, 'f, 'lt, 'ty, 'tr) inspectors =
  in_four_byte :: 'i
  in_four_byte_frame :: "'i \<Rightarrow> 'f"
  in_call_config :: "'j \<Rightarrow> 'c option"
  in_call :: "'c \<Rightarrow> 'i"
  in_call_frame :: "'c \<Rightarrow> u64 \<Rightarrow> u64 \<Rightarrow> 'i \<Rightarrow> 'f"
  in_pre_state_config :: "'j \<Rightarrow> 'c option"
  in_pre_state :: "'c \<Rightarrow> 'i"
  in_pre_state_frame :: "'c \<Rightarrow> u64 \<Rightarrow> 'res \<Rightarrow> 'v \<Rightarrow> 'i \<Rightarrow> string + 'f"
  in_flat_call_config :: "'j \<Rightarrow> 'c option"
  in_flat_call :: "'c \<Rightarrow> 'i"
  in_mux_config :: "'j \<Rightarrow> 'c option"
  in_mux :: "'c \<Rightarrow> string + 'i"
  in_mux_frame :: "'res \<Rightarrow> 'v \<Rightarrow> tx_info \<Rightarrow> 'i \<Rightarrow> string + 'f"
  in_parity :: 'i
  in_localized :: "u64 \<Rightarrow> tx_info \<Rightarrow> 'i \<Rightarrow> 'lt list"
  in_replay :: "'ty \<Rightarrow> 'i"
  in_trace_results :: "'res \<Rightarrow> 'ty \<Rightarrow> 'v \<Rightarrow> 'i \<Rightarrow> string + 'tr"

section \<open>One transaction\<close>

definition evm_halt :: "(string + 'a) \<Rightarrow> 'a debug_result" where
  "evm_halt r = storage_err D_EvmHalt r"

definition config_of :: "'c option \<Rightarrow> 'c debug_result" where
  "config_of c = ok_or c D_InvalidTracerConfig"

definition trace_four_byte where
  "trace_four_byte E I ready =
     rbind (evm_halt (tv_run_with_inspector E (in_four_byte I) ready)) (\<lambda>(four_byte, x).
       Ok (FourByteFrame (in_four_byte_frame I four_byte), tv_accept_state E x))"

definition trace_call_frame where
  "trace_call_frame E I json ready =
     rbind (config_of (in_call_config I json)) (\<lambda>call_config.
     rbind (evm_halt (tv_run_with_inspector E (in_call I call_config) ready)) (\<lambda>(inspector, x).
       Ok (CallFrame (in_call_frame I call_config (tv_gas_limit E x) (tv_gas_used E x) inspector),
           tv_accept_state E x)))"

definition trace_pre_state where
  "trace_pre_state E I json ready =
     rbind (config_of (in_pre_state_config I json)) (\<lambda>config.
     rbind (evm_halt (tv_run_with_inspector E (in_pre_state I config) ready)) (\<lambda>(inspector, x).
       (case tv_take_result_and_state E x of
          (result, v) \<Rightarrow>
            rbind (evm_halt (in_pre_state_frame I config (tv_gas_limit E x) result v inspector)) (\<lambda>frame.
              Ok (PreStateFrame frame, tv_commit E result v)))))"

definition trace_flat_call where
  "trace_flat_call E I json ready info =
     rbind (config_of (in_flat_call_config I json)) (\<lambda>config.
     rbind (evm_halt (tv_run_with_inspector E (in_flat_call I config) ready)) (\<lambda>(inspector, x).
       Ok (FlatCallFrame (in_localized I (tv_gas_limit E x) info inspector), tv_accept_state E x)))"

definition trace_mux where
  "trace_mux E I json ready info =
     rbind (config_of (in_mux_config I json)) (\<lambda>config.
     rbind (evm_halt (in_mux I config)) (\<lambda>mux.
     rbind (evm_halt (tv_run_with_inspector E mux ready)) (\<lambda>(inspector, x).
       (case tv_take_result_and_state E x of
          (result, v) \<Rightarrow>
            rbind (evm_halt (in_mux_frame I result v info inspector)) (\<lambda>frame.
              Ok (MuxFrame frame, tv_commit E result v))))))"

definition trace_noop where
  "trace_noop E ready = rbind (evm_halt (tv_run E ready)) (\<lambda>x. Ok (NoopFrame, tv_accept_state E x))"

definition trace ::
  "('tx, 'req, 'db, 'v, 'r, 'x, 'res, 'i) trevm \<Rightarrow> ('j, 'c, 'i, 'v, 'res, 'f, 'lt, 'ty, 'tr) inspectors
     \<Rightarrow> 'r \<Rightarrow> 'j tracing_options \<Rightarrow> tx_info \<Rightarrow> (('f, 'lt) geth_trace \<times> 'v) debug_result" where
  "trace E I ready config info =
     (case to_tracer config of
        None \<Rightarrow> Err D_InvalidTracerConfig
      | Some (JsTracer code) \<Rightarrow> Err (D_Unsupported ''JS tracer'')
      | Some (BuiltInTracer built_in) \<Rightarrow>
          (case built_in of
             Erc7562Tracer \<Rightarrow> Err (D_Unsupported ''ERC-7562 tracing is not yet implemented'')
           | FourByteTracer \<Rightarrow> trace_four_byte E I ready
           | CallTracer \<Rightarrow> trace_call_frame E I (to_tracer_config config) ready
           | FlatCallTracer \<Rightarrow> trace_flat_call E I (to_tracer_config config) ready info
           | PreStateTracer \<Rightarrow> trace_pre_state E I (to_tracer_config config) ready
           | NoopTracer \<Rightarrow> trace_noop E ready
           | MuxTracer \<Rightarrow> trace_mux E I (to_tracer_config config) ready info))"

definition trace_parity_localized ::
  "('tx, 'req, 'db, 'v, 'r, 'x, 'res, 'i) trevm \<Rightarrow> ('j, 'c, 'i, 'v, 'res, 'f, 'lt, 'ty, 'tr) inspectors
     \<Rightarrow> 'r \<Rightarrow> tx_info \<Rightarrow> ('lt list \<times> 'v) debug_result" where
  "trace_parity_localized E I ready info =
     (let gas_limit = tv_ready_gas_limit E ready
      in rbind (evm_halt (tv_run_with_inspector E (in_parity I) ready)) (\<lambda>(inspector, x).
           Ok (in_localized I gas_limit info inspector, tv_accept_state E x)))"

definition trace_parity_replay ::
  "('tx, 'req, 'db, 'v, 'r, 'x, 'res, 'i) trevm \<Rightarrow> ('j, 'c, 'i, 'v, 'res, 'f, 'lt, 'ty, 'tr) inspectors
     \<Rightarrow> 'r \<Rightarrow> 'ty \<Rightarrow> ('tr \<times> 'v) debug_result" where
  "trace_parity_replay E I ready trace_types =
     rbind (evm_halt (tv_run_with_inspector E (in_replay I trace_types) ready)) (\<lambda>(inspector, x).
       (case tv_take_result_and_state E x of
          (result, v) \<Rightarrow>
            rbind (storage_err (\<lambda>e. D_EvmHalt (''state diff: '' @ e))
                (in_trace_results I result trace_types v inspector)) (\<lambda>trace_res.
              Ok (trace_res, tv_commit E result v))))"

section \<open>The transactions of a block\<close>

text \<open>
  What the handlers ask of a stored transaction: its hash, and whether its signature is the
  magic signature that marks a transaction the chain itself inserted.
\<close>

record 'tx tx_view =
  txv_hash :: "'tx \<Rightarrow> b256"
  txv_magic :: "'tx \<Rightarrow> bool"

definition tx_info_at :: "'tx tx_view \<Rightarrow> b256 \<Rightarrow> header \<Rightarrow> nat \<Rightarrow> 'tx \<Rightarrow> tx_info" where
  "tx_info_at T block_hash header idx tx =
     \<lparr>ti_hash = Some (txv_hash T tx), ti_index = Some idx, ti_block_hash = Some block_hash,
      ti_block_number = Some (h_number header), ti_base_fee = h_base_fee_per_gas header\<rparr>"

text \<open>
  The shared loop: \<^verbatim>\<open>peeking_take_while\<close> over the enumerated transactions up to the first
  magic one, each step tracing a transaction in the state the previous one left; \<^verbatim>\<open>?\<close>
  leaves with the first error.
\<close>

fun trace_loop ::
  "'tx tx_view \<Rightarrow> (nat \<Rightarrow> 'tx \<Rightarrow> 'v \<Rightarrow> ('o \<times> 'v, 'e) rresult) \<Rightarrow> nat \<Rightarrow> 'tx list \<Rightarrow> 'v \<Rightarrow> ('o list, 'e) rresult" where
  "trace_loop T step idx [] v = Ok []"
| "trace_loop T step idx (tx # txs) v =
     (if txv_magic T tx then Ok []
      else rbind (step idx tx v) (\<lambda>(frame, v'). rmap (\<lambda>fs. frame # fs) (trace_loop T step (Suc idx) txs v')))"

text \<open>
  The replay before a target: run and accept every transaction until the target's hash is
  met. \<open>Ok None\<close> where a magic transaction comes first or the target is not in the block,
  which the callers answer alike.
\<close>

fun replay_to ::
  "('tx, 'req, 'db, 'v, 'r, 'x, 'res, 'i) trevm \<Rightarrow> 'tx tx_view \<Rightarrow> (string \<Rightarrow> 'e) \<Rightarrow> b256 \<Rightarrow> nat \<Rightarrow> 'tx list \<Rightarrow> 'v
     \<Rightarrow> ((nat \<times> 'tx \<times> 'v) option, 'e) rresult" where
  "replay_to E T halt tx_hash idx [] v = Ok None"
| "replay_to E T halt tx_hash idx (tx # txs) v =
     (if txv_hash T tx = tx_hash then Ok (Some (idx, tx, v))
      else if txv_magic T tx then Ok None
      else rbind (storage_err halt (tv_run_tx E tx v)) (\<lambda>x.
             replay_to E T halt tx_hash (Suc idx) txs (tv_accept_state E x)))"

end
