(* ===== verification/Trace_Endpoints.thy ===== *)
theory Trace_Endpoints
  imports Trace_Tracer
begin

text \<open>
  The handlers of the \<^verbatim>\<open>trace\<close> namespace (\<^verbatim>\<open>rpc/src/trace/endpoints.rs\<close>). The tracing
  permit a handler holds only bounds how many run at once; it is modelled in \<open>Rpc_Server\<close>.
  \<open>E\<close> is the EVM, \<open>I\<close> the inspectors, \<open>T\<close> the view of a transaction, \<open>S\<close> how hashes and
  block ids print, \<open>cold\<close> cold storage and \<open>cx\<close> the RPC context.
\<close>

record display =
  show_hash :: "b256 \<Rightarrow> string"
  show_id :: "block_id \<Rightarrow> string"

definition halt_of :: "display \<Rightarrow> debug_error \<Rightarrow> trace_error" where
  "halt_of S e = T_EvmHalt (debug_error_display (show_hash S) (show_id S) e)"

section \<open>Tracing a whole block\<close>

definition localized_step where
  "localized_step E I T S header block_hash idx tx v =
     map_err (halt_of S)
       (trace_parity_localized E I (tv_fill_tx E tx v) (tx_info_at T block_hash header idx tx))"

definition trace_block_localized where
  "trace_block_localized E I T S chain spec_id header block_hash txs db =
     rmap concat
       (trace_loop T (localized_step E I T S header block_hash) 0 txs (tv_fill_block E chain spec_id header db))"

definition replay_step where
  "replay_step E I T S trace_types idx tx v =
     rmap (\<lambda>(trace_res, v'). ((trace_res, txv_hash T tx), v'))
       (map_err (halt_of S) (trace_parity_replay E I (tv_fill_tx E tx v) trace_types))"

definition trace_block_replay where
  "trace_block_replay E I T S chain spec_id header txs db trace_types =
     trace_loop T (replay_step E I T S trace_types) 0 txs (tv_fill_block E chain spec_id header db)"

definition trace_block where
  "trace_block E I T S cold cx tag =
     trace_await
       (rbind (map_err T_Resolve (resolve_block_id cx (BlockId_Number tag))) (\<lambda>block_num.
        rbind (map_err T_Resolve (resolve_header cx (BlockId_Number (Number block_num)))) (\<lambda>sealed.
        case sealed of
          None \<Rightarrow> Ok None
        | Some (block_hash, header) \<Rightarrow>
            rbind (storage_err T_Cold (cb_get_transactions cold block_num)) (\<lambda>txs.
            rbind (storage_err T_Hot (tv_state_at_height E (saturating_sub (h_number header) 1))) (\<lambda>db.
            rbind (trace_block_localized E I T S (cx_chain_id cx) (cx_spec_id cx header) header block_hash txs db)
              (\<lambda>traces. Ok (Some traces)))))))"

definition replay_block_transactions where
  "replay_block_transactions E I T S cold cx tag trace_types =
     trace_await
       (rbind (map_err T_Resolve (resolve_block_id cx (BlockId_Number tag))) (\<lambda>block_num.
        rbind (map_err T_Resolve (resolve_header cx (BlockId_Number (Number block_num)))) (\<lambda>sealed.
        case sealed of
          None \<Rightarrow> Ok None
        | Some (block_hash, header) \<Rightarrow>
            rbind (storage_err T_Cold (cb_get_transactions cold block_num)) (\<lambda>txs.
            rbind (storage_err T_Hot (tv_state_at_height E (saturating_sub (h_number header) 1))) (\<lambda>db.
            rbind (trace_block_replay E I T S (cx_chain_id cx) (cx_spec_id cx header) header txs db trace_types)
              (\<lambda>results. Ok (Some results)))))))"

section \<open>Tracing one transaction\<close>

definition trace_transaction where
  "trace_transaction E I T S cold cx tx_hash =
     trace_await
       (rbind (storage_err T_Cold (cb_get_tx_by_hash cold tx_hash)) (\<lambda>confirmed.
        case confirmed of
          None \<Rightarrow> Ok None
        | Some (_, meta) \<Rightarrow>
            (let block_num = cm_block_number meta; block_hash = cm_block_hash meta;
                 block_id = BlockId_Number (Number block_num)
             in rbind (map_err T_Resolve (resolve_header cx block_id)) (\<lambda>sealed.
                rbind (ok_or sealed (T_BlockNotFound block_id)) (\<lambda>(_, header).
                rbind (storage_err T_Cold (cb_get_transactions cold block_num)) (\<lambda>txs.
                rbind (storage_err T_Hot (tv_state_at_height E (saturating_sub block_num 1))) (\<lambda>db.
                rbind (replay_to E T T_EvmHalt tx_hash 0 txs
                    (tv_fill_block E (cx_chain_id cx) (cx_spec_id cx header) header db)) (\<lambda>target.
                case target of
                  None \<Rightarrow> Ok None
                | Some (index, tx, v) \<Rightarrow>
                    rbind (localized_step E I T S header block_hash index tx v) (\<lambda>(traces, _).
                      Ok (Some traces)))))))))) "

definition replay_transaction where
  "replay_transaction E I T S cold cx tx_hash trace_types =
     trace_await
       (rbind (storage_err T_Cold (cb_get_tx_by_hash cold tx_hash)) (\<lambda>confirmed.
        rbind (ok_or confirmed (T_TransactionNotFound tx_hash)) (\<lambda>(_, meta).
          let block_num = cm_block_number meta; block_id = BlockId_Number (Number block_num)
          in rbind (map_err T_Resolve (resolve_header cx block_id)) (\<lambda>sealed.
             rbind (ok_or sealed (T_BlockNotFound block_id)) (\<lambda>(_, header).
             rbind (storage_err T_Cold (cb_get_transactions cold block_num)) (\<lambda>txs.
             rbind (storage_err T_Hot (tv_state_at_height E (saturating_sub block_num 1))) (\<lambda>db.
             rbind (replay_to E T T_EvmHalt tx_hash 0 txs
                 (tv_fill_block E (cx_chain_id cx) (cx_spec_id cx header) header db)) (\<lambda>target.
             rbind (ok_or target (T_TransactionNotFound tx_hash)) (\<lambda>(_, tx, v).
             rbind (map_err (halt_of S) (trace_parity_replay E I (tv_fill_tx E tx v) trace_types)) (\<lambda>(results, _).
               Ok results))))))))))"

definition trace_get where
  "trace_get E I T S cold cx tx_hash indices =
     (if length indices \<noteq> 1 then Ok None
      else rmap (\<lambda>traces. Option.bind traces (\<lambda>t. nth_opt t (indices ! 0)))
             (trace_transaction E I T S cold cx tx_hash))"

section \<open>Tracing a call\<close>

definition trace_evm_block :: "display \<Rightarrow> 'f rpc_ctx \<Rightarrow> block_id \<Rightarrow> evm_block_context trace_result" where
  "trace_evm_block S cx i =
     map_err (\<lambda>e. case e of
         BlockNotFound i' \<Rightarrow> T_BlockNotFound i'
       | other \<Rightarrow> T_EvmHalt (eth_error_display (show_hash S) (show_id S) other))
       (resolve_evm_block cx i)"

definition evm_at_block where
  "evm_at_block E cx ebc =
     tv_fill_block E (cx_chain_id cx) (ebc_spec_id ebc) (ebc_header ebc) (tv_read_at_height E (ebc_height ebc))"

definition trace_call where
  "trace_call E I S apply_state apply_block cx request trace_types block_id state_overrides block_overrides =
     (let i = opt_default (BlockId_Number Latest) block_id
      in trace_await
        (rbind (trace_evm_block S cx i) (\<lambda>ebc.
         rbind (storage_err T_EvmHalt (apply_state state_overrides (evm_at_block E cx ebc))) (\<lambda>v.
         rbind (map_err (halt_of S)
             (trace_parity_replay E I (tv_fill_request E request (apply_block block_overrides v)) trace_types))
           (\<lambda>(results, _). Ok results)))))"

fun call_many where
  "call_many E I S [] v = Ok []"
| "call_many E I S ((request, trace_types) # calls) v =
     rbind (map_err (halt_of S) (trace_parity_replay E I (tv_fill_request E request v) trace_types))
       (\<lambda>(trace_res, v'). rmap (\<lambda>rest. trace_res # rest) (call_many E I S calls v'))"

definition trace_call_many where
  "trace_call_many E I S cx calls block_id =
     (let i = opt_default (BlockId_Number Pending) block_id
      in trace_await
        (rbind (trace_evm_block S cx i) (\<lambda>ebc. call_many E I S calls (evm_at_block E cx ebc))))"

text \<open>\<open>decode\<close> is the RLP decoder of a signed transaction, \<open>recover\<close> the recovery of its sender.\<close>

definition trace_raw_transaction where
  "trace_raw_transaction E I S decode recover cx rlp_bytes trace_types block_id =
     (let i = opt_default (BlockId_Number Latest) block_id
      in trace_await
        (rbind (storage_err T_RlpDecode (decode rlp_bytes)) (\<lambda>tx.
         rbind (ok_or (recover tx) T_SenderRecovery) (\<lambda>recovered.
         rbind (trace_evm_block S cx i) (\<lambda>ebc.
         rbind (map_err (halt_of S)
             (trace_parity_replay E I (tv_fill_tx E recovered (evm_at_block E cx ebc)) trace_types))
           (\<lambda>(results, _). Ok results))))))"

section \<open>Filtering traces over a range of blocks\<close>

text \<open>A filter; \<open>tf_matches\<close> is what its matcher accepts of a trace.\<close>

record 'lt trace_filter_args =
  tf_from_block :: "u64 option"
  tf_to_block :: "u64 option"
  tf_after :: "u64 option"
  tf_count :: "u64 option"
  tf_matches :: "'lt \<Rightarrow> bool"

definition filter_block where
  "filter_block E I T S cold cx matches block_num =
     rbind (map_err T_Resolve (resolve_header cx (BlockId_Number (Number block_num)))) (\<lambda>sealed.
       case sealed of
         None \<Rightarrow> Ok []
       | Some (block_hash, header) \<Rightarrow>
           rbind (storage_err T_Cold (cb_get_transactions cold block_num)) (\<lambda>txs.
           rbind (storage_err T_Hot (tv_state_at_height E (saturating_sub (h_number header) 1))) (\<lambda>db.
           rbind (trace_block_localized E I T S (cx_chain_id cx) (cx_spec_id cx header) header block_hash txs db)
             (\<lambda>traces. Ok (filter matches traces)))))"

fun filter_blocks where
  "filter_blocks E I T S cold cx matches [] = Ok []"
| "filter_blocks E I T S cold cx matches (block_num # nums) =
     rbind (filter_block E I T S cold cx matches block_num) (\<lambda>traces.
       rmap (\<lambda>rest. traces @ rest) (filter_blocks E I T S cold cx matches nums))"

definition filter_range :: "u64 \<Rightarrow> u64 \<Rightarrow> u64 option \<Rightarrow> u64 option \<Rightarrow> (u64 \<times> u64) trace_result" where
  "filter_range latest limit from_block to_block =
     (let start = opt_default 0 from_block; end' = opt_default latest to_block
      in if start > latest then Err (T_BlockNotFound (BlockId_Number (Number start)))
         else if end' > latest then Err (T_BlockNotFound (BlockId_Number (Number end')))
         else if start > end' then Err (T_InvalidBlockRange ''fromBlock cannot be greater than toBlock'')
         else (let distance = u64_add (saturating_sub end' start) 1
               in if distance > limit then Err (T_BlockRangeExceeded distance limit) else Ok (start, end')))"

definition paginate :: "u64 option \<Rightarrow> u64 option \<Rightarrow> 'lt list \<Rightarrow> 'lt list" where
  "paginate after count traces =
     (let page = (case after of None \<Rightarrow> Some traces
                   | Some a \<Rightarrow> if a \<ge> length traces then None else Some (drop a traces))
      in case page of
           None \<Rightarrow> []
         | Some ts \<Rightarrow> (case count of None \<Rightarrow> ts | Some c \<Rightarrow> take c ts))"

definition trace_filter where
  "trace_filter E I T S cold cx args =
     trace_await
       (rbind (filter_range (tag_latest (cx_tags cx)) (max_trace_filter_blocks (cx_config cx))
           (tf_from_block args) (tf_to_block args)) (\<lambda>(start, end').
        rbind (filter_blocks E I T S cold cx (tf_matches args) [start..<Suc end']) (\<lambda>all_traces.
          Ok (paginate (tf_after args) (tf_count args) all_traces))))"

end
