(* ===== verification/Debug_Endpoints.thy ===== *)
theory Debug_Endpoints
  imports Trace_Tracer
begin

text \<open>
  The handlers of the \<^verbatim>\<open>debug\<close> namespace (\<^verbatim>\<open>rpc/src/debug/endpoints.rs\<close>). The tracing permit
  is modelled in \<open>Rpc_Server\<close>. \<open>E\<close> is the EVM, \<open>I\<close> the inspectors, \<open>T\<close> the view of a
  transaction, \<open>cold\<close> cold storage and \<open>cx\<close> the RPC context; the encoders are alloy's.
\<close>

section \<open>Tracing\<close>

definition debug_step where
  "debug_step E I T opts header block_hash idx tx v =
     trace E I (tv_fill_tx E tx v) opts (tx_info_at T block_hash header idx tx)"

text \<open>A frame of the answer: the trace of a transaction and its hash (\<^verbatim>\<open>TraceResult::Success\<close>).\<close>

datatype 'g trace_result_frame = Trace_Success 'g "b256 option"

definition trace_block_inner where
  "trace_block_inner E I T chain spec_id header block_hash txs db opts =
     trace_loop T
       (\<lambda>idx tx v. rmap (\<lambda>(frame, v'). (Trace_Success frame (Some (txv_hash T tx)), v'))
          (debug_step E I T opts header block_hash idx tx v))
       0 txs (tv_fill_block E chain spec_id header db)"

text \<open>The options of a request without any (\<^verbatim>\<open>unwrap_or_default\<close>): no tracer named.\<close>

definition options_or_default :: "'j \<Rightarrow> 'j tracing_options option \<Rightarrow> 'j tracing_options" where
  "options_or_default null opts = opt_default \<lparr>to_tracer = None, to_tracer_config = null\<rparr> opts"

definition debug_trace_block where
  "debug_trace_block E I T null cold cx i options =
     (let opts = options_or_default null options
      in debug_await
        (rbind (map_err D_Resolve (resolve_block_id cx i)) (\<lambda>block_num.
         rbind (map_err D_Resolve (resolve_header cx (BlockId_Number (Number block_num)))) (\<lambda>sealed.
         rbind (ok_or sealed (D_BlockNotFound i)) (\<lambda>(block_hash, header).
         rbind (storage_err D_Cold (cb_get_transactions cold block_num)) (\<lambda>txs.
         rbind (storage_err D_Hot (tv_state_at_height E (saturating_sub (h_number header) 1))) (\<lambda>db.
           trace_block_inner E I T (cx_chain_id cx) (cx_spec_id cx header) header block_hash txs db opts)))))))"

definition debug_trace_transaction where
  "debug_trace_transaction E I T null cold cx tx_hash options =
     (let opts = options_or_default null options
      in debug_await
        (rbind (storage_err D_Cold (cb_get_tx_by_hash cold tx_hash)) (\<lambda>confirmed.
         rbind (ok_or confirmed (D_TransactionNotFound tx_hash)) (\<lambda>(_, meta).
           let block_num = cm_block_number meta; block_hash = cm_block_hash meta;
               block_id = BlockId_Number (Number block_num)
           in rbind (map_err D_Resolve (resolve_header cx block_id)) (\<lambda>sealed.
              rbind (ok_or sealed (D_BlockNotFound block_id)) (\<lambda>(_, header).
              rbind (storage_err D_Cold (cb_get_transactions cold block_num)) (\<lambda>txs.
              rbind (storage_err D_Hot (tv_state_at_height E (saturating_sub block_num 1))) (\<lambda>db.
              rbind (replay_to E T D_EvmHalt tx_hash 0 txs
                  (tv_fill_block E (cx_chain_id cx) (cx_spec_id cx header) header db)) (\<lambda>target.
              rbind (ok_or target (D_TransactionNotFound tx_hash)) (\<lambda>(index, tx, v).
              rbind (debug_step E I T opts header block_hash index tx v) (\<lambda>(res, _). Ok res)))))))))))"

text \<open>
  A block from its RLP encoding: \<open>decode_block\<close> gives the header and the signed
  transactions, \<open>hash_slow\<close> the header's hash, \<open>recover\<close> the sender of a transaction. The
  first transaction whose sender is not recovered fails the request.
\<close>

fun recover_all :: "('s \<Rightarrow> 'tx option) \<Rightarrow> 's list \<Rightarrow> 'tx list debug_result" where
  "recover_all recover [] = Ok []"
| "recover_all recover (s # ss) =
     rbind (ok_or (recover s) D_SenderRecovery) (\<lambda>tx. rmap (\<lambda>txs. tx # txs) (recover_all recover ss))"

definition trace_block_rlp where
  "trace_block_rlp E I T null decode_block hash_slow recover cx rlp_bytes options =
     (let opts = options_or_default null options
      in debug_await
        (rbind (storage_err D_RlpDecode (decode_block rlp_bytes)) (\<lambda>(header, signed).
           let block_hash = hash_slow header
           in rbind (recover_all recover signed) (\<lambda>txs.
              rbind (storage_err D_Hot (tv_state_at_height E (saturating_sub (h_number header) 1))) (\<lambda>db.
                trace_block_inner E I T (cx_chain_id cx) (cx_spec_id cx header) header block_hash txs db opts)))))"

definition debug_evm_block ::
  "(b256 \<Rightarrow> string) \<Rightarrow> (block_id \<Rightarrow> string) \<Rightarrow> 'f rpc_ctx \<Rightarrow> block_id \<Rightarrow> evm_block_context debug_result" where
  "debug_evm_block sh si cx i =
     map_err (\<lambda>e. case e of
         BlockNotFound i' \<Rightarrow> D_BlockNotFound i'
       | other \<Rightarrow> D_Internal (eth_error_display sh si other))
       (resolve_evm_block cx i)"

definition debug_trace_call where
  "debug_trace_call E I null sh si cx request block_id options =
     (let opts = options_or_default null options; i = opt_default (BlockId_Number Latest) block_id
      in debug_await
        (rbind (debug_evm_block sh si cx i) (\<lambda>ebc.
           let header = ebc_header ebc;
               v = tv_fill_block E (cx_chain_id cx) (ebc_spec_id ebc) header (tv_read_at_height E (ebc_height ebc));
               info = \<lparr>ti_hash = None, ti_index = None, ti_block_hash = None,
                       ti_block_number = Some (h_number header), ti_base_fee = h_base_fee_per_gas header\<rparr>
           in rbind (trace E I (tv_fill_request E request v) opts info) (\<lambda>(res, _). Ok res))))"

section \<open>Raw encodings\<close>

text \<open>\<open>into_inner\<close> forgets a transaction's sender; a block is encoded without ommers or withdrawals.\<close>

definition get_raw_block where
  "get_raw_block into_inner encode_block cold cx i =
     debug_await
       (rbind (map_err D_Resolve (resolve_block_id cx i)) (\<lambda>block_num.
        rbind (map_err D_Resolve (resolve_header cx (BlockId_Number (Number block_num)))) (\<lambda>sealed.
        rbind (ok_or sealed (D_BlockNotFound i)) (\<lambda>(_, header).
        rbind (storage_err D_Cold (cb_get_transactions cold block_num)) (\<lambda>txs.
          let tx_bodies = map into_inner txs
          in Ok (encode_block (header :: header) tx_bodies :: u8 list))))))"

fun envelope_of :: "tx_type \<Rightarrow> 'r \<Rightarrow> 'r receipt_envelope" where
  "envelope_of Legacy rwb = Env_Legacy rwb"
| "envelope_of Eip2930 rwb = Env_Eip2930 rwb"
| "envelope_of Eip1559 rwb = Env_Eip1559 rwb"
| "envelope_of Eip4844 rwb = Env_Eip4844 rwb"
| "envelope_of Eip7702 rwb = Env_Eip7702 rwb"

definition raw_receipt where
  "raw_receipt bloom log_inner encoded_2718 cr =
     (let logs_bloom = bloom (cr_logs cr);
          logs = map log_inner (cr_logs cr);
          rwb = (cr_status cr, cr_cumulative_gas_used cr, logs, logs_bloom)
      in encoded_2718 (envelope_of (cr_tx_type cr) rwb) :: u8 list)"

definition get_raw_receipts where
  "get_raw_receipts bloom log_inner encoded_2718 cold cx i =
     debug_await
       (rbind (map_err D_Resolve (resolve_block_id cx i)) (\<lambda>block_num.
        rbind (storage_err D_Cold (cb_get_receipts cold block_num)) (\<lambda>receipts.
          Ok (map (raw_receipt bloom log_inner encoded_2718) receipts))))"

definition get_raw_header :: "(header \<Rightarrow> u8 list) \<Rightarrow> 'f rpc_ctx \<Rightarrow> block_id \<Rightarrow> u8 list debug_result" where
  "get_raw_header encode cx i =
     debug_await
       (rbind (map_err D_Resolve (resolve_block_id cx i)) (\<lambda>block_num.
        rbind (map_err D_Resolve (resolve_header cx (BlockId_Number (Number block_num)))) (\<lambda>sealed.
        rbind (ok_or sealed (D_BlockNotFound i)) (\<lambda>(_, header). Ok (encode header)))))"

definition get_raw_transaction ::
  "('tx, 'rc) cold_blocks \<Rightarrow> 'tx tx_ops \<Rightarrow> b256 \<Rightarrow> u8 list debug_result" where
  "get_raw_transaction cold X hash =
     debug_await
       (rbind (storage_err D_Cold (cb_get_tx_by_hash cold hash)) (\<lambda>confirmed.
        rbind (ok_or confirmed (D_TransactionNotFound hash)) (\<lambda>(tx, meta). Ok (tx_encoded_2718 X tx))))"

end
