(* ===== verification/Trace_Facts.thy ===== *)
theory Trace_Facts
  imports Trace_Endpoints Debug_Endpoints
begin

text \<open>
  What the \<^verbatim>\<open>trace\<close> and \<^verbatim>\<open>debug\<close> namespaces answer: a block's traces are those of its
  transactions, and a filtered range is the traces of its blocks.
\<close>

section \<open>Tracing does not change execution\<close>

text \<open>
  The documented behaviour of the EVM wrapper: running a transaction is filling it in and
  running, an inspector only observes the run, and committing the taken state is accepting it.
\<close>

definition observing :: "('tx, 'req, 'db, 'v, 'r, 'x, 'res, 'i) trevm \<Rightarrow> bool" where
  "observing E \<longleftrightarrow>
     (\<forall>tx v. tv_run_tx E tx v = tv_run E (tv_fill_tx E tx v))
     \<and> (\<forall>i r i' x. tv_run_with_inspector E i r = Inr (i', x) \<longrightarrow> tv_run E r = Inr x)
     \<and> (\<forall>x res v. tv_take_result_and_state E x = (res, v) \<longrightarrow> tv_commit E res v = tv_accept_state E x)"

text \<open>A step that leaves the state in which executing the transaction would leave it.\<close>

definition advances ::
  "('tx, 'req, 'db, 'v, 'r, 'x, 'res, 'i) trevm \<Rightarrow> (nat \<Rightarrow> 'tx \<Rightarrow> 'v \<Rightarrow> ('o \<times> 'v, 'e) rresult) \<Rightarrow> bool" where
  "advances E step \<longleftrightarrow>
     (\<forall>i tx v y v'. step i tx v = Ok (y, v') \<longrightarrow> (\<exists>x. tv_run_tx E tx v = Inr x \<and> v' = tv_accept_state E x))"

lemma observed_run:
  assumes "observing E" "tv_run_with_inspector E i (tv_fill_tx E tx v) = Inr (i', x)"
  shows "tv_run_tx E tx v = Inr x"
  using assms by (simp add: observing_def)

lemma observed_commit:
  assumes "observing E"
  shows "tv_commit E (fst (tv_take_result_and_state E x)) (snd (tv_take_result_and_state E x)) = tv_accept_state E x"
  using assms unfolding observing_def by (metis surjective_pairing)

lemma observed_noop:
  assumes "observing E" "tv_run E (tv_fill_tx E tx v) = Inr x"
  shows "tv_run_tx E tx v = Inr x"
  using assms by (simp add: observing_def)

lemma localized_advances: "observing E \<Longrightarrow> advances E (localized_step E I T S header bh)"
  by (auto simp: advances_def localized_step_def trace_parity_localized_def evm_halt_def Let_def
      rres_simps dest: observed_run)

lemma replay_advances: "observing E \<Longrightarrow> advances E (replay_step E I T S types)"
  by (auto simp: advances_def replay_step_def trace_parity_replay_def evm_halt_def
      rres_simps case_prod_beta observed_commit dest: observed_run)

lemmas tracer_defs = trace_four_byte_def trace_call_frame_def trace_flat_call_def trace_pre_state_def
  trace_mux_def trace_noop_def config_of_def evm_halt_def

lemma tracer_advances:
  assumes E: "observing E" and t: "trace E I (tv_fill_tx E tx v) opts info = Ok (frame, v')"
  shows "\<exists>x. tv_run_tx E tx v = Inr x \<and> v' = tv_accept_state E x"
proof -
  obtain built_in where "to_tracer opts = Some (BuiltInTracer built_in)"
    using t by (auto simp: trace_def split: option.splits tracer_type.splits)
  with t show ?thesis
    by (cases built_in)
      (auto simp: trace_def tracer_defs rres_simps case_prod_beta observed_commit[OF E]
        dest: observed_run[OF E] observed_noop[OF E])
qed

section \<open>The block loop and the replay meet\<close>

lemma trace_loop_length:
  "trace_loop T step idx txs v = Ok fs \<Longrightarrow> length fs = length (takeWhile (\<lambda>t. \<not> txv_magic T t) txs)"
  by (induction T step idx txs v arbitrary: fs rule: trace_loop.induct)
    (auto simp: rres_simps split: if_splits)

lemma trace_loop_target:
  assumes "advances E step" "trace_loop T step idx txs v = Ok fs" "distinct (map (txv_hash T) txs)"
    and "k < length fs"
  shows "\<exists>v1 v2. replay_to E T halt (txv_hash T (txs ! k)) idx txs v = Ok (Some (idx + k, txs ! k, v1))
    \<and> step (idx + k) (txs ! k) v1 = Ok (fs ! k, v2)"
  using assms(2-4)
proof (induction txs arbitrary: idx v fs k)
  case (Cons tx txs)
  obtain f v' gs where st: "step idx tx v = Ok (f, v')" and fs: "fs = f # gs"
    and rest: "trace_loop T step (Suc idx) txs v' = Ok gs" and m: "\<not> txv_magic T tx"
    using Cons.prems(1,3) by (auto simp: rres_simps split: if_splits)
  show ?case
  proof (cases k)
    case 0
    then show ?thesis using st fs by simp
  next
    case (Suc j)
    obtain x where x: "tv_run_tx E tx v = Inr x" "v' = tv_accept_state E x"
      using assms(1) st unfolding advances_def by blast
    have j: "j < length gs" using Cons.prems(3) fs Suc by simp
    then have "j < length txs" using trace_loop_length[OF rest]
      by (metis length_takeWhile_le order_less_le_trans)
    then have ne: "txv_hash T tx \<noteq> txv_hash T (txs ! j)" using Cons.prems(2) by auto
    show ?thesis
      using Cons.IH[OF rest _ j] Cons.prems(2) ne m x fs Suc by simp
  qed
qed simp

text \<open>Past the first magic transaction the replay finds nothing.\<close>

lemma replay_past_magic:
  assumes "advances E step" "trace_loop T step idx txs v = Ok fs" "distinct (map (txv_hash T) txs)"
    and "length fs < k" "k < length txs"
  shows "replay_to E T halt (txv_hash T (txs ! k)) idx txs v = Ok None"
  using assms(2-5)
proof (induction txs arbitrary: idx v fs k)
  case (Cons tx txs)
  obtain j where k: "k = Suc j" using Cons.prems(3) by (cases k) auto
  then have ne: "txv_hash T tx \<noteq> txv_hash T (txs ! j)" using Cons.prems(2,4) by auto
  show ?case
  proof (cases "txv_magic T tx")
    case True
    then show ?thesis using ne k by simp
  next
    case False
    obtain f v' gs where st: "step idx tx v = Ok (f, v')" and fs: "fs = f # gs"
      and rest: "trace_loop T step (Suc idx) txs v' = Ok gs"
      using Cons.prems(1) False by (auto simp: rres_simps)
    obtain x where "tv_run_tx E tx v = Inr x" "v' = tv_accept_state E x"
      using assms(1) st unfolding advances_def by blast
    then show ?thesis
      using Cons.IH[OF rest] Cons.prems(2-4) ne False fs k by simp
  qed
qed simp

text \<open>
  The first magic transaction itself is found: only the transactions before the target are
  looked at, so it is traced like a user's although the block trace leaves it out.
\<close>

lemma first_magic_is_traced:
  assumes "advances E step" "trace_loop T step idx txs v = Ok fs" "distinct (map (txv_hash T) txs)"
    and "length fs < length txs"
  shows "\<exists>v1. replay_to E T halt (txv_hash T (txs ! length fs)) idx txs v
    = Ok (Some (idx + length fs, txs ! length fs, v1))"
  using assms(2-4)
proof (induction txs arbitrary: idx v fs)
  case (Cons tx txs)
  show ?case
  proof (cases "txv_magic T tx")
    case True
    then show ?thesis using Cons.prems(1) by simp
  next
    case False
    obtain f v' gs where st: "step idx tx v = Ok (f, v')" and fs: "fs = f # gs"
      and rest: "trace_loop T step (Suc idx) txs v' = Ok gs"
      using Cons.prems(1) False by (auto simp: rres_simps)
    obtain x where "tv_run_tx E tx v = Inr x" "v' = tv_accept_state E x"
      using assms(1) st unfolding advances_def by blast
    moreover have "txv_hash T tx \<noteq> txv_hash T (txs ! length gs)" using Cons.prems(2,3) fs by auto
    ultimately show ?thesis using Cons.IH[OF rest] Cons.prems(2,3) False fs by simp
  qed
qed simp

section \<open>A storage failure under a traced call\<close>

text \<open>
  Where hot storage cannot be opened, \<^verbatim>\<open>trace_call\<close> and \<^verbatim>\<open>debug_traceCall\<close> answer with its
  error text, which the other endpoints keep to themselves.
\<close>

lemma trace_call_names_storage_failure:
  assumes "cx_hot_reader cx = Inl e"
  shows "trace_call E I S ov ob cx rq ty i so bo = Err (T_EvmHalt (''hot storage: '' @ e))"
    "debug_trace_call E I' null sh si cx rq' i opts = Err (D_Internal (''hot storage: '' @ e))"
  using assms
  by (simp_all add: trace_call_def trace_evm_block_def debug_trace_call_def debug_evm_block_def
      resolve_evm_block_def Let_def)

lemma trace_block_hides_storage_failure:
  assumes "cx_hot_reader cx = Inl e"
  shows "trace_block E I T S cold cx tag = Err (T_Resolve (Resolve_Storage e))
    \<and> trace_error_message sh si sn (T_Resolve (Resolve_Storage e)) = ''server error''"
  using assms by (simp add: trace_block_def resolve_block_id_def resolve_header_def)

section \<open>A block's traces are its transactions' traces\<close>

text \<open>
  Storage holds block \<open>n\<close>: hot storage its header, cold storage its transactions, and every
  transaction is indexed under its hash with the block's number and hash.
\<close>

definition stored_block ::
  "'tx tx_view \<Rightarrow> ('tx, 'rc) cold_blocks \<Rightarrow> 'f rpc_ctx \<Rightarrow> u64 \<Rightarrow> b256 \<Rightarrow> header \<Rightarrow> 'tx list \<Rightarrow> bool" where
  "stored_block T cold cx n bh header txs \<longleftrightarrow>
     resolve_header cx (BlockId_Number (Number n)) = Ok (Some (bh, header)) \<and> h_number header = n
     \<and> cb_get_transactions cold n = Inr txs \<and> distinct (map (txv_hash T) txs)
     \<and> (\<forall>tx \<in> set txs. \<exists>t m. cb_get_tx_by_hash cold (txv_hash T tx) = Inr (Some (t, m))
          \<and> cm_block_number m = n \<and> cm_block_hash m = bh)"

lemma stored_blockD:
  assumes "stored_block T cold cx n bh header txs"
  shows "resolve_header cx (BlockId_Number (Number n)) = Ok (Some (bh, header))" "h_number header = n"
    "cb_get_transactions cold n = Inr txs" "distinct (map (txv_hash T) txs)"
  using assms by (simp_all add: stored_block_def)

lemma stored_tx:
  assumes "stored_block T cold cx n bh header txs" "k < length txs"
  obtains t m where "cb_get_tx_by_hash cold (txv_hash T (txs ! k)) = Inr (Some (t, m))"
    "cm_block_number m = n" "cm_block_hash m = bh"
  using assms nth_mem unfolding stored_block_def by blast

lemma resolve_number [simp]: "resolve_block_id cx (BlockId_Number (Number n)) = Ok n"
  by (simp add: resolve_block_id_def)

lemma loop_shorter: "trace_loop T step idx txs v = Ok fs \<Longrightarrow> length fs \<le> length txs"
  using trace_loop_length length_takeWhile_le by metis

text \<open>
  A small instance: the state is the list of transactions run so far, a trace the state a
  transaction sees and itself; block 4 holds four transactions of which the third is magic.
\<close>

definition ex_trevm :: "(nat, nat, nat list, nat list, nat \<times> nat list, nat \<times> nat list, nat, nat list) trevm" where
  "ex_trevm = \<lparr>tv_state_at_height = (\<lambda>_. Inr []), tv_read_at_height = (\<lambda>_. []),
     tv_fill_block = (\<lambda>_ _ _ db. db), tv_fill_tx = Pair, tv_fill_request = Pair, tv_run = Inr,
     tv_run_tx = (\<lambda>tx v. Inr (tx, v)), tv_run_with_inspector = (\<lambda>i r. Inr (i @ snd r @ [fst r], r)),
     tv_ready_gas_limit = (\<lambda>_. 0), tv_gas_limit = (\<lambda>_. 0), tv_gas_used = (\<lambda>_. 0),
     tv_accept_state = (\<lambda>x. snd x @ [fst x]), tv_take_result_and_state = (\<lambda>x. x),
     tv_commit = (\<lambda>res v. v @ [res])\<rparr>"

definition ex_insp :: "(nat, nat, nat list, nat list, nat, nat list, nat, nat, nat list) inspectors" where
  "ex_insp = \<lparr>in_four_byte = [], in_four_byte_frame = (\<lambda>i. i), in_call_config = Some, in_call = (\<lambda>_. []),
     in_call_frame = (\<lambda>_ _ _ i. i), in_pre_state_config = Some, in_pre_state = (\<lambda>_. []),
     in_pre_state_frame = (\<lambda>_ _ _ _ i. Inr i), in_flat_call_config = Some, in_flat_call = (\<lambda>_. []),
     in_mux_config = Some, in_mux = (\<lambda>_. Inr []), in_mux_frame = (\<lambda>_ _ _ i. Inr i), in_parity = [],
     in_localized = (\<lambda>_ _ i. i), in_replay = (\<lambda>_. []), in_trace_results = (\<lambda>_ _ _ i. Inr i)\<rparr>"

definition ex_view :: "nat tx_view" where
  "ex_view = \<lparr>txv_hash = of_nat, txv_magic = (\<lambda>tx. tx = 30)\<rparr>"

definition ex_cold :: "(nat, nat) cold_blocks" where
  "ex_cold = \<lparr>cb_get_headers = (\<lambda>ns. Inr []), cb_get_header_by_number = (\<lambda>_. Inr None),
     cb_get_transactions = (\<lambda>k. Inr (if k = 4 then [10, 20, 30, 40] else [])),
     cb_get_receipts = (\<lambda>_. Inr []), cb_get_transaction_count = (\<lambda>_. Inr 0),
     cb_get_tx_by_hash = (\<lambda>h. Inr (Some (0, \<lparr>cm_block_number = 4, cm_block_hash = 44, cm_transaction_index = 0\<rparr>))),
     cb_get_tx_by_block_and_index = (\<lambda>_ _. Inr None), cb_get_receipt_by_tx_hash = (\<lambda>_. Inr None)\<rparr>"

definition ex_display :: display where
  "ex_display = \<lparr>show_hash = (\<lambda>_. ''0x''), show_id = (\<lambda>_. ''id'')\<rparr>"

definition ex_header :: header where
  "ex_header = \<lparr>h_number = 4, h_parent_hash = 3, h_timestamp = 48, h_gas_limit = 30, h_gas_used = 0,
     h_base_fee_per_gas = Some 7, h_rest = 0\<rparr>"

lemmas ex_trace_defs = ex_trevm_def ex_insp_def ex_view_def ex_cold_def ex_display_def

lemma ex_trevm_observing: "observing ex_trevm"
  by (auto simp: observing_def ex_trevm_def)

lemma ex_resolve: "resolve_header ex_ctx (BlockId_Number (Number 4)) = Ok (Some (44, ex_header))"
  by (simp add: resolve_header_def ex_ctx_def header_of_id_def ex_hot_tx_def ex_header_def Let_def)

lemma ex_stored_block: "stored_block ex_view ex_cold ex_ctx 4 44 ex_header [10, 20, 30, 40]"
  by (simp add: stored_block_def ex_resolve) (simp add: ex_trace_defs ex_header_def)

lemma ex_trace_block:
  "trace_block ex_trevm ex_insp ex_view ex_display ex_cold ex_ctx (Number 4) = Ok (Some [10, 10, 20])"
  by (simp add: trace_block_def ex_resolve trace_block_localized_def localized_step_def
      trace_parity_localized_def evm_halt_def ex_trace_defs)

definition ex_opts :: "nat tracing_options option" where
  "ex_opts = Some \<lparr>to_tracer = Some (BuiltInTracer FlatCallTracer), to_tracer_config = 0\<rparr>"

lemma ex_debug_block:
  "debug_trace_block ex_trevm ex_insp ex_view 0 ex_cold ex_ctx (BlockId_Number (Number 4)) ex_opts
     = Ok [Trace_Success (FlatCallFrame [10]) (Some 10), Trace_Success (FlatCallFrame [10, 20]) (Some 20)]"
  by (simp add: debug_trace_block_def ex_resolve trace_block_inner_def debug_step_def trace_def
      trace_flat_call_def config_of_def evm_halt_def options_or_default_def ex_opts_def ex_trace_defs)

definition ex_filter :: "nat trace_filter_args" where
  "ex_filter = \<lparr>tf_from_block = Some 4, tf_to_block = None, tf_after = Some 1, tf_count = Some 5,
     tf_matches = (\<lambda>t. t = 10)\<rparr>"

lemma ex_trace_filter:
  "trace_filter ex_trevm ex_insp ex_view ex_display ex_cold ex_ctx ex_filter = Ok [10]"
proof -
  have l: "tag_latest (cx_tags ex_ctx) = 4" "max_trace_filter_blocks (cx_config ex_ctx) = 100"
    by (simp_all add: ex_ctx_def BlockTags_new_def StorageRpcConfig_default_def)
  have b: "filter_block ex_trevm ex_insp ex_view ex_display ex_cold ex_ctx (\<lambda>t. t = 10) 4 = Ok [10, 10]"
    by (simp add: filter_block_def ex_resolve trace_block_localized_def localized_step_def
        trace_parity_localized_def evm_halt_def ex_trace_defs)
  show ?thesis
    by (simp add: trace_filter_def l filter_range_def ex_filter_def u64_simps u64_max_def
        saturating_sub_def b paginate_def)
qed

text \<open>
  C17: \<^verbatim>\<open>trace_block\<close> is \<^verbatim>\<open>trace_transaction\<close> of each transaction of the block before its first
  magic-signature transaction, in block order: the answer is the concatenation of their
  traces, each traced in the state its predecessors leave, with \<^verbatim>\<open>trace_get\<close> giving the
  single entries; for a transaction behind the first magic one both give nothing.
\<close>

theorem trace_block_by_transaction:
  assumes E: "observing E" and st: "stored_block T cold cx n bh header txs"
    and tb: "trace_block E I T S cold cx (Number n) = Ok (Some traces)"
  shows "\<exists>per. traces = concat per
    \<and> length per = length (takeWhile (\<lambda>t. \<not> txv_magic T t) txs)
    \<and> (\<forall>k<length per. trace_transaction E I T S cold cx (txv_hash T (txs ! k)) = Ok (Some (per ! k))
        \<and> (\<forall>j. trace_get E I T S cold cx (txv_hash T (txs ! k)) [j] = Ok (nth_opt (per ! k) j)))
    \<and> (\<forall>k. length per < k \<and> k < length txs
        \<longrightarrow> trace_transaction E I T S cold cx (txv_hash T (txs ! k)) = Ok None)"
proof -
  note blk = stored_blockD[OF st]
  let ?v = "\<lambda>db. tv_fill_block E (cx_chain_id cx) (cx_spec_id cx header) header db"
  let ?step = "localized_step E I T S header bh"
  obtain db per where db: "tv_state_at_height E (saturating_sub n 1) = Inr db"
    and loop: "trace_loop T ?step 0 txs (?v db) = Ok per" and traces: "traces = concat per"
    using tb blk by (auto simp: trace_block_def trace_block_localized_def rres_simps)
  note adv = localized_advances[OF E, of I T S header bh]
  have tx: "trace_transaction E I T S cold cx (txv_hash T (txs ! k)) = Ok (Some (per ! k))"
    if k: "k < length per" for k
  proof -
    have "k < length txs" using k loop_shorter[OF loop] by simp
    then obtain t m where m: "cb_get_tx_by_hash cold (txv_hash T (txs ! k)) = Inr (Some (t, m))"
      "cm_block_number m = n" "cm_block_hash m = bh" using stored_tx[OF st] by blast
    show ?thesis
      using trace_loop_target[OF adv loop blk(4) k, of T_EvmHalt] m blk(1,3) db
      by (auto simp: trace_transaction_def)
  qed
  have past: "trace_transaction E I T S cold cx (txv_hash T (txs ! k)) = Ok None"
    if k: "length per < k" "k < length txs" for k
  proof -
    obtain t m where m: "cb_get_tx_by_hash cold (txv_hash T (txs ! k)) = Inr (Some (t, m))"
      "cm_block_number m = n" "cm_block_hash m = bh" using stored_tx[OF st k(2)] by blast
    show ?thesis
      using replay_past_magic[OF adv loop blk(4) k, of T_EvmHalt] m blk(1,3) db
      by (simp add: trace_transaction_def)
  qed
  show ?thesis
    using traces trace_loop_length[OF loop] tx past
    by (intro exI[of _ per]) (simp add: trace_get_def)
qed

theorem trace_block_by_transaction_witness:
  "\<exists>per. [10, 10, 20] = concat per \<and> length per = 2
     \<and> trace_transaction ex_trevm ex_insp ex_view ex_display ex_cold ex_ctx 20 = Ok (Some (per ! 1))
     \<and> trace_transaction ex_trevm ex_insp ex_view ex_display ex_cold ex_ctx 40 = Ok None"
proof -
  obtain per where p: "[10, 10, 20] = concat per"
    "length per = length (takeWhile (\<lambda>t. \<not> txv_magic ex_view t) [10, 20, 30, 40])"
    "\<forall>k<length per. trace_transaction ex_trevm ex_insp ex_view ex_display ex_cold ex_ctx
        (txv_hash ex_view ([10, 20, 30, 40] ! k)) = Ok (Some (per ! k))"
    "\<forall>k. length per < k \<and> k < length [10, 20, 30, 40::nat] \<longrightarrow>
        trace_transaction ex_trevm ex_insp ex_view ex_display ex_cold ex_ctx
          (txv_hash ex_view ([10, 20, 30, 40] ! k)) = Ok None"
    using trace_block_by_transaction[OF ex_trevm_observing ex_stored_block ex_trace_block] by blast
  have n: "length per = 2" using p(2) by (simp add: ex_view_def)
  have h: "txv_hash ex_view ([10, 20, 30, 40] ! 1) = 20" "txv_hash ex_view ([10, 20, 30, 40] ! 3) = 40"
    by (simp_all add: ex_view_def)
  show ?thesis
    using p(1) n p(3)[rule_format, of 1] p(4)[rule_format, of 3] h by (intro exI[of _ per]) simp
qed

text \<open>
  C18: the same for the \<^verbatim>\<open>debug\<close> namespace, whatever tracer the options choose:
  \<^verbatim>\<open>debug_traceBlockByNumber\<close> answers one frame for each transaction before the first
  magic-signature one, in block order, with that transaction's hash and the trace that
  \<^verbatim>\<open>debug_traceTransaction\<close> answers for it; for a transaction behind the first magic one
  the latter answers that it is not found.
\<close>

theorem debug_block_by_transaction:
  assumes E: "observing E" and st: "stored_block T cold cx n bh header txs"
    and tb: "debug_trace_block E I T null cold cx (BlockId_Number (Number n)) opts = Ok frames"
  shows "length frames = length (takeWhile (\<lambda>t. \<not> txv_magic T t) txs)
    \<and> (\<forall>k<length frames. \<exists>frame. frames ! k = Trace_Success frame (Some (txv_hash T (txs ! k)))
        \<and> debug_trace_transaction E I T null cold cx (txv_hash T (txs ! k)) opts = Ok frame)
    \<and> (\<forall>k. length frames < k \<and> k < length txs
        \<longrightarrow> debug_trace_transaction E I T null cold cx (txv_hash T (txs ! k)) opts
            = Err (D_TransactionNotFound (txv_hash T (txs ! k))))"
proof -
  note blk = stored_blockD[OF st]
  let ?v = "\<lambda>db. tv_fill_block E (cx_chain_id cx) (cx_spec_id cx header) header db"
  let ?step = "\<lambda>idx tx v. rmap (\<lambda>(frame, v'). (Trace_Success frame (Some (txv_hash T tx)), v'))
      (debug_step E I T (options_or_default null opts) header bh idx tx v)"
  obtain db where db: "tv_state_at_height E (saturating_sub n 1) = Inr db"
    and loop: "trace_loop T ?step 0 txs (?v db) = Ok frames"
    using tb blk by (auto simp: debug_trace_block_def trace_block_inner_def rres_simps)
  have adv: "advances E ?step"
    by (auto simp: advances_def debug_step_def rres_simps dest: tracer_advances[OF E])
  have tx: "\<exists>frame. frames ! k = Trace_Success frame (Some (txv_hash T (txs ! k)))
      \<and> debug_trace_transaction E I T null cold cx (txv_hash T (txs ! k)) opts = Ok frame"
    if k: "k < length frames" for k
  proof -
    have "k < length txs" using k loop_shorter[OF loop] by simp
    then obtain t m where m: "cb_get_tx_by_hash cold (txv_hash T (txs ! k)) = Inr (Some (t, m))"
      "cm_block_number m = n" "cm_block_hash m = bh" using stored_tx[OF st] by blast
    show ?thesis
      using trace_loop_target[OF adv loop blk(4) k, of D_EvmHalt] m blk(1,3) db
      by (auto simp: debug_trace_transaction_def rres_simps)
  qed
  have past: "debug_trace_transaction E I T null cold cx (txv_hash T (txs ! k)) opts
      = Err (D_TransactionNotFound (txv_hash T (txs ! k)))"
    if k: "length frames < k" "k < length txs" for k
  proof -
    obtain t m where m: "cb_get_tx_by_hash cold (txv_hash T (txs ! k)) = Inr (Some (t, m))"
      "cm_block_number m = n" "cm_block_hash m = bh" using stored_tx[OF st k(2)] by blast
    show ?thesis
      using replay_past_magic[OF adv loop blk(4) k, of D_EvmHalt] m blk(1,3) db
      by (simp add: debug_trace_transaction_def)
  qed
  show ?thesis using trace_loop_length[OF loop] tx past by blast
qed

theorem debug_block_by_transaction_witness:
  "debug_trace_transaction ex_trevm ex_insp ex_view 0 ex_cold ex_ctx 20 ex_opts = Ok (FlatCallFrame [10, 20])
     \<and> debug_trace_transaction ex_trevm ex_insp ex_view 0 ex_cold ex_ctx 40 ex_opts = Err (D_TransactionNotFound 40)"
proof -
  note t = debug_block_by_transaction[OF ex_trevm_observing ex_stored_block ex_debug_block]
  note d = t[THEN conjunct2, THEN conjunct1] t[THEN conjunct2, THEN conjunct2]
  have h: "txv_hash ex_view ([10, 20, 30, 40] ! 1) = 20" "txv_hash ex_view ([10, 20, 30, 40] ! 3) = 40"
    by (simp_all add: ex_view_def)
  show ?thesis using d(1)[rule_format, of 1] d(2)[rule_format, of 3] h by auto
qed

text \<open>
  The same for the replaying endpoints: \<^verbatim>\<open>trace_replayBlockTransactions\<close> answers, for each transaction
  before the first magic one, what \<^verbatim>\<open>trace_replayTransaction\<close> answers for it, with its hash.
\<close>

theorem replay_block_by_transaction:
  assumes E: "observing E" and st: "stored_block T cold cx n bh header txs"
    and rb: "replay_block_transactions E I T S cold cx (Number n) types = Ok (Some results)"
  shows "length results = length (takeWhile (\<lambda>t. \<not> txv_magic T t) txs)
    \<and> (\<forall>k<length results. snd (results ! k) = txv_hash T (txs ! k)
        \<and> replay_transaction E I T S cold cx (txv_hash T (txs ! k)) types = Ok (fst (results ! k)))
    \<and> (\<forall>k. length results < k \<and> k < length txs
        \<longrightarrow> replay_transaction E I T S cold cx (txv_hash T (txs ! k)) types
            = Err (T_TransactionNotFound (txv_hash T (txs ! k))))"
proof -
  note blk = stored_blockD[OF st]
  let ?v = "\<lambda>db. tv_fill_block E (cx_chain_id cx) (cx_spec_id cx header) header db"
  let ?step = "replay_step E I T S types"
  obtain db where db: "tv_state_at_height E (saturating_sub n 1) = Inr db"
    and loop: "trace_loop T ?step 0 txs (?v db) = Ok results"
    using rb blk by (auto simp: replay_block_transactions_def trace_block_replay_def rres_simps)
  note adv = replay_advances[OF E, of I T S types]
  have tx: "snd (results ! k) = txv_hash T (txs ! k)
      \<and> replay_transaction E I T S cold cx (txv_hash T (txs ! k)) types = Ok (fst (results ! k))"
    if k: "k < length results" for k
  proof -
    have "k < length txs" using k loop_shorter[OF loop] by simp
    then obtain t m where m: "cb_get_tx_by_hash cold (txv_hash T (txs ! k)) = Inr (Some (t, m))"
      "cm_block_number m = n" using stored_tx[OF st] by blast
    show ?thesis
      using trace_loop_target[OF adv loop blk(4) k, of T_EvmHalt] m blk(1,3) db
      by (auto simp: replay_transaction_def replay_step_def rres_simps)
  qed
  have past: "replay_transaction E I T S cold cx (txv_hash T (txs ! k)) types
      = Err (T_TransactionNotFound (txv_hash T (txs ! k)))"
    if k: "length results < k" "k < length txs" for k
  proof -
    obtain t m where m: "cb_get_tx_by_hash cold (txv_hash T (txs ! k)) = Inr (Some (t, m))"
      "cm_block_number m = n" using stored_tx[OF st k(2)] by blast
    show ?thesis
      using replay_past_magic[OF adv loop blk(4) k, of T_EvmHalt] m blk(1,3) db
      by (simp add: replay_transaction_def)
  qed
  show ?thesis using trace_loop_length[OF loop] tx past by blast
qed

section \<open>Filtering\<close>

lemma paginate_eq:
  "paginate after count ts =
     (case count of None \<Rightarrow> drop (opt_default 0 after) ts | Some c \<Rightarrow> take c (drop (opt_default 0 after) ts))"
  by (auto simp: paginate_def split: option.splits)

lemma filter_block_is_trace_block:
  assumes "filter_block E I T S cold cx matches n = Ok piece"
  shows "\<exists>r. trace_block E I T S cold cx (Number n) = Ok r \<and> piece = filter matches (opt_default [] r)"
proof -
  obtain sealed where r: "resolve_header cx (BlockId_Number (Number n)) = Ok sealed"
    using assms by (auto simp: filter_block_def rres_simps)
  show ?thesis
    using assms r by (cases sealed) (auto simp: filter_block_def trace_block_def rres_simps)
qed

lemma filter_blocks_pieces:
  assumes "filter_blocks E I T S cold cx matches ns = Ok out"
  shows "\<exists>pieces. out = concat pieces \<and> length pieces = length ns
    \<and> (\<forall>i<length ns. \<exists>r. trace_block E I T S cold cx (Number (ns ! i)) = Ok r
          \<and> pieces ! i = filter matches (opt_default [] r))"
  using assms
proof (induction ns arbitrary: out)
  case (Cons n ns)
  obtain p rest where p: "filter_block E I T S cold cx matches n = Ok p"
    and rest: "filter_blocks E I T S cold cx matches ns = Ok rest" and out: "out = p @ rest"
    using Cons.prems by (auto simp: rres_simps)
  obtain ps where ps: "rest = concat ps" "length ps = length ns"
    "\<forall>i<length ns. \<exists>r. trace_block E I T S cold cx (Number (ns ! i)) = Ok r
          \<and> ps ! i = filter matches (opt_default [] r)"
    using Cons.IH[OF rest] by blast
  show ?case
    using ps out filter_block_is_trace_block[OF p]
    by (intro exI[of _ "p # ps"]) (auto simp: nth_Cons split: nat.split)
qed simp

text \<open>
  C19: an answered \<^verbatim>\<open>trace_filter\<close> ranges over blocks the node has, at most
  \<^verbatim>\<open>max_trace_filter_blocks\<close> of them (by default from block 0 to the latest one), and is
  the requested page (skip \<open>after\<close>, at most \<open>count\<close>) of what its filter accepts of the traces
  \<^verbatim>\<open>trace_block\<close> answers for each of these blocks, in block order.
\<close>

theorem trace_filter_exact:
  assumes "tag_latest (cx_tags cx) < u64_max" and tf: "trace_filter E I T S cold cx args = Ok out"
  defines "start \<equiv> opt_default 0 (tf_from_block args)"
    and "end' \<equiv> opt_default (tag_latest (cx_tags cx)) (tf_to_block args)"
  shows "start \<le> end' \<and> end' \<le> tag_latest (cx_tags cx)
    \<and> Suc end' - start \<le> max_trace_filter_blocks (cx_config cx)
    \<and> (\<exists>pieces. length pieces = Suc end' - start
        \<and> (\<forall>i<length pieces. \<exists>r. trace_block E I T S cold cx (Number (start + i)) = Ok r
              \<and> pieces ! i = filter (tf_matches args) (opt_default [] r))
        \<and> out = (case tf_count args of
              None \<Rightarrow> drop (opt_default 0 (tf_after args)) (concat pieces)
            | Some c \<Rightarrow> take c (drop (opt_default 0 (tf_after args)) (concat pieces))))"
proof -
  obtain all where rng: "filter_range (tag_latest (cx_tags cx)) (max_trace_filter_blocks (cx_config cx))
        (tf_from_block args) (tf_to_block args) = Ok (start, end')"
    and all: "filter_blocks E I T S cold cx (tf_matches args) [start..<Suc end'] = Ok all"
    and out: "out = paginate (tf_after args) (tf_count args) all"
    using tf unfolding trace_filter_def start_def end'_def
    by (auto simp: rres_simps filter_range_def Let_def simp del: upt_Suc split: if_splits)
  have le: "start \<le> end'" "end' \<le> tag_latest (cx_tags cx)"
    and d: "u64_add (saturating_sub end' start) 1 \<le> max_trace_filter_blocks (cx_config cx)"
    using rng unfolding filter_range_def start_def end'_def by (auto simp: Let_def split: if_splits)
  have "u64_add (saturating_sub end' start) 1 = Suc end' - start"
    using le assms(1) by (simp add: u64_simps saturating_sub_def)
  with d have lim: "Suc end' - start \<le> max_trace_filter_blocks (cx_config cx)" by simp
  obtain pieces where "all = concat pieces" "length pieces = Suc end' - start"
    "\<forall>i<Suc end' - start. \<exists>r. trace_block E I T S cold cx (Number ([start..<Suc end'] ! i)) = Ok r
          \<and> pieces ! i = filter (tf_matches args) (opt_default [] r)"
    using filter_blocks_pieces[OF all] by (auto simp del: upt_Suc)
  then show ?thesis
    using le lim out by (auto simp: paginate_eq simp del: upt_Suc)
qed

theorem trace_filter_exact_witness:
  "\<exists>pieces r. length pieces = 1 \<and> [10] = take 5 (drop 1 (concat pieces))
     \<and> trace_block ex_trevm ex_insp ex_view ex_display ex_cold ex_ctx (Number 4) = Ok r
     \<and> pieces ! 0 = filter (\<lambda>t. t = 10) (opt_default [] r)"
proof -
  have l: "tag_latest (cx_tags ex_ctx) = 4" by (simp add: ex_ctx_def BlockTags_new_def)
  have "tag_latest (cx_tags ex_ctx) < u64_max" by (simp add: l u64_max_def)
  note t = trace_filter_exact[OF this ex_trace_filter]
  from t show ?thesis unfolding l ex_filter_def by auto
qed

end
