(* ===== verification/Signet_Namespace.thy ===== *)
theory Signet_Namespace
  imports Trace_Error Eth_Queries
begin

text \<open>
  The \<^verbatim>\<open>signet\<close>, \<^verbatim>\<open>web3\<close> and \<^verbatim>\<open>net\<close> namespaces (\<^verbatim>\<open>rpc/src/signet\<close>, \<^verbatim>\<open>rpc/src/web3\<close>,
  \<^verbatim>\<open>rpc/src/net\<close>). The transaction cache, the bundle driver and the hash function are
  parameters.
\<close>

section \<open>Errors\<close>

datatype signet_error =
    S_TxCacheNotProvided
  | S_Resolve resolve_error
  | S_EvmHalt string
  | S_Timeout
  | S_Internal string

fun signet_error_of_eth :: "(b256 \<Rightarrow> string) \<Rightarrow> (block_id \<Rightarrow> string) \<Rightarrow> eth_error \<Rightarrow> signet_error" where
  "signet_error_of_eth sh si (Resolve r) = S_Resolve r"
| "signet_error_of_eth sh si other = S_Internal (eth_error_display sh si other)"

fun signet_error_code :: "signet_error \<Rightarrow> int" where
  "signet_error_code S_TxCacheNotProvided = -32000"
| "signet_error_code (S_EvmHalt r) = -32000"
| "signet_error_code S_Timeout = -32000"
| "signet_error_code (S_Internal m) = -32000"
| "signet_error_code (S_Resolve r) = resolve_error_code r"

fun signet_error_message :: "(b256 \<Rightarrow> string) \<Rightarrow> signet_error \<Rightarrow> string" where
  "signet_error_message sh S_TxCacheNotProvided = ''transaction cache not provided''"
| "signet_error_message sh (S_Resolve r) = resolve_error_message sh r"
| "signet_error_message sh (S_EvmHalt r) = ''execution halted: '' @ r"
| "signet_error_message sh S_Timeout = ''timeout during bundle simulation''"
| "signet_error_message sh (S_Internal m) = m"

definition signet_error_data :: "signet_error \<Rightarrow> unit option" where
  "signet_error_data e = None"

abbreviation signet_await :: "('a, signet_error) rresult \<Rightarrow> ('a, signet_error) rresult" where
  "signet_await \<equiv> await_or (S_Internal ''task panicked or cancelled'')"

section \<open>Orders\<close>

text \<open>
  An order is handed to a task that forwards it to the cache; the answer does not wait for
  it. The second component is what is handed over.
\<close>

definition send_order :: "bool \<Rightarrow> 'o \<Rightarrow> (unit, signet_error) rresult \<times> 'o list" where
  "send_order has_tx_cache order =
     (if \<not> has_tx_cache then (Err S_TxCacheNotProvided, [])
      else (signet_await (Ok ()), [order]))"

section \<open>Bundles\<close>

record 'b call_bundle_args =
  bu_timeout :: "u64 option"
  bu_state_block_number :: block_number_or_tag
  bu_bundle :: 'b

text \<open>
  \<open>drive\<close> sets the EVM up at the block and drives the bundle, giving the driver's response.
  \<open>timer_first\<close> says whether \<^verbatim>\<open>select!\<close> takes the sleep of the given length before the
  simulation.
\<close>

definition simulate_bundle ::
  "(u64 \<Rightarrow> evm_block_context \<Rightarrow> 'b \<Rightarrow> string + 'resp) \<Rightarrow> (b256 \<Rightarrow> string) \<Rightarrow> (block_id \<Rightarrow> string)
     \<Rightarrow> 'f rpc_ctx \<Rightarrow> 'b call_bundle_args \<Rightarrow> ('resp, signet_error) rresult" where
  "simulate_bundle drive sh si cx bundle =
     (let block_id = BlockId_Number (bu_state_block_number bundle)
      in rbind (map_err (signet_error_of_eth sh si) (resolve_evm_block cx block_id)) (\<lambda>ebc.
           storage_err S_EvmHalt (drive (cx_chain_id cx) ebc (bu_bundle bundle))))"

definition call_bundle ::
  "(duration \<Rightarrow> bool) \<Rightarrow> (u64 \<Rightarrow> evm_block_context \<Rightarrow> 'b \<Rightarrow> string + 'resp) \<Rightarrow> (b256 \<Rightarrow> string) \<Rightarrow> (block_id \<Rightarrow> string)
     \<Rightarrow> 'f rpc_ctx \<Rightarrow> 'b call_bundle_args \<Rightarrow> ('resp, signet_error) rresult" where
  "call_bundle timer_first drive sh si cx bundle =
     (let timeout = opt_default (default_bundle_timeout_ms (cx_config cx)) (bu_timeout bundle)
      in signet_await
           (if timer_first timeout then Err S_Timeout else simulate_bundle drive sh si cx bundle))"

section \<open>The other namespaces\<close>

definition client_version :: "string \<Rightarrow> string \<Rightarrow> string" where
  "client_version pkg_version os = ''signet/v'' @ pkg_version @ ''/'' @ os"

definition sha3 :: "(u8 list \<Rightarrow> b256) \<Rightarrow> u8 list \<Rightarrow> b256" where
  "sha3 keccak256 data = keccak256 data"

definition net_version :: "(u64 \<Rightarrow> string) \<Rightarrow> 'f rpc_ctx \<Rightarrow> string" where
  "net_version show_u64 cx = show_u64 (cx_chain_id cx)"

definition net_listening :: bool where "net_listening = True"

section \<open>What a bundle's answer says\<close>

text \<open>
  A bundle that is answered in time ran on the block its state block number resolves to;
  otherwise the error is the timeout, the resolution, or the driver's halt.
\<close>

lemma call_bundle_outcomes:
  "call_bundle timer_first drive sh si cx bundle = Ok resp \<longleftrightarrow>
     \<not> timer_first (opt_default (default_bundle_timeout_ms (cx_config cx)) (bu_timeout bundle))
     \<and> (\<exists>ebc. resolve_evm_block cx (BlockId_Number (bu_state_block_number bundle)) = Ok ebc
          \<and> drive (cx_chain_id cx) ebc (bu_bundle bundle) = Inr resp)"
  by (auto simp: call_bundle_def simulate_bundle_def Let_def rres_simps)

text \<open>An unknown state block is an internal error here, and code -32001 in the other namespaces.\<close>

lemma bundle_block_not_found_code:
  "signet_error_code (signet_error_of_eth sh si (BlockNotFound i)) = -32000"
  "error_code (BlockNotFound i) = -32001"
  by simp_all

end
