(* ===== verification/Node_Genesis.thy ===== *)
theory Node_Genesis
  imports Node_Prelude
begin

text \<open>
  Genesis configurations (\<^verbatim>\<open>crates/genesis/src/lib.rs\<close>): the hardforks active at genesis, the
  known networks with their embedded files, custom files, and the environment. The JSON
  parser and the file system are parameters, as are the texts of the embedded files.
\<close>

section \<open>Hardforks\<close>

datatype ethereum_hardfork =
    Frontier | Homestead | Dao | Tangerine | SpuriousDragon | Byzantium | Constantinople
  | Petersburg | Istanbul | MuirGlacier | Berlin | London | ArrowGlacier | GrayGlacier | Paris
  | Shanghai | Cancun | Prague | Osaka

text \<open>Forks are ordered by activation, the order of the table below.\<close>

fun fork_rank :: "ethereum_hardfork \<Rightarrow> nat" where
  "fork_rank Frontier = 0"
| "fork_rank Homestead = 1"
| "fork_rank Dao = 2"
| "fork_rank Tangerine = 3"
| "fork_rank SpuriousDragon = 4"
| "fork_rank Byzantium = 5"
| "fork_rank Constantinople = 6"
| "fork_rank Petersburg = 7"
| "fork_rank Istanbul = 8"
| "fork_rank MuirGlacier = 9"
| "fork_rank Berlin = 10"
| "fork_rank London = 11"
| "fork_rank ArrowGlacier = 12"
| "fork_rank GrayGlacier = 13"
| "fork_rank Paris = 14"
| "fork_rank Shanghai = 15"
| "fork_rank Cancun = 16"
| "fork_rank Prague = 17"
| "fork_rank Osaka = 18"

lemma fork_rank_inj: "fork_rank a = fork_rank b \<Longrightarrow> a = b"
  by (cases a; cases b) simp_all

instantiation ethereum_hardfork :: linorder
begin

definition less_eq_ethereum_hardfork :: "ethereum_hardfork \<Rightarrow> ethereum_hardfork \<Rightarrow> bool" where
  "less_eq_ethereum_hardfork a b \<longleftrightarrow> fork_rank a \<le> fork_rank b"

definition less_ethereum_hardfork :: "ethereum_hardfork \<Rightarrow> ethereum_hardfork \<Rightarrow> bool" where
  "less_ethereum_hardfork a b \<longleftrightarrow> fork_rank a < fork_rank b"

instance
  by standard (auto simp: less_eq_ethereum_hardfork_def less_ethereum_hardfork_def dest: fork_rank_inj)

end

record chain_config =
  homestead_block :: "u64 option"
  dao_fork_block :: "u64 option"
  eip150_block :: "u64 option"
  eip155_block :: "u64 option"
  byzantium_block :: "u64 option"
  constantinople_block :: "u64 option"
  petersburg_block :: "u64 option"
  istanbul_block :: "u64 option"
  muir_glacier_block :: "u64 option"
  berlin_block :: "u64 option"
  london_block :: "u64 option"
  arrow_glacier_block :: "u64 option"
  gray_glacier_block :: "u64 option"
  merge_netsplit_block :: "u64 option"
  shanghai_time :: "u64 option"
  cancun_time :: "u64 option"
  prague_time :: "u64 option"
  osaka_time :: "u64 option"

record 'g genesis =
  g_number :: "u64 option"
  g_timestamp :: u64
  g_config :: chain_config
  g_rest :: 'g

definition is_some_le :: "u64 \<Rightarrow> u64 option \<Rightarrow> bool" where
  "is_some_le at b = (case b of None \<Rightarrow> False | Some x \<Rightarrow> x \<le> at)"

definition fork_table :: "'g genesis \<Rightarrow> (bool \<times> ethereum_hardfork) list" where
  "fork_table g =
     (let at_block = is_some_le (opt_default 0 (g_number g));
          at_time = is_some_le (g_timestamp g);
          c = g_config g
      in [(True, Frontier),
          (at_block (homestead_block c), Homestead),
          (at_block (dao_fork_block c), Dao),
          (at_block (eip150_block c), Tangerine),
          (at_block (eip155_block c), SpuriousDragon),
          (at_block (byzantium_block c), Byzantium),
          (at_block (constantinople_block c), Constantinople),
          (at_block (petersburg_block c), Petersburg),
          (at_block (istanbul_block c), Istanbul),
          (at_block (muir_glacier_block c), MuirGlacier),
          (at_block (berlin_block c), Berlin),
          (at_block (london_block c), London),
          (at_block (arrow_glacier_block c), ArrowGlacier),
          (at_block (gray_glacier_block c), GrayGlacier),
          (at_block (merge_netsplit_block c), Paris),
          (at_time (shanghai_time c), Shanghai),
          (at_time (cancun_time c), Cancun),
          (at_time (prague_time c), Prague),
          (at_time (osaka_time c), Osaka)])"

text \<open>The flags are a set of forks: \<^verbatim>\<open>empty()\<close> is the empty set and \<^verbatim>\<open>|\<close> the union.\<close>

definition genesis_hardforks :: "'g genesis \<Rightarrow> ethereum_hardfork set" where
  "genesis_hardforks g =
     fold (\<lambda>fork acc. acc \<union> {fork}) (map snd (filter fst (fork_table g))) {}"

lemma fold_union: "fold (\<lambda>x acc. acc \<union> {x}) xs S = S \<union> set xs"
  by (induction xs arbitrary: S) auto

lemma genesis_hardforks_table: "genesis_hardforks g = {f. (True, f) \<in> set (fork_table g)}"
  unfolding genesis_hardforks_def fold_union by (auto simp: image_iff)

text \<open>
  The table is in the order of activation, so the newest active fork, whose rules apply at
  genesis, is the last entry that is active.
\<close>

lemma fork_table_ordered: "sorted_wrt (<) (map snd (fork_table g))"
  by (simp add: fork_table_def Let_def less_ethereum_hardfork_def)

lemma Max_of_strict: "sorted_wrt (<) xs \<Longrightarrow> xs \<noteq> [] \<Longrightarrow> Max (set xs) = last (xs :: 'a::linorder list)"
proof (induction xs rule: rev_induct)
  case (snoc x xs)
  then have "\<forall>y\<in>set xs. y < x" by (auto simp: sorted_wrt_append)
  then show ?case by (intro Max_eqI) auto
qed simp

lemma newest_hardfork:
  "Max (genesis_hardforks g) = last (map snd (filter fst (fork_table g)))"
proof -
  have "map snd (filter fst (fork_table g)) \<noteq> []" by (simp add: fork_table_def Let_def)
  moreover have "sorted_wrt (<) (map snd (filter fst (fork_table g)))"
    using fork_table_ordered[of g] by (simp add: sorted_wrt_map sorted_wrt_filter)
  ultimately have "Max (set (map snd (filter fst (fork_table g)))) = last (map snd (filter fst (fork_table g)))"
    by (intro Max_of_strict)
  then show ?thesis unfolding genesis_hardforks_def fold_union by (simp only: Un_empty_left)
qed

text \<open>Frontier is always active, and a later genesis with the same schedule activates no fewer forks.\<close>

lemma is_some_le_mono: "at \<le> at' \<Longrightarrow> is_some_le at b \<Longrightarrow> is_some_le at' b"
  by (auto simp: is_some_le_def split: option.splits)

lemma active_mono:
  assumes "list_all2 (\<lambda>x y. snd x = snd y \<and> (fst x \<longrightarrow> fst y)) xs ys" "(True, f) \<in> set xs"
  shows "(True, f) \<in> set ys"
  using assms by (induction rule: list_all2_induct) (auto simp: prod_eq_iff)

lemma genesis_hardforks_mono:
  assumes "g_config g = g_config g'" "opt_default 0 (g_number g) \<le> opt_default 0 (g_number g')"
    and "g_timestamp g \<le> g_timestamp g'"
  shows "genesis_hardforks g \<subseteq> genesis_hardforks g'"
proof -
  have "list_all2 (\<lambda>x y. snd x = snd y \<and> (fst x \<longrightarrow> fst y)) (fork_table g) (fork_table g')"
    using assms by (simp add: fork_table_def Let_def is_some_le_mono)
  from active_mono[OF this] show ?thesis by (auto simp: genesis_hardforks_table)
qed

section \<open>Networks\<close>

datatype known_chain = Mainnet | Parmigiana | Gouda | Pecorino | Test

datatype genesis_spec = Known known_chain | Custom string string

datatype genesis_error = Genesis_Io string | Genesis_Json string

record 'j network_genesis =
  ng_rollup :: 'j
  ng_host :: 'j

text \<open>The texts embedded with \<^verbatim>\<open>include_str!\<close>.\<close>

record genesis_files =
  mainnet_json :: string
  mainnet_host_json :: string
  parmigiana_json :: string
  parmigiana_host_json :: string
  gouda_json :: string
  pecorino_json :: string
  pecorino_host_json :: string
  local_json :: string
  local_host_json :: string

definition io_read :: "(string \<Rightarrow> string + string) \<Rightarrow> string \<Rightarrow> (string, genesis_error) rresult" where
  "io_read read path = (case read path of Inl e \<Rightarrow> Err (Genesis_Io e) | Inr s \<Rightarrow> Ok s)"

definition json_parse :: "(string \<Rightarrow> string + 'g genesis) \<Rightarrow> string \<Rightarrow> ('g genesis, genesis_error) rresult" where
  "json_parse parse s = (case parse s of Inl e \<Rightarrow> Err (Genesis_Json e) | Inr g \<Rightarrow> Ok g)"

fun load_raw_genesis ::
  "genesis_files \<Rightarrow> (string \<Rightarrow> string + string) \<Rightarrow> genesis_spec \<Rightarrow> (string network_genesis, genesis_error) rresult" where
  "load_raw_genesis F read (Known Mainnet) = Ok \<lparr>ng_rollup = mainnet_json F, ng_host = mainnet_host_json F\<rparr>"
| "load_raw_genesis F read (Known Parmigiana) = Ok \<lparr>ng_rollup = parmigiana_json F, ng_host = parmigiana_host_json F\<rparr>"
| "load_raw_genesis F read (Known Gouda) = Ok \<lparr>ng_rollup = gouda_json F, ng_host = parmigiana_host_json F\<rparr>"
| "load_raw_genesis F read (Known Pecorino) = Ok \<lparr>ng_rollup = pecorino_json F, ng_host = pecorino_host_json F\<rparr>"
| "load_raw_genesis F read (Known Test) = Ok \<lparr>ng_rollup = local_json F, ng_host = local_host_json F\<rparr>"
| "load_raw_genesis F read (Custom rollup host) =
     rbind (io_read read rollup) (\<lambda>r. rbind (io_read read host) (\<lambda>h. Ok \<lparr>ng_rollup = r, ng_host = h\<rparr>))"

lemma genesis_reads_Ok [rres_simps]:
  "io_read read path = Ok s \<longleftrightarrow> read path = Inr s" "json_parse parse s = Ok g \<longleftrightarrow> parse s = Inr g"
  by (auto simp: io_read_def json_parse_def split: sum.split)

text \<open>A lazily parsed embedded genesis: \<^verbatim>\<open>expect\<close> panics where it does not parse.\<close>

definition static_genesis :: "(string \<Rightarrow> string + 'g genesis) \<Rightarrow> string \<Rightarrow> ('g genesis, 'e) rresult" where
  "static_genesis parse s = (case parse s of Inl e \<Rightarrow> Panic | Inr g \<Rightarrow> Ok g)"

lemma static_genesis_Ok [rres_simps]: "static_genesis parse s = Ok g \<longleftrightarrow> parse s = Inr g"
  by (auto simp: static_genesis_def split: sum.split)

definition static_pair where
  "static_pair parse r h =
     rbind (static_genesis parse r) (\<lambda>gr. rbind (static_genesis parse h) (\<lambda>gh. Ok \<lparr>ng_rollup = gr, ng_host = gh\<rparr>))"

fun load_genesis ::
  "genesis_files \<Rightarrow> (string \<Rightarrow> string + 'g genesis) \<Rightarrow> (string \<Rightarrow> string + string) \<Rightarrow> genesis_spec
     \<Rightarrow> ('g genesis network_genesis, genesis_error) rresult" where
  "load_genesis F parse read (Known Mainnet) = static_pair parse (mainnet_json F) (mainnet_host_json F)"
| "load_genesis F parse read (Known Parmigiana) = static_pair parse (parmigiana_json F) (parmigiana_host_json F)"
| "load_genesis F parse read (Known Gouda) = static_pair parse (gouda_json F) (parmigiana_host_json F)"
| "load_genesis F parse read (Known Pecorino) = static_pair parse (pecorino_json F) (pecorino_host_json F)"
| "load_genesis F parse read (Known Test) = static_pair parse (local_json F) (local_host_json F)"
| "load_genesis F parse read (Custom rollup host) =
     rbind (load_raw_genesis F read (Custom rollup host)) (\<lambda>raw.
     rbind (json_parse parse (ng_rollup raw)) (\<lambda>gr.
     rbind (json_parse parse (ng_host raw)) (\<lambda>gh. Ok \<lparr>ng_rollup = gr, ng_host = gh\<rparr>)))"

text \<open>The hardforks of a spec: for a custom one the files are read and must parse.\<close>

fun spec_hardforks ::
  "genesis_files \<Rightarrow> (string \<Rightarrow> string + 'g genesis) \<Rightarrow> (string \<Rightarrow> string + string) \<Rightarrow> genesis_spec
     \<Rightarrow> (ethereum_hardfork set, 'e) rresult" where
  "spec_hardforks F parse read (Known Mainnet) = rmap genesis_hardforks (static_genesis parse (mainnet_json F))"
| "spec_hardforks F parse read (Known Parmigiana) = rmap genesis_hardforks (static_genesis parse (parmigiana_json F))"
| "spec_hardforks F parse read (Known Gouda) = rmap genesis_hardforks (static_genesis parse (gouda_json F))"
| "spec_hardforks F parse read (Known Pecorino) = rmap genesis_hardforks (static_genesis parse (pecorino_json F))"
| "spec_hardforks F parse read (Known Test) = rmap genesis_hardforks (static_genesis parse (local_json F))"
| "spec_hardforks F parse read (Custom rollup host) =
     (case load_genesis F parse read (Custom rollup host) of
        Ok network \<Rightarrow> Ok (genesis_hardforks (ng_rollup network))
      | _ \<Rightarrow> Panic)"

text \<open>For every spec, what is loaded is what the raw texts parse to, and the hardforks are the rollup's.\<close>

lemma load_genesis_parses_raw:
  assumes "load_genesis F parse read spec = Ok network"
  shows "\<exists>raw. load_raw_genesis F read spec = Ok raw
    \<and> parse (ng_rollup raw) = Inr (ng_rollup network) \<and> parse (ng_host raw) = Inr (ng_host network)"
proof (cases spec)
  case (Known k)
  then show ?thesis using assms
    by (cases k) (auto simp: static_pair_def rres_simps)
next
  case (Custom r h)
  then show ?thesis using assms by (auto simp: rres_simps)
qed

lemma spec_hardforks_of_rollup:
  assumes "load_genesis F parse read spec = Ok network"
  shows "spec_hardforks F parse read spec = Ok (genesis_hardforks (ng_rollup network))"
proof (cases spec)
  case (Known k)
  then show ?thesis using assms
    by (cases k) (auto simp: static_pair_def rres_simps)
qed (use assms in auto)

section \<open>From text and from the environment\<close>

definition genesis_spec_from_str :: "(string \<Rightarrow> known_chain option) \<Rightarrow> string \<Rightarrow> (genesis_spec, string) rresult" where
  "genesis_spec_from_str known s = (case known s of Some k \<Rightarrow> Ok (Known k) | None \<Rightarrow> Err s)"

text \<open>An environment variable: unset or empty, set to something that does not parse, or a value.\<close>

datatype 'a env_var = Unset | Unparsed string | Parsed 'a

fun env_ok :: "'a env_var \<Rightarrow> 'a option" where
  "env_ok (Parsed a) = Some a"
| "env_ok _ = None"

definition genesis_spec_from_env ::
  "known_chain env_var \<Rightarrow> string env_var \<Rightarrow> string env_var \<Rightarrow> (genesis_spec, string) rresult" where
  "genesis_spec_from_env chain_name rollup_path host_path =
     (case env_ok chain_name of
        Some k \<Rightarrow> Ok (Known k)
      | None \<Rightarrow>
          rbind (ok_or (env_ok rollup_path) ''ROLLUP_GENESIS_JSON_PATH'') (\<lambda>rollup.
          rbind (ok_or (env_ok host_path) ''HOST_GENESIS_JSON_PATH'') (\<lambda>host.
            Ok (Custom rollup host))))"

text \<open>A chain name that is set but unknown is passed over in favour of the paths.\<close>

lemma unknown_chain_name_ignored:
  "genesis_spec_from_env (Unparsed s) (Parsed r) (Parsed h) = Ok (Custom r h)"
  "genesis_spec_from_env (Unparsed s) Unset h' = Err ''ROLLUP_GENESIS_JSON_PATH''"
  by (simp_all add: genesis_spec_from_env_def)

text \<open>A spec read from one variable, a chain name deserialized, and what the environment is asked for.\<close>

definition genesis_spec_from_env_var ::
  "(string \<Rightarrow> known_chain option) \<Rightarrow> (string \<Rightarrow> string option) \<Rightarrow> string \<Rightarrow> genesis_spec env_var" where
  "genesis_spec_from_env_var known env v =
     (case env v of
        None \<Rightarrow> Unset
      | Some s \<Rightarrow>
          if s = [] then Unset
          else (case genesis_spec_from_str known s of Ok spec \<Rightarrow> Parsed spec | _ \<Rightarrow> Unparsed s))"

definition known_from_str :: "(string \<Rightarrow> known_chain option) \<Rightarrow> (string + string) \<Rightarrow> (known_chain, string) rresult" where
  "known_from_str known deserialized =
     (case deserialized of
        Inl e \<Rightarrow> Err e
      | Inr s \<Rightarrow> ok_or (known s) s)"

text \<open>Each variable and whether it is optional.\<close>

definition genesis_spec_inventory :: "(string \<times> bool) list" where
  "genesis_spec_inventory =
     [(''CHAIN_NAME'', True), (''ROLLUP_GENESIS_JSON_PATH'', True), (''HOST_GENESIS_JSON_PATH'', True)]"

text \<open>The error of reading the environment names a variable of the inventory.\<close>

lemma from_env_error_in_inventory:
  "genesis_spec_from_env c r h = Err v \<Longrightarrow> v \<in> set (map fst genesis_spec_inventory)"
  by (cases "env_ok c"; cases "env_ok r"; cases "env_ok h")
    (auto simp: genesis_spec_from_env_def genesis_spec_inventory_def)

lemma from_env_var_known:
  "genesis_spec_from_env_var known env v = Parsed spec \<longleftrightarrow>
     (\<exists>s k. env v = Some s \<and> s \<noteq> [] \<and> known s = Some k \<and> spec = Known k)"
  by (auto simp: genesis_spec_from_env_var_def genesis_spec_from_str_def split: option.splits)

end
