(* ===== verification/Node_Builder.thy ===== *)
theory Node_Builder
  imports Node_Core Node_Genesis Rpc_Serve Rpc_Config Blob_Fetch
begin

text \<open>
  Configuring and building a node (\<^verbatim>\<open>crates/node-config\<close>, \<^verbatim>\<open>crates/node/src/builder.rs\<close>). Storage
  engines, URL parsing and the system constants of a genesis belong to other crates and are
  parameters; \<open>sql\<close> says whether the crate is built with an SQL feature.
\<close>

section \<open>Storage settings\<close>

record sql_connector =
  sq_url :: string
  sq_max_connections :: nat
  sq_min_connections :: nat
  sq_acquire_timeout :: duration
  sq_idle_timeout :: "duration option"
  sq_max_lifetime :: "duration option"

record storage_config =
  st_hot_path :: string
  st_cold_path :: string
  st_cold_sql :: "sql_connector option"

record storage_config_helper =
  sh_hot_path :: string
  sh_cold_path :: string
  sh_cold_sql_url :: "string option"
  sh_max_connections :: "nat option"
  sh_min_connections :: "nat option"
  sh_acquire_timeout_secs :: "u64 option"
  sh_idle_timeout_secs :: "u64 option"
  sh_max_lifetime_secs :: "u64 option"

definition nonempty_url :: "string option \<Rightarrow> string option" where
  "nonempty_url u = (case u of Some s \<Rightarrow> if s = [] then None else Some s | None \<Rightarrow> None)"

definition connector_of_helper :: "storage_config_helper \<Rightarrow> string \<Rightarrow> sql_connector" where
  "connector_of_helper h url =
     \<lparr>sq_url = url,
      sq_max_connections = opt_default 100 (sh_max_connections h),
      sq_min_connections = opt_default 5 (sh_min_connections h),
      sq_acquire_timeout = from_secs (opt_default 5 (sh_acquire_timeout_secs h)),
      sq_idle_timeout = Some (from_secs (opt_default 600 (sh_idle_timeout_secs h))),
      sq_max_lifetime = Some (from_secs (opt_default 1800 (sh_max_lifetime_secs h)))\<rparr>"

definition deserialize_storage :: "bool \<Rightarrow> storage_config_helper \<Rightarrow> (storage_config, string) rresult" where
  "deserialize_storage sql h =
     (if \<not> sql \<and> nonempty_url (sh_cold_sql_url h) \<noteq> None
      then Err ''cold_sql_url requires the 'postgres' or 'sqlite' feature''
      else Ok \<lparr>st_hot_path = sh_hot_path h, st_cold_path = sh_cold_path h,
               st_cold_sql = (if sql then map_option (connector_of_helper h) (nonempty_url (sh_cold_sql_url h))
                              else None)\<rparr>)"

definition StorageConfig_new :: "string \<Rightarrow> string \<Rightarrow> storage_config" where
  "StorageConfig_new hot cold = \<lparr>st_hot_path = hot, st_cold_path = cold, st_cold_sql = None\<rparr>"

definition cold_sql_url :: "bool \<Rightarrow> storage_config \<Rightarrow> string" where
  "cold_sql_url sql c = (case (sql, st_cold_sql c) of (True, Some k) \<Rightarrow> sq_url k | _ \<Rightarrow> [])"

text \<open>\<open>env_url\<close> is the variable \<^verbatim>\<open>SIGNET_COLD_SQL_URL\<close>, read only without the feature.\<close>

definition build_storage ::
  "bool \<Rightarrow> string option \<Rightarrow> (string \<Rightarrow> string + 'hot) \<Rightarrow> (string \<Rightarrow> string + 'cold) \<Rightarrow> (sql_connector \<Rightarrow> string + 'cold)
     \<Rightarrow> storage_config \<Rightarrow> ('hot \<times> 'cold, report) rresult" where
  "build_storage sql env_url connect_hot connect_mdbx connect_sql c =
     rbind (eyre (connect_hot (st_hot_path c))) (\<lambda>hot.
       let has_mdbx = (st_cold_path c \<noteq> []);
           has_sql = (if sql then st_cold_sql c \<noteq> None else nonempty_url env_url \<noteq> None)
       in if has_mdbx \<and> \<not> has_sql then
            rbind (eyre (connect_mdbx (st_cold_path c))) (\<lambda>cold. Ok (hot, cold))
          else if \<not> has_mdbx \<and> has_sql then
            (if sql then
               rbind (expect_some (st_cold_sql c)) (\<lambda>connector.
               rbind (eyre (connect_sql connector)) (\<lambda>cold. Ok (hot, cold)))
             else Err (Report ''SIGNET_COLD_SQL_URL requires the 'postgres' or 'sqlite' feature''))
          else if has_mdbx \<and> has_sql then
            Err (Report ''both SIGNET_COLD_PATH and SIGNET_COLD_SQL_URL are set; specify exactly one'')
          else
            Err (Report ''neither SIGNET_COLD_PATH nor SIGNET_COLD_SQL_URL is set; specify exactly one''))"

section \<open>Node settings\<close>

record 'sc signet_node_config =
  nc_block_extractor :: blob_fetcher_config
  nc_storage :: storage_config
  nc_forward_url :: "string option"
  nc_genesis :: genesis_spec
  nc_slot_calculator :: 'sc
  nc_backfill_max_blocks :: "u64 option"

definition SignetNodeConfig_new ::
  "blob_fetcher_config \<Rightarrow> storage_config \<Rightarrow> string option \<Rightarrow> genesis_spec \<Rightarrow> 'sc \<Rightarrow> 'sc signet_node_config" where
  "SignetNodeConfig_new extractor storage forward g slots =
     \<lparr>nc_block_extractor = extractor, nc_storage = storage, nc_forward_url = forward, nc_genesis = g,
      nc_slot_calculator = slots, nc_backfill_max_blocks = None\<rparr>"

definition nc_blob_explorer_url :: "'sc signet_node_config \<Rightarrow> string" where
  "nc_blob_explorer_url c = bc_blob_explorer_url (nc_block_extractor c)"

definition nc_cl_url :: "'sc signet_node_config \<Rightarrow> string option" where
  "nc_cl_url c = bc_cl_url (nc_block_extractor c)"

definition nc_pylon_url :: "'sc signet_node_config \<Rightarrow> string option" where
  "nc_pylon_url c = bc_pylon_url (nc_block_extractor c)"

definition forward_url :: "(string \<Rightarrow> string + 'url) \<Rightarrow> 'sc signet_node_config \<Rightarrow> 'url option" where
  "forward_url parse c =
     (case nc_forward_url c of
        None \<Rightarrow> None
      | Some s \<Rightarrow> (case parse s of Inl e \<Rightarrow> None | Inr url \<Rightarrow> Some url))"

definition config_backfill_max_blocks :: "'sc signet_node_config \<Rightarrow> u64 option" where
  "config_backfill_max_blocks c = Some (opt_default 10000 (nc_backfill_max_blocks c))"

text \<open>
  The rollup genesis, kept in a \<^verbatim>\<open>static\<close> cell inside the method: the cell, here passed and
  returned, is one for the process, whatever the configuration.
\<close>

definition config_genesis ::
  "genesis_files \<Rightarrow> (string \<Rightarrow> string + 'g genesis) \<Rightarrow> (string \<Rightarrow> string + string) \<Rightarrow> 'sc signet_node_config
     \<Rightarrow> 'g genesis option \<Rightarrow> ('g genesis, 'e) rresult \<times> 'g genesis option" where
  "config_genesis F parse read c cell =
     (case cell of
        Some g \<Rightarrow> (Ok g, cell)
      | None \<Rightarrow>
          (case load_genesis F parse read (nc_genesis c) of
             Ok network \<Rightarrow> (Ok (ng_rollup network), Some (ng_rollup network))
           | _ \<Rightarrow> (Panic, None)))"

definition config_constants where
  "config_constants try_from_genesis F parse read c cell =
     (case config_genesis F parse read c cell of
        (r, cell1) \<Rightarrow>
          (rbind r (\<lambda>g. case try_from_genesis g of Inl e \<Rightarrow> Err e | Inr constants \<Rightarrow> Ok constants), cell1))"

text \<open>The first configuration asked decides the genesis of every later one.\<close>

lemma genesis_of_first_config:
  assumes "config_genesis F parse read c1 None = (Ok g, cell)"
  shows "config_genesis F parse read c2 cell = (Ok g, cell)"
  using assms by (auto simp: config_genesis_def split: rresult.splits)

section \<open>The builder\<close>

record ('cfg, 'aof, 'n, 'st, 'cl, 'bl, 'sv, 'rp) node_builder =
  bu_config :: 'cfg
  bu_alias_oracle :: "'aof option"
  bu_notifier :: "'n option"
  bu_storage :: "'st option"
  bu_client :: "'cl option"
  bu_blob_cacher :: "'bl option"
  bu_serve_config :: "'sv option"
  bu_rpc_config :: "'rp option"

definition NodeBuilder_new :: "'cfg \<Rightarrow> ('cfg, 'aof, 'n, 'st, 'cl, 'bl, 'sv, 'rp) node_builder" where
  "NodeBuilder_new config =
     \<lparr>bu_config = config, bu_alias_oracle = None, bu_notifier = None, bu_storage = None, bu_client = None,
      bu_blob_cacher = None, bu_serve_config = None, bu_rpc_config = None\<rparr>"

definition with_storage where "with_storage v b = b\<lparr>bu_storage := Some v\<rparr>"
definition with_notifier where "with_notifier v b = b\<lparr>bu_notifier := Some v\<rparr>"
definition with_alias_oracle where "with_alias_oracle v b = b\<lparr>bu_alias_oracle := Some v\<rparr>"
definition with_client where "with_client v b = b\<lparr>bu_client := Some v\<rparr>"
definition with_blob_cacher where "with_blob_cacher v b = b\<lparr>bu_blob_cacher := Some v\<rparr>"
definition with_serve_config where "with_serve_config v b = b\<lparr>bu_serve_config := Some v\<rparr>"
definition with_rpc_config where "with_rpc_config v b = b\<lparr>bu_rpc_config := Some v\<rparr>"

text \<open>What building needs of storage; \<open>'rd\<close> is a read and \<open>'w\<close> a write transaction of hot storage.\<close>

record ('st, 'rd, 'w, 'h, 'g) genesis_store =
  gs_reader :: "'st \<Rightarrow> string + 'rd"
  gs_has_block :: "'rd \<Rightarrow> u64 \<Rightarrow> string + bool"
  gs_get_header :: "'rd \<Rightarrow> u64 \<Rightarrow> string + 'h option"
  gs_writer :: "'st \<Rightarrow> string + 'w"
  gs_load_genesis :: "'g genesis \<Rightarrow> ethereum_hardfork set \<Rightarrow> 'w \<Rightarrow> string + 'w"
  gs_commit :: "'w \<Rightarrow> 'st \<Rightarrow> (string + unit) \<times> 'st"
  gs_cold_latest :: "'st \<Rightarrow> string + u64 option"
  gs_cold_append :: "'h \<Rightarrow> 'st \<Rightarrow> (string + unit) \<times> 'st"

fun stored :: "(string + unit) \<times> 'st \<Rightarrow> (unit, report) rresult \<times> 'st" where
  "stored (r, st) = (eyre r, st)"

definition ensure_hot_genesis ::
  "('st, 'rd, 'w, 'h, 'g) genesis_store \<Rightarrow> ('g genesis, report) rresult \<Rightarrow> 'st \<Rightarrow> (unit, report) rresult \<times> 'st" where
  "ensure_hot_genesis G genesis st =
     (case rbind (eyre (gs_reader G st)) (\<lambda>reader. eyre (gs_has_block G reader 0)) of
        Err e \<Rightarrow> (Err e, st)
      | Panic \<Rightarrow> (Panic, st)
      | Ok has_hot_genesis \<Rightarrow>
          if has_hot_genesis then (Ok (), st)
          else
            (case rbind genesis (\<lambda>g.
                  rbind (eyre (gs_writer G st)) (\<lambda>writer.
                    eyre (gs_load_genesis G g (genesis_hardforks g) writer))) of
               Err e \<Rightarrow> (Err e, st)
             | Panic \<Rightarrow> (Panic, st)
             | Ok writer \<Rightarrow> stored (gs_commit G writer st)))"

definition ensure_cold_genesis ::
  "('st, 'rd, 'w, 'h, 'g) genesis_store \<Rightarrow> 'st \<Rightarrow> (unit, report) rresult \<times> 'st" where
  "ensure_cold_genesis G st =
     (case eyre (gs_cold_latest G st) of
        Err e \<Rightarrow> (Err e, st)
      | Panic \<Rightarrow> (Panic, st)
      | Ok (Some n) \<Rightarrow> (Ok (), st)
      | Ok None \<Rightarrow>
          (case rbind (eyre (gs_reader G st)) (\<lambda>reader.
                rbind (eyre (gs_get_header G reader 0)) (\<lambda>header.
                  ok_or header (Report ''genesis header missing from hot storage''))) of
             Err e \<Rightarrow> (Err e, st)
           | Panic \<Rightarrow> (Panic, st)
           | Ok genesis_header \<Rightarrow> stored (gs_cold_append G genesis_header st)))"

definition prebuild ::
  "('st, 'rd, 'w, 'h, 'g) genesis_store \<Rightarrow> 'cl \<Rightarrow> ('g genesis, report) rresult
     \<Rightarrow> ('cfg, 'aof, 'n, 'st, 'cl, 'bl, 'sv, 'rp) node_builder
     \<Rightarrow> (unit, report) rresult \<times> ('cfg, 'aof, 'n, 'st, 'cl, 'bl, 'sv, 'rp) node_builder" where
  "prebuild G default_client genesis b0 =
     (let b = b0\<lparr>bu_client := Some (opt_default default_client (bu_client b0))\<rparr>
      in if bu_notifier b = None then (Err (Report ''Notifier must be set''), b)
         else case bu_storage b of
           None \<Rightarrow> (Err (Report ''Storage must be set''), b)
         | Some st \<Rightarrow>
             (case ensure_hot_genesis G genesis st of
                (Ok _, st1) \<Rightarrow>
                  (case ensure_cold_genesis G st1 of (r, st2) \<Rightarrow> (r, b\<lparr>bu_storage := Some st2\<rparr>))
              | (r, st1) \<Rightarrow> (r, b\<lparr>bu_storage := Some st1\<rparr>)))"

text \<open>
  Building: \<open>constants\<close> is what the configuration's genesis gives. The second component is
  the builder as \<open>prebuild\<close> left it, with the storage it filled.
\<close>

definition build ::
  "('st, 'rd, 'w, 'h, 'g) genesis_store \<Rightarrow> 'cl \<Rightarrow> ('g genesis, report) rresult \<Rightarrow> ('k, report) rresult
     \<Rightarrow> ('cfg, 'aof, 'n, 'st, 'cl, 'bl, 'sv, 'rp) node_builder
     \<Rightarrow> (('st, 'n, 'bl, 'l) node_state, report) rresult \<times> ('cfg, 'aof, 'n, 'st, 'cl, 'bl, 'sv, 'rp) node_builder" where
  "build G default_client genesis constants b0 =
     (case prebuild G default_client genesis b0 of
        (Ok _, b) \<Rightarrow>
          (rbind (expect_some (bu_notifier b)) (\<lambda>notifier.
           rbind (expect_some (bu_storage b)) (\<lambda>storage.
           rbind (expect_some (bu_alias_oracle b)) (\<lambda>alias_oracle.
           rbind (expect_some (bu_client b)) (\<lambda>client.
           rbind (ok_or (bu_blob_cacher b) (Report ''blob cacher must be set'')) (\<lambda>blobs.
           rbind (ok_or (bu_serve_config b) (Report ''serve config must be set'')) (\<lambda>serve_config.
           rbind (ok_or (bu_rpc_config b) (Report ''rpc config must be set'')) (\<lambda>rpc_config.
           rbind (map_report (Wrap ''failed to load signet constants from genesis'') constants) (\<lambda>_.
             Ok (new_unsafe storage notifier blobs))))))))), b)
      | (Err e, b) \<Rightarrow> (Err e, b)
      | (Panic, b) \<Rightarrow> (Panic, b))"

section \<open>Building prepares storage once\<close>

text \<open>
  The documented behaviour of storage: a committed genesis is block 0 of hot storage and
  leaves cold storage alone; an appended block is in cold storage, and hot storage reads
  as before.
\<close>

definition genesis_laws :: "('st, 'rd, 'w, 'h, 'g) genesis_store \<Rightarrow> bool" where
  "genesis_laws G \<longleftrightarrow>
     (\<forall>g forks w0 w st st'. gs_load_genesis G g forks w0 = Inr w \<and> gs_commit G w st = (Inr (), st') \<longrightarrow>
        (\<exists>rd. gs_reader G st' = Inr rd \<and> gs_has_block G rd 0 = Inr True)
        \<and> gs_cold_latest G st' = gs_cold_latest G st)
     \<and> (\<forall>h st st'. gs_cold_append G h st = (Inr (), st') \<longrightarrow>
        gs_reader G st' = gs_reader G st \<and> (\<exists>n. gs_cold_latest G st' = Inr (Some n)))"

definition has_genesis :: "('st, 'rd, 'w, 'h, 'g) genesis_store \<Rightarrow> 'st \<Rightarrow> bool" where
  "has_genesis G st \<longleftrightarrow> (\<exists>rd. gs_reader G st = Inr rd \<and> gs_has_block G rd 0 = Inr True)"

lemma stored_Ok: "stored r = (Ok u, st) \<longleftrightarrow> r = (Inr (), st)"
  by (cases r; cases "fst r") auto

lemma ensure_hot_ok:
  assumes "genesis_laws G" "ensure_hot_genesis G genesis st = (Ok u, st1)"
  shows "has_genesis G st1 \<and> (gs_cold_latest G st1 = gs_cold_latest G st)"
proof -
  obtain rd has where rd: "gs_reader G st = Inr rd" "gs_has_block G rd 0 = Inr has"
    using assms(2) by (auto simp: ensure_hot_genesis_def rres_simps split: rresult.splits)
  show ?thesis
  proof (cases has)
    case True
    then show ?thesis using assms(2) rd by (simp add: ensure_hot_genesis_def has_genesis_def)
  next
    case False
    then obtain g w0 w where "gs_load_genesis G g (genesis_hardforks g) w0 = Inr w"
      and "gs_commit G w st = (Inr (), st1)"
      using assms(2) rd
      by (auto simp: ensure_hot_genesis_def rres_simps stored_Ok split: rresult.splits)
    then show ?thesis using assms(1) unfolding genesis_laws_def has_genesis_def by blast
  qed
qed

lemma ensure_cold_ok:
  assumes "genesis_laws G" "ensure_cold_genesis G st = (Ok u, st1)"
  shows "gs_reader G st1 = gs_reader G st \<and> (\<exists>n. gs_cold_latest G st1 = Inr (Some n))"
proof -
  obtain latest where l: "gs_cold_latest G st = Inr latest"
    using assms(2) by (cases "gs_cold_latest G st") (auto simp: ensure_cold_genesis_def)
  show ?thesis
  proof (cases latest)
    case None
    then obtain h where "gs_cold_append G h st = (Inr (), st1)"
      using assms(2) l by (auto simp: ensure_cold_genesis_def stored_Ok split: rresult.splits)
    then show ?thesis using assms(1) unfolding genesis_laws_def by blast
  next
    case (Some n)
    then show ?thesis using assms(2) l by (simp add: ensure_cold_genesis_def)
  qed
qed

lemma ensure_hot_present: "has_genesis G st \<Longrightarrow> ensure_hot_genesis G genesis st = (Ok (), st)"
  by (auto simp: has_genesis_def ensure_hot_genesis_def)

lemma ensure_cold_present: "gs_cold_latest G st = Inr (Some n) \<Longrightarrow> ensure_cold_genesis G st = (Ok (), st)"
  by (simp add: ensure_cold_genesis_def)

text \<open>
  C25: when \<^verbatim>\<open>prebuild\<close> succeeds, hot storage has block 0 and cold storage is not empty,
  nothing else of the builder changed but a client put where there was none, and
  preparing again, whatever genesis the configuration then loads, changes nothing: an
  existing chain is never reinitialized.
\<close>

theorem prebuild_prepares_once:
  assumes laws: "genesis_laws G" and pb: "prebuild G dc genesis b = (Ok u, b1)"
  shows "\<exists>st st1. bu_storage b = Some st \<and> bu_notifier b \<noteq> None
    \<and> b1 = b\<lparr>bu_client := Some (opt_default dc (bu_client b)), bu_storage := Some st1\<rparr>
    \<and> has_genesis G st1 \<and> (\<exists>n. gs_cold_latest G st1 = Inr (Some n))
    \<and> (has_genesis G st \<and> gs_cold_latest G st \<noteq> Inr None \<longrightarrow> st1 = st)
    \<and> prebuild G dc genesis' b1 = (Ok (), b1)"
proof -
  let ?b = "b\<lparr>bu_client := Some (opt_default dc (bu_client b))\<rparr>"
  have no: "bu_notifier b \<noteq> None" and "bu_storage b \<noteq> None"
    using pb by (auto simp: prebuild_def Let_def split: if_splits option.splits)
  then obtain st where st: "bu_storage b = Some st" by blast
  obtain sta stb where hot: "ensure_hot_genesis G genesis st = (Ok (), sta)"
    and cold: "ensure_cold_genesis G sta = (Ok (), stb)" and b1: "b1 = ?b\<lparr>bu_storage := Some stb\<rparr>"
    using pb no st
    by (cases "ensure_hot_genesis G genesis st"; cases "fst (ensure_hot_genesis G genesis st)")
      (auto simp: prebuild_def Let_def split: prod.splits)
  note h = ensure_hot_ok[OF laws hot] and c = ensure_cold_ok[OF laws cold]
  have gen: "has_genesis G stb" using h c unfolding has_genesis_def by simp
  obtain n where n: "gs_cold_latest G stb = Inr (Some n)" using c by blast
  have same: "stb = st" if p: "has_genesis G st \<and> gs_cold_latest G st \<noteq> Inr None"
  proof -
    have "sta = st" using hot ensure_hot_present[of G st genesis] p by simp
    moreover have "gs_cold_latest G st \<noteq> Inr None" using p by simp
    ultimately show ?thesis using cold by (cases "gs_cold_latest G st") (auto simp: ensure_cold_genesis_def)
  qed
  have "prebuild G dc genesis' b1 = (Ok (), b1)"
    using no by (auto simp: prebuild_def Let_def b1 ensure_hot_present[OF gen] ensure_cold_present[OF n])
  then show ?thesis using st no b1 gen n same by blast
qed

text \<open>A store of two flags: hot genesis and the number of cold blocks.\<close>

definition ex_store :: "(bool \<times> nat, bool, bool, nat, nat) genesis_store" where
  "ex_store = \<lparr>gs_reader = (\<lambda>st. Inr (fst st)), gs_has_block = (\<lambda>rd n. Inr (rd \<and> n = 0)),
     gs_get_header = (\<lambda>rd n. Inr (if rd \<and> n = 0 then Some 7 else None)), gs_writer = (\<lambda>st. Inr False),
     gs_load_genesis = (\<lambda>g forks w. Inr True), gs_commit = (\<lambda>w st. (Inr (), (w, snd st))),
     gs_cold_latest = (\<lambda>st. Inr (if snd st = 0 then None else Some (snd st - 1))),
     gs_cold_append = (\<lambda>h st. (Inr (), (fst st, Suc (snd st))))\<rparr>"

definition ex_config :: chain_config where
  "ex_config = \<lparr>homestead_block = Some 0, dao_fork_block = None, eip150_block = Some 0, eip155_block = Some 0,
     byzantium_block = Some 0, constantinople_block = Some 0, petersburg_block = Some 0, istanbul_block = Some 0,
     muir_glacier_block = Some 0, berlin_block = Some 0, london_block = Some 0, arrow_glacier_block = None,
     gray_glacier_block = None, merge_netsplit_block = Some 0, shanghai_time = Some 0, cancun_time = Some 0,
     prague_time = Some 50, osaka_time = None\<rparr>"

definition ex_genesis :: "nat genesis" where
  "ex_genesis = \<lparr>g_number = None, g_timestamp = 20, g_config = ex_config, g_rest = 0\<rparr>"

definition ex_builder :: "(nat, nat, nat, bool \<times> nat, nat, nat, nat, nat) node_builder" where
  "ex_builder = with_storage (False, 0) (with_notifier 1 (NodeBuilder_new 0))"

lemma ex_store_laws: "genesis_laws ex_store"
  by (auto simp: genesis_laws_def ex_store_def)

lemma ex_prebuild:
  "prebuild ex_store 9 (Ok ex_genesis) ex_builder
     = (Ok (), ex_builder\<lparr>bu_client := Some 9, bu_storage := Some (True, 1)\<rparr>)"
  by (simp add: prebuild_def ensure_hot_genesis_def ensure_cold_genesis_def ex_builder_def ex_store_def
      with_storage_def with_notifier_def NodeBuilder_new_def)

theorem prebuild_prepares_once_witness:
  "prebuild ex_store 9 Panic (ex_builder\<lparr>bu_client := Some 9, bu_storage := Some (True, 1)\<rparr>)
     = (Ok (), ex_builder\<lparr>bu_client := Some 9, bu_storage := Some (True, 1)\<rparr>)"
  using prebuild_prepares_once[OF ex_store_laws ex_prebuild, of Panic] by blast

text \<open>Building fails only after storage was prepared, where a setting is missing.\<close>

lemma build_missing_cacher:
  assumes "prebuild G dc genesis b = (Ok u, b1)" "bu_alias_oracle b = Some a" "bu_blob_cacher b = None"
  shows "build G dc genesis constants b = (Err (Report ''blob cacher must be set''), b1)"
proof -
  have "bu_alias_oracle b1 = Some a" "bu_blob_cacher b1 = None" "bu_client b1 \<noteq> None"
    "bu_notifier b1 \<noteq> None" "bu_storage b1 \<noteq> None"
    using assms by (auto simp: prebuild_def Let_def split: if_splits option.splits prod.splits rresult.splits)
  then show ?thesis using assms(1) by (auto simp: build_def)
qed

text \<open>
  A built node boots on the prepared storage with the builder's notifier and blob cache.
\<close>

lemma build_ok:
  assumes "build G dc genesis constants b = (Ok node, b1)"
  shows "\<exists>st n bl. bu_storage b1 = Some st \<and> bu_notifier b1 = Some n \<and> bu_blob_cacher b1 = Some bl
    \<and> node = new_unsafe st n bl \<and> prebuild G dc genesis b = (Ok (), b1)"
proof -
  obtain r where p: "prebuild G dc genesis b = (Ok r, b1)"
    using assms by (auto simp: build_def split: prod.splits rresult.splits)
  have e: "expect_some m = Ok a \<longleftrightarrow> m = Some a" for m :: "'z option" and a by (cases m) auto
  show ?thesis
    using assms p by (auto simp: build_def rres_simps e)
qed

text \<open>Storage is opened when exactly one cold backend is configured and its engines connect.\<close>

lemma build_storage_exactly_one:
  assumes "build_storage sql env_url hot mdbx connect c = Ok stores"
  shows "(st_cold_path c \<noteq> []) \<noteq> (if sql then st_cold_sql c \<noteq> None else nonempty_url env_url \<noteq> None)"
    and "\<not> sql \<Longrightarrow> \<exists>cold. mdbx (st_cold_path c) = Inr cold \<and> snd stores = cold"
  using assms by (auto simp: build_storage_def Let_def rres_simps split: if_splits)

end
