(* ===== verification/Rpc_Server.thy ===== *)
theory Rpc_Server
  imports Node_Invariant Node_Builder Rpc_Ctx Interest_Filters Interest_Subs Eth_Queries
begin

text \<open>
  The server's context (\<^verbatim>\<open>rpc/src/config/ctx.rs\<close>) and how the node launches it
  (\<^verbatim>\<open>node/src/rpc.rs\<close>): what the handlers share, the permits that bound tracing, and the
  node's chain state as the handlers see it. Constants and chain configuration are
  signet-types' and alloy's.
\<close>

section \<open>The shared context\<close>

record ('st, 'k, 'cc, 'tc, 'f, 'l) storage_rpc_ctx =
  sr_storage :: 'st
  sr_constants :: 'k
  sr_chain_config :: 'cc
  sr_chain :: "'l chain_notifier"
  sr_tx_cache :: "'tc option"
  sr_config :: "'f storage_rpc_config"
  sr_tracing_permits :: usize
  sr_filter_manager :: "nat filter_manager"
  sr_filter_clean :: "duration \<times> duration"
  sr_sub_manager :: sub_manager
  sr_sub_clean :: duration
  sr_gas_cache :: gas_oracle_cache

text \<open>
  \<^verbatim>\<open>new\<close>: the managers start empty, their cleaning tasks run at the filter's time to live, and
  the semaphore has one permit per concurrent tracing request.
\<close>

definition StorageRpcCtx_new ::
  "'st \<Rightarrow> 'k \<Rightarrow> 'cc \<Rightarrow> 'l chain_notifier \<Rightarrow> 'tc option \<Rightarrow> 'f storage_rpc_config
     \<Rightarrow> ('st, 'k, 'cc, 'tc, 'f, 'l) storage_rpc_ctx" where
  "StorageRpcCtx_new storage constants chain_config chain tx_cache config =
     \<lparr>sr_storage = storage, sr_constants = constants, sr_chain_config = chain_config, sr_chain = chain,
      sr_tx_cache = tx_cache, sr_config = config, sr_tracing_permits = max_tracing_requests config,
      sr_filter_manager = filter_manager_new, sr_filter_clean = (stale_filter_ttl config, stale_filter_ttl config),
      sr_sub_manager = sub_manager_new, sr_sub_clean = stale_filter_ttl config,
      sr_gas_cache = gas_cache_new\<rparr>"

text \<open>What the handlers read of the other crates.\<close>

record ('st, 'k, 'cc) ctx_ops =
  cto_hot_reader :: "'st \<Rightarrow> string + hot_tx"
  cto_ru_chain_id :: "'k \<Rightarrow> u64"
  cto_slot_duration :: "'k \<Rightarrow> u64"
  cto_next_base_fee :: "header \<Rightarrow> u64 option"
  cto_spec_id :: "'cc \<Rightarrow> header \<Rightarrow> nat"

text \<open>The accessors, together: the context as the handlers of this development take it.\<close>

definition ctx_view :: "('st, 'k, 'cc) ctx_ops \<Rightarrow> ('st, 'k, 'cc, 'tc, 'f, 'l) storage_rpc_ctx \<Rightarrow> 'f rpc_ctx" where
  "ctx_view O' s =
     \<lparr>cx_hot_reader = cto_hot_reader O' (sr_storage s),
      cx_tags = cn_tags (sr_chain s),
      cx_config = sr_config s,
      cx_chain_id = cto_ru_chain_id O' (sr_constants s),
      cx_slot_duration = cto_slot_duration O' (sr_constants s),
      cx_next_block_base_fee = cto_next_base_fee O',
      cx_spec_id = cto_spec_id O' (sr_chain_config s)\<rparr>"

section \<open>Launching the server\<close>

text \<open>
  The context shares the node's storage and chain notifier: at any moment it is made of the
  node's current state. \<open>chain_config\<close> is the configuration in the node's genesis.
\<close>

definition node_ctx ::
  "'k \<Rightarrow> 'cc \<Rightarrow> ('url \<Rightarrow> 'tc) \<Rightarrow> 'url option \<Rightarrow> 'f storage_rpc_config \<Rightarrow> ('st, 'n, 's, 'l) node_state
     \<Rightarrow> ('st, 'k, 'cc, 'tc, 'f, 'l) storage_rpc_ctx" where
  "node_ctx constants chain_config new_cache forward config ns =
     StorageRpcCtx_new (ns_storage ns) constants chain_config (ns_chain ns) (map_option new_cache forward) config"

definition launch_rpc where
  "launch_rpc parse bind_http bind_ws bind_ipc constants chain_config new_cache forward config serve_config ns =
     (let rpc_ctx = node_ctx constants chain_config new_cache forward config ns
      in case serve parse bind_http bind_ws bind_ipc serve_config of
           (Ok guard, running) \<Rightarrow> (Ok (rpc_ctx, guard), running)
         | (Err e, running) \<Rightarrow> (Err e, running)
         | (Panic, running) \<Rightarrow> (Panic, running))"

section \<open>Tracing permits\<close>

text \<open>
  A tracing handler takes a permit before it starts and holds it until it ends. The
  semaphore is fair: a request that finds no permit, or others waiting, queues up, and a
  returned permit goes to the first in the queue.
\<close>

record tracing_state =
  tp_available :: usize
  tp_running :: "nat list"
  tp_waiting :: "nat list"

definition tracing_start :: "'f storage_rpc_config \<Rightarrow> tracing_state" where
  "tracing_start config = \<lparr>tp_available = max_tracing_requests config, tp_running = [], tp_waiting = []\<rparr>"

inductive tracing_step :: "tracing_state \<Rightarrow> tracing_state \<Rightarrow> bool" where
  acquire: "0 < tp_available t \<Longrightarrow> tp_waiting t = [] \<Longrightarrow>
     tracing_step t (t\<lparr>tp_available := tp_available t - 1, tp_running := tp_running t @ [r]\<rparr>)"
| queue: "tp_available t = 0 \<or> tp_waiting t \<noteq> [] \<Longrightarrow>
     tracing_step t (t\<lparr>tp_waiting := tp_waiting t @ [r]\<rparr>)"
| hand_over: "r \<in> set (tp_running t) \<Longrightarrow> tp_waiting t = q # qs \<Longrightarrow>
     tracing_step t (t\<lparr>tp_running := remove1 r (tp_running t) @ [q], tp_waiting := qs\<rparr>)"
| release: "r \<in> set (tp_running t) \<Longrightarrow> tp_waiting t = [] \<Longrightarrow>
     tracing_step t (t\<lparr>tp_available := Suc (tp_available t), tp_running := remove1 r (tp_running t)\<rparr>)"

inductive_cases tracing_stepE: "tracing_step t t'"

definition tracing_inv :: "usize \<Rightarrow> tracing_state \<Rightarrow> bool" where
  "tracing_inv permits t \<longleftrightarrow>
     tp_available t + length (tp_running t) = permits \<and> (tp_waiting t \<noteq> [] \<longrightarrow> tp_available t = 0)"

lemma remove1_length: "r \<in> set xs \<Longrightarrow> Suc (length (remove1 r xs)) = length xs"
  using length_pos_if_in_set[of r xs] by (simp add: length_remove1)

lemma tracing_step_inv: "tracing_inv k t \<Longrightarrow> tracing_step t t' \<Longrightarrow> tracing_inv k t'"
  by (erule tracing_stepE) (auto simp: tracing_inv_def dest: remove1_length)

text \<open>At most the configured number of tracing requests run at once, and none waits while a permit is free.\<close>

lemma tracing_bounded:
  assumes "tracing_step\<^sup>*\<^sup>* (tracing_start config) t"
  shows "length (tp_running t) \<le> max_tracing_requests config
    \<and> (tp_waiting t \<noteq> [] \<longrightarrow> length (tp_running t) = max_tracing_requests config)"
proof -
  have "tracing_inv (max_tracing_requests config) t"
    using assms
  proof (induction rule: rtranclp_induct)
    case base
    then show ?case by (simp add: tracing_inv_def tracing_start_def)
  qed (rule tracing_step_inv)
  then show ?thesis by (auto simp: tracing_inv_def)
qed

text \<open>With no permit configured, no tracing request ever runs: each waits for ever.\<close>

lemma no_permits_no_tracing:
  assumes "max_tracing_requests config = 0" "tracing_step\<^sup>*\<^sup>* (tracing_start config) t"
  shows "tp_running t = []"
  using tracing_bounded[OF assms(2)] assms(1) by simp

section \<open>The node's height as the server answers it\<close>

text \<open>
  In every state the node's loop reaches, \<^verbatim>\<open>eth_blockNumber\<close> answers the stored rollup
  height, or zero while no tag was set.
\<close>

lemma served_block_number:
  assumes "node_laws E height" "constants_ok (ne_constants E)" "node_ok height ns0" "node_reach E ns0 ns"
  shows "\<exists>k. block_number (ctx_view O' (node_ctx constants cc new_cache forward config ns)) = Ok k
    \<and> (k = height (ns_storage ns) \<or> k = 0)"
proof -
  have "node_ok height ns"
    using assms(4) by (induction rule: node_reach.induct) (auto intro: assms(3) node_turn_ok[OF assms(1,2)])
  then show ?thesis
    by (auto simp: block_number_def ctx_view_def node_ctx_def StorageRpcCtx_new_def node_ok_def Let_def)
qed

end
