(* ===== verification/Node_Backfill.thy ===== *)
theory Node_Backfill
  imports Node_Invariant
begin

text \<open>
  The node catching up with its host, over any backend: what the backfill of a host
  notifier promises is a locale, and inside it the main loop is shown to store every
  block up to the backfill's end. The backends interpret it in \<open>Node_Sync\<close>.
\<close>

section \<open>A node whose own parts do not fail\<close>

text \<open>
  Storage answers, every block executes and is appended, and the extractor gives one
  extract for each host block behind the deployment, in order. \<open>numbers\<close> are the block
  numbers of a chain.
\<close>

definition steady_node ::
  "('st, 'rd, 'eb, 'l, 'n, 'c, 'x, 's) node_env \<Rightarrow> ('c \<Rightarrow> u64 list) \<Rightarrow> ('st \<Rightarrow> u64) \<Rightarrow> bool" where
  "steady_node E numbers height \<longleftrightarrow>
     node_laws E height \<and> constants_ok (ne_constants E)
     \<and> (\<forall>st. last_rollup_block E st = Ok (height st))
     \<and> (\<forall>st x bl. \<exists>b bl'. ne_execute E st x bl = (Ok b, bl'))
     \<and> (\<forall>b st. \<exists>st'. so_append_blocks (ne_storage E) [b] st = (Inr (), st'))
     \<and> (\<forall>seg a b. numbers seg = [a..<b] \<longrightarrow>
          map (ne_ru_height E) (ne_extract E seg)
            = map (\<lambda>k. k - co_host_deploy_height (ne_constants E))
                (filter (\<lambda>k. k > co_host_deploy_height (ne_constants E)) [a..<b]))"

lemma steady_nodeD:
  assumes "steady_node E numbers height"
  shows "node_laws E height" "constants_ok (ne_constants E)" "last_rollup_block E st = Ok (height st)"
  using assms by (simp_all add: steady_node_def)

lemma steady_node_extract:
  assumes "steady_node E numbers height" "numbers seg = [a..<b]"
  shows "map (ne_ru_height E) (ne_extract E seg)
    = map (\<lambda>k. k - co_host_deploy_height (ne_constants E))
        (filter (\<lambda>k. k > co_host_deploy_height (ne_constants E)) [a..<b])"
  using assms unfolding steady_node_def by blast

lemma steady_node_extracts_run:
  assumes "steady_node E numbers height"
  shows "\<exists>p' ns'. process_extracts E h xs p ns = (Ok p', ns')"
proof (induction xs arbitrary: p ns)
  case (Cons x xs)
  obtain b bl where b: "ne_execute E (ns_storage ns) x (ns_blobs ns) = (Ok b, bl)"
    using assms unfolding steady_node_def by blast
  obtain st where a: "so_append_blocks (ne_storage E) [b] (ns_storage ns) = (Inr (), st)"
    using assms unfolding steady_node_def by blast
  show ?case using Cons.IH b a by (simp add: Let_def notify_new_block_chain)
qed simp

text \<open>The rollup blocks of a range of host blocks that are not stored yet.\<close>

lemma new_of_range:
  assumes "a \<le> Suc (d + h)"
  shows "filter (\<lambda>n. n > h) (map (\<lambda>k. k - d) (filter (\<lambda>k. k > d) [a..<b])) = [Suc h..<b - d]"
proof (induction b)
  case (Suc b)
  show ?case
  proof (cases "b > d \<and> b - d > h")
    case True
    then have "Suc b - d = Suc (b - d)" "Suc h \<le> b - d" "a \<le> b" using assms by auto
    then show ?thesis using Suc True by simp
  next
    case False
    then have "[Suc h..<b - d] = []" "[Suc h..<Suc b - d] = []" by auto
    then show ?thesis using Suc False by auto
  qed
qed simp

section \<open>One notification\<close>

text \<open>Setting the tags tells the host of a finished height below the stored block's host block, if of any.\<close>

lemma steady_tags:
  assumes C: "constants_ok (ne_constants E)"
    and told: "\<And>k. k < co_host_deploy_height (ne_constants E) + ru \<Longrightarrow>
        \<exists>n'. no_send_finished_height (ne_notifier E) k (ns_notifier ns) = (Inr (), n') \<and> P n'"
    and "P (ns_notifier ns)"
  shows "\<exists>c n'. update_block_tags E ru safe fin ns = (Ok (), ns\<lparr>ns_chain := c, ns_notifier := n'\<rparr>)
    \<and> tag_latest (cn_tags c) = ru \<and> P n'"
proof -
  let ?F = "clamp_host_heights (ne_constants E) ru fin"
  let ?t = "update_all ru (ph_rollup (clamp_host_heights (ne_constants E) ru safe)) (ph_rollup ?F) (cn_tags (ns_chain ns))"
  let ?c = "(ns_chain ns)\<lparr>cn_tags := ?t\<rparr>"
  have tag: "tag_latest (cn_tags ?c) = ru" by (simp add: update_all_result)
  have id: "ns\<lparr>ns_chain := ?c\<rparr> = ns\<lparr>ns_chain := ?c, ns_notifier := ns_notifier ns\<rparr>" by simp
  show ?thesis
  proof (cases "ph_rollup ?F > 0")
    case True
    then have "ph_host ?F = co_host_deploy_height (ne_constants E) + ph_rollup ?F" by (rule clamp_exact(2)[OF C])
    moreover have "ph_rollup ?F \<le> ru" by (simp add: clamp_exact(1)[OF C])
    ultimately have "saturating_sub (ph_host ?F) 1 < co_host_deploy_height (ne_constants E) + ru"
      using True by (simp add: saturating_sub_def)
    from told[OF this] obtain n' where
      "no_send_finished_height (ne_notifier E) (saturating_sub (ph_host ?F) 1) (ns_notifier ns) = (Inr (), n')" "P n'"
      by blast
    then have "update_block_tags E ru safe fin ns = (Ok (), ns\<lparr>ns_chain := ?c, ns_notifier := n'\<rparr>)" "P n'"
      using True by (simp_all add: update_block_tags_def update_highest_processed_height_def Let_def)
    then show ?thesis using tag by blast
  next
    case False
    then have "update_block_tags E ru safe fin ns = (Ok (), ns\<lparr>ns_chain := ?c, ns_notifier := ns_notifier ns\<rparr>)"
      using id by (simp add: update_block_tags_def)
    then show ?thesis using tag assms(3) by blast
  qed
qed

lemma sync_turn:
  assumes st: "steady_node E numbers height"
    and nx: "no_next_notification (ne_notifier E) (ns_notifier ns) = (Some (Ok nt), n1)"
    and seg: "kind nt = ChainCommitted seg" "numbers seg = [a..<b]"
    and gap: "a \<le> Suc (co_host_deploy_height (ne_constants E) + height (ns_storage ns))"
    and told: "\<And>k. k < b \<Longrightarrow> \<exists>n'. no_send_finished_height (ne_notifier E) k n1 = (Inr (), n') \<and> P n'"
    and "P n1"
  defines "d \<equiv> co_host_deploy_height (ne_constants E)"
  shows "\<exists>ns'. node_turn E now ns = (None, ns') \<and> P (ns_notifier ns')
    \<and> height (ns_storage ns') = max (height (ns_storage ns)) (b - d - 1)
    \<and> (height (ns_storage ns') \<noteq> height (ns_storage ns) \<longrightarrow>
         tag_latest (cn_tags (ns_chain ns')) = height (ns_storage ns')
         \<and> ns_status ns' = AtHeight (height (ns_storage ns')))
    \<and> (height (ns_storage ns') = height (ns_storage ns) \<longrightarrow>
         ns_chain ns' = ns_chain ns \<and> ns_status ns' = ns_status ns)"
proof -
  let ?ns = "ns\<lparr>ns_notifier := n1\<rparr>" and ?h = "height (ns_storage ns)" and ?xs = "ne_extract E seg"
  let ?new = "filter (\<lambda>x. ne_ru_height E x > ?h) ?xs"
  obtain changed ns2 where run: "process_extracts E ?h ?xs False ?ns = (Ok changed, ns2)"
    using steady_node_extracts_run[OF st] by blast
  note eff = process_extracts_effect[OF steady_nodeD(1)[OF st] run]
  have "map (ne_ru_height E) ?new = filter (\<lambda>n. n > ?h) (map (ne_ru_height E) ?xs)"
    by (simp add: filter_map comp_def)
  also have "\<dots> = [Suc ?h..<b - d]"
    unfolding steady_node_extract[OF st seg(2)] d_def by (rule new_of_range[OF gap])
  finally have new: "map (ne_ru_height E) ?new = [Suc ?h..<b - d]" .
  have "?new = [] \<longleftrightarrow> [Suc ?h..<b - d] = []" unfolding new[symmetric] by (rule map_is_Nil_conv[symmetric])
  moreover have "changed \<longleftrightarrow> ?new \<noteq> []" using conjunct1[OF eff] by simp
  ultimately have changed: "changed \<longleftrightarrow> Suc ?h < b - d" by auto
  have ht: "height (ns_storage ns2) = max ?h (b - d - 1)"
  proof (cases "?new = []")
    case True
    then have "[Suc ?h..<b - d] = []" using new by simp
    then show ?thesis using eff True by auto
  next
    case False
    then have "[Suc ?h..<b - d] \<noteq> []" using new by auto
    then have lt: "Suc ?h < b - d" by simp
    have "ne_ru_height E (last ?new) = last [Suc ?h..<b - d]" using False new by (metis last_map)
    then show ?thesis using eff False lt by simp
  qed
  have cm: "commit_phase E nt ?ns = (Ok changed, ns2)"
    using run steady_nodeD(3)[OF st]
    by (simp add: commit_phase_def committed_chain_def seg process_committed_chain_def map_report_def)
  have rv: "revert_phase E now nt ?ns = (Ok False, ?ns)"
    by (simp add: revert_phase_def notif_revert_range_def seg)
  have frame: "ns_notifier ns2 = n1" using eff by simp
  show ?thesis
  proof (cases changed)
    case False
    then have "node_turn E now ns = (None, ns2)"
      using nx rv cm by (simp add: node_turn_def on_notification_def)
    moreover have "height (ns_storage ns2) = ?h" using False changed ht by auto
    moreover have "ns2 = ?ns"
    proof -
      have "?new = []" using False conjunct1[OF eff] by simp
      then show ?thesis using eff by blast
    qed
    ultimately show ?thesis using ht assms(7) by (intro exI[of _ ns2]) simp
  next
    case True
    let ?ns3 = "ns2\<lparr>ns_status := AtHeight (height (ns_storage ns2))\<rparr>"
    have on: "on_notification E now nt ?ns = (Ok True, ?ns3)"
      using rv cm True steady_nodeD(3)[OF st] by (simp add: on_notification_def update_status_channel_def)
    have "\<exists>n'. no_send_finished_height (ne_notifier E) k (ns_notifier ?ns3) = (Inr (), n') \<and> P n'"
      if "k < co_host_deploy_height (ne_constants E) + height (ns_storage ns2)" for k
      using told[of k] that frame True changed ht unfolding d_def[symmetric] by auto
    moreover have "P (ns_notifier ?ns3)" using frame assms(7) by simp
    ultimately obtain c n' where c: "update_block_tags E (height (ns_storage ns2)) (safe_block_number nt) (finalized_block_number nt) ?ns3
        = (Ok (), ?ns3\<lparr>ns_chain := c, ns_notifier := n'\<rparr>)" "tag_latest (cn_tags c) = height (ns_storage ns2)" "P n'"
      using steady_tags[OF steady_nodeD(2)[OF st], where ns = ?ns3 and P = P] by metis
    have "node_turn E now ns = (None, ?ns3\<lparr>ns_chain := c, ns_notifier := n'\<rparr>)"
      using nx on c(1) steady_nodeD(3)[OF st] by (simp add: node_turn_def)
    moreover have "height (ns_storage ns2) \<noteq> ?h" using True changed ht by auto
    ultimately show ?thesis using c(2,3) ht
      by (intro exI[of _ "?ns3\<lparr>ns_chain := c, ns_notifier := n'\<rparr>"]) auto
  qed
qed

section \<open>The contract of a backfill\<close>

text \<open>
  \<open>resumes n frm goal\<close>: the backfill of \<open>n\<close> goes on from block \<open>frm\<close> and will end at \<open>goal\<close>;
  \<open>finished n goal\<close>: it has delivered everything up to \<open>goal\<close>. A call delivers the next
  blocks, at least one; being told of a processed height does not disturb it.
\<close>

locale backfilling =
  fixes ops :: "('n, 'c) notifier_ops"
    and numbers :: "'c \<Rightarrow> u64 list"
    and resumes :: "'n \<Rightarrow> u64 \<Rightarrow> u64 \<Rightarrow> bool"
    and finished :: "'n \<Rightarrow> u64 \<Rightarrow> bool"
  assumes delivers: "resumes n frm goal \<Longrightarrow>
      \<exists>nt seg to n'. no_next_notification ops n = (Some (Ok nt), n') \<and> kind nt = ChainCommitted seg
        \<and> numbers seg = [frm..<Suc to] \<and> frm \<le> to \<and> to \<le> goal
        \<and> (if to = goal then finished n' goal else resumes n' (Suc to) goal)"
    and told_resumes: "resumes n frm goal \<Longrightarrow> k \<le> goal \<Longrightarrow>
      \<exists>n'. no_send_finished_height ops k n = (Inr (), n') \<and> resumes n' frm goal"
    and told_finished: "finished n goal \<Longrightarrow> k \<le> goal \<Longrightarrow>
      \<exists>n'. no_send_finished_height ops k n = (Inr (), n') \<and> finished n' goal"
begin

text \<open>Turn by turn, the backfill's notifications are processed until it is over.\<close>

lemma sync_loop:
  assumes st: "steady_node E numbers height" and be: "ne_notifier E = ops"
    and "resumes (ns_notifier ns) frm goal"
    and "frm \<le> Suc (co_host_deploy_height (ne_constants E) + height (ns_storage ns))"
    and "Suc (goal - frm) \<le> length clock"
    and "height (ns_storage ns) \<noteq> h0 \<longrightarrow> tag_latest (cn_tags (ns_chain ns)) = height (ns_storage ns)
           \<and> ns_status ns = AtHeight (height (ns_storage ns))" "h0 \<le> height (ns_storage ns)"
    and "height (ns_storage ns) \<le> max h0 (frm - 1 - co_host_deploy_height (ne_constants E))"
  shows "\<exists>m ns'. m \<le> Suc (goal - frm) \<and> node_loop E (take m clock) ns = (None, ns')
    \<and> finished (ns_notifier ns') goal
    \<and> height (ns_storage ns') = max h0 (goal - co_host_deploy_height (ne_constants E))
    \<and> (height (ns_storage ns') \<noteq> h0 \<longrightarrow> tag_latest (cn_tags (ns_chain ns')) = height (ns_storage ns')
         \<and> ns_status ns' = AtHeight (height (ns_storage ns')))"
  using assms(3-)
proof (induction "goal - frm" arbitrary: frm ns clock rule: less_induct)
  case less
  let ?d = "co_host_deploy_height (ne_constants E)" and ?h = "height (ns_storage ns)"
  obtain nt seg to n1 where nx: "no_next_notification ops (ns_notifier ns) = (Some (Ok nt), n1)"
    and seg: "kind nt = ChainCommitted seg" "numbers seg = [frm..<Suc to]" and to: "frm \<le> to" "to \<le> goal"
    and nxt: "if to = goal then finished n1 goal else resumes n1 (Suc to) goal"
    using delivers[OF less.prems(1)] by blast
  obtain now rest where cl: "clock = now # rest" using less.prems(3) by (cases clock) auto
  define P where "P n = (if to = goal then finished n goal else resumes n (Suc to) goal)" for n
  have told: "\<exists>n'. no_send_finished_height (ne_notifier E) k n1 = (Inr (), n') \<and> P n'" if "k < Suc to" for k
    using that nxt to told_finished[of n1 goal k] told_resumes[of n1 "Suc to" goal k]
    unfolding be P_def by (cases "to = goal") auto
  have nx': "no_next_notification (ne_notifier E) (ns_notifier ns) = (Some (Ok nt), n1)" using nx be by simp
  have P: "P n1" using nxt by (simp add: P_def)
  obtain ns1 where t: "node_turn E now ns = (None, ns1)" "P (ns_notifier ns1)"
    "height (ns_storage ns1) = max ?h (Suc to - ?d - 1)"
    "height (ns_storage ns1) \<noteq> ?h \<longrightarrow> tag_latest (cn_tags (ns_chain ns1)) = height (ns_storage ns1)
         \<and> ns_status ns1 = AtHeight (height (ns_storage ns1))"
    "height (ns_storage ns1) = ?h \<longrightarrow> ns_chain ns1 = ns_chain ns \<and> ns_status ns1 = ns_status ns"
    using sync_turn[OF st nx' seg less.prems(2) told P, of now] by blast
  have ht: "height (ns_storage ns1) = max ?h (to - ?d)" using t(3) by arith
  have tag: "height (ns_storage ns1) \<noteq> h0 \<longrightarrow> tag_latest (cn_tags (ns_chain ns1)) = height (ns_storage ns1)
         \<and> ns_status ns1 = AtHeight (height (ns_storage ns1))"
    using t(4,5) less.prems(4) by (cases "height (ns_storage ns1) = ?h") auto
  show ?case
  proof (cases "to = goal")
    case True
    have "height (ns_storage ns1) = max h0 (goal - ?d)"
      using ht True less.prems(5,6) to(1) by arith
    moreover have "finished (ns_notifier ns1) goal" using t(2) True by (simp add: P_def)
    moreover have "node_loop E (take 1 clock) ns = (None, ns1)" using t(1) cl by simp
    ultimately show ?thesis using tag by (intro exI[of _ 1] exI[of _ ns1]) simp
  next
    case False
    then have shrink: "goal - Suc to < goal - frm" using to by simp
    have r: "resumes (ns_notifier ns1) (Suc to) goal" using t(2) False by (simp add: P_def)
    have gap: "Suc to \<le> Suc (?d + height (ns_storage ns1))" using ht by arith
    have len: "Suc (goal - Suc to) \<le> length rest" using less.prems(3) cl shrink by simp
    have lo: "h0 \<le> height (ns_storage ns1)" "height (ns_storage ns1) \<le> max h0 (Suc to - 1 - ?d)"
      using ht less.prems(5,6) to(1) by arith+
    obtain m ns' where m: "m \<le> Suc (goal - Suc to)" "node_loop E (take m rest) ns1 = (None, ns')"
      "finished (ns_notifier ns') goal" "height (ns_storage ns') = max h0 (goal - ?d)"
      "height (ns_storage ns') \<noteq> h0 \<longrightarrow> tag_latest (cn_tags (ns_chain ns')) = height (ns_storage ns')
         \<and> ns_status ns' = AtHeight (height (ns_storage ns'))"
      using less.hyps[OF shrink r gap len tag lo] by blast
    then have "node_loop E (take (Suc m) clock) ns = (None, ns')" using t(1) cl by simp
    then show ?thesis using m shrink by (intro exI[of _ "Suc m"] exI[of _ ns']) simp
  qed
qed

end

section \<open>From the start\<close>

text \<open>\<open>fresh n m frm goal\<close>: told to start at \<open>frm\<close> with the threshold \<open>m\<close>, the backfill will end at \<open>goal\<close>.\<close>

locale backfill_start = backfilling ops numbers resumes finished
  for ops :: "('n, 'c) notifier_ops" and numbers :: "'c \<Rightarrow> u64 list"
    and resumes :: "'n \<Rightarrow> u64 \<Rightarrow> u64 \<Rightarrow> bool" and finished :: "'n \<Rightarrow> u64 \<Rightarrow> bool" +
  fixes fresh :: "'n \<Rightarrow> u64 option \<Rightarrow> u64 \<Rightarrow> u64 \<Rightarrow> bool"
  assumes begins: "fresh n m frm goal \<Longrightarrow>
      resumes (no_set_backfill_thresholds ops m (no_set_head ops frm n)) frm goal \<and> frm \<le> goal"
begin

lemma start_syncs:
  assumes st: "steady_node E numbers height" and be: "ne_notifier E = ops" and up: "ne_launch_rpc E = Inr ()"
    and frm: "frm = co_host_deploy_height (ne_constants E) + height st0"
    and fresh: "fresh n (ne_backfill_max_blocks E) frm goal" and len: "Suc (goal - frm) \<le> length clock"
  shows "\<exists>m ns'. m \<le> Suc (goal - frm)
    \<and> start_inner E (take m clock) (new_unsafe st0 n bl) = (None, ns')
    \<and> finished (ns_notifier ns') goal
    \<and> height (ns_storage ns') = goal - co_host_deploy_height (ne_constants E)
    \<and> (height (ns_storage ns') \<noteq> height st0 \<longrightarrow>
         tag_latest (cn_tags (ns_chain ns')) = height (ns_storage ns')
         \<and> ns_status ns' = AtHeight (height (ns_storage ns')))"
proof -
  let ?d = "co_host_deploy_height (ne_constants E)"
  let ?n = "no_set_backfill_thresholds ops (ne_backfill_max_blocks E) (no_set_head ops frm n)"
  let ?ns = "(new_unsafe st0 n bl)\<lparr>ns_rpc_running := True, ns_status := AtHeight (height st0), ns_notifier := ?n\<rparr>"
  have "co_pair_ru (ne_constants E) k = \<lparr>ph_host = ?d + k, ph_rollup = k\<rparr>" for k
    using steady_nodeD(2)[OF st] by (simp add: constants_ok_def)
  then have prep: "start_prepare E (new_unsafe st0 n bl) = (Ok (), ?ns)"
    using up steady_nodeD(3)[OF st] frm by (simp add: start_prepare_def start_rpc_def new_unsafe_def be)
  have store: "ns_storage ?ns = st0" "ns_notifier ?ns = ?n" by (simp_all add: new_unsafe_def)
  have pre: "resumes (ns_notifier ?ns) frm goal" "frm \<le> Suc (?d + height (ns_storage ?ns))"
    "height (ns_storage ?ns) \<noteq> height st0 \<longrightarrow> tag_latest (cn_tags (ns_chain ?ns)) = height (ns_storage ?ns)
       \<and> ns_status ?ns = AtHeight (height (ns_storage ?ns))" "height st0 \<le> height (ns_storage ?ns)"
    "height (ns_storage ?ns) \<le> max (height st0) (frm - 1 - ?d)"
    unfolding store using begins[OF fresh] frm by simp_all
  obtain m ns' where m: "m \<le> Suc (goal - frm)" "node_loop E (take m clock) ?ns = (None, ns')"
    "finished (ns_notifier ns') goal" "height (ns_storage ns') = max (height st0) (goal - ?d)"
    "height (ns_storage ns') \<noteq> height st0 \<longrightarrow> tag_latest (cn_tags (ns_chain ns')) = height (ns_storage ns')
         \<and> ns_status ns' = AtHeight (height (ns_storage ns'))"
    using sync_loop[OF st be pre(1,2) len pre(3-5)] by blast
  have "start_inner E (take m clock) (new_unsafe st0 n bl) = (None, ns')"
    using prep m(2) by (simp add: start_inner_def)
  moreover have "max (height st0) (goal - ?d) = goal - ?d"
    using begins[OF fresh] frm by linarith
  ultimately show ?thesis using m(1,3-5) by (intro exI[of _ m] exI[of _ ns']) simp
qed

end

end
