(* ===== verification/Node_Sync.thy ===== *)
theory Node_Sync
  imports Node_Backfill Rpc_Backfill Host_Reth_Facts
begin

text \<open>
  The node over the RPC backend: the notifier of \<open>Rpc_Notifier\<close> as the notifier of
  \<open>Node_Core\<close>, and the synchronisation this gives: a node started behind the host fetches,
  executes and stores every block up to the backfill's end.
\<close>

section \<open>The backend as a notifier\<close>

text \<open>
  The trait's methods on the notifier, its header stream and the provider's world; errors
  are shown where the node wraps them. Announcing a finished height does nothing.
\<close>

definition rpc_backend ::
  "('w, 'tx, 'r) provider \<Rightarrow> ('tx, 'r) codecs \<Rightarrow> (rpc_host_error \<Rightarrow> string)
     \<Rightarrow> (rpc_host_notifier \<times> rpc_header event_stream \<times> 'w, ('tx, 'r) rpc_chain_segment) notifier_ops" where
  "rpc_backend p c show =
     \<lparr>no_next_notification = (\<lambda>(n, s, w).
        case next_notification p c n s w of (r, n', s', w') \<Rightarrow> (map_option (map_report show) r, (n', s', w'))),
      no_set_head = (\<lambda>k (n, s, w). (rpc_set_head k n, s, w)),
      no_set_backfill_thresholds = (\<lambda>m (n, s, w). (rpc_set_backfill_thresholds m n, s, w)),
      no_send_finished_height = (\<lambda>k (n, s, w).
        case rpc_send_finished_height n k of Ok _ \<Rightarrow> (Inr (), (n, s, w)) | _ \<Rightarrow> (Inl [], (n, s, w)))\<rparr>"

lemma rpc_backend_drain:
  assumes "drain_backfill p c n w = (Some (Ok nt), n', w')"
  shows "no_next_notification (rpc_backend p c show) (n, s, w) = (Some (Ok nt), (n', s, w'))"
  using assms by (simp add: rpc_backend_def next_notification.simps map_report_def)

lemma rpc_backend_finished:
  "no_send_finished_height (rpc_backend p c show) k ns = (Inr (), ns)"
  by (cases ns) (simp add: rpc_backend_def rpc_send_finished_height_def)

text \<open>
  The contract of a backfill: it resumes against a provider that answers from an unchanging
  chain, up to the ceiling of the next batch; no answer of the node disturbs it.
\<close>

definition rpc_chain_numbers :: "('tx, 'r) rpc_chain_segment \<Rightarrow> u64 list" where
  "rpc_chain_numbers seg = map RpcBlock_number (seg_blocks seg)"

definition rpc_resumes where
  "rpc_resumes p c H low tip_num s ns frm goal \<longleftrightarrow>
     (case ns of (n, s', w) \<Rightarrow> s' = s \<and> steady p c H low tip_num \<and> resumes_at c H n frm
        \<and> low \<le> frm \<and> frm \<le> tip_num \<and> tip_num + backfill_batch_size n \<le> u64_max
        \<and> goal = effective_ceiling n frm tip_num)"

definition rpc_finished where
  "rpc_finished s ns (goal :: u64) \<longleftrightarrow> (case ns of (n, s', w) \<Rightarrow> s' = s \<and> backfill_from n = None)"

definition rpc_fresh where
  "rpc_fresh p c H low tip_num s ns m frm goal \<longleftrightarrow>
     (case ns of (n, s', w) \<Rightarrow> s' = s \<and> steady p c H low tip_num \<and> \<not> head_set n
        \<and> u64_mul (slot_seconds n) SLOTS_PER_EPOCH \<noteq> 0 \<and> low \<le> frm \<and> frm \<le> tip_num
        \<and> tip_num + backfill_batch_size (rpc_set_backfill_thresholds m n) \<le> u64_max
        \<and> goal = effective_ceiling n frm tip_num)"

lemma rpc_start_resumes:
  assumes "\<not> head_set n" "u64_mul (slot_seconds n) SLOTS_PER_EPOCH \<noteq> 0"
  shows "resumes_at c H (rpc_set_backfill_thresholds m (rpc_set_head k n)) k"
  using assms
  by (auto simp: resumes_at_def rpc_set_backfill_thresholds_def rpc_set_head_def DEFAULT_BACKFILL_BATCH_SIZE_def
      split: option.split)

lemma rpc_delivers:
  assumes "rpc_resumes p c H low tip_num s ns frm goal"
  shows "\<exists>nt seg to n'. no_next_notification (rpc_backend p c sh) ns = (Some (Ok nt), n') \<and> kind nt = ChainCommitted seg
    \<and> rpc_chain_numbers seg = [frm..<Suc to] \<and> frm \<le> to \<and> to \<le> goal
    \<and> (if to = goal then rpc_finished s n' goal else rpc_resumes p c H low tip_num s n' (Suc to) goal)"
proof -
  obtain n w where ns: "ns = (n, s, w)" by (cases ns) (use assms in \<open>auto simp: rpc_resumes_def\<close>)
  have st: "steady p c H low tip_num" and at: "resumes_at c H n frm" and le: "low \<le> frm" "frm \<le> tip_num"
    and sz: "tip_num + backfill_batch_size n \<le> u64_max" and goal: "goal = effective_ceiling n frm tip_num"
    using assms by (simp_all add: rpc_resumes_def ns)
  define to where "to = min goal (frm + backfill_batch_size n - 1)"
  have pos: "0 < backfill_batch_size n" using at by (simp add: resumes_at_def)
  note eb = effective_ceiling_bounds[OF le(2), of n, folded goal]
  have to: "frm \<le> to" "to \<le> goal" using eb pos by (auto simp: to_def)
  obtain nt seg n1 w1 where d: "drain_backfill p c n w = (Some (Ok nt), n1, w1)"
    and seg: "kind nt = ChainCommitted seg" "map RpcBlock_number (seg_blocks seg) = [frm..<Suc to]"
    and cap: "buffer_capacity n1 = buffer_capacity n" "backfill_batch_size n1 = backfill_batch_size n"
    and nxt: "if to = goal then backfill_from n1 = None else resumes_at c H n1 (Suc to)"
    using steady_drain[OF st at le sz, of w] unfolding to_def goal by blast
  have more: "if to = goal then rpc_finished s (n1, s, w1) goal else rpc_resumes p c H low tip_num s (n1, s, w1) (Suc to) goal"
  proof (cases "to = goal")
    case False
    then have lt: "Suc to \<le> goal" using to by simp
    then have "effective_ceiling n1 (Suc to) tip_num = goal"
      unfolding goal by (intro effective_ceiling_stable) (use to goal cap(1) in auto)
    then show ?thesis using False nxt st le to lt eb sz cap(2) by (simp add: rpc_resumes_def)
  qed (use nxt in \<open>simp add: rpc_finished_def\<close>)
  show ?thesis
    using rpc_backend_drain[OF d, of sh s] seg to more unfolding ns rpc_chain_numbers_def by blast
qed

lemma rpc_begins:
  assumes "rpc_fresh p c H low tip_num s ns m frm goal"
  shows "rpc_resumes p c H low tip_num s
      (no_set_backfill_thresholds (rpc_backend p c sh) m (no_set_head (rpc_backend p c sh) frm ns)) frm goal \<and> frm \<le> goal"
proof -
  obtain n w where ns: "ns = (n, s, w)" by (cases ns) (use assms in \<open>auto simp: rpc_fresh_def\<close>)
  let ?n = "rpc_set_backfill_thresholds m (rpc_set_head frm n)"
  have f: "\<not> head_set n" "u64_mul (slot_seconds n) SLOTS_PER_EPOCH \<noteq> 0" "steady p c H low tip_num" "low \<le> frm" "frm \<le> tip_num"
    "tip_num + backfill_batch_size (rpc_set_backfill_thresholds m n) \<le> u64_max" "goal = effective_ceiling n frm tip_num"
    using assms by (simp_all add: rpc_fresh_def ns)
  have "backfill_batch_size ?n = backfill_batch_size (rpc_set_backfill_thresholds m n)"
    "effective_ceiling ?n frm tip_num = effective_ceiling n frm tip_num"
    by (simp_all add: effective_ceiling_def rpc_set_backfill_thresholds_def rpc_set_head_def split: option.split)
  then show ?thesis
    using f rpc_start_resumes[OF f(1,2), of c H m frm] effective_ceiling_bounds[OF f(5), of n]
    by (simp add: rpc_resumes_def ns rpc_backend_def)
qed

interpretation rpcb: backfill_start "rpc_backend p c sh" rpc_chain_numbers
  "rpc_resumes p c H low tip_num s" "rpc_finished s" "rpc_fresh p c H low tip_num s"
  for p c sh H low tip_num s
  by unfold_locales (erule rpc_delivers, simp add: rpc_backend_finished, simp add: rpc_backend_finished, erule rpc_begins)

section \<open>The synchronisation\<close>

text \<open>
  C1: a node started over the RPC backend, whose storage is behind the host, catches up:
  against a provider that answers from an unchanging chain, and with storage and execution
  that do not fail, the main loop needs at most one turn per host block to end the backfill;
  the node then stores the rollup block of the backfill's ceiling (the host's tip less half
  of the notifier's buffer), and its latest tag and status show it.
\<close>

theorem node_syncs_over_rpc:
  assumes st: "steady_node E rpc_chain_numbers height" and be: "ne_notifier E = rpc_backend p c show"
    and up: "ne_launch_rpc E = Inr ()" and sp: "steady p c H low tip_num"
    and fresh: "\<not> head_set n" and slots: "u64_mul (slot_seconds n) SLOTS_PER_EPOCH \<noteq> 0"
    and frm: "frm = co_host_deploy_height (ne_constants E) + height st0" "low \<le> frm" "frm \<le> tip_num"
    and sz: "tip_num + backfill_batch_size (rpc_set_backfill_thresholds (ne_backfill_max_blocks E) n) \<le> u64_max"
    and len: "Suc (effective_ceiling n frm tip_num - frm) \<le> length clock"
  shows "\<exists>m ns'. m \<le> Suc (effective_ceiling n frm tip_num - frm)
    \<and> start_inner E (take m clock) (new_unsafe st0 (n, s, w) bl) = (None, ns')
    \<and> (\<exists>n' w'. ns_notifier ns' = (n', s, w') \<and> backfill_from n' = None)
    \<and> height (ns_storage ns') = effective_ceiling n frm tip_num - co_host_deploy_height (ne_constants E)
    \<and> (height (ns_storage ns') \<noteq> height st0 \<longrightarrow>
         tag_latest (cn_tags (ns_chain ns')) = height (ns_storage ns')
         \<and> ns_status ns' = AtHeight (height (ns_storage ns')))"
proof -
  have "rpc_fresh p c H low tip_num s (n, s, w) (ne_backfill_max_blocks E) frm (effective_ceiling n frm tip_num)"
    using sp fresh slots frm(2,3) sz by (simp add: rpc_fresh_def)
  from rpcb.start_syncs[OF st be up frm(1) this len, of bl] obtain m ns'
    where "m \<le> Suc (effective_ceiling n frm tip_num - frm)"
      "start_inner E (take m clock) (new_unsafe st0 (n, s, w) bl) = (None, ns')" "rpc_finished s (ns_notifier ns') (effective_ceiling n frm tip_num)"
      "height (ns_storage ns') = effective_ceiling n frm tip_num - co_host_deploy_height (ne_constants E)"
      "height (ns_storage ns') \<noteq> height st0 \<longrightarrow> tag_latest (cn_tags (ns_chain ns')) = height (ns_storage ns')
         \<and> ns_status ns' = AtHeight (height (ns_storage ns'))" by blast
  moreover have "\<exists>n' w'. ns_notifier ns' = (n', s, w') \<and> backfill_from n' = None"
    using calculation(3) by (cases "ns_notifier ns'") (simp add: rpc_finished_def)
  ultimately show ?thesis by blast
qed

section \<open>An instance\<close>

text \<open>Storage is its height, a block its number; host block 6 is rollup block 1. Any backend fits.\<close>

definition sync_node :: "('n, 'c) notifier_ops \<Rightarrow> ('c \<Rightarrow> u64 list) \<Rightarrow> (u64, u64, u64, nat, 'n, 'c, u64, 's) node_env" where
  "sync_node ops numbers =
     \<lparr>ne_storage = \<lparr>so_reader = Inr, so_last_block_number = (\<lambda>h. Inr (Some h)), so_cold_latest = (\<lambda>h. Inr (Some h)),
        so_unwind_above = (\<lambda>t h. (Inr (), min t h)),
        so_append_blocks = (\<lambda>bs h. (Inr (), last (h # bs))),
        so_drain_above = (\<lambda>t h. (Inr (map (\<lambda>k. \<lparr>db_header = (ex_chain 5)\<lparr>h_number := k\<rparr>, db_hash = 0, db_receipt_logs = []\<rparr>)
          [Suc t..<Suc h]), min t h))\<rparr>,
      ne_constants = \<lparr>co_host_deploy_height = 5, co_pair_ru = (\<lambda>k. \<lparr>ph_host = 5 + k, ph_rollup = k\<rparr>),
        co_pair_host = (\<lambda>h. if h > 5 then Some \<lparr>ph_host = h, ph_rollup = h - 5\<rparr> else None),
        co_host_block_to_rollup_block_num = (\<lambda>h. if h > 5 then Some (h - 5) else None)\<rparr>,
      ne_notifier = ops,
      ne_extract = (\<lambda>seg. map (\<lambda>k. k - 5) (filter (\<lambda>k. k > 5) (numbers seg))),
      ne_ru_height = id, ne_execute = (\<lambda>st x bl. (Ok x, bl)),
      ne_notif = (\<lambda>b. \<lparr>nb_header = (ex_chain 5)\<lparr>h_number := b\<rparr>, nb_tx_hashes = [], nb_receipt_logs = []\<rparr>),
      ne_launch_rpc = Inr (), ne_backfill_max_blocks = Some 2\<rparr>"

lemma sync_node_parts:
  "ne_notifier (sync_node ops numbers) = ops" "ne_launch_rpc (sync_node ops numbers) = Inr ()"
  "co_host_deploy_height (ne_constants (sync_node ops numbers)) = 5"
  "ne_backfill_max_blocks (sync_node ops numbers) = Some 2"
  by (simp_all add: sync_node_def)

lemma sync_node_steady:
  "steady_node (sync_node ops numbers :: (u64, u64, u64, nat, 'n, 'c, u64, 's) node_env) numbers id"
proof -
  let ?E = "sync_node ops numbers :: (u64, u64, u64, nat, 'n, 'c, u64, 's) node_env"
  have "node_laws ?E id"
    by (auto simp: node_laws_def sync_node_def block_number_of_def comp_def simp del: upt_Suc)
  moreover have "constants_ok (ne_constants ?E)"
    by (auto simp: constants_ok_def sync_node_def)
  moreover have "last_rollup_block ?E st = Ok (id st)" for st
    by (simp add: sync_node_def last_rollup_block_def)
  moreover have "\<exists>b bl'. ne_execute ?E st x bl = (Ok b, bl')"
    "\<exists>st'. so_append_blocks (ne_storage ?E) [b] st = (Inr (), st')" for st x bl b
    by (simp_all add: sync_node_def)
  moreover have "map (ne_ru_height ?E) (ne_extract ?E seg)
      = map (\<lambda>k. k - 5) (filter (\<lambda>k. k > 5) (numbers seg))" for seg
    by (simp add: sync_node_def)
  ultimately show ?thesis unfolding steady_node_def sync_node_parts by simp
qed

theorem node_syncs_over_rpc_witness:
  "\<exists>m ns'. m \<le> 3 \<and> start_inner (sync_node (rpc_backend ex_steady_provider ex_codecs (\<lambda>_. ''host'')) rpc_chain_numbers)
       (take m [1, 2, 3]) (new_unsafe 1 (RpcHostNotifier_new 4 2 8 12 0, [], 0) ()) = (None, ns')
     \<and> ns_storage ns' = 3 \<and> tag_latest (cn_tags (ns_chain ns')) = 3"
proof -
  let ?n = "RpcHostNotifier_new 4 2 8 12 0" and ?ops = "rpc_backend ex_steady_provider ex_codecs (\<lambda>_. ''host'')"
  have h: "\<not> head_set ?n" "u64_mul (slot_seconds ?n) SLOTS_PER_EPOCH \<noteq> 0"
    by (simp_all add: RpcHostNotifier_new_def u64_mul_def SLOTS_PER_EPOCH_def)
  have ec: "effective_ceiling ?n 6 10 = 8"
    by (simp add: effective_ceiling_def RpcHostNotifier_new_def saturating_sub_def)
  have sz: "10 + backfill_batch_size (rpc_set_backfill_thresholds (Some 2) ?n) \<le> u64_max"
    by (simp add: rpc_set_backfill_thresholds_def u64_max_def)
  note sync = node_syncs_over_rpc[OF sync_node_steady[of ?ops rpc_chain_numbers] sync_node_parts(1,2) ex_steady h,
      of 6 1 "[1, 2, 3]" "[]" 0 "()", unfolded sync_node_parts ec]
  show ?thesis using sync sz by auto
qed

end
