(* ===== verification/Node_Sync_Reth.thy ===== *)
theory Node_Sync_Reth
  imports Node_Sync
begin

text \<open>
  The node over the backend inside reth: its notifier as the notifier of \<open>Node_Core\<close>, the
  contract of its backfill, and the handover to the live stream once the node caught up.
\<close>

section \<open>The backend as a notifier\<close>

definition reth_backend ::
  "('w, 'tx, 'r) reth_provider \<Rightarrow> ('x, 'tx, 'r) exex_ops \<Rightarrow> (reth_host_error \<Rightarrow> string)
     \<Rightarrow> ('x reth_host_notifier \<times> 'w, ('tx, 'r) host_chain) notifier_ops" where
  "reth_backend p X show =
     \<lparr>no_next_notification = (\<lambda>(n, w).
        case reth_next_notification p X n w of (r, n', w') \<Rightarrow> (map_option (map_report show) r, (n', w'))),
      no_set_head = (\<lambda>k (n, w). (reth_set_head k n, w)),
      no_set_backfill_thresholds = (\<lambda>m (n, w). (reth_set_backfill_thresholds m n, w)),
      no_send_finished_height = (\<lambda>k (n, w).
        case reth_send_finished_height p k n w of
          (Ok _, n', w') \<Rightarrow> (Inr (), (n', w'))
        | (Err e, n', w') \<Rightarrow> (Inl (show e), (n', w'))
        | (Panic, n', w') \<Rightarrow> (Inl [], (n', w')))\<rparr>"

definition host_chain_numbers :: "('tx, 'r) host_chain \<Rightarrow> u64 list" where
  "host_chain_numbers c = map (block_number \<circ> fst) (hc_blocks_and_receipts c)"

section \<open>The contract of its backfill\<close>

text \<open>A reth database with a steady finalized block \<open>goal\<close> and every block and header up to it.\<close>

definition reth_serves :: "('w, 'tx, 'r) reth_provider \<Rightarrow> u64 \<Rightarrow> bool" where
  "reth_serves p goal \<longleftrightarrow> reth_steady p goal \<and> numbers_right p \<and> goal < 2 ^ 62 \<and> Suc goal * rp_block_bytes p < 2 ^ 63
     \<and> (\<forall>k \<le> goal. \<forall>w. \<exists>v w1. rp_sealed_header p k w = (Inr (Some v), w1))"

text \<open>Until the backfill is over the live stream is left as it was, \<open>x\<close>.\<close>

definition reth_at :: "('w, 'tx, 'r) reth_provider \<Rightarrow> 'x \<Rightarrow> 'x reth_host_notifier \<times> 'w \<Rightarrow> u64 \<Rightarrow> u64 \<Rightarrow> bool" where
  "reth_at p x ns frm goal \<longleftrightarrow>
     (case ns of (n, w) \<Rightarrow> reth_serves p goal \<and> rn_listening n \<and> rn_notifications n = x
        \<and> (\<exists>b. rn_backfill n = Some b \<and> bf_cursor b = frm \<and> 0 < bf_batch_size b \<and> bf_batch_size b < 2 ^ 62))"

definition reth_resumes where
  "reth_resumes p x ns frm goal \<longleftrightarrow> reth_at p x ns frm goal \<and> frm \<le> goal"

definition reth_finished where
  "reth_finished p x ns goal \<longleftrightarrow> reth_at p x ns (Suc goal) goal"

definition reth_fresh where
  "reth_fresh p x ns m frm goal \<longleftrightarrow>
     (case ns of (n, w) \<Rightarrow> reth_serves p goal \<and> rn_listening n \<and> rn_notifications n = x \<and> \<not> rn_head_set n
        \<and> frm \<le> goal \<and> (\<forall>k. m = Some k \<longrightarrow> k < 2 ^ 62))"

lemma reth_at_told:
  assumes "reth_at p x ns frm goal" "k \<le> goal"
  shows "\<exists>n'. no_send_finished_height (reth_backend p X sh) k ns = (Inr (), n') \<and> reth_at p x n' frm goal"
proof -
  obtain n w where ns: "ns = (n, w)" by force
  have "reth_serves p goal" using assms(1) by (simp add: reth_at_def ns)
  then obtain v w1 where "rp_sealed_header p k w = (Inr (Some v), w1)"
    using assms(2) unfolding reth_serves_def by blast
  then show ?thesis
    using assms(1) by (cases v) (auto simp: reth_at_def reth_backend_def reth_send_finished_height_def ns)
qed

lemma reth_told_resumes:
  assumes "reth_resumes p x ns frm goal" "k \<le> goal"
  shows "\<exists>n'. no_send_finished_height (reth_backend p X sh) k ns = (Inr (), n') \<and> reth_resumes p x n' frm goal"
  using reth_at_told[of p x ns frm goal k X sh] assms by (auto simp: reth_resumes_def)

lemma reth_told_finished:
  assumes "reth_finished p x ns goal" "k \<le> goal"
  shows "\<exists>n'. no_send_finished_height (reth_backend p X sh) k ns = (Inr (), n') \<and> reth_finished p x n' goal"
  using reth_at_told[of p x ns "Suc goal" goal k X sh] assms by (auto simp: reth_finished_def)

lemma reth_delivers:
  assumes "reth_resumes p x ns frm goal"
  shows "\<exists>nt seg to n'. no_next_notification (reth_backend p X sh) ns = (Some (Ok nt), n') \<and> kind nt = ChainCommitted seg
    \<and> host_chain_numbers seg = [frm..<Suc to] \<and> frm \<le> to \<and> to \<le> goal
    \<and> (if to = goal then reth_finished p x n' goal else reth_resumes p x n' (Suc to) goal)"
proof -
  obtain n w where ns: "ns = (n, w)" by force
  obtain b where b: "rn_backfill n = Some b" "bf_cursor b = frm" "0 < bf_batch_size b" "bf_batch_size b < 2 ^ 62"
    and sv: "reth_steady p goal" "numbers_right p" "goal < 2 ^ 62" "Suc goal * rp_block_bytes p < 2 ^ 63" and le: "bf_cursor b \<le> goal"
    using assms by (auto simp: reth_resumes_def reth_at_def reth_serves_def ns)
  have lim: "bf_cursor b + bf_batch_size b \<le> u64_max" using b(4) le sv(3) by (simp add: u64_max_def)
  let ?to = "batch_end b goal" and ?b = "b\<lparr>bf_cursor := Suc (batch_end b goal)\<rparr>"
  have to: "frm \<le> ?to" "?to \<le> goal" using b(2,3) le by (auto simp: batch_end_def)
  obtain s w1 where nb: "next_batch p b w = (Ok (Some s), ?b, w1)"
    using steady_next_batch[OF sv(1) b(3) lim sv(3,4) le] by blast
  have nums: "host_chain_numbers (Backfill s) = [frm..<Suc ?to]"
    using batch_delivers[OF sv(2) b(3) lim nb] b(2)
    by (auto simp: host_chain_numbers_def segment_numbers_def simp del: upt_Suc)
  obtain safe fin w2 where tags: "read_tags p w1 = ((safe, fin), w2)" by (metis surj_pair)
  let ?n = "n\<lparr>rn_backfill := Some ?b\<rparr>"
  have "\<exists>nt. no_next_notification (reth_backend p X sh) ns = (Some (Ok nt), (?n, w2)) \<and> kind nt = ChainCommitted (Backfill s)"
    by (simp add: reth_backend_def reth_next_notification_def ns b(1) nb tags map_report_def)
  moreover have "reth_at p x (?n, w2) (Suc ?to) goal"
    using assms b(3,4) by (simp add: reth_resumes_def reth_at_def ns)
  then have "if ?to = goal then reth_finished p x (?n, w2) goal else reth_resumes p x (?n, w2) (Suc ?to) goal"
    using to by (cases "?to = goal") (simp_all add: reth_finished_def reth_resumes_def)
  ultimately show ?thesis using nums to by blast
qed

lemma reth_begins:
  assumes "reth_fresh p x ns m frm goal"
  shows "reth_resumes p x (no_set_backfill_thresholds (reth_backend p X sh) m (no_set_head (reth_backend p X sh) frm ns)) frm goal
    \<and> frm \<le> goal"
  using assms
  by (cases ns) (auto simp: reth_fresh_def reth_resumes_def reth_at_def reth_backend_def reth_set_head_def
      reth_set_backfill_thresholds_def set_batch_size_def reset_batch_size_def DbBackfill_new_def DEFAULT_BATCH_SIZE_def
      split: option.splits)

interpretation rethb: backfill_start "reth_backend p X sh" host_chain_numbers
  "reth_resumes p x" "reth_finished p x" "reth_fresh p x"
  for p X sh x
  by unfold_locales (erule reth_delivers, erule (1) reth_told_resumes, erule (1) reth_told_finished, erule reth_begins)

section \<open>The synchronisation and the handover\<close>

lemma finished_goes_live:
  assumes "reth_finished p x (n, w) goal"
  shows "\<exists>hash w1. reth_next_notification p X n w
    = live_notification p X (n\<lparr>rn_backfill := None, rn_notifications := xo_set_with_head X goal hash x\<rparr>) w1"
proof -
  obtain b where b: "rn_backfill n = Some b" "bf_cursor b = Suc goal" "rn_notifications n = x"
    and sv: "reth_serves p goal"
    using assms by (auto simp: reth_finished_def reth_at_def)
  obtain w1 where f: "rp_finalized_block_number p w = (Inr (Some goal), w1)"
    using reth_steadyD(1)[of p goal w] sv unfolding reth_serves_def by blast
  have "\<exists>v w2. rp_sealed_header p goal w1 = (Inr (Some v), w2)" using sv unfolding reth_serves_def by blast
  then obtain hash hdr w2 where h: "rp_sealed_header p goal w1 = (Inr (Some (hash, hdr)), w2)" by auto
  have "next_batch p b w = (Ok None, b, w1)" using f b(2) by (simp add: next_batch_def)
  then show ?thesis
    using b h by (auto simp: reth_next_notification_def saturating_sub_def Let_def)
qed

text \<open>
  C2: a node started inside reth catches up with the finalized host block: against a database
  that holds every finalized block and header, and with storage and execution that do not
  fail, the main loop needs at most one turn per host block to end the backfill; then the node stores
  the rollup block of the finalized host block, its latest tag and status show it, and the next call of the
  notifier reads the live stream, set to start right behind that block and untouched until then.
\<close>

theorem node_syncs_inside_reth:
  assumes st: "steady_node E host_chain_numbers height" and be: "ne_notifier E = reth_backend p X show"
    and up: "ne_launch_rpc E = Inr ()" and sv: "reth_serves p finalized"
    and fresh: "\<not> rn_head_set n" "rn_listening n"
    and frm: "frm = co_host_deploy_height (ne_constants E) + height st0" "frm \<le> finalized"
    and small: "\<forall>k. ne_backfill_max_blocks E = Some k \<longrightarrow> k < 2 ^ 62"
    and len: "Suc (finalized - frm) \<le> length clock"
  shows "\<exists>m ns' n' w' hash w1. m \<le> Suc (finalized - frm)
    \<and> start_inner E (take m clock) (new_unsafe st0 (n, w) bl) = (None, ns')
    \<and> height (ns_storage ns') = finalized - co_host_deploy_height (ne_constants E)
    \<and> (height (ns_storage ns') \<noteq> height st0 \<longrightarrow>
         tag_latest (cn_tags (ns_chain ns')) = height (ns_storage ns')
         \<and> ns_status ns' = AtHeight (height (ns_storage ns')))
    \<and> ns_notifier ns' = (n', w')
    \<and> reth_next_notification p X n' w' = live_notification p X
        (n'\<lparr>rn_backfill := None, rn_notifications := xo_set_with_head X finalized hash (rn_notifications n)\<rparr>) w1"
proof -
  have "reth_fresh p (rn_notifications n) (n, w) (ne_backfill_max_blocks E) frm finalized"
    using sv fresh frm(2) small by (simp add: reth_fresh_def)
  from rethb.start_syncs[OF st be up frm(1) this len, of bl] obtain m ns'
    where m: "m \<le> Suc (finalized - frm)" "start_inner E (take m clock) (new_unsafe st0 (n, w) bl) = (None, ns')"
      "reth_finished p (rn_notifications n) (ns_notifier ns') finalized"
      "height (ns_storage ns') = finalized - co_host_deploy_height (ne_constants E)"
      "height (ns_storage ns') \<noteq> height st0 \<longrightarrow> tag_latest (cn_tags (ns_chain ns')) = height (ns_storage ns')
         \<and> ns_status ns' = AtHeight (height (ns_storage ns'))" by blast
  obtain n' w' where n': "ns_notifier ns' = (n', w')" by force
  show ?thesis using m n' finished_goes_live[OF m(3)[unfolded n'], of X] by blast
qed

theorem node_syncs_inside_reth_witness:
  "\<exists>m ns' n' w' hash w1. m \<le> 4
     \<and> start_inner (sync_node (reth_backend ex_reth ex_exex (\<lambda>_. ''host'')) host_chain_numbers)
         (take m [1, 2, 3, 4]) (new_unsafe 4 (RethHostNotifier_new 0, 0) ()) = (None, ns')
     \<and> ns_storage ns' = 7 \<and> tag_latest (cn_tags (ns_chain ns')) = 7 \<and> ns_notifier ns' = (n', w')
     \<and> reth_next_notification ex_reth ex_exex n' w' = live_notification ex_reth ex_exex
         (n'\<lparr>rn_backfill := None, rn_notifications := xo_set_with_head ex_exex 12 hash 0\<rparr>) w1"
proof -
  have sv: "reth_serves ex_reth 12"
    using ex_reth_right unfolding reth_serves_def by (simp add: ex_reth_def)
  have n: "\<not> rn_head_set (RethHostNotifier_new 0)" "rn_listening (RethHostNotifier_new 0)"
    by (simp_all add: RethHostNotifier_new_def)
  note sync = node_syncs_inside_reth[OF sync_node_steady[of "reth_backend ex_reth ex_exex (\<lambda>_. ''host'')" host_chain_numbers]
      sync_node_parts(1,2) sv n, of 9 4 "[1, 2, 3, 4]" 0 "()", unfolded sync_node_parts]
  have x: "rn_notifications (RethHostNotifier_new 0) = 0" by (simp add: RethHostNotifier_new_def)
  have "9 = 5 + id (4 :: nat)" "9 \<le> (12 :: nat)" "\<forall>k. Some 2 = Some k \<longrightarrow> k < (2 ^ 62 :: nat)" "Suc (12 - 9) \<le> length [1, 2, 3, 4 :: nat]"
    by simp_all
  from sync[OF this] obtain m ns' n' w' hash w1 where m: "m \<le> Suc (12 - 9)"
    "start_inner (sync_node (reth_backend ex_reth ex_exex (\<lambda>_. ''host'')) host_chain_numbers)
       (take m [1, 2, 3, 4]) (new_unsafe 4 (RethHostNotifier_new 0, 0) ()) = (None, ns')"
    "id (ns_storage ns') = 12 - 5" "id (ns_storage ns') \<noteq> id 4 \<longrightarrow> tag_latest (cn_tags (ns_chain ns')) = id (ns_storage ns')
         \<and> ns_status ns' = AtHeight (id (ns_storage ns'))" "ns_notifier ns' = (n', w')"
    "reth_next_notification ex_reth ex_exex n' w' = live_notification ex_reth ex_exex
         (n'\<lparr>rn_backfill := None, rn_notifications := xo_set_with_head ex_exex 12 hash 0\<rparr>) w1"
    unfolding x by blast
  have "m \<le> 4" "ns_storage ns' = 7" "tag_latest (cn_tags (ns_chain ns')) = 7" using m(1,3,4) by simp_all
  then show ?thesis using m(2,5,6) by blast
qed

end
