(* ===== verification/Node_Chain.thy ===== *)
theory Node_Chain
  imports Node_Invariant Interest_Filters
begin

text \<open>
  The node as a source of chain changes: what its storage holds, seen as the chain of logs
  the RPC server answers from, changes from turn to turn by appended blocks and cuts, and
  the reorg ring buffer names exactly the cuts.
\<close>

section \<open>Lists of changes\<close>

lemma changes_ok_append:
  "changes_ok c (es @ fs) \<longleftrightarrow> changes_ok c es \<and> changes_ok (final_chain c es) fs"
  by (induction es arbitrary: c) (auto simp: final_chain_def)

lemma final_chain_append: "final_chain c (es @ fs) = final_chain (final_chain c es) fs"
  by (simp add: final_chain_def)

lemma final_chain_simps [simp]:
  "final_chain c [] = c" "final_chain c (e # es) = final_chain (apply_change c e) es"
  by (simp_all add: final_chain_def)

lemma reorgs_of_append: "reorgs_of (es @ fs) = reorgs_of es @ reorgs_of fs"
  by (induction es rule: reorgs_of.induct) auto

lemma drop_nths: "drop n xs = map (\<lambda>k. xs ! k) [n..<length xs]"
  by (rule nth_equalityI) auto

section \<open>The stored chain of logs\<close>

text \<open>
  \<open>logs\<close> is the chain of logs storage holds, block \<open>k\<close> at position \<open>k\<close>. An append of the
  next block adds its logs, a drain cuts the chain and hands back the logs it cut. Stored
  logs are not marked as removed, and heights are block numbers below the largest.
\<close>

definition log_laws ::
  "('st, 'rd, 'eb, 'l, 'n, 'c, 'x, 's) node_env \<Rightarrow> ('st \<Rightarrow> u64) \<Rightarrow> ('st \<Rightarrow> 'l log_chain) \<Rightarrow> bool" where
  "log_laws E height logs \<longleftrightarrow>
     node_laws E height
     \<and> (\<forall>st. length (logs st) = Suc (height st) \<and> height st < u64_max)
     \<and> (\<forall>st. \<forall>ls\<in>set (logs st). \<forall>l\<in>set ls. \<not> rl_removed l)
     \<and> (\<forall>b st u st'. so_append_blocks (ne_storage E) [b] st = (Inr u, st') \<longrightarrow>
          block_number_of E b = Suc (height st) \<longrightarrow> (\<exists>ls. logs st' = logs st @ [ls]))
     \<and> (\<forall>t st ds st'. so_drain_above (ne_storage E) t st = (Inr ds, st') \<longrightarrow>
          logs st' = take (Suc t) (logs st)
          \<and> map (\<lambda>d. concat (db_receipt_logs d)) ds = drop (Suc t) (logs st))"

lemma log_lawsD:
  assumes "log_laws E height logs"
  shows "node_laws E height" "length (logs st) = Suc (height st)" "height st < u64_max"
    "ls \<in> set (logs st) \<Longrightarrow> l \<in> set ls \<Longrightarrow> \<not> rl_removed l"
  using assms unfolding log_laws_def by blast+

lemma append_logs:
  "log_laws E height logs \<Longrightarrow> so_append_blocks (ne_storage E) [b] st = (Inr u, st') \<Longrightarrow>
     block_number_of E b = Suc (height st) \<Longrightarrow> \<exists>ls. logs st' = logs st @ [ls]"
  unfolding log_laws_def by blast

lemma drain_logs:
  assumes "log_laws E height logs" "so_drain_above (ne_storage E) t st = (Inr ds, st')"
  shows "logs st' = take (Suc t) (logs st)" "map (\<lambda>d. concat (db_receipt_logs d)) ds = drop (Suc t) (logs st)"
  using assms unfolding log_laws_def by blast+

section \<open>Changes made by the node\<close>

text \<open>
  The event that tells of a change: the notification of the block whose append extended the
  chain, or the reorg.
\<close>

fun tells ::
  "('st, 'rd, 'eb, 'l, 'n, 'c, 'x, 's) node_env \<Rightarrow> ('st \<Rightarrow> 'l log_chain) \<Rightarrow> 'l chain_change \<Rightarrow> 'l chain_event \<Rightarrow> bool" where
  "tells E logs (Append ls) (NewBlock n) =
     (\<exists>b u st st'. so_append_blocks (ne_storage E) [b] st = (Inr u, st') \<and>
        block_number_of E b = length (logs st) \<and> logs st' = logs st @ [ls] \<and> n = ne_notif E b)"
| "tells E logs (Cut r) (Reorg_Event r') = (r' = r)"
| "tells E logs e ev = False"

text \<open>
  From \<open>ns\<close> to \<open>ns'\<close> the chain went through \<open>es\<close>, its reorgs were recorded at \<open>now\<close>, and when
  somebody listens the events that tell of \<open>es\<close> were sent, in this order.
\<close>

definition node_told ::
  "('st, 'rd, 'eb, 'l, 'n, 'c, 'x, 's) node_env \<Rightarrow> ('st \<Rightarrow> 'l log_chain) \<Rightarrow> 'l chain_change list
     \<Rightarrow> 'l chain_notifier \<Rightarrow> 'l chain_notifier \<Rightarrow> bool" where
  "node_told E logs es c c' \<longleftrightarrow>
     cn_receivers c' = cn_receivers c
     \<and> (0 < cn_receivers c \<longrightarrow> (\<exists>evs. cn_sent c' = cn_sent c @ evs \<and> list_all2 (tells E logs) es evs))"

lemma node_told_trans:
  "node_told E logs es c1 c2 \<Longrightarrow> node_told E logs fs c2 c3 \<Longrightarrow> node_told E logs (es @ fs) c1 c3"
  by (fastforce simp: node_told_def intro: list_all2_appendI)

lemma node_told_same [simp]:
  "cn_receivers c' = cn_receivers c \<Longrightarrow> cn_sent c' = cn_sent c \<Longrightarrow> node_told E logs [] c c'"
  by (simp add: node_told_def)

definition node_changed ::
  "('st, 'rd, 'eb, 'l, 'n, 'c, 'x, 's) node_env \<Rightarrow> ('st \<Rightarrow> 'l log_chain) \<Rightarrow> instant \<Rightarrow> 'l chain_change list
     \<Rightarrow> ('st, 'n, 's, 'l) node_state \<Rightarrow> ('st, 'n, 's, 'l) node_state \<Rightarrow> bool" where
  "node_changed E logs now es ns ns' \<longleftrightarrow>
     node_told E logs es (ns_chain ns) (ns_chain ns')
     \<and> changes_ok (logs (ns_storage ns)) es
     \<and> logs (ns_storage ns') = final_chain (logs (ns_storage ns)) es
     \<and> cn_reorgs (ns_chain ns') = fold push_reorg (map (Pair now) (reorgs_of es)) (cn_reorgs (ns_chain ns))
     \<and> (\<forall>r\<in>set (reorgs_of es). common_ancestor r < u64_max)"

lemma node_changed_same:
  "ns_storage ns' = ns_storage ns \<Longrightarrow> cn_reorgs (ns_chain ns') = cn_reorgs (ns_chain ns) \<Longrightarrow>
     cn_receivers (ns_chain ns') = cn_receivers (ns_chain ns) \<Longrightarrow> cn_sent (ns_chain ns') = cn_sent (ns_chain ns) \<Longrightarrow>
     node_changed E logs now [] ns ns'"
  by (simp add: node_changed_def)

lemma node_changed_trans:
  "node_changed E logs now es ns1 ns2 \<Longrightarrow> node_changed E logs now fs ns2 ns3 \<Longrightarrow>
     node_changed E logs now (es @ fs) ns1 ns3"
  by (auto simp: node_changed_def changes_ok_append final_chain_append reorgs_of_append
      intro: node_told_trans)

lemma commit_changes:
  assumes laws: "log_laws E height logs"
    and "process_extracts E h xs p ns = (Ok p', ns')"
    and "map (ne_ru_height E) (filter (\<lambda>x. ne_ru_height E x > h) xs) = [Suc (height (ns_storage ns))..<k]"
  shows "\<exists>es. node_changed E logs now es ns ns' \<and> reorgs_of es = []"
  using assms(2,3)
proof (induction xs arbitrary: p ns)
  case Nil
  then show ?case by (intro exI[of _ "[]"]) (simp add: node_changed_def)
next
  case (Cons x xs)
  show ?case
  proof (cases "ne_ru_height E x > h")
    case True
    obtain b bl where b: "ne_execute E (ns_storage ns) x (ns_blobs ns) = (Ok b, bl)"
      using Cons.prems(1) True
      by (cases "ne_execute E (ns_storage ns) x (ns_blobs ns)"; cases "fst (ne_execute E (ns_storage ns) x (ns_blobs ns))") auto
    obtain u st where a: "so_append_blocks (ne_storage E) [b] (ns_storage ns) = (Inr u, st)"
      using Cons.prems(1) True b
      by (cases "so_append_blocks (ne_storage E) [b] (ns_storage ns)"; cases "fst (so_append_blocks (ne_storage E) [b] (ns_storage ns))")
        (auto simp: Let_def notify_new_block_chain)
    let ?ns1 = "notify_new_block E b (ns\<lparr>ns_blobs := bl\<rparr>)\<lparr>ns_storage := st\<rparr>"
    have run: "process_extracts E h xs True ?ns1 = (Ok p', ns')"
      using Cons.prems(1) True b a by (simp add: Let_def notify_new_block_chain)
    have cons: "ne_ru_height E x # map (ne_ru_height E) (filter (\<lambda>x. ne_ru_height E x > h) xs) = [Suc (height (ns_storage ns))..<k]"
      using Cons.prems(2) True by simp
    then have lt: "Suc (height (ns_storage ns)) < k"
      by (metis list.distinct(1) upt_conv_Nil not_less)
    then have hd: "ne_ru_height E x = Suc (height (ns_storage ns))"
      and rest: "map (ne_ru_height E) (filter (\<lambda>x. ne_ru_height E x > h) xs) = [Suc (Suc (height (ns_storage ns)))..<k]"
      using cons upt_conv_Cons[OF lt] by simp_all
    have n: "block_number_of E b = Suc (height (ns_storage ns))"
      using execute_height[OF log_lawsD(1)[OF laws] b] hd by simp
    obtain ls where ls: "logs st = logs (ns_storage ns) @ [ls]"
      using append_logs[OF laws a n] by blast
    have st: "height st = Suc (height (ns_storage ns))"
      using append_height[OF log_lawsD(1)[OF laws] a] n by simp
    obtain es where es: "node_changed E logs now es ?ns1 ns'" "reorgs_of es = []"
      using Cons.IH[OF run] rest st by auto
    have "tells E logs (Append ls) (NewBlock (ne_notif E b))"
      unfolding tells.simps using a n ls log_lawsD(2)[OF laws, of "ns_storage ns"]
      by (intro exI[of _ b] exI[of _ u] exI[of _ "ns_storage ns"] exI[of _ st]) simp
    then have "node_changed E logs now [Append ls] ns ?ns1"
      using ls by (simp add: node_changed_def node_told_def notify_new_block_chain sent_events_def)
    from node_changed_trans[OF this es(1)] es(2) show ?thesis
      by (intro exI[of _ "[Append ls] @ es"]) simp
  next
    case False
    then show ?thesis using Cons.IH[of p ns] Cons.prems by simp
  qed
qed

lemma drained_cut:
  assumes laws: "log_laws E height logs" and d: "so_drain_above (ne_storage E) t st = (Inr ds, st')"
    and ds: "ds \<noteq> []"
  shows "names_cut (logs st) \<lparr>common_ancestor = t, removed_blocks = map removed_of ds\<rparr>" "t < u64_max"
proof -
  have ne: "drop (Suc t) (logs st) \<noteq> []" using drain_logs(2)[OF laws d] ds by auto
  then show "t < u64_max" using log_lawsD(2,3)[OF laws, of st] by simp
  have "map (\<lambda>b. (rm_number b, rm_logs b)) (map removed_of ds)
      = zip (map (h_number \<circ> db_header) ds) (map (\<lambda>d. concat (db_receipt_logs d)) ds)"
    by (simp add: removed_of_def zip_map_map zip_same_conv_map)
  also have "\<dots> = zip [Suc t..<length (logs st)] (map (\<lambda>k. logs st ! k) [Suc t..<length (logs st)])"
    using drain_height(2)[OF log_lawsD(1)[OF laws] d] drain_logs(2)[OF laws d] log_lawsD(2)[OF laws, of st]
    by (simp only: drop_nths)
  also have "\<dots> = map (\<lambda>k. (k, logs st ! k)) [Suc t..<length (logs st)]"
    by (simp add: zip_map2 zip_same_conv_map)
  finally show "names_cut (logs st) \<lparr>common_ancestor = t, removed_blocks = map removed_of ds\<rparr>"
    using ne by (simp add: names_cut_def del: map_map)
qed

lemma revert_changes:
  assumes laws: "log_laws E height logs" and run: "on_host_revert E now rg ns = (Ok c, ns')"
  shows "\<exists>es. node_changed E logs now es ns ns' \<and> length (reorgs_of es) \<le> 1"
proof (cases c)
  case False
  then have "ns' = ns" using revert_frame[OF run] run by simp
  then show ?thesis by (intro exI[of _ "[]"]) (simp add: node_changed_def)
next
  case True
  let ?t = "revert_target (ne_constants E) (rr_first rg)"
  obtain ds st where d: "so_drain_above (ne_storage E) ?t (ns_storage ns) = (Inr ds, st)"
    and ns': "ns' = (let ns1 = ns\<lparr>ns_storage := st,
        ns_chain := (ns_chain ns)\<lparr>cn_tags := rewind_to ?t (cn_tags (ns_chain ns))\<rparr>\<rparr>
      in if ds \<noteq> [] then notify_reorg now ds ?t ns1 else ns1)"
    using run True
    by (auto simp: on_host_revert_def Let_def split: if_splits rresult.splits prod.splits sum.splits)
  show ?thesis
  proof (cases "ds = []")
    case True
    then have "logs st = logs (ns_storage ns)" using drain_logs[OF laws d] by simp
    then show ?thesis using True ns' by (intro exI[of _ "[]"]) (simp add: node_changed_def)
  next
    case False
    let ?r = "\<lparr>common_ancestor = ?t, removed_blocks = map removed_of ds\<rparr>"
    have "node_told E logs [Cut ?r] (ns_chain ns) (ns_chain ns')"
      using ns' False by (simp add: node_told_def notify_reorg_def send_reorg_def send_event_def Let_def)
    then have "node_changed E logs now [Cut ?r] ns ns'"
      using drained_cut[OF laws d False] drain_logs(1)[OF laws d] ns' False
      by (simp add: node_changed_def notify_reorg_def)
    then show ?thesis by (intro exI[of _ "[Cut ?r]"]) simp
  qed
qed

section \<open>A turn of the loop\<close>

text \<open>
  What the host must deliver: the rollup blocks of a committed chain are consecutive and
  leave no gap to what is stored once the notification's own revert is done.
\<close>

definition continues_storage ::
  "('st, 'rd, 'eb, 'l, 'n, 'c, 'x, 's) node_env \<Rightarrow> ('st \<Rightarrow> u64) \<Rightarrow> 'c \<Rightarrow> 'st \<Rightarrow> bool" where
  "continues_storage E height chain st \<longleftrightarrow>
     (let ks = map (ne_ru_height E) (ne_extract E chain)
      in consec ks \<and> (ks = [] \<or> hd ks \<le> Suc (height st)))"

definition notification_fits ::
  "('st, 'rd, 'eb, 'l, 'n, 'c, 'x, 's) node_env \<Rightarrow> ('st \<Rightarrow> u64) \<Rightarrow> instant \<Rightarrow> 'c host_notification
     \<Rightarrow> ('st, 'n, 's, 'l) node_state \<Rightarrow> bool" where
  "notification_fits E height now nt ns \<longleftrightarrow>
     (case committed_chain nt of
        None \<Rightarrow> True
      | Some chain \<Rightarrow> continues_storage E height chain (ns_storage (snd (revert_phase E now nt ns))))"

definition turn_fits ::
  "('st, 'rd, 'eb, 'l, 'n, 'c, 'x, 's) node_env \<Rightarrow> ('st \<Rightarrow> u64) \<Rightarrow> instant \<Rightarrow> ('st, 'n, 's, 'l) node_state \<Rightarrow> bool" where
  "turn_fits E height now ns \<longleftrightarrow>
     (case no_next_notification (ne_notifier E) (ns_notifier ns) of
        (Some (Ok nt), n) \<Rightarrow> notification_fits E height now nt (ns\<lparr>ns_notifier := n\<rparr>)
      | _ \<Rightarrow> True)"

lemma fitting_extracts:
  assumes "continues_storage E height chain st"
  shows "\<exists>k. map (ne_ru_height E) (filter (\<lambda>x. ne_ru_height E x > height st) (ne_extract E chain)) = [Suc (height st)..<k]"
proof -
  let ?ks = "map (ne_ru_height E) (ne_extract E chain)"
  have new: "map (ne_ru_height E) (filter (\<lambda>x. ne_ru_height E x > height st) (ne_extract E chain))
      = filter (\<lambda>n. n > height st) ?ks"
    by (simp add: filter_map comp_def)
  show ?thesis
  proof (cases "?ks = []")
    case False
    then have "?ks = [hd ?ks..<hd ?ks + length ?ks]" "hd ?ks \<le> Suc (height st)"
      using assms consec_upt_iff[of ?ks] by (auto simp: continues_storage_def Let_def)
    then show ?thesis unfolding new using filter_greater_upt by metis
  qed (auto intro: exI[of _ 0])
qed

lemma notification_changes:
  assumes laws: "log_laws E height logs" and fits: "notification_fits E height now nt ns"
    and run: "on_notification E now nt ns = (Ok changed, ns')"
  shows "\<exists>es. node_changed E logs now es ns ns' \<and> length (reorgs_of es) \<le> 1"
proof -
  obtain c1 ns1 where a: "revert_phase E now nt ns = (Ok c1, ns1)"
    using run unfolding on_notification_def by (auto split: prod.splits rresult.splits)
  obtain c2 ns2 where b: "commit_phase E nt ns1 = (Ok c2, ns2)"
    using run a unfolding on_notification_def by (auto split: prod.splits rresult.splits)
  have last: "ns_storage ns' = ns_storage ns2" "ns_chain ns' = ns_chain ns2"
    using run a b
    by (auto simp: on_notification_def update_status_channel_def split: if_splits prod.splits rresult.splits)
  obtain es where es: "node_changed E logs now es ns ns1" "length (reorgs_of es) \<le> 1"
  proof (cases "notif_revert_range nt")
    case None
    then have "ns1 = ns" using a by (simp add: revert_phase_def)
    then show ?thesis using that[of "[]"] by (simp add: node_changed_def)
  next
    case (Some rg)
    then have "on_host_revert E now rg ns = (Ok c1, ns1)"
      using a by (auto simp: revert_phase_def rres_simps split: prod.splits)
    then show ?thesis using revert_changes[OF laws] that by blast
  qed
  obtain fs where fs: "node_changed E logs now fs ns1 ns2" "reorgs_of fs = []"
  proof (cases "committed_chain nt")
    case None
    then have "ns2 = ns1" using b by (simp add: commit_phase_def)
    then show ?thesis using that[of "[]"] by (simp add: node_changed_def)
  next
    case (Some chain)
    then have pc: "process_committed_chain E chain ns1 = (Ok c2, ns2)"
      using b by (auto simp: commit_phase_def rres_simps split: prod.splits)
    then have "process_extracts E (height (ns_storage ns1)) (ne_extract E chain) False ns1 = (Ok c2, ns2)"
      using last_rollup_block_height[OF log_lawsD(1)[OF laws]]
      by (cases "last_rollup_block E (ns_storage ns1)") (auto simp: process_committed_chain_def)
    moreover obtain k where "map (ne_ru_height E) (filter (\<lambda>x. ne_ru_height E x > height (ns_storage ns1)) (ne_extract E chain))
        = [Suc (height (ns_storage ns1))..<k]"
      using fitting_extracts[of E height chain "ns_storage ns1"] fits a Some by (auto simp: notification_fits_def)
    ultimately show ?thesis using commit_changes[OF laws] that by blast
  qed
  have "node_changed E logs now (es @ fs) ns ns'"
    using node_changed_trans[OF es(1) fs(1)] last by (simp add: node_changed_def)
  then show ?thesis using es(2) fs(2) by (intro exI[of _ "es @ fs"]) (simp add: reorgs_of_append)
qed

text \<open>A turn that goes on changes the chain, with at most one reorg, and leaves \<open>latest\<close> at the tip if it was there.\<close>

lemma turn_changes:
  assumes laws: "log_laws E height logs" and fits: "turn_fits E height now ns"
    and run: "node_turn E now ns = (None, ns')"
    and tip: "tag_latest (cn_tags (ns_chain ns)) = height (ns_storage ns)"
  shows "\<exists>es. node_changed E logs now es ns ns' \<and> length (reorgs_of es) \<le> 1
    \<and> tag_latest (cn_tags (ns_chain ns')) = height (ns_storage ns')"
proof -
  obtain nt n where nx: "no_next_notification (ne_notifier E) (ns_notifier ns) = (Some (Ok nt), n)"
    using run unfolding node_turn_def by (auto split: prod.splits option.splits rresult.splits)
  let ?ns = "ns\<lparr>ns_notifier := n\<rparr>"
  obtain changed ns1 where on: "on_notification E now nt ?ns = (Ok changed, ns1)"
    using run nx unfolding node_turn_def by (auto split: prod.splits rresult.splits)
  have "notification_fits E height now nt ?ns" using fits nx by (simp add: turn_fits_def)
  from notification_changes[OF laws this on]
  obtain es where es: "node_changed E logs now es ?ns ns1" "length (reorgs_of es) \<le> 1" by blast
  have es': "node_changed E logs now es ns ns1" using es(1) by (simp add: node_changed_def)
  show ?thesis
  proof (cases changed)
    case False
    then have "ns' = ns1" "ns1 = ?ns"
      using run nx on on_notification_effect[OF log_lawsD(1)[OF laws] on] by (simp_all add: node_turn_def)
    then show ?thesis using es' es(2) tip by auto
  next
    case True
    obtain h where h: "last_rollup_block E (ns_storage ns1) = Ok h"
      using run nx on True unfolding node_turn_def by (auto split: rresult.splits)
    then have hh: "h = height (ns_storage ns1)" using last_rollup_block_height[OF log_lawsD(1)[OF laws]] by blast
    obtain u where ub: "update_block_tags E h (safe_block_number nt) (finalized_block_number nt) ns1 = (Ok u, ns')"
      using run nx on True h unfolding node_turn_def by (auto split: prod.splits rresult.splits)
    have "cn_reorgs (ns_chain ns') = cn_reorgs (ns_chain ns1) \<and> cn_sent (ns_chain ns') = cn_sent (ns_chain ns1)
        \<and> cn_receivers (ns_chain ns') = cn_receivers (ns_chain ns1)"
      using ub by (auto simp: update_block_tags_def Let_def dest!: update_highest_frame split: if_splits)
    then have "node_changed E logs now es ns ns'"
      using es' update_block_tags_frame[OF ub] by (simp add: node_changed_def node_told_def)
    then show ?thesis
      using es(2) update_block_tags_frame[OF ub] hh by (intro exI[of _ es]) (simp add: update_all_result)
  qed
qed

end
