(* ===== verification/Node_Filters.thy ===== *)
theory Node_Filters
  imports Node_Chain Eth_Filters
begin

text \<open>
  A polling client of the running node: turns of the node's main loop, the parts of the
  polls of one log filter and what else happens on the server, interleaved in any order. The abstract
  promise is that of a replica: a client that takes removed logs away and adds new ones
  holds exactly the matching logs of the chain the node has stored.
\<close>

section \<open>The client\<close>

fun client_apply :: "'l rpc_log list \<Rightarrow> 'l rpc_log multiset \<Rightarrow> 'l rpc_log multiset" where
  "client_apply [] m = m"
| "client_apply (l # ls) m =
     client_apply ls (if rl_removed l then m - {#l\<lparr>rl_removed := False\<rparr>#} else add_mset l m)"

lemma client_apply_append: "client_apply (xs @ ys) m = client_apply ys (client_apply xs m)"
  by (induction xs arbitrary: m) auto

lemma client_apply_new: "\<forall>l\<in>set ls. \<not> rl_removed l \<Longrightarrow> client_apply ls m = m + mset ls"
  by (induction ls arbitrary: m) auto

lemma client_apply_removed:
  "\<forall>l\<in>set ls. rl_removed l \<Longrightarrow>
     client_apply ls m = m - mset (map (\<lambda>l. l\<lparr>rl_removed := False\<rparr>) ls)"
  by (induction ls arbitrary: m) auto

lemma unmark_removed: "\<not> rl_removed l \<Longrightarrow> (mark_removed l)\<lparr>rl_removed := False\<rparr> = l"
  by (cases l) (simp add: mark_removed_def)

lemma client_removes:
  assumes "mset removed = mset (map mark_removed gone)" "\<forall>l\<in>set gone. \<not> rl_removed l"
  shows "client_apply removed m = m - mset gone"
proof -
  have "set removed = set (map mark_removed gone)" using assms(1) by (rule mset_eq_setD)
  then have "\<forall>l\<in>set removed. rl_removed l" by (auto simp: mark_removed_def)
  then have "client_apply removed m = m - image_mset (\<lambda>l. l\<lparr>rl_removed := False\<rparr>) (mset removed)"
    by (simp add: client_apply_removed)
  also have "image_mset (\<lambda>l. l\<lparr>rl_removed := False\<rparr>) (mset removed) = mset (map (\<lambda>l. (mark_removed l)\<lparr>rl_removed := False\<rparr>) gone)"
    by (simp add: assms(1) image_mset.compositionality comp_def)
  also have "map (\<lambda>l. (mark_removed l)\<lparr>rl_removed := False\<rparr>) gone = gone"
    using assms(2) by (intro map_idI unmark_removed) auto
  finally show ?thesis .
qed

text \<open>A client in step with \<open>c0\<close> that applies a poll's answer is in step with \<open>c\<close> up to block \<open>e\<close>.\<close>

lemma client_in_step_below:
  assumes pos: "a \<le> s" "s \<le> p" "p \<le> length c0" "s \<le> e" "e \<le> length c" "take s c = take s c0"
    and removed: "mset removed = mset (map mark_removed (matching matches flt c0 s p))"
    and plain: "\<forall>ls\<in>set c0. \<forall>l\<in>set ls. \<not> rl_removed l" "\<forall>ls\<in>set c. \<forall>l\<in>set ls. \<not> rl_removed l"
  shows "client_apply (removed @ matching matches flt c s e) (mset (matching matches flt c0 a p))
    = mset (matching matches flt c a e)"
proof -
  have unmarked: "\<forall>l\<in>set (matching matches flt d u v). \<not> rl_removed l"
    if "\<forall>ls\<in>set d. \<forall>l\<in>set ls. \<not> rl_removed l" "v \<le> length d" for d u v
    using that by (fastforce simp: matching_def)
  have "matching matches flt c0 a p = matching matches flt c0 a s @ matching matches flt c0 s p"
    by (simp add: matching_split[OF pos(1,2)])
  then have "client_apply removed (mset (matching matches flt c0 a p)) = mset (matching matches flt c0 a s)"
    using client_removes[OF removed unmarked[OF plain(1) pos(3)]] by simp
  moreover have "matching matches flt c0 a s = matching matches flt c a s"
    using pos by (intro matching_cong) auto
  ultimately show ?thesis
    using client_apply_new[OF unmarked[OF plain(2) pos(5)]] matching_split[OF pos(1,4), of matches flt c]
    by (simp add: client_apply_append flip: mset_append)
qed

lemmas client_in_step = client_in_step_below[where e = "length c" for c, OF _ _ _ _ order_refl]

section \<open>The session\<close>

text \<open>
  How far the client's current poll has come: it has taken its snapshot of the filter, has read the tip, or
  has its answer and is about to commit.
\<close>

datatype ('c, 'l) poll_stage =
    No_Poll
  | Began "('c, 'l) poll_snapshot"
  | Read_Tip "('c, 'l) poll_snapshot" u64
  | Answered "('c, 'l) poll_snapshot" u64 "('l, b256) event_buffer"

record ('st, 'n, 's, 'l, 'c) watch =
  wt_node :: "('st, 'n, 's, 'l) node_state"
  wt_manager :: "'c rpc_filter filter_manager"
  wt_now :: instant
  wt_poll :: "('c, 'l) poll_stage"
  wt_reorgs :: nat
  wt_missed :: bool
  wt_logs :: "'l rpc_log multiset"

definition watch_server :: "('st, 'n, 's, 'l, 'c) watch \<Rightarrow> ('c, 'l) filter_server" where
  "watch_server w = \<lparr>fs_manager = wt_manager w, fs_chain = ns_chain (wt_node w)\<rparr>"

text \<open>The reorgs the ring buffer holds of one instant.\<close>

definition recorded_at :: "instant \<Rightarrow> ('st, 'n, 's, 'l) node_state \<Rightarrow> 'l reorg_notification list" where
  "recorded_at now ns = map snd (filter (\<lambda>(t, r). t = now) (cn_reorgs (ns_chain ns)))"

text \<open>
  The parties move as follows. A turn of the node happens after everything before it, is fed with
  chains that continue storage, and forks at or behind block \<open>a\<close>. The client has one poll at a time, in the
  parts that \<open>get_filter_changes\<close> consists of; turns and all else may come between them. A query meets
  cold storage in any state \<open>may_serve\<close> allows for what the node has stored then, and may fail. Receivers come and go and
  other filters change as they like.

  \<open>wt_reorgs\<close> counts the reorgs since the last poll was committed, and \<open>wt_missed\<close> records what the code
  does not make up for: a reorg during a poll, a poll behind more reorgs than the ring
  buffer keeps, and a failed poll that had removed logs to report.
\<close>

inductive watch_step ::
  "('st, 'rd, 'eb, 'l, 'n, 'ch, 'x, 's) node_env \<Rightarrow> ('st \<Rightarrow> u64) \<Rightarrow> ('st \<Rightarrow> ('c, 'l) cold_logs \<Rightarrow> bool)
     \<Rightarrow> (u64 \<Rightarrow> string) \<Rightarrow> ('c rpc_filter \<Rightarrow> 'l \<Rightarrow> bool) \<Rightarrow> 'p storage_rpc_config \<Rightarrow> u64 \<Rightarrow> nat
     \<Rightarrow> ('st, 'n, 's, 'l, 'c) watch \<Rightarrow> ('st, 'n, 's, 'l, 'c) watch \<Rightarrow> bool"
  for E height may_serve show_num matches cfg i a where
  turn: "node_turn E now (wt_node w) = (None, ns') \<Longrightarrow> wt_now w < now \<Longrightarrow> turn_fits E height now (wt_node w) \<Longrightarrow>
     \<forall>r\<in>set (recorded_at now ns'). a \<le> Suc (common_ancestor r) \<Longrightarrow>
     watch_step E height may_serve show_num matches cfg i a w
       (w\<lparr>wt_node := ns', wt_now := now, wt_reorgs := wt_reorgs w + length (recorded_at now ns'),
          wt_missed := wt_missed w \<or> (wt_poll w \<noteq> No_Poll \<and> recorded_at now ns' \<noteq> [])\<rparr>)"
| begin_poll: "wt_poll w = No_Poll \<Longrightarrow> poll_begin show_num matches i (watch_server w) = (Ok snap, sv') \<Longrightarrow>
     watch_step E height may_serve show_num matches cfg i a w
       (w\<lparr>wt_manager := fs_manager sv', wt_poll := Began snap,
          wt_missed := wt_missed w \<or> wt_reorgs w > MAX_REORG_ENTRIES\<rparr>)"
| read_tip: "wt_poll w = Began snap \<Longrightarrow>
     watch_step E height may_serve show_num matches cfg i a w
       (w\<lparr>wt_poll := Read_Tip snap (tag_latest (cn_tags (ns_chain (wt_node w))))\<rparr>)"
| answer: "wt_poll w = Read_Tip snap latest \<Longrightarrow> may_serve (ns_storage (wt_node w)) cold \<Longrightarrow>
     poll_result cfg cold latest snap = Ok out \<Longrightarrow>
     watch_step E height may_serve show_num matches cfg i a w (w\<lparr>wt_poll := Answered snap latest out\<rparr>)"
| fail: "wt_poll w = Read_Tip snap latest \<Longrightarrow> may_serve (ns_storage (wt_node w)) cold \<Longrightarrow>
     poll_result cfg cold latest snap = Err e \<Longrightarrow>
     watch_step E height may_serve show_num matches cfg i a w
       (w\<lparr>wt_poll := No_Poll, wt_missed := wt_missed w \<or> ps_removed snap \<noteq> []\<rparr>)"
| commit: "wt_poll w = Answered snap latest (Log_Buf ls) \<Longrightarrow> wt_now w \<le> now \<Longrightarrow>
     watch_step E height may_serve show_num matches cfg i a w
       (w\<lparr>wt_manager := fs_manager (poll_commit now i snap latest (watch_server w)), wt_now := now, wt_poll := No_Poll,
          wt_reorgs := 0, wt_logs := client_apply ls (wt_logs w)\<rparr>)"
| other: "fm_filters m i = fm_filters (wt_manager w) i \<Longrightarrow>
     watch_step E height may_serve show_num matches cfg i a w
       (w\<lparr>wt_manager := m, wt_node := (wt_node w)\<lparr>ns_chain := (ns_chain (wt_node w))\<lparr>cn_receivers := k\<rparr>\<rparr>\<rparr>)"

text \<open>The session starts with the filter's installation at the node's tip.\<close>

definition watch_start ::
  "instant \<Rightarrow> 'c rpc_filter \<Rightarrow> ('st, 'n, 's, 'l) node_state \<Rightarrow> 'c rpc_filter filter_manager
     \<Rightarrow> u64 eth_result \<times> ('st, 'n, 's, 'l, 'c) watch" where
  "watch_start now flt ns m =
     (case new_filter now flt \<lparr>fs_manager = m, fs_chain = ns_chain ns\<rparr> of
        (r, sv) \<Rightarrow> (r, \<lparr>wt_node = ns, wt_manager = fs_manager sv, wt_now = now, wt_poll = No_Poll, wt_reorgs = 0,
           wt_missed = False, wt_logs = {#}\<rparr>))"

section \<open>The invariant\<close>

text \<open>
  There is the chain \<open>c0\<close> of the last poll, with which the client is in step and at whose
  end the filter stands, the changes \<open>es\<close> since, and for each reorg among them its entry in
  the history from which the ring buffer evicted its oldest.
\<close>

definition ring_since :: "instant \<Rightarrow> instant \<Rightarrow> 'l reorg_notification list \<Rightarrow> 'l reorg_buffer \<Rightarrow> bool" where
  "ring_since polled now rs buf \<longleftrightarrow>
     (\<exists>old ts. length old \<le> MAX_REORG_ENTRIES \<and> (\<forall>(t, r)\<in>set old. t \<le> polled)
        \<and> length ts = length rs \<and> (\<forall>t\<in>set ts. polled < t \<and> t \<le> now)
        \<and> buf = fold push_reorg (zip ts rs) old)"

lemma ring_since_start:
  "length buf \<le> MAX_REORG_ENTRIES \<Longrightarrow> \<forall>(t, r)\<in>set buf. t \<le> polled \<Longrightarrow> ring_since polled now [] buf"
  unfolding ring_since_def by (intro exI[of _ buf] exI[of _ "[]"]) simp

lemma ring_since_grow:
  assumes "ring_since polled now rs buf" "now < now'" "polled \<le> now"
  shows "ring_since polled now' (rs @ new) (fold push_reorg (map (Pair now') new) buf)"
proof -
  obtain old ts where o: "length old \<le> MAX_REORG_ENTRIES" "\<forall>(t, r)\<in>set old. t \<le> polled"
    "length ts = length rs" "\<forall>t\<in>set ts. polled < t \<and> t \<le> now" "buf = fold push_reorg (zip ts rs) old"
    using assms(1) unfolding ring_since_def by blast
  have "zip (ts @ replicate (length new) now') (rs @ new) = zip ts rs @ map (Pair now') new"
    using o(3) by (simp add: zip_replicate1)
  then show ?thesis
    unfolding ring_since_def using o assms(2,3)
    by (intro exI[of _ old] exI[of _ "ts @ replicate (length new) now'"]) auto
qed

lemma ring_since_times:
  assumes "ring_since polled now rs buf" "polled \<le> now"
  shows "\<forall>(t, r)\<in>set buf. t \<le> now" "length buf \<le> MAX_REORG_ENTRIES"
proof -
  obtain old ts where o: "length old \<le> MAX_REORG_ENTRIES" "\<forall>(t, r)\<in>set old. t \<le> polled"
    "\<forall>t\<in>set ts. polled < t \<and> t \<le> now" "buf = fold push_reorg (zip ts rs) old"
    using assms(1) unfolding ring_since_def by blast
  have buf: "buf = drop (length old + length (zip ts rs) - MAX_REORG_ENTRIES) (old @ zip ts rs)"
    unfolding o(4) by (rule ring.push_all_recent[OF o(1)])
  then have "set buf \<subseteq> set old \<union> set (zip ts rs)" using set_drop_subset by fastforce
  moreover have "t \<le> now" if "(t, r) \<in> set (zip ts rs)" for t r
    using o(3) set_zip_leftD[OF that] by simp
  ultimately show "\<forall>(t, r)\<in>set buf. t \<le> now" using o(2) assms(2) by fastforce
  show "length buf \<le> MAX_REORG_ENTRIES" unfolding o(4) by (rule ring.push_all_length[OF o(1)])
qed

lemma ring_since_found:
  assumes "ring_since polled now rs (cn_reorgs c)" "length rs \<le> MAX_REORG_ENTRIES"
  shows "reorgs_since polled c = rs"
proof -
  obtain old ts where o: "length old \<le> MAX_REORG_ENTRIES" "\<forall>(t, r)\<in>set old. t \<le> polled"
    "length ts = length rs" "\<forall>t\<in>set ts. polled < t \<and> t \<le> now" "cn_reorgs c = fold push_reorg (zip ts rs) old"
    using assms(1) unfolding ring_since_def by blast
  let ?k = "length old + length (zip ts rs) - MAX_REORG_ENTRIES"
  have "cn_reorgs c = drop ?k (old @ zip ts rs)"
    unfolding o(5) by (rule ring.push_all_recent[OF o(1)])
  then have buf: "cn_reorgs c = drop ?k old @ zip ts rs" using o(3) assms(2) by simp
  have "filter (\<lambda>(t, r). t > polled) (drop ?k old) = []"
    using o(2) set_drop_subset[of ?k old] by (fastforce simp: filter_empty_conv)
  moreover have "filter (\<lambda>(t, r). t > polled) (zip ts rs) = zip ts rs"
    using o(4) by (fastforce simp: filter_id_conv dest: set_zip_leftD)
  ultimately show ?thesis using o(3) by (simp add: reorgs_since_def buf)
qed

text \<open>
  During a poll: the filter stands at the block \<open>s\<close> to which the snapshot moved it back, the client still is in step
  with \<open>c0\<close> up to the former position, and both chains agree below \<open>s\<close>.
\<close>

definition snap_inv ::
  "('c rpc_filter \<Rightarrow> 'l \<Rightarrow> bool) \<Rightarrow> nat \<Rightarrow> 'c rpc_filter \<Rightarrow> 'l log_chain \<Rightarrow> 'l log_chain \<Rightarrow> u64
     \<Rightarrow> 'l rpc_log multiset \<Rightarrow> ('c, 'l) poll_snapshot \<Rightarrow> bool" where
  "snap_inv matches a flt c0 c pos held snap \<longleftrightarrow>
     ps_filter snap = Some flt \<and> \<not> ps_is_block snap \<and> ps_empty snap = Log_Buf [] \<and> ps_start snap = pos
     \<and> pos \<le> length c \<and> take pos c = take pos c0
     \<and> (\<exists>p. pos \<le> p \<and> p \<le> length c0 \<and> held = mset (matching matches flt c0 a p)
          \<and> mset (ps_removed snap) = mset (map mark_removed (matching matches flt c0 pos p)))"

fun stage_inv ::
  "('c rpc_filter \<Rightarrow> 'l \<Rightarrow> bool) \<Rightarrow> nat \<Rightarrow> 'c rpc_filter \<Rightarrow> 'l log_chain \<Rightarrow> 'l log_chain \<Rightarrow> u64
     \<Rightarrow> 'l rpc_log multiset \<Rightarrow> ('c, 'l) poll_stage \<Rightarrow> bool" where
  "stage_inv matches a flt c0 c pos held No_Poll \<longleftrightarrow> held = mset (matching matches flt c0 a pos)"
| "stage_inv matches a flt c0 c pos held (Began snap) \<longleftrightarrow> snap_inv matches a flt c0 c pos held snap"
| "stage_inv matches a flt c0 c pos held (Read_Tip snap latest) \<longleftrightarrow>
     snap_inv matches a flt c0 c pos held snap \<and> pos \<le> Suc latest \<and> latest < length c"
| "stage_inv matches a flt c0 c pos held (Answered snap latest out) \<longleftrightarrow>
     snap_inv matches a flt c0 c pos held snap \<and> pos \<le> Suc latest \<and> latest < length c
     \<and> out = Log_Buf (ps_removed snap @ matching matches flt c pos (Suc latest))"

definition watch_inv ::
  "('st \<Rightarrow> u64) \<Rightarrow> ('st \<Rightarrow> 'l log_chain) \<Rightarrow> ('c rpc_filter \<Rightarrow> 'l \<Rightarrow> bool) \<Rightarrow> u64 \<Rightarrow> nat
     \<Rightarrow> 'c rpc_filter \<Rightarrow> ('st, 'n, 's, 'l, 'c) watch \<Rightarrow> bool" where
  "watch_inv height logs matches i a flt w \<longleftrightarrow>
     (\<exists>f c0 es. fm_filters (wt_manager w) i = Some f \<and> af_kind f = Log_Kind flt
        \<and> a \<le> af_next_start_block f \<and> af_next_start_block f \<le> length c0
        \<and> (\<forall>ls\<in>set c0. \<forall>l\<in>set ls. \<not> rl_removed l)
        \<and> changes_ok c0 es \<and> logs (ns_storage (wt_node w)) = final_chain c0 es
        \<and> (\<forall>r\<in>set (reorgs_of es). common_ancestor r < u64_max \<and> a \<le> Suc (common_ancestor r))
        \<and> wt_reorgs w = length (reorgs_of es)
        \<and> af_last_poll_time f \<le> wt_now w
        \<and> ring_since (af_last_poll_time f) (wt_now w) (reorgs_of es) (cn_reorgs (ns_chain (wt_node w)))
        \<and> stage_inv matches a flt c0 (logs (ns_storage (wt_node w))) (af_next_start_block f) (wt_logs w) (wt_poll w))"

lemma snap_inv_grow:
  assumes "snap_inv matches a flt c0 c pos held snap"
  shows "snap_inv matches a flt c0 (c @ x) pos held snap"
proof -
  have "pos \<le> length c" using assms by (simp add: snap_inv_def)
  then show ?thesis using assms by (simp add: snap_inv_def)
qed

text \<open>Blocks that are stored during a poll do not disturb it.\<close>

lemma stage_inv_grow:
  assumes "stage_inv matches a flt c0 c pos held stage"
  shows "stage_inv matches a flt c0 (c @ x) pos held stage"
proof (cases stage)
  case (Answered snap latest out)
  then have "matching matches flt (c @ x) pos (Suc latest) = matching matches flt c pos (Suc latest)"
    using assms by (intro matching_cong) simp_all
  then show ?thesis using assms Answered by (simp add: snap_inv_grow)
qed (use assms in \<open>simp_all add: snap_inv_grow\<close>)

lemma final_chain_grows: "reorgs_of es = [] \<Longrightarrow> \<exists>x. final_chain c es = c @ x"
proof (induction es arbitrary: c)
  case (Cons e es)
  then obtain ls where "e = Append ls" by (cases e) auto
  then show ?case using Cons.IH[of "c @ [ls]"] Cons.prems by (auto simp: final_chain_def)
qed (simp add: final_chain_def)

lemma recorded_reorgs:
  assumes "node_changed E logs now es ns ns'" "length (reorgs_of es) \<le> 1"
    and "\<forall>(t, r)\<in>set (cn_reorgs (ns_chain ns)). t < now" "length (cn_reorgs (ns_chain ns)) \<le> MAX_REORG_ENTRIES"
  shows "recorded_at now ns' = reorgs_of es"
proof -
  let ?buf = "cn_reorgs (ns_chain ns)" and ?new = "map (Pair now) (reorgs_of es)"
  let ?k = "length ?buf + length ?new - MAX_REORG_ENTRIES"
  have "cn_reorgs (ns_chain ns') = drop ?k (?buf @ ?new)"
    using assms(1) ring.push_all_recent[OF assms(4)] by (simp add: node_changed_def)
  moreover have "?k \<le> length ?buf" using assms(2,4) by (simp add: MAX_REORG_ENTRIES_def)
  ultimately have buf: "cn_reorgs (ns_chain ns') = drop ?k ?buf @ ?new" by simp
  have "filter (\<lambda>(t, r). t = now) (drop ?k ?buf) = []"
    using assms(3) set_drop_subset[of ?k ?buf] by (fastforce simp: filter_empty_conv)
  moreover have "filter (\<lambda>(t, r). t = now) ?new = ?new" by (simp add: filter_id_conv)
  ultimately show ?thesis by (simp add: recorded_at_def buf comp_def)
qed

lemma watch_turn_inv:
  assumes laws: "log_laws E height logs" and inv: "watch_inv height logs matches i a flt w"
    and tip: "tag_latest (cn_tags (ns_chain (wt_node w))) = height (ns_storage (wt_node w))"
    and step: "node_turn E now (wt_node w) = (None, ns')" "wt_now w < now" "turn_fits E height now (wt_node w)"
      "\<forall>r\<in>set (recorded_at now ns'). a \<le> Suc (common_ancestor r)"
    and calm: "wt_poll w = No_Poll \<or> recorded_at now ns' = []"
  shows "watch_inv height logs matches i a flt
    (w\<lparr>wt_node := ns', wt_now := now, wt_reorgs := wt_reorgs w + length (recorded_at now ns'), wt_missed := missed\<rparr>)"
proof -
  let ?c = "logs (ns_storage (wt_node w))"
  obtain f c0 es where f: "fm_filters (wt_manager w) i = Some f" "af_kind f = Log_Kind flt"
      "a \<le> af_next_start_block f" "af_next_start_block f \<le> length c0" "\<forall>ls\<in>set c0. \<forall>l\<in>set ls. \<not> rl_removed l"
    and es: "changes_ok c0 es" "?c = final_chain c0 es"
      "\<forall>r\<in>set (reorgs_of es). common_ancestor r < u64_max \<and> a \<le> Suc (common_ancestor r)"
      "wt_reorgs w = length (reorgs_of es)"
    and t: "af_last_poll_time f \<le> wt_now w"
    and ring: "ring_since (af_last_poll_time f) (wt_now w) (reorgs_of es) (cn_reorgs (ns_chain (wt_node w)))"
    and stage: "stage_inv matches a flt c0 ?c (af_next_start_block f) (wt_logs w) (wt_poll w)"
    using inv unfolding watch_inv_def by blast
  obtain new where new: "node_changed E logs now new (wt_node w) ns'" "length (reorgs_of new) \<le> 1"
    using turn_changes[OF laws step(3,1) tip] by blast
  have rec: "recorded_at now ns' = reorgs_of new"
  proof (rule recorded_reorgs[OF new])
    show "\<forall>(t, r)\<in>set (cn_reorgs (ns_chain (wt_node w))). t < now"
      using ring_since_times(1)[OF ring t] step(2) by fastforce
  qed (rule ring_since_times(2)[OF ring t])
  have ch: "changes_ok c0 (es @ new)" "logs (ns_storage ns') = final_chain c0 (es @ new)"
    "cn_reorgs (ns_chain ns') = fold push_reorg (map (Pair now) (reorgs_of new)) (cn_reorgs (ns_chain (wt_node w)))"
    "\<forall>r\<in>set (reorgs_of new). common_ancestor r < u64_max"
    using new(1) es(1,2) by (simp_all add: node_changed_def changes_ok_append final_chain_append)
  have stage': "stage_inv matches a flt c0 (logs (ns_storage ns')) (af_next_start_block f) (wt_logs w) (wt_poll w)"
  proof (cases "wt_poll w = No_Poll")
    case False
    then obtain x where "final_chain ?c new = ?c @ x" using calm rec final_chain_grows[of new ?c] by auto
    then have "logs (ns_storage ns') = ?c @ x" using ch(2) es(2) by (simp add: final_chain_append)
    then show ?thesis using stage_inv_grow[OF stage] by simp
  qed (use stage in simp)
  have ring': "ring_since (af_last_poll_time f) now (reorgs_of (es @ new)) (cn_reorgs (ns_chain ns'))"
    using ring_since_grow[OF ring step(2) t] by (simp add: reorgs_of_append ch(3))
  have low: "\<forall>r\<in>set (reorgs_of (es @ new)). common_ancestor r < u64_max \<and> a \<le> Suc (common_ancestor r)"
    using es(3) ch(4) step(4) by (auto simp: rec reorgs_of_append)
  show ?thesis
    unfolding watch_inv_def
    using f ch(1,2) low es(4) rec t step(2) ring' stage'
    by (intro exI[of _ f] exI[of _ c0] exI[of _ "es @ new"]) (simp add: reorgs_of_append)
qed

text \<open>A poll begins: it finds the filter and all reorgs since the last one.\<close>

lemma watch_begin:
  assumes inv: "watch_inv height logs matches i a flt w" and idle: "wt_poll w = No_Poll"
    and few: "wt_reorgs w \<le> MAX_REORG_ENTRIES"
  shows "\<exists>snap sv'. poll_begin show_num matches i (watch_server w) = (Ok snap, sv')
    \<and> fs_chain sv' = ns_chain (wt_node w)
    \<and> watch_inv height logs matches i a flt
        (w\<lparr>wt_manager := fs_manager sv', wt_poll := Began snap, wt_missed := missed\<rparr>)"
proof -
  let ?c = "logs (ns_storage (wt_node w))" and ?sv = "watch_server w"
  obtain f c0 es where f: "fm_filters (wt_manager w) i = Some f" "af_kind f = Log_Kind flt"
      "a \<le> af_next_start_block f" "af_next_start_block f \<le> length c0" "\<forall>ls\<in>set c0. \<forall>l\<in>set ls. \<not> rl_removed l"
    and es: "changes_ok c0 es" "?c = final_chain c0 es"
      "\<forall>r\<in>set (reorgs_of es). common_ancestor r < u64_max \<and> a \<le> Suc (common_ancestor r)"
      "wt_reorgs w = length (reorgs_of es)"
    and t: "af_last_poll_time f \<le> wt_now w"
    and ring: "ring_since (af_last_poll_time f) (wt_now w) (reorgs_of es) (cn_reorgs (ns_chain (wt_node w)))"
    and held: "wt_logs w = mset (matching matches flt c0 a (af_next_start_block f))"
    using inv idle unfolding watch_inv_def by auto
  have fs: "fm_filters (fs_manager ?sv) i = Some f" "fs_chain ?sv = ns_chain (wt_node w)"
    using f(1) by (simp_all add: watch_server_def)
  have found: "reorgs_since (af_last_poll_time f) (fs_chain ?sv) = reorgs_of es"
    unfolding fs(2) using ring few es(4) by (intro ring_since_found) simp_all
  have small: "\<forall>r\<in>set (reorgs_of es). common_ancestor r < u64_max" using es(3) by blast
  obtain s removed f' where b: "poll_begin show_num matches i ?sv =
      (Ok \<lparr>ps_is_block = False, ps_filter = Some flt, ps_start = s, ps_removed = removed, ps_empty = Log_Buf []\<rparr>,
       put_filter i f' ?sv)"
    and s: "s \<le> af_next_start_block f" "s \<le> length ?c" "take s ?c = take s c0"
      "mset removed = mset (map mark_removed (matching matches flt c0 s (af_next_start_block f)))"
    and low: "\<forall>a \<le> af_next_start_block f. (\<forall>r\<in>set (reorgs_of es). a \<le> Suc (common_ancestor r)) \<longrightarrow> a \<le> s"
    and f': "f' = f\<lparr>af_next_start_block := s\<rparr>"
    using poll_begin_finds[OF fs(1) f(2) es(1) f(4) small found es(2), of show_num matches] by blast
  have "a \<le> s" using low f(3) es(3) by blast
  then have "watch_inv height logs matches i a flt (w\<lparr>wt_manager := fs_manager (put_filter i f' ?sv),
      wt_poll := Began \<lparr>ps_is_block = False, ps_filter = Some flt, ps_start = s, ps_removed = removed, ps_empty = Log_Buf []\<rparr>,
      wt_missed := missed\<rparr>)"
    unfolding watch_inv_def using f' f es t ring s held
    by (intro exI[of _ f'] exI[of _ c0] exI[of _ es]) (auto simp: snap_inv_def)
  then show ?thesis using b fs(2) by (intro exI) auto
qed

lemma watch_restage:
  assumes "watch_inv height logs matches i a flt w"
    and "\<And>c0 pos. stage_inv matches a flt c0 (logs (ns_storage (wt_node w))) pos (wt_logs w) (wt_poll w) \<Longrightarrow>
      stage_inv matches a flt c0 (logs (ns_storage (wt_node w))) pos (wt_logs w) stage"
  shows "watch_inv height logs matches i a flt (w\<lparr>wt_poll := stage\<rparr>)"
  using assms unfolding watch_inv_def by (simp del: stage_inv.simps) blast

lemma watch_read_inv:
  assumes laws: "log_laws E height logs" and inv: "watch_inv height logs matches i a flt w"
    and tip: "tag_latest (cn_tags (ns_chain (wt_node w))) = height (ns_storage (wt_node w))"
    and began: "wt_poll w = Began snap"
  shows "watch_inv height logs matches i a flt (w\<lparr>wt_poll := Read_Tip snap (tag_latest (cn_tags (ns_chain (wt_node w))))\<rparr>)"
  using log_lawsD(2)[OF laws, of "ns_storage (wt_node w)"]
  by (intro watch_restage[OF inv]) (simp add: began tip snap_inv_def)

lemma watch_answer:
  assumes inv: "watch_inv height logs matches i a flt w" and stage: "wt_poll w = Read_Tip snap latest"
    and cold: "cold_holds matches cold (logs (ns_storage (wt_node w)))"
  shows "(\<exists>out. poll_result cfg cold latest snap = Ok out
        \<and> watch_inv height logs matches i a flt (w\<lparr>wt_poll := Answered snap latest out\<rparr>))
    \<or> (\<exists>e s. poll_result cfg cold latest snap = Err (Cold e)
         \<and> cold_answer cfg cold (flt\<lparr>fl_block_option := Range (Some (Number s)) (Some (Number latest))\<rparr>) = Err (Cold e))"
proof -
  obtain f c0 where "fm_filters (wt_manager w) i = Some f" "stage_inv matches a flt c0 (logs (ns_storage (wt_node w))) (af_next_start_block f) (wt_logs w) (wt_poll w)"
    using inv unfolding watch_inv_def by blast
  then have s: "snap_inv matches a flt c0 (logs (ns_storage (wt_node w))) (af_next_start_block f) (wt_logs w) snap"
    "af_next_start_block f \<le> Suc latest" "latest < length (logs (ns_storage (wt_node w)))"
    by (simp_all add: stage)
  have start: "ps_start snap = af_next_start_block f" using s(1) by (simp add: snap_inv_def)
  from s have "poll_result cfg cold latest snap =
      Ok (Log_Buf (ps_removed snap @ matching matches flt (logs (ns_storage (wt_node w))) (ps_start snap) (Suc latest)))
    \<or> (\<exists>e. poll_result cfg cold latest snap = Err (Cold e) \<and> ps_start snap \<le> latest
         \<and> cold_answer cfg cold (flt\<lparr>fl_block_option :=
              Range (Some (Number (ps_start snap))) (Some (Number latest))\<rparr>) = Err (Cold e))"
    by (intro poll_result_matching[OF _ _ _ _ _ cold]) (simp_all add: snap_inv_def)
  then show ?thesis
  proof
    assume r: "poll_result cfg cold latest snap =
      Ok (Log_Buf (ps_removed snap @ matching matches flt (logs (ns_storage (wt_node w))) (ps_start snap) (Suc latest)))"
    have "watch_inv height logs matches i a flt (w\<lparr>wt_poll := Answered snap latest
        (Log_Buf (ps_removed snap @ matching matches flt (logs (ns_storage (wt_node w))) (ps_start snap) (Suc latest)))\<rparr>)"
      by (intro watch_restage[OF inv]) (simp add: stage snap_inv_def)
    then show ?thesis using r by blast
  qed blast
qed

text \<open>A failed poll leaves the client in step, unless it had removed logs to report.\<close>

lemma watch_fail_inv:
  assumes inv: "watch_inv height logs matches i a flt w" and stage: "wt_poll w = Read_Tip snap latest"
    and none: "ps_removed snap = []"
  shows "watch_inv height logs matches i a flt (w\<lparr>wt_poll := No_Poll, wt_missed := missed\<rparr>)"
proof -
  let ?c = "logs (ns_storage (wt_node w))"
  obtain f c0 es where f: "fm_filters (wt_manager w) i = Some f" "af_kind f = Log_Kind flt"
      "a \<le> af_next_start_block f" "af_next_start_block f \<le> length c0" "\<forall>ls\<in>set c0. \<forall>l\<in>set ls. \<not> rl_removed l"
    and rest: "changes_ok c0 es" "?c = final_chain c0 es"
      "\<forall>r\<in>set (reorgs_of es). common_ancestor r < u64_max \<and> a \<le> Suc (common_ancestor r)"
      "wt_reorgs w = length (reorgs_of es)" "af_last_poll_time f \<le> wt_now w"
      "ring_since (af_last_poll_time f) (wt_now w) (reorgs_of es) (cn_reorgs (ns_chain (wt_node w)))"
    and "stage_inv matches a flt c0 ?c (af_next_start_block f) (wt_logs w) (wt_poll w)"
    using inv unfolding watch_inv_def by blast
  then have snap: "snap_inv matches a flt c0 ?c (af_next_start_block f) (wt_logs w) snap" by (simp add: stage)
  obtain p where p: "af_next_start_block f \<le> p" "wt_logs w = mset (matching matches flt c0 a p)"
    "matching matches flt c0 (af_next_start_block f) p = []"
    using snap none by (auto simp: snap_inv_def)
  have "wt_logs w = mset (matching matches flt c0 a (af_next_start_block f))"
    using p matching_split[OF f(3) p(1), of matches flt c0] by simp
  then show ?thesis
    unfolding watch_inv_def using f rest by (intro exI[of _ f] exI[of _ c0] exI[of _ es]) simp
qed

text \<open>The answer brings the client in step with the chain up to the tip that was read, and so the commit finds it.\<close>

lemma watch_answered:
  assumes laws: "log_laws E height logs" and inv: "watch_inv height logs matches i a flt w"
    and stage: "wt_poll w = Answered snap latest out"
  defines "c \<equiv> logs (ns_storage (wt_node w))"
  shows "\<exists>ls. out = Log_Buf ls \<and> client_apply ls (wt_logs w) = mset (matching matches flt c a (Suc latest)) \<and> Suc latest \<le> length c"
proof -
  obtain f c0 where "fm_filters (wt_manager w) i = Some f" and f: "a \<le> af_next_start_block f" "\<forall>ls\<in>set c0. \<forall>l\<in>set ls. \<not> rl_removed l"
    and "stage_inv matches a flt c0 c (af_next_start_block f) (wt_logs w) (wt_poll w)"
    using inv unfolding watch_inv_def c_def by blast
  then have snap: "snap_inv matches a flt c0 c (af_next_start_block f) (wt_logs w) snap"
      "af_next_start_block f \<le> Suc latest" "Suc latest \<le> length c"
      "out = Log_Buf (ps_removed snap @ matching matches flt c (af_next_start_block f) (Suc latest))"
    by (simp_all add: stage)
  have plain: "\<forall>ls\<in>set c. \<forall>l\<in>set ls. \<not> rl_removed l" using log_lawsD(4)[OF laws] unfolding c_def by blast
  obtain p where p: "af_next_start_block f \<le> p" "p \<le> length c0" "wt_logs w = mset (matching matches flt c0 a p)"
    "mset (ps_removed snap) = mset (map mark_removed (matching matches flt c0 (af_next_start_block f) p))"
    "take (af_next_start_block f) c = take (af_next_start_block f) c0"
    using snap(1) by (auto simp: snap_inv_def)
  have "client_apply (ps_removed snap @ matching matches flt c (af_next_start_block f) (Suc latest)) (wt_logs w)
      = mset (matching matches flt c a (Suc latest))"
    unfolding p(3) by (rule client_in_step_below[OF f(1) p(1,2) snap(2,3) p(5,4) f(2) plain])
  then show ?thesis using snap(3,4) by blast
qed

lemma watch_commit_inv:
  assumes laws: "log_laws E height logs" and inv: "watch_inv height logs matches i a flt w"
    and stage: "wt_poll w = Answered snap latest (Log_Buf ls)" and now: "wt_now w \<le> now"
  shows "watch_inv height logs matches i a flt
    (w\<lparr>wt_manager := fs_manager (poll_commit now i snap latest (watch_server w)), wt_now := now, wt_poll := No_Poll,
       wt_reorgs := 0, wt_logs := client_apply ls (wt_logs w)\<rparr>)"
proof -
  let ?c = "logs (ns_storage (wt_node w))"
  obtain f c0 es where f: "fm_filters (wt_manager w) i = Some f" "af_kind f = Log_Kind flt" "a \<le> af_next_start_block f"
    and t: "af_last_poll_time f \<le> wt_now w"
    and ring: "ring_since (af_last_poll_time f) (wt_now w) (reorgs_of es) (cn_reorgs (ns_chain (wt_node w)))"
    and "stage_inv matches a flt c0 ?c (af_next_start_block f) (wt_logs w) (wt_poll w)"
    using inv unfolding watch_inv_def by blast
  then have snap: "snap_inv matches a flt c0 ?c (af_next_start_block f) (wt_logs w) snap"
      "af_next_start_block f \<le> Suc latest" "latest < length ?c"
    by (simp_all add: stage)
  have start: "ps_start snap = af_next_start_block f" using snap(1) by (simp add: snap_inv_def)
  have step: "client_apply ls (wt_logs w) = mset (matching matches flt ?c a (Suc latest))"
    using watch_answered[OF laws inv stage] by auto
  have "length ?c \<le> u64_max"
    using log_lawsD(2,3)[OF laws, of "ns_storage (wt_node w)"] by simp
  then have add: "u64_add latest 1 = Suc latest" using snap(3) by (simp add: u64_simps)
  let ?f = "f\<lparr>af_next_start_block := Suc latest, af_last_poll_time := now\<rparr>"
  have fs: "fm_filters (fs_manager (watch_server w)) i = Some f" using f(1) by (simp add: watch_server_def)
  have f': "fm_filters (fs_manager (poll_commit now i snap latest (watch_server w))) i = Some ?f"
  proof (cases "ps_start snap > latest")
    case True
    then have "af_next_start_block f = Suc latest" using start snap(2) by simp
    then show ?thesis using True fs by (cases f) (simp add: poll_commit_def touch_poll_time_def)
  next
    case False
    then show ?thesis using fs add by (simp add: poll_commit_def mark_polled_def)
  qed
  have plain: "\<forall>ls\<in>set ?c. \<forall>l\<in>set ls. \<not> rl_removed l" using log_lawsD(4)[OF laws] by blast
  have "ring_since now now [] (cn_reorgs (ns_chain (wt_node w)))"
    using ring_since_times[OF ring t] now by (intro ring_since_start) fastforce+
  then show ?thesis
    unfolding watch_inv_def using f' f snap(2,3) plain step
    by (intro exI[of _ ?f] exI[of _ ?c] exI[of _ "[]"]) simp
qed

definition watch_ok ::
  "('st \<Rightarrow> u64) \<Rightarrow> ('st \<Rightarrow> 'l log_chain) \<Rightarrow> ('c rpc_filter \<Rightarrow> 'l \<Rightarrow> bool) \<Rightarrow> u64 \<Rightarrow> nat
     \<Rightarrow> 'c rpc_filter \<Rightarrow> ('st, 'n, 's, 'l, 'c) watch \<Rightarrow> bool" where
  "watch_ok height logs matches i a flt w \<longleftrightarrow>
     tag_latest (cn_tags (ns_chain (wt_node w))) = height (ns_storage (wt_node w))
     \<and> (\<not> wt_missed w \<longrightarrow> watch_inv height logs matches i a flt w)"

lemma watch_step_ok:
  assumes laws: "log_laws E height logs" and cold: "\<forall>st cold. may_serve st cold \<longrightarrow> cold_holds matches cold (logs st)"
    and step: "watch_step E height may_serve show_num matches cfg i a w w'" and ok: "watch_ok height logs matches i a flt w"
  shows "watch_ok height logs matches i a flt w'"
proof -
  have tip: "tag_latest (cn_tags (ns_chain (wt_node w))) = height (ns_storage (wt_node w))"
    and inv: "\<not> wt_missed w \<Longrightarrow> watch_inv height logs matches i a flt w"
    using ok by (simp_all add: watch_ok_def)
  show ?thesis
    using step
  proof (cases rule: watch_step.cases)
    case (turn now ns')
    have "tag_latest (cn_tags (ns_chain ns')) = height (ns_storage ns')"
      using turn_changes[OF laws turn(4,2) tip] by blast
    then show ?thesis
      using watch_turn_inv[OF laws inv tip turn(2-5)] turn(1) by (auto simp: watch_ok_def)
  next
    case (begin_poll snap sv')
    show ?thesis
      using watch_begin[OF inv begin_poll(2), of show_num "wt_missed w \<or> wt_reorgs w > MAX_REORG_ENTRIES"] tip begin_poll
      by (auto simp: watch_ok_def)
  next
    case (read_tip snap)
    then show ?thesis using watch_read_inv[OF laws inv tip read_tip(2)] tip by (simp add: watch_ok_def)
  next
    case (answer snap latest cs out)
    have "cold_holds matches cs (logs (ns_storage (wt_node w)))" using cold answer(3) by blast
    then show ?thesis using watch_answer[OF inv answer(2), of cs cfg] tip answer(1,4) by (auto simp: watch_ok_def)
  next
    case (fail snap latest cs e)
    then show ?thesis using watch_fail_inv[OF inv fail(2)] tip by (auto simp: watch_ok_def)
  next
    case (commit snap latest ls now)
    then show ?thesis using watch_commit_inv[OF laws inv commit(2,3)] tip by (simp add: watch_ok_def)
  next
    case (other m k)
    then show ?thesis using inv tip by (simp add: watch_ok_def watch_inv_def)
  qed
qed

lemma watch_start_ok:
  assumes laws: "log_laws E height logs"
    and tip: "tag_latest (cn_tags (ns_chain ns)) = height (ns_storage ns)"
    and ring: "\<forall>(t, r)\<in>set (cn_reorgs (ns_chain ns)). t \<le> t0" "length (cn_reorgs (ns_chain ns)) \<le> MAX_REORG_ENTRIES"
    and start: "watch_start t0 flt ns m = (Ok i, w)"
  shows "watch_ok height logs matches i (Suc (height (ns_storage ns))) flt w"
proof -
  let ?c = "logs (ns_storage ns)"
  let ?f = "\<lparr>af_next_start_block = length ?c, af_last_poll_time = t0, af_kind = Log_Kind flt\<rparr>"
  have len: "length ?c = Suc (height (ns_storage ns))" "height (ns_storage ns) < u64_max"
    using log_lawsD(2,3)[OF laws] by simp_all
  have w: "fm_filters (wt_manager w) i = Some ?f" "wt_node w = ns" "wt_now w = t0" "wt_reorgs w = 0" "wt_logs w = {#}"
    "wt_poll w = No_Poll"
    using start len tip
    by (auto simp: watch_start_def new_filter_def install_log_filter_def install_filter_def next_filter_id_def
        Let_def u64_simps)
  have none: "matching matches flt ?c (Suc (height (ns_storage ns))) (length ?c) = []"
    using len by (simp add: matching_def)
  have plain: "\<forall>ls\<in>set ?c. \<forall>l\<in>set ls. \<not> rl_removed l" using log_lawsD(4)[OF laws] by blast
  show ?thesis
    unfolding watch_ok_def watch_inv_def using w tip plain none len ring_since_start[OF ring(2,1), of t0]
    by (intro conjI impI exI[of _ ?f] exI[of _ ?c] exI[of _ "[]"]) simp_all
qed

text \<open>A poll without interruption.\<close>

lemma watch_whole_poll:
  assumes laws: "log_laws E height logs" and cold: "cold_holds matches cold (logs (ns_storage (wt_node w)))"
    and inv: "watch_inv height logs matches i a flt w"
    and tip: "tag_latest (cn_tags (ns_chain (wt_node w))) = height (ns_storage (wt_node w))"
    and idle: "wt_poll w = No_Poll" and few: "wt_reorgs w \<le> MAX_REORG_ENTRIES"
    and poll: "get_filter_changes show_num matches cfg cold now i (watch_server w) = (r, sv')"
  defines "c \<equiv> logs (ns_storage (wt_node w))"
  shows "(\<exists>ls. r = Ok (Log_Buf ls) \<and> client_apply ls (wt_logs w) = mset (matching matches flt c a (length c)))
    \<or> (\<exists>e s. r = Err (Cold e) \<and> cold_answer cfg cold
          (flt\<lparr>fl_block_option := Range (Some (Number s)) (Some (Number (height (ns_storage (wt_node w)))))\<rparr>) = Err (Cold e))"
proof -
  let ?latest = "tag_latest (cn_tags (ns_chain (wt_node w)))"
  obtain snap sv1 where b: "poll_begin show_num matches i (watch_server w) = (Ok snap, sv1)"
    "fs_chain sv1 = ns_chain (wt_node w)"
    and inv1: "watch_inv height logs matches i a flt (w\<lparr>wt_manager := fs_manager sv1, wt_poll := Began snap, wt_missed := False\<rparr>)"
    using watch_begin[OF inv idle few, of show_num False] by blast
  let ?w1 = "w\<lparr>wt_manager := fs_manager sv1, wt_poll := Began snap, wt_missed := False\<rparr>"
  let ?w2 = "?w1\<lparr>wt_poll := Read_Tip snap ?latest\<rparr>"
  have inv2: "watch_inv height logs matches i a flt ?w2"
    using watch_read_inv[OF laws inv1] tip by simp
  have r: "r = await_handler (fst (poll_finish cfg cold now i snap sv1))"
    using poll by (simp add: get_filter_changes_def b(1) case_prod_unfold)
  have len: "length c = Suc ?latest" using log_lawsD(2)[OF laws] tip by (simp add: c_def)
  have "cold_holds matches cold (logs (ns_storage (wt_node ?w2)))" using cold by simp
  from watch_answer[OF inv2 _ this, of snap ?latest cfg]
  consider out where "poll_result cfg cold ?latest snap = Ok out"
      "watch_inv height logs matches i a flt (?w2\<lparr>wt_poll := Answered snap ?latest out\<rparr>)"
    | e s where "poll_result cfg cold ?latest snap = Err (Cold e)"
      "cold_answer cfg cold (flt\<lparr>fl_block_option := Range (Some (Number s)) (Some (Number ?latest))\<rparr>) = Err (Cold e)"
    by auto
  then show ?thesis
  proof cases
    case 1
    then have "r = Ok out" using r by (simp add: poll_finish_parts b(2) Let_def)
    then show ?thesis using watch_answered[OF laws 1(2), of snap ?latest out] len by (auto simp: c_def)
  next
    case 2
    then have "r = Err (Cold e)" using r by (simp add: poll_finish_parts b(2) Let_def)
    then show ?thesis using 2(2) unfolding tip by blast
  qed
qed

text \<open>
  C3: a client that polls a log filter of the running node, one poll at a time, holds the matching logs of
  the node's chain: whatever turns the main loop took since the filter was installed (commits, reverts and
  reorgs that fork at or behind the installation block), however the parts of the polls (taking the snapshot,
  reading the tip, the query of cold storage, the commit), failing queries and other activity were interleaved
  with them, as long as nothing was missed. Missed is, and only that: a reorg that a turn records while a poll is in progress, a poll
  with more than 25 reorgs since the last one, and the removals of a poll that failed. Then whenever a poll has its answer,
  removing its removed logs and adding its others leaves the client with exactly the matching logs, from the installation on, each as
  often as the chain has it, of the blocks that storage holds up to the tip the poll read. And a poll that nothing interrupts
  does so for all blocks that storage holds, or fails with the error cold storage answered its query with.
\<close>

theorem filter_follows_node:
  assumes laws: "log_laws E height logs" and cold: "\<forall>st cold. may_serve st cold \<longrightarrow> cold_holds matches cold (logs st)"
    and tip: "tag_latest (cn_tags (ns_chain ns)) = height (ns_storage ns)"
    and ring: "\<forall>(t, r)\<in>set (cn_reorgs (ns_chain ns)). t \<le> t0" "length (cn_reorgs (ns_chain ns)) \<le> MAX_REORG_ENTRIES"
    and start: "watch_start t0 flt ns m = (Ok i, w0)"
    and run: "(watch_step E height may_serve show_num matches cfg i (Suc (height (ns_storage ns))))\<^sup>*\<^sup>* w0 w"
    and fine: "\<not> wt_missed w"
  shows "(\<forall>snap latest out. wt_poll w = Answered snap latest out \<longrightarrow>
        (\<exists>ls. out = Log_Buf ls \<and> client_apply ls (wt_logs w) =
           mset (matching matches flt (logs (ns_storage (wt_node w))) (Suc (height (ns_storage ns))) (Suc latest))
         \<and> Suc latest \<le> length (logs (ns_storage (wt_node w)))))
    \<and> (\<forall>cs now r sv'. wt_poll w = No_Poll \<longrightarrow> wt_reorgs w \<le> MAX_REORG_ENTRIES \<longrightarrow> may_serve (ns_storage (wt_node w)) cs \<longrightarrow>
        get_filter_changes show_num matches cfg cs now i (watch_server w) = (r, sv') \<longrightarrow>
        (\<exists>ls. r = Ok (Log_Buf ls) \<and> client_apply ls (wt_logs w) =
           mset (matching matches flt (logs (ns_storage (wt_node w))) (Suc (height (ns_storage ns)))
                   (length (logs (ns_storage (wt_node w))))))
        \<or> (\<exists>e s. r = Err (Cold e) \<and> cold_answer cfg cs (flt\<lparr>fl_block_option :=
             Range (Some (Number s)) (Some (Number (height (ns_storage (wt_node w)))))\<rparr>) = Err (Cold e)))"
proof -
  have "watch_ok height logs matches i (Suc (height (ns_storage ns))) flt w"
    using run
  proof (induction rule: rtranclp_induct)
    case base
    show ?case by (rule watch_start_ok[OF laws tip ring start])
  qed (rule watch_step_ok[OF laws cold])
  then have inv: "watch_inv height logs matches i (Suc (height (ns_storage ns))) flt w"
    and tip': "tag_latest (cn_tags (ns_chain (wt_node w))) = height (ns_storage (wt_node w))"
    using fine by (simp_all add: watch_ok_def)
  have answered: "\<forall>snap latest out. wt_poll w = Answered snap latest out \<longrightarrow>
        (\<exists>ls. out = Log_Buf ls \<and> client_apply ls (wt_logs w) =
           mset (matching matches flt (logs (ns_storage (wt_node w))) (Suc (height (ns_storage ns))) (Suc latest))
         \<and> Suc latest \<le> length (logs (ns_storage (wt_node w))))"
    using watch_answered[OF laws inv] by blast
  show ?thesis
  proof (rule conjI[OF answered], intro allI impI)
    fix cs now r sv'
    assume a: "wt_poll w = No_Poll" "wt_reorgs w \<le> MAX_REORG_ENTRIES" "may_serve (ns_storage (wt_node w)) cs"
      "get_filter_changes show_num matches cfg cs now i (watch_server w) = (r, sv')"
    have "cold_holds matches cs (logs (ns_storage (wt_node w)))" using cold a(3) by blast
    from watch_whole_poll[OF laws this inv tip' a(1,2,4)]
    show "(\<exists>ls. r = Ok (Log_Buf ls) \<and> client_apply ls (wt_logs w) =
           mset (matching matches flt (logs (ns_storage (wt_node w))) (Suc (height (ns_storage ns)))
                   (length (logs (ns_storage (wt_node w))))))
        \<or> (\<exists>e s. r = Err (Cold e) \<and> cold_answer cfg cs (flt\<lparr>fl_block_option :=
             Range (Some (Number s)) (Some (Number (height (ns_storage (wt_node w)))))\<rparr>) = Err (Cold e))" .
  qed
qed

section \<open>An instance\<close>

text \<open>
  Storage is the list of the logs of its blocks behind genesis (at most 100), a block its number and logs, a
  host chain the list of its rollup blocks, the notifier the list of what it will deliver.
\<close>

type_synonym watch_block = "nat \<times> nat rpc_log list"

definition watch_header :: "nat \<Rightarrow> header" where
  "watch_header k = \<lparr>h_number = k, h_parent_hash = 0, h_timestamp = 0, h_gas_limit = 0, h_gas_used = 0,
     h_base_fee_per_gas = None, h_rest = 0\<rparr>"

definition watch_height :: "nat log_chain \<Rightarrow> u64" where
  "watch_height st = length (take 100 st)"

definition watch_chain :: "nat log_chain \<Rightarrow> nat log_chain" where
  "watch_chain st = [] # map (filter (\<lambda>l. \<not> rl_removed l)) (take 100 st)"

definition watch_node :: "(nat log_chain, nat log_chain, watch_block, nat, watch_block list host_notification list,
    watch_block list, watch_block, unit) node_env" where
  "watch_node =
     \<lparr>ne_storage = \<lparr>so_reader = Inr, so_last_block_number = (\<lambda>st. Inr (Some (watch_height st))),
        so_cold_latest = (\<lambda>st. Inr None),
        so_unwind_above = (\<lambda>t st. (Inr (), take t st)),
        so_append_blocks = (\<lambda>bs st. case bs of [] \<Rightarrow> (Inr (), st)
         | b # _ \<Rightarrow> if length st < 100 \<and> fst b = Suc (length st) then (Inr (), st @ [snd b]) else (Inl ''order'', st)),
        so_drain_above = (\<lambda>t st.
           (Inr (map (\<lambda>k. \<lparr>db_header = watch_header k, db_hash = 0, db_receipt_logs = [watch_chain st ! k]\<rparr>)
              [Suc t..<Suc (watch_height st)]), take t (take 100 st)))\<rparr>,
      ne_constants = \<lparr>co_host_deploy_height = 5, co_pair_ru = (\<lambda>k. \<lparr>ph_host = 5 + k, ph_rollup = k\<rparr>),
        co_pair_host = (\<lambda>h. if h > 5 then Some \<lparr>ph_host = h, ph_rollup = h - 5\<rparr> else None),
        co_host_block_to_rollup_block_num = (\<lambda>h. if h > 5 then Some (h - 5) else None)\<rparr>,
      ne_notifier = \<lparr>no_next_notification = (\<lambda>n. case n of [] \<Rightarrow> (None, []) | nt # n' \<Rightarrow> (Some (Ok nt), n')),
        no_set_head = (\<lambda>_ n. n), no_set_backfill_thresholds = (\<lambda>_ n. n),
        no_send_finished_height = (\<lambda>_ n. (Inr (), n))\<rparr>,
      ne_extract = id, ne_ru_height = fst, ne_execute = (\<lambda>st x bl. (Ok x, bl)),
      ne_notif = (\<lambda>b. \<lparr>nb_header = watch_header (fst b), nb_tx_hashes = [], nb_receipt_logs = []\<rparr>),
      ne_launch_rpc = Inr (), ne_backfill_max_blocks = None\<rparr>"

definition watch_cold :: "nat log_chain \<Rightarrow> (unit, nat) cold_logs" where
  "watch_cold st =
     \<lparr>cl_get_header_hashes = (\<lambda>_. Inr []),
      cl_stream_logs = (\<lambda>flt mx d.
        case fl_block_option flt of
          Range (Some (Number a)) (Some (Number b)) \<Rightarrow>
            Inr (map Inr (matching (\<lambda>_ _. True) flt (watch_chain st) a (Suc b)))
        | _ \<Rightarrow> Inr [])\<rparr>"

lemma watch_storage:
  "so_append_blocks (ne_storage watch_node) [b] st =
     (if length st < 100 \<and> fst b = Suc (length st) then (Inr (), st @ [snd b]) else (Inl ''order'', st))"
  "so_drain_above (ne_storage watch_node) t st =
     (Inr (map (\<lambda>k. \<lparr>db_header = watch_header k, db_hash = 0, db_receipt_logs = [watch_chain st ! k]\<rparr>)
        [Suc t..<Suc (watch_height st)]), take t (take 100 st))"
  "block_number_of watch_node b = fst b"
  by (simp_all add: watch_node_def block_number_of_def watch_header_def)

lemma watch_chain_length: "length (watch_chain st) = Suc (watch_height st)"
  by (simp add: watch_chain_def watch_height_def)

lemma watch_node_laws: "log_laws watch_node watch_height watch_chain"
proof -
  have "node_laws watch_node watch_height"
    unfolding node_laws_def watch_storage
    by (auto simp: watch_node_def watch_height_def watch_header_def block_number_of_def comp_def
        simp del: upt_Suc split: if_splits)
  moreover have "watch_height st < u64_max" for st by (simp add: watch_height_def u64_max_def)
  moreover have "\<not> rl_removed l" if "ls \<in> set (watch_chain st)" "l \<in> set ls" for st ls l
    using that by (auto simp: watch_chain_def)
  moreover have "watch_chain (st @ [ls]) = watch_chain st @ [filter (\<lambda>l. \<not> rl_removed l) ls]" if "length st < 100" for st ls
    using that by (simp add: watch_chain_def)
  moreover have "watch_chain (take t (take 100 st)) = take (Suc t) (watch_chain st)" for t st
    by (simp add: watch_chain_def take_map min.commute)
  moreover have "map (\<lambda>k. watch_chain st ! k) [Suc t..<Suc (watch_height st)] = drop (Suc t) (watch_chain st)" for st t
    by (simp only: drop_nths watch_chain_length)
  ultimately show ?thesis
    unfolding log_laws_def watch_storage watch_chain_length
    by (auto simp: comp_def simp del: upt_Suc take_take split: if_splits)
qed

lemma watch_cold_holds: "cold_holds (\<lambda>_ _. True) (watch_cold st) (watch_chain st)"
  unfolding cold_holds_def watch_cold_def matching_def by (simp del: upt_Suc)

text \<open>The node is about to commit block 2 and then to replace it.\<close>

definition watch_commit :: "watch_block list host_notification" where
  "watch_commit = \<lparr>kind = ChainCommitted [(2, [ex_log 2])], safe_block_number = None, finalized_block_number = None\<rparr>"

definition watch_replace :: "watch_block list host_notification" where
  "watch_replace = \<lparr>kind = ChainReorged \<lparr>rr_first = 7, rr_tip = 7\<rparr> [(2, [ex_log 20])],
     safe_block_number = None, finalized_block_number = None\<rparr>"

definition watch_ns0 :: "(nat log_chain, watch_block list host_notification list, unit, nat) node_state" where
  "watch_ns0 = \<lparr>ns_storage = [[ex_log 1]], ns_notifier = [watch_commit, watch_replace], ns_blobs = (),
     ns_chain = (ChainNotifier_new 128)\<lparr>cn_tags := BlockTags_new 1 0 0\<rparr>, ns_status = AtHeight 1, ns_rpc_running = True\<rparr>"

definition watch_reorg :: "nat reorg_notification" where
  "watch_reorg = \<lparr>common_ancestor = 1, removed_blocks = [\<lparr>rm_number = 2, rm_hash = 0, rm_timestamp = 0, rm_logs = [ex_log 2]\<rparr>]\<rparr>"

lemma watch_last: "last_rollup_block watch_node st = Ok (watch_height st)"
  by (simp add: last_rollup_block_def watch_node_def)

lemma watch_drain:
  "so_drain_above (ne_storage watch_node) 1 [[ex_log 1], [ex_log 2]] =
     (Inr [\<lparr>db_header = watch_header 2, db_hash = 0, db_receipt_logs = [[ex_log 2]]\<rparr>], [[ex_log 1]])"
  unfolding watch_storage by (simp add: watch_height_def watch_chain_def upt_rec ex_log_def numeral_2_eq_2)

lemma watch_revert:
  assumes "ns_storage ns = [[ex_log 1], [ex_log 2]]" "cn_reorgs (ns_chain ns) = []"
  shows "\<exists>ns1. on_host_revert watch_node 8 \<lparr>rr_first = 7, rr_tip = 7\<rparr> ns = (Ok True, ns1)
    \<and> ns_storage ns1 = [[ex_log 1]] \<and> cn_reorgs (ns_chain ns1) = [(8, watch_reorg)]"
proof -
  have t: "revert_target (ne_constants watch_node) 7 = 1"
    "co_host_deploy_height (ne_constants watch_node) = 5"
    "co_host_block_to_rollup_block_num (ne_constants watch_node) 7 = Some 2"
    by (simp_all add: revert_target_def watch_node_def saturating_sub_def)
  show ?thesis
    using assms watch_drain
    by (simp add: on_host_revert_def watch_last t watch_height_def Let_def notify_reorg_def push_reorg_def
        watch_reorg_def removed_of_def watch_header_def MAX_REORG_ENTRIES_def)
qed

lemma watch_commit_block:
  assumes "length (ns_storage ns) < 100" "fst b = Suc (length (ns_storage ns))"
  shows "\<exists>ns1. process_committed_chain watch_node [b] ns = (Ok True, ns1) \<and> ns_storage ns1 = ns_storage ns @ [snd b]
    \<and> cn_reorgs (ns_chain ns1) = cn_reorgs (ns_chain ns) \<and> ns_notifier ns1 = ns_notifier ns"
proof -
  have e: "ne_extract watch_node [b] = [b]" "ne_ru_height watch_node b = fst b"
    "ne_execute watch_node (ns_storage ns) b () = (Ok b, ())"
    by (simp_all add: watch_node_def)
  show ?thesis
    using assms
    by (simp add: process_committed_chain_def watch_last e watch_height_def Let_def watch_storage notify_new_block_chain)
qed

lemma watch_tags:
  "\<exists>ns1. update_block_tags watch_node h s f ns = (Ok (), ns1) \<and> ns_storage ns1 = ns_storage ns
     \<and> cn_reorgs (ns_chain ns1) = cn_reorgs (ns_chain ns) \<and> ns_notifier ns1 = ns_notifier ns
     \<and> tag_latest (cn_tags (ns_chain ns1)) = h"
  by (simp add: update_block_tags_def update_all_result update_highest_processed_height_def watch_node_def Let_def)

lemma watch_turn1:
  "\<exists>ns1. node_turn watch_node 6 watch_ns0 = (None, ns1) \<and> ns_storage ns1 = [[ex_log 1], [ex_log 2]]
     \<and> ns_notifier ns1 = [watch_replace] \<and> cn_reorgs (ns_chain ns1) = []
     \<and> tag_latest (cn_tags (ns_chain ns1)) = 2"
proof -
  let ?ns = "watch_ns0\<lparr>ns_notifier := [watch_replace]\<rparr>"
  obtain ns1 where c: "process_committed_chain watch_node [(2, [ex_log 2])] ?ns = (Ok True, ns1)"
    "ns_storage ns1 = [[ex_log 1], [ex_log 2]]" "cn_reorgs (ns_chain ns1) = []" "ns_notifier ns1 = [watch_replace]"
    using watch_commit_block[of ?ns "(2, [ex_log 2])"] by (auto simp: watch_ns0_def ChainNotifier_new_def)
  have "on_notification watch_node 6 watch_commit ?ns = (Ok True, ns1\<lparr>ns_status := AtHeight 2\<rparr>)"
    using c(1,2) by (simp add: on_notification_def revert_phase_def commit_phase_def notif_revert_range_def committed_chain_def
        watch_commit_def map_report_def update_status_channel_def watch_last watch_height_def)
  moreover have "no_next_notification (ne_notifier watch_node) (ns_notifier watch_ns0) = (Some (Ok watch_commit), [watch_replace])"
    by (simp add: watch_node_def watch_ns0_def)
  moreover obtain ns2 where "update_block_tags watch_node (watch_height (ns_storage ns1)) None None (ns1\<lparr>ns_status := AtHeight 2\<rparr>) = (Ok (), ns2)"
    "ns_storage ns2 = ns_storage ns1" "cn_reorgs (ns_chain ns2) = cn_reorgs (ns_chain ns1)" "ns_notifier ns2 = ns_notifier ns1"
    "tag_latest (cn_tags (ns_chain ns2)) = watch_height (ns_storage ns1)"
    using watch_tags[of "watch_height (ns_storage ns1)" None None "ns1\<lparr>ns_status := AtHeight 2\<rparr>"] by auto
  ultimately show ?thesis using c by (simp add: node_turn_def watch_last watch_commit_def watch_height_def)
qed

lemma watch_turn2:
  assumes ns: "ns_storage ns = [[ex_log 1], [ex_log 2]]" "ns_notifier ns = [watch_replace]" "cn_reorgs (ns_chain ns) = []"
  shows "\<exists>ns2. node_turn watch_node 8 ns = (None, ns2) \<and> ns_storage ns2 = [[ex_log 1], [ex_log 20]]
     \<and> cn_reorgs (ns_chain ns2) = [(8, watch_reorg)] \<and> turn_fits watch_node watch_height 8 ns"
proof -
  let ?ns = "ns\<lparr>ns_notifier := []\<rparr>"
  obtain ns1 where r: "on_host_revert watch_node 8 \<lparr>rr_first = 7, rr_tip = 7\<rparr> ?ns = (Ok True, ns1)"
    "ns_storage ns1 = [[ex_log 1]]" "cn_reorgs (ns_chain ns1) = [(8, watch_reorg)]"
    using watch_revert[of ?ns] ns by auto
  obtain ns2 where c: "process_committed_chain watch_node [(2, [ex_log 20])] ns1 = (Ok True, ns2)"
    "ns_storage ns2 = [[ex_log 1], [ex_log 20]]" "cn_reorgs (ns_chain ns2) = [(8, watch_reorg)]"
    using watch_commit_block[of ns1 "(2, [ex_log 20])"] r by auto
  have rv: "revert_phase watch_node 8 watch_replace ?ns = (Ok True, ns1)"
    using r(1) by (simp add: revert_phase_def notif_revert_range_def watch_replace_def map_report_def)
  have on: "on_notification watch_node 8 watch_replace ?ns = (Ok True, ns2\<lparr>ns_status := AtHeight 2\<rparr>)"
    using rv c(1,2) by (simp add: on_notification_def commit_phase_def committed_chain_def
        watch_replace_def map_report_def update_status_channel_def watch_last watch_height_def)
  have nx: "no_next_notification (ne_notifier watch_node) (ns_notifier ns) = (Some (Ok watch_replace), [])"
    by (simp add: watch_node_def ns)
  obtain ns3 where t: "update_block_tags watch_node (watch_height (ns_storage ns2)) None None (ns2\<lparr>ns_status := AtHeight 2\<rparr>) = (Ok (), ns3)"
    "ns_storage ns3 = ns_storage ns2" "cn_reorgs (ns_chain ns3) = cn_reorgs (ns_chain ns2)"
    using watch_tags[of "watch_height (ns_storage ns2)" None None "ns2\<lparr>ns_status := AtHeight 2\<rparr>"] by auto
  have "turn_fits watch_node watch_height 8 ns"
    using nx rv r(2) by (simp add: turn_fits_def notification_fits_def committed_chain_def)
      (simp add: watch_replace_def continues_storage_def watch_node_def watch_height_def)
  then show ?thesis using nx on c t by (simp add: node_turn_def watch_last watch_replace_def)
qed

text \<open>
  Block 2 is committed while a poll is in progress whose query then fails; the next poll brings the block's log, which
  is replaced by a reorg before the last one.
\<close>

definition watch_down :: "(unit, nat) cold_logs" where
  "watch_down = \<lparr>cl_get_header_hashes = (\<lambda>_. Inl ''down''), cl_stream_logs = (\<lambda>_ _ _. Inl ''down'')\<rparr>"

definition watch_serve :: "nat log_chain \<Rightarrow> (unit, nat) cold_logs \<Rightarrow> bool" where
  "watch_serve st cs \<longleftrightarrow> cs = watch_cold st \<or> cs = watch_down"

lemma watch_serve_holds: "watch_serve st cs \<Longrightarrow> cold_holds (\<lambda>_ _. True) cs (watch_chain st)"
  using watch_cold_holds by (auto simp: watch_serve_def watch_down_def cold_holds_def)

lemma watch_cold_answers:
  "cold_answer cfg (watch_cold st) (flt\<lparr>fl_block_option := Range (Some (Number s)) (Some (Number b))\<rparr>) \<noteq> Err e"
  by (simp add: cold_answer_def watch_cold_def)

definition watch_snap :: "(unit, nat) poll_snapshot" where
  "watch_snap = \<lparr>ps_is_block = False, ps_filter = Some ex_filter, ps_start = 2, ps_removed = [], ps_empty = Log_Buf []\<rparr>"

lemma watch_poll_begin:
  assumes "fm_filters (wt_manager w) 1 = Some \<lparr>af_next_start_block = 2, af_last_poll_time = 5, af_kind = Log_Kind ex_filter\<rparr>"
    and "cn_reorgs (ns_chain (wt_node w)) = []"
  shows "\<exists>sv. poll_begin (\<lambda>_. []) (\<lambda>_ _. True) 1 (watch_server w) = (Ok watch_snap, sv)
    \<and> fm_filters (fs_manager sv) 1 = fm_filters (wt_manager w) 1"
  using assms
  by (simp add: poll_begin_def watch_server_def watch_snap_def reorgs_since_def compute_removed_logs_def Let_def)

theorem filter_follows_node_witness:
  "\<exists>w0 w ls sv'. watch_start 5 ex_filter watch_ns0 filter_manager_new = (Ok 1, w0)
     \<and> (watch_step watch_node watch_height watch_serve (\<lambda>_. []) (\<lambda>_ _. True) (StorageRpcConfig_default ex_f64) 1 2)\<^sup>*\<^sup>* w0 w
     \<and> get_filter_changes (\<lambda>_. []) (\<lambda>_ _. True) (StorageRpcConfig_default ex_f64)
         (watch_cold (ns_storage (wt_node w))) 9 1 (watch_server w) = (Ok (Log_Buf ls), sv')
     \<and> wt_logs w = {#ex_log 2#} \<and> client_apply ls (wt_logs w) = {#ex_log 20#}"
proof -
  let ?cfg = "StorageRpcConfig_default ex_f64"
  let ?step = "watch_step watch_node watch_height watch_serve (\<lambda>_. []) (\<lambda>_ _. True) ?cfg 1
      (Suc (watch_height (ns_storage watch_ns0)))"
  have cold: "\<forall>st cs. watch_serve st cs \<longrightarrow> cold_holds (\<lambda>_ _. True) cs (watch_chain st)" using watch_serve_holds by blast
  have init: "tag_latest (cn_tags (ns_chain watch_ns0)) = watch_height (ns_storage watch_ns0)"
    "\<forall>(t, r)\<in>set (cn_reorgs (ns_chain watch_ns0)). t \<le> 5" "length (cn_reorgs (ns_chain watch_ns0)) \<le> MAX_REORG_ENTRIES"
    "Suc (watch_height (ns_storage watch_ns0)) = 2" "cn_reorgs (ns_chain watch_ns0) = []"
    by (simp_all add: watch_ns0_def BlockTags_new_def watch_height_def ChainNotifier_new_def)
  obtain w0 :: "(nat log_chain, watch_block list host_notification list, unit, nat, unit) watch"
    where start: "watch_start 5 ex_filter watch_ns0 filter_manager_new = (Ok 1, w0)"
      and w0: "wt_node w0 = watch_ns0" "wt_now w0 = 5" "wt_reorgs w0 = 0" "wt_logs w0 = {#}" "wt_poll w0 = No_Poll"
        "\<not> wt_missed w0" "fm_filters (wt_manager w0) 1 =
          Some \<lparr>af_next_start_block = 2, af_last_poll_time = 5, af_kind = Log_Kind ex_filter\<rparr>"
    using init(1,4)
    by (simp add: watch_start_def new_filter_def install_log_filter_def install_filter_def next_filter_id_def
        filter_manager_new_def Let_def u64_simps u64_max_def)
  note follows = filter_follows_node[OF watch_node_laws cold init(1-3) start, where show_num = "\<lambda>_. []" and cfg = ?cfg]
  obtain sv0 where b0: "poll_begin (\<lambda>_. []) (\<lambda>_ _. True) 1 (watch_server w0) = (Ok watch_snap, sv0)"
    "fm_filters (fs_manager sv0) 1 = fm_filters (wt_manager w0) 1"
    using watch_poll_begin[OF w0(7)] w0(1) init(5) by auto
  define w1 where "w1 = w0\<lparr>wt_manager := fs_manager sv0, wt_poll := Began watch_snap,
    wt_missed := wt_missed w0 \<or> wt_reorgs w0 > MAX_REORG_ENTRIES\<rparr>"
  have s1: "?step w0 w1" unfolding w1_def by (rule watch_step.begin_poll[OF w0(5) b0(1)])
  obtain ns1 where n1: "node_turn watch_node 6 watch_ns0 = (None, ns1)" "ns_storage ns1 = [[ex_log 1], [ex_log 2]]"
    "ns_notifier ns1 = [watch_replace]" "cn_reorgs (ns_chain ns1) = []" "tag_latest (cn_tags (ns_chain ns1)) = 2"
    using watch_turn1 by blast
  have quiet: "recorded_at 6 ns1 = []" by (simp add: recorded_at_def n1(4))
  define w2 where "w2 = w1\<lparr>wt_node := ns1, wt_now := 6, wt_reorgs := wt_reorgs w1 + length (recorded_at 6 ns1),
    wt_missed := wt_missed w1 \<or> (wt_poll w1 \<noteq> No_Poll \<and> recorded_at 6 ns1 \<noteq> [])\<rparr>"
  have "turn_fits watch_node watch_height 6 watch_ns0"
    by (simp add: turn_fits_def notification_fits_def revert_phase_def notif_revert_range_def committed_chain_def
        watch_ns0_def watch_node_def watch_commit_def continues_storage_def watch_height_def)
  then have s2: "?step w1 w2"
    unfolding w2_def by (intro watch_step.turn) (simp_all add: w1_def w0 n1 quiet)
  let ?f = "\<lparr>af_next_start_block = 2, af_last_poll_time = 5, af_kind = Log_Kind ex_filter\<rparr>"
  have w2: "wt_node w2 = ns1" "wt_now w2 = 6" "wt_reorgs w2 = 0" "wt_logs w2 = {#}" "wt_poll w2 = Began watch_snap"
    "\<not> wt_missed w2" "fm_filters (wt_manager w2) 1 = Some ?f"
    using b0(2) w0(7) by (simp_all add: w2_def w1_def w0 quiet)
  define w3 where "w3 = w2\<lparr>wt_poll := Read_Tip watch_snap (tag_latest (cn_tags (ns_chain (wt_node w2))))\<rparr>"
  have s3: "?step w2 w3" unfolding w3_def by (rule watch_step.read_tip[OF w2(5)])
  define w4 where "w4 = w3\<lparr>wt_poll := No_Poll, wt_missed := wt_missed w3 \<or> ps_removed watch_snap \<noteq> []\<rparr>"
  have s4: "?step w3 w4"
    unfolding w4_def
    by (rule watch_step.fail[where cold = watch_down and e = "Cold ''down''" and latest = 2])
      (simp_all add: w3_def w2 n1(5) watch_serve_def watch_snap_def poll_result_def poll_query_def watch_down_def Let_def)
  have w4: "wt_node w4 = ns1" "wt_now w4 = 6" "wt_reorgs w4 = 0" "wt_logs w4 = {#}" "wt_poll w4 = No_Poll"
    "\<not> wt_missed w4" "fm_filters (wt_manager w4) 1 = Some ?f"
    using w2(7) by (simp_all add: w4_def w3_def w2 watch_snap_def)
  obtain sv4 where b4: "poll_begin (\<lambda>_. []) (\<lambda>_ _. True) 1 (watch_server w4) = (Ok watch_snap, sv4)"
    "fm_filters (fs_manager sv4) 1 = fm_filters (wt_manager w4) 1"
    using watch_poll_begin[OF w4(7)] w4(1) n1(4) by auto
  define w5 where "w5 = w4\<lparr>wt_manager := fs_manager sv4, wt_poll := Began watch_snap,
    wt_missed := wt_missed w4 \<or> wt_reorgs w4 > MAX_REORG_ENTRIES\<rparr>"
  have s5: "?step w4 w5" unfolding w5_def by (rule watch_step.begin_poll[OF w4(5) b4(1)])
  define w6 where "w6 = w5\<lparr>wt_poll := Read_Tip watch_snap (tag_latest (cn_tags (ns_chain (wt_node w5))))\<rparr>"
  have s6: "?step w5 w6" unfolding w6_def by (rule watch_step.read_tip) (simp add: w5_def)
  have "poll_result ?cfg (watch_cold (ns_storage ns1)) 2 watch_snap =
      Ok (Log_Buf (matching (\<lambda>_ _. True) ex_filter (watch_chain (ns_storage ns1)) 2 (Suc 2)))"
    by (simp add: poll_result_def poll_query_def watch_snap_def watch_cold_def Let_def matching_def)
  then obtain ls where ls: "poll_result ?cfg (watch_cold (ns_storage ns1)) 2 watch_snap = Ok (Log_Buf ls)" by blast
  define w7 where "w7 = w6\<lparr>wt_poll := Answered watch_snap 2 (Log_Buf ls)\<rparr>"
  have s7: "?step w6 w7"
    unfolding w7_def
    by (rule watch_step.answer[where cold = "watch_cold (ns_storage ns1)"])
      (simp_all add: w6_def w5_def w4 n1(5) watch_serve_def ls)
  have w7: "wt_node w7 = ns1" "wt_now w7 = 6" "wt_logs w7 = {#}" "\<not> wt_missed w7" "wt_poll w7 = Answered watch_snap 2 (Log_Buf ls)"
    by (simp_all add: w7_def w6_def w5_def w4)
  have run7: "?step\<^sup>*\<^sup>* w0 w7"
    using s1 s2 s3 s4 s5 s6 s7 by (meson rtranclp.rtrancl_into_rtrancl rtranclp.rtrancl_refl)
  have m7: "matching (\<lambda>_ _. True) ex_filter (watch_chain (ns_storage ns1)) (Suc (watch_height (ns_storage watch_ns0))) (Suc 2) = [ex_log 2]"
    unfolding init(4) n1(2) by (simp add: matching_def watch_chain_def ex_log_def upt_rec numeral_2_eq_2)
  have got: "client_apply ls {#} = {#ex_log 2#}"
    using conjunct1[OF follows[OF run7 w7(4)], rule_format, OF w7(5)] m7 by (auto simp: w7(1,3))
  define w8 where "w8 = w7\<lparr>wt_manager := fs_manager (poll_commit 7 1 watch_snap 2 (watch_server w7)), wt_now := 7,
    wt_poll := No_Poll, wt_reorgs := 0, wt_logs := client_apply ls (wt_logs w7)\<rparr>"
  have s8: "?step w7 w8" unfolding w8_def by (rule watch_step.commit[OF w7(5)]) (simp add: w7)
  have w8: "wt_node w8 = ns1" "wt_now w8 = 7" "wt_reorgs w8 = 0" "wt_logs w8 = {#ex_log 2#}" "wt_poll w8 = No_Poll" "\<not> wt_missed w8"
    by (simp_all add: w8_def w7 got)
  obtain ns2 where n2: "node_turn watch_node 8 ns1 = (None, ns2)" "ns_storage ns2 = [[ex_log 1], [ex_log 20]]"
    "cn_reorgs (ns_chain ns2) = [(8, watch_reorg)]" "turn_fits watch_node watch_height 8 ns1"
    using watch_turn2[OF n1(2-4)] by blast
  have rec: "recorded_at 8 ns2 = [watch_reorg]" using n2(3) by (simp add: recorded_at_def)
  define w9 where "w9 = w8\<lparr>wt_node := ns2, wt_now := 8, wt_reorgs := wt_reorgs w8 + length (recorded_at 8 ns2),
    wt_missed := wt_missed w8 \<or> (wt_poll w8 \<noteq> No_Poll \<and> recorded_at 8 ns2 \<noteq> [])\<rparr>"
  have s9: "?step w8 w9"
    unfolding w9_def by (intro watch_step.turn) (simp_all add: w8 n2 rec init(4) watch_reorg_def)
  have w9: "wt_node w9 = ns2" "wt_reorgs w9 = 1" "wt_logs w9 = {#ex_log 2#}" "wt_poll w9 = No_Poll" "\<not> wt_missed w9"
    by (simp_all add: w9_def w8 rec)
  have run: "?step\<^sup>*\<^sup>* w0 w9" using run7 s8 s9 by (meson rtranclp.rtrancl_into_rtrancl)
  have m9: "matching (\<lambda>_ _. True) ex_filter (watch_chain (ns_storage (wt_node w9)))
      (Suc (watch_height (ns_storage watch_ns0))) (length (watch_chain (ns_storage (wt_node w9)))) = [ex_log 20]"
    using w9 n2(2) init(4) by (simp add: matching_def watch_chain_def ex_log_def upt_rec)
  have few: "wt_reorgs w9 \<le> MAX_REORG_ENTRIES" using w9 by (simp add: MAX_REORG_ENTRIES_def)
  have serve: "watch_serve (ns_storage (wt_node w9)) (watch_cold (ns_storage (wt_node w9)))" by (simp add: watch_serve_def)
  obtain r sv' where p: "get_filter_changes (\<lambda>_. []) (\<lambda>_ _. True) ?cfg
      (watch_cold (ns_storage (wt_node w9))) 9 1 (watch_server w9) = (r, sv')"
    by force
  obtain ls' where ls': "r = Ok (Log_Buf ls')" "client_apply ls' (wt_logs w9) = mset [ex_log 20]"
    using conjunct2[OF follows[OF run w9(5)], rule_format, OF w9(4) few serve p] unfolding m9
    using watch_cold_answers by blast
  have run': "(watch_step watch_node watch_height watch_serve (\<lambda>_. []) (\<lambda>_ _. True) ?cfg 1 2)\<^sup>*\<^sup>* w0 w9"
    using run unfolding init(4) .
  have "client_apply ls' (wt_logs w9) = {#ex_log 20#}" using ls'(2) by simp
  then show ?thesis using start run' p ls'(1) w9(3) by blast
qed

end
