(* ===== verification/Node_Subs.thy ===== *)
theory Node_Subs
  imports Node_Filters Interest_Subs "HOL-Library.Sublist"
begin

text \<open>
  A subscriber of the running node: turns of the node's main loop and rounds of the
  subscription task, interleaved in any order. The node sends its events to a channel, the
  task takes them off in order and sends what its filter makes of them. The channel keeps a
  bounded number of events; a task that falls further behind loses the oldest, which the code
  only notes in its trace. The abstract promise for a task that never lagged is again that of a
  replica (\<open>client_apply\<close>), now for logs that are pushed.
\<close>

section \<open>What an event makes of a client\<close>

text \<open>All logs of a block as the server announces them.\<close>

definition announced_logs :: "(header \<Rightarrow> b256) \<Rightarrow> 'l new_block_notification \<Rightarrow> 'l rpc_log list" where
  "announced_logs hash_slow n =
     map (\<lambda>(i, e). to_rpc_log hash_slow (nb_header n) i e)
       (enumerate 0 (concat (map (\<lambda>(i, (h, r)). map (\<lambda>l. (i, h, l)) r)
          (enumerate 0 (zip (nb_tx_hashes n) (nb_receipt_logs n))))))"

fun item_log :: "('l, 'b) event_item \<Rightarrow> 'l rpc_log list" where
  "item_log (Log_Item l) = [l]"
| "item_log (Block_Item b) = []"

definition item_logs :: "('l, 'b) event_item list \<Rightarrow> 'l rpc_log list" where
  "item_logs items = concat (map item_log items)"

lemma item_logs_simps [simp]:
  "item_logs [] = []" "item_logs (xs @ ys) = item_logs xs @ item_logs ys"
  "item_logs (map Log_Item ls) = ls"
  by (induction ls) (simp_all add: item_logs_def)

lemma items_of_block:
  assumes "length (nb_receipt_logs n) \<le> length (nb_tx_hashes n)"
  shows "items_of hash_slow matches (Log_Kind f) (NewBlock n) =
    map Log_Item (filter (\<lambda>l. matches f (rl_inner l)) (announced_logs hash_slow n))"
proof -
  let ?flat = "concat (map (\<lambda>(i, (h, r)). map (\<lambda>l. (i, h, l)) r)
    (enumerate 0 (zip (nb_tx_hashes n) (nb_receipt_logs n))))"
  have "(flat_logs 0 (nb_tx_hashes n) (nb_receipt_logs n) :: (_, unit) rresult) = Ok ?flat"
    by (rule flat_logs_Ok [OF assms])
  moreover have "filter (\<lambda>l. matches f (rl_inner l)) (announced_logs hash_slow n) =
      map (\<lambda>(i, e). to_rpc_log hash_slow (nb_header n) i e)
        (filter (\<lambda>(i, (tx, h, l)). matches f l) (enumerate 0 ?flat))"
    unfolding announced_logs_def filter_map
    by (intro arg_cong [where f = "map _"] filter_cong) (auto simp: to_rpc_log_def)
  ultimately show ?thesis
    by (simp add: items_of_def event_output_def filter_notification_for_sub_def apply_filter_def)
qed

lemma items_of_reorg:
  "items_of hash_slow matches (Log_Kind f) (Reorg_Event r) =
     map Log_Item (map mark_removed (filter (\<lambda>l. matches f (rl_inner l)) (concat (map rm_logs (removed_blocks r)))))"
  by (simp add: items_of_def event_output_def filter_reorg_for_sub_def)

section \<open>Events and changes of the chain\<close>

text \<open>
  What is assumed beside the laws of storage: a block that is stored has the logs that its
  notification announces, and its notification has a transaction for each receipt.
\<close>

definition announces_stored ::
  "('st, 'rd, 'eb, 'l, 'n, 'c, 'x, 's) node_env \<Rightarrow> ('st \<Rightarrow> 'l log_chain) \<Rightarrow> (header \<Rightarrow> b256) \<Rightarrow> bool" where
  "announces_stored E logs hash_slow \<longleftrightarrow>
     (\<forall>b st u st'. so_append_blocks (ne_storage E) [b] st = (Inr u, st') \<longrightarrow>
        block_number_of E b = length (logs st) \<longrightarrow>
        length (nb_receipt_logs (ne_notif E b)) \<le> length (nb_tx_hashes (ne_notif E b))
        \<and> logs st' = logs st @ [announced_logs hash_slow (ne_notif E b)])"

lemma told_block:
  assumes "announces_stored E logs hash_slow" "tells E logs (Append ls) ev"
  obtains n where "ev = NewBlock n" "ls = announced_logs hash_slow n"
    "length (nb_receipt_logs n) \<le> length (nb_tx_hashes n)"
proof -
  obtain n where n: "ev = NewBlock n" using assms(2) by (cases ev) auto
  then obtain b u st st' where
    "so_append_blocks (ne_storage E) [b] st = (Inr u, st')" "block_number_of E b = length (logs st)"
    "logs st' = logs st @ [ls]" "n = ne_notif E b"
    using assms(2) by auto
  then show ?thesis
    using assms(1) n that unfolding announces_stored_def by fastforce
qed

lemma told_reorgs:
  "list_all2 (tells E logs) es evs \<Longrightarrow> r \<in> set (reorgs_of es) \<Longrightarrow> Reorg_Event r \<in> set evs"
proof (induction rule: list_all2_induct)
  case (Cons e es ev evs)
  then show ?case by (cases e; cases ev) auto
qed simp

lemma announced_plain: "l \<in> set (announced_logs hash_slow n) \<Longrightarrow> \<not> rl_removed l"
  by (auto simp: announced_logs_def to_rpc_log_def)

lemma cut_logs:
  assumes "names_cut c r"
  shows "filter (\<lambda>l. matches f (rl_inner l)) (concat (map rm_logs (removed_blocks r))) =
    matching matches f c (Suc (common_ancestor r)) (length c)"
proof -
  have "map snd (map (\<lambda>b. (rm_number b, rm_logs b)) (removed_blocks r)) =
      map snd (map (\<lambda>k. (k, c ! k)) [Suc (common_ancestor r)..<length c])"
    using assms unfolding names_cut_def by metis
  then have "map rm_logs (removed_blocks r) = map (\<lambda>k. c ! k) [Suc (common_ancestor r)..<length c]"
    by (simp add: comp_def del: upt_Suc)
  then show ?thesis by (simp add: matching_def)
qed

lemma replay_change:
  assumes ann: "announces_stored E logs hash_slow" and tells: "tells E logs e ev"
    and ok: "change_ok c e" and a: "a \<le> length c" "\<forall>r\<in>set (reorgs_of [e]). a \<le> Suc (common_ancestor r)"
    and plain: "\<forall>ls\<in>set c. \<forall>l\<in>set ls. \<not> rl_removed l"
  shows "client_apply (item_logs (items_of hash_slow matches (Log_Kind f) ev)) (mset (matching matches f c a (length c)))
      = mset (matching matches f (apply_change c e) a (length (apply_change c e)))
    \<and> a \<le> length (apply_change c e) \<and> (\<forall>ls\<in>set (apply_change c e). \<forall>l\<in>set ls. \<not> rl_removed l)"
proof (cases e)
  case (Append ls)
  obtain n where n: "ev = NewBlock n" "ls = announced_logs hash_slow n"
    "length (nb_receipt_logs n) \<le> length (nb_tx_hashes n)"
    using told_block [OF ann] tells Append by blast
  have new: "item_logs (items_of hash_slow matches (Log_Kind f) ev) =
      matching matches f (c @ [ls]) (length c) (length (c @ [ls]))"
    by (simp add: n items_of_block matching_def)
  have plain': "\<forall>ks\<in>set (c @ [ls]). \<forall>l\<in>set ks. \<not> rl_removed l"
    using plain announced_plain n(2) by auto
  have "client_apply ([] @ matching matches f (c @ [ls]) (length c) (length (c @ [ls])))
      (mset (matching matches f c a (length c))) = mset (matching matches f (c @ [ls]) a (length (c @ [ls])))"
    using a(1) plain plain' by (intro client_in_step) (simp_all add: matching_def)
  then show ?thesis using new plain' a(1) Append by simp
next
  case (Cut r)
  let ?t = "Suc (common_ancestor r)"
  have r: "ev = Reorg_Event r" using tells Cut by (cases ev) auto
  have cut: "names_cut c r" using ok Cut by simp
  then have t: "?t \<le> length c" "length (take ?t c) = ?t" by (auto simp: names_cut_def)
  have at: "a \<le> ?t" using a(2) Cut by simp
  have gone: "item_logs (items_of hash_slow matches (Log_Kind f) ev) =
      map mark_removed (matching matches f c ?t (length c)) @ matching matches f (take ?t c) ?t (length (take ?t c))"
    unfolding r items_of_reorg cut_logs [OF cut] t(2) item_logs_simps(3) by (simp add: matching_def)
  have plain': "\<forall>ks\<in>set (take ?t c). \<forall>l\<in>set ks. \<not> rl_removed l"
    using plain by (meson in_set_takeD)
  have "client_apply (map mark_removed (matching matches f c ?t (length c)) @
        matching matches f (take ?t c) ?t (length (take ?t c))) (mset (matching matches f c a (length c)))
      = mset (matching matches f (take ?t c) a (length (take ?t c)))"
    using at t plain plain' by (intro client_in_step) simp_all
  then show ?thesis using gone plain' at t(2) Cut by simp
qed

lemma replay_changes:
  assumes ann: "announces_stored E logs hash_slow"
  shows "list_all2 (tells E logs) es evs \<Longrightarrow> changes_ok c es \<Longrightarrow> a \<le> length c \<Longrightarrow>
    \<forall>r\<in>set (reorgs_of es). a \<le> Suc (common_ancestor r) \<Longrightarrow> \<forall>ls\<in>set c. \<forall>l\<in>set ls. \<not> rl_removed l \<Longrightarrow>
    client_apply (item_logs (concat (map (items_of hash_slow matches (Log_Kind f)) evs)))
        (mset (matching matches f c a (length c)))
      = mset (matching matches f (final_chain c es) a (length (final_chain c es)))"
proof (induction arbitrary: c rule: list_all2_induct)
  case (Cons e es ev evs)
  have split: "reorgs_of (e # es) = reorgs_of [e] @ reorgs_of es"
    using reorgs_of_append [of "[e]" es] by simp
  have "\<forall>r\<in>set (reorgs_of [e]). a \<le> Suc (common_ancestor r)"
    using Cons.prems(3) by (simp add: split)
  note step = replay_change [OF ann Cons.hyps(1) _ Cons.prems(2) this Cons.prems(4), of matches f]
  show ?case
    using Cons.IH [of "apply_change c e"] step Cons.prems(1,3)
    by (simp add: client_apply_append split)
qed simp

section \<open>The session\<close>

record ('st, 'n, 's, 'l, 'f) push =
  pu_node :: "('st, 'n, 's, 'l) node_state"
  pu_task :: "('f, 'l) sub_task"
  pu_taken :: nat
  pu_lagged :: bool

definition push_start :: "'f \<Rightarrow> ('st, 'n, 's, 'l) node_state \<Rightarrow> ('st, 'n, 's, 'l, 'f) push" where
  "push_start f ns =
     \<lparr>pu_node = ns\<lparr>ns_chain := subscribe_chain (ns_chain ns)\<rparr>, pu_task = sub_task_start (Log_Kind f),
      pu_taken = length (cn_sent (ns_chain ns)), pu_lagged = False\<rparr>"

text \<open>
  The parties move as follows. A turn of the node is fed with chains that continue storage and
  forks at or behind block \<open>a\<close>. The channel holds the last \<open>hold\<close> events (its capacity, which tokio
  may round up). A round of the task that polls the channel finds the next event, or none, while the task is no
  further behind; otherwise it is told how many events it lost, and goes on at the oldest
  that is held. The node lives, and other receivers come and go.
\<close>

definition polls_channel :: "'l select_round \<Rightarrow> ('f, 'l) sub_task \<Rightarrow> bool" where
  "polls_channel rd st \<longleftrightarrow>
     \<not> (sr_disconnected rd \<or> sr_cancelled rd \<or> (\<not> buf_is_empty (st_buffer st) \<and> sr_permits rd \<noteq> None))"

inductive push_step ::
  "('st, 'rd, 'eb, 'l, 'n, 'ch, 'x, 's) node_env \<Rightarrow> ('st \<Rightarrow> u64) \<Rightarrow> (header \<Rightarrow> b256) \<Rightarrow> ('f \<Rightarrow> 'l \<Rightarrow> bool)
     \<Rightarrow> usize \<Rightarrow> nat \<Rightarrow> nat \<Rightarrow> ('st, 'n, 's, 'l, 'f) push \<Rightarrow> ('st, 'n, 's, 'l, 'f) push \<Rightarrow> bool"
  for E height hash_slow matches capacity hold a where
  turn: "node_turn E now (pu_node w) = (None, ns') \<Longrightarrow> turn_fits E height now (pu_node w) \<Longrightarrow>
     \<forall>r. Reorg_Event r \<in> set (drop (length (cn_sent (ns_chain (pu_node w)))) (cn_sent (ns_chain ns')))
       \<longrightarrow> a \<le> Suc (common_ancestor r) \<Longrightarrow>
     push_step E height hash_slow matches capacity hold a w (w\<lparr>pu_node := ns'\<rparr>)"
| round: "st_running (pu_task w) \<Longrightarrow>
     sr_recv rd = None \<or> pu_taken w < length (cn_sent (ns_chain (pu_node w)))
       \<and> length (cn_sent (ns_chain (pu_node w))) \<le> pu_taken w + hold
       \<and> sr_recv rd = Some (Recv_Ok (cn_sent (ns_chain (pu_node w)) ! pu_taken w)) \<Longrightarrow>
     sub_step hash_slow matches capacity rd (pu_task w) = Ok st' \<Longrightarrow>
     push_step E height hash_slow matches capacity hold a w
       (w\<lparr>pu_task := st', pu_taken := pu_taken w + (if round_event rd (pu_task w) = None then 0 else 1)\<rparr>)"
| lag: "st_running (pu_task w) \<Longrightarrow> polls_channel rd (pu_task w) \<Longrightarrow>
     length (cn_sent (ns_chain (pu_node w))) = pu_taken w + skipped + hold \<Longrightarrow> 0 < skipped \<Longrightarrow>
     sr_recv rd = Some (Recv_Lagged skipped) \<Longrightarrow>
     sub_step hash_slow matches capacity rd (pu_task w) = Ok st' \<Longrightarrow>
     push_step E height hash_slow matches capacity hold a w
       (w\<lparr>pu_task := st', pu_taken := pu_taken w + skipped, pu_lagged := True\<rparr>)"
| other: "0 < k \<Longrightarrow>
     push_step E height hash_slow matches capacity hold a w
       (w\<lparr>pu_node := (pu_node w)\<lparr>ns_chain := (ns_chain (pu_node w))\<lparr>cn_receivers := k\<rparr>\<rparr>\<rparr>)"

text \<open>
  \<open>c0\<close> and \<open>sent0\<close> are the stored chain and the events sent when the subscription started. What
  the task sent and buffers comes from the events \<open>seen\<close> it took: all up to its position unless it lagged.
\<close>

definition push_inv ::
  "('st, 'rd, 'eb, 'l, 'n, 'ch, 'x, 's) node_env \<Rightarrow> ('st \<Rightarrow> u64) \<Rightarrow> ('st \<Rightarrow> 'l log_chain) \<Rightarrow> (header \<Rightarrow> b256)
     \<Rightarrow> ('f \<Rightarrow> 'l \<Rightarrow> bool) \<Rightarrow> 'f \<Rightarrow> nat \<Rightarrow> 'l log_chain \<Rightarrow> 'l chain_event list \<Rightarrow> ('st, 'n, 's, 'l, 'f) push \<Rightarrow> bool" where
  "push_inv E height logs hash_slow matches f a c0 sent0 w \<longleftrightarrow>
     (\<exists>es evs seen. list_all2 (tells E logs) es evs \<and> changes_ok c0 es
        \<and> logs (ns_storage (pu_node w)) = final_chain c0 es
        \<and> (\<forall>r\<in>set (reorgs_of es). a \<le> Suc (common_ancestor r))
        \<and> cn_sent (ns_chain (pu_node w)) = sent0 @ evs
        \<and> length sent0 \<le> pu_taken w \<and> pu_taken w \<le> length (sent0 @ evs)
        \<and> subseq seen (take (pu_taken w - length sent0) evs)
        \<and> (\<not> pu_lagged w \<longrightarrow> seen = take (pu_taken w - length sent0) evs)
        \<and> st_sent (pu_task w) @ buf_items (st_buffer (pu_task w)) =
            concat (map (items_of hash_slow matches (Log_Kind f)) seen))
     \<and> 0 < cn_receivers (ns_chain (pu_node w))
     \<and> st_filter (pu_task w) = Log_Kind f \<and> fits (Log_Kind f) (st_buffer (pu_task w))
     \<and> tag_latest (cn_tags (ns_chain (pu_node w))) = height (ns_storage (pu_node w))"

lemma push_start_inv:
  assumes "tag_latest (cn_tags (ns_chain ns)) = height (ns_storage ns)"
  shows "push_inv E height logs hash_slow matches f a (logs (ns_storage ns)) (cn_sent (ns_chain ns)) (push_start f ns)"
  using assms
  by (auto simp: push_inv_def push_start_def subscribe_chain_def sub_task_start_def fits_def evb.kind_refl
      intro!: exI [of _ "[]"])

lemma push_turn_inv:
  assumes laws: "log_laws E height logs" and inv: "push_inv E height logs hash_slow matches f a c0 sent0 w"
    and run: "node_turn E now (pu_node w) = (None, ns')" "turn_fits E height now (pu_node w)"
    and low: "\<forall>r. Reorg_Event r \<in> set (drop (length (cn_sent (ns_chain (pu_node w)))) (cn_sent (ns_chain ns')))
       \<longrightarrow> a \<le> Suc (common_ancestor r)"
  shows "push_inv E height logs hash_slow matches f a c0 sent0 (w\<lparr>pu_node := ns'\<rparr>)"
proof -
  obtain es evs seen where es: "list_all2 (tells E logs) es evs" "changes_ok c0 es"
      "logs (ns_storage (pu_node w)) = final_chain c0 es" "\<forall>r\<in>set (reorgs_of es). a \<le> Suc (common_ancestor r)"
    and sent: "cn_sent (ns_chain (pu_node w)) = sent0 @ evs"
    and taken: "length sent0 \<le> pu_taken w" "pu_taken w \<le> length (sent0 @ evs)"
      "subseq seen (take (pu_taken w - length sent0) evs)"
      "\<not> pu_lagged w \<longrightarrow> seen = take (pu_taken w - length sent0) evs"
      "st_sent (pu_task w) @ buf_items (st_buffer (pu_task w)) =
         concat (map (items_of hash_slow matches (Log_Kind f)) seen)"
    and rest: "0 < cn_receivers (ns_chain (pu_node w))" "st_filter (pu_task w) = Log_Kind f"
      "fits (Log_Kind f) (st_buffer (pu_task w))"
      "tag_latest (cn_tags (ns_chain (pu_node w))) = height (ns_storage (pu_node w))"
    using inv unfolding push_inv_def by blast
  obtain new where new: "node_changed E logs now new (pu_node w) ns'"
    and tip: "tag_latest (cn_tags (ns_chain ns')) = height (ns_storage ns')"
    using turn_changes [OF laws run(2,1) rest(4)] by blast
  obtain evs' where evs': "cn_sent (ns_chain ns') = cn_sent (ns_chain (pu_node w)) @ evs'"
      "list_all2 (tells E logs) new evs'" "cn_receivers (ns_chain ns') = cn_receivers (ns_chain (pu_node w))"
    using new rest(1) unfolding node_changed_def node_told_def by blast
  have "\<forall>r\<in>set (reorgs_of new). a \<le> Suc (common_ancestor r)"
    using low told_reorgs [OF evs'(2)] by (simp add: evs'(1))
  then show ?thesis
    unfolding push_inv_def
    using es sent taken rest tip evs' new list_all2_appendI [OF es(1) evs'(2)]
    by (intro conjI exI [of _ "es @ new"] exI [of _ "evs @ evs'"] exI [of _ seen])
      (auto simp: node_changed_def changes_ok_append final_chain_append reorgs_of_append)
qed

lemma push_round_inv:
  assumes inv: "push_inv E height logs hash_slow matches f a c0 sent0 w"
    and recv: "sr_recv rd = None \<or> pu_taken w < length (cn_sent (ns_chain (pu_node w)))
       \<and> length (cn_sent (ns_chain (pu_node w))) \<le> pu_taken w + hold
       \<and> sr_recv rd = Some (Recv_Ok (cn_sent (ns_chain (pu_node w)) ! pu_taken w))"
    and step: "sub_step hash_slow matches capacity rd (pu_task w) = Ok st'"
  shows "push_inv E height logs hash_slow matches f a c0 sent0
    (w\<lparr>pu_task := st', pu_taken := pu_taken w + (if round_event rd (pu_task w) = None then 0 else 1)\<rparr>)"
proof -
  obtain es evs seen where es: "list_all2 (tells E logs) es evs" "changes_ok c0 es"
      "logs (ns_storage (pu_node w)) = final_chain c0 es" "\<forall>r\<in>set (reorgs_of es). a \<le> Suc (common_ancestor r)"
    and sent: "cn_sent (ns_chain (pu_node w)) = sent0 @ evs"
    and taken: "length sent0 \<le> pu_taken w" "pu_taken w \<le> length (sent0 @ evs)"
      "subseq seen (take (pu_taken w - length sent0) evs)"
      "\<not> pu_lagged w \<longrightarrow> seen = take (pu_taken w - length sent0) evs"
      "st_sent (pu_task w) @ buf_items (st_buffer (pu_task w)) =
         concat (map (items_of hash_slow matches (Log_Kind f)) seen)"
    and rest: "0 < cn_receivers (ns_chain (pu_node w))" "st_filter (pu_task w) = Log_Kind f"
      "fits (Log_Kind f) (st_buffer (pu_task w))"
      "tag_latest (cn_tags (ns_chain (pu_node w))) = height (ns_storage (pu_node w))"
    using inv unfolding push_inv_def by blast
  have d: "fits (st_filter st') (st_buffer st') \<and> st_filter st' = st_filter (pu_task w)
    \<and> st_sent st' @ buf_items (st_buffer st') =
        st_sent (pu_task w) @ buf_items (st_buffer (pu_task w))
        @ (case round_event rd (pu_task w) of None \<Rightarrow> [] | Some ev \<Rightarrow> items_of hash_slow matches (st_filter (pu_task w)) ev)"
    by (rule sub_step_delivers [OF _ step]) (simp add: rest)
  then have fits': "fits (Log_Kind f) (st_buffer st')" "st_filter st' = Log_Kind f"
    using rest(2) by metis+
  show ?thesis
  proof (cases "round_event rd (pu_task w)")
    case None
    then show ?thesis
      unfolding push_inv_def using es sent taken rest d fits'
      by (intro conjI exI [of _ es] exI [of _ evs] exI [of _ seen]) simp_all
  next
    case (Some ev)
    let ?k = "pu_taken w - length sent0"
    have lt: "pu_taken w < length (sent0 @ evs)" and ev: "ev = (sent0 @ evs) ! pu_taken w"
      using recv Some unfolding sent round_event_def by (auto split: if_splits)
    then have k: "?k < length evs" "ev = evs ! ?k" "Suc (pu_taken w) - length sent0 = Suc ?k"
      using taken(1) by (auto simp: nth_append)
    have up: "take (Suc ?k) evs = take ?k evs @ [ev]"
      using k by (simp add: take_Suc_conv_app_nth)
    then have "subseq (seen @ [ev]) (take (Suc ?k) evs)"
      using taken(3) by (simp add: list_emb_append_mono)
    moreover have "st_sent st' @ buf_items (st_buffer st') =
        concat (map (items_of hash_slow matches (Log_Kind f)) (seen @ [ev]))"
      using d Some taken(5) rest(2) by simp
    moreover have "\<not> pu_lagged w \<longrightarrow> seen @ [ev] = take (Suc ?k) evs" using taken(4) up by simp
    ultimately show ?thesis
      unfolding push_inv_def using es sent taken(1,2) rest fits' Some lt k(3)
      by (intro conjI exI [of _ es] exI [of _ evs] exI [of _ "seen @ [ev]"]) simp_all
  qed
qed

lemma push_lag_inv:
  assumes inv: "push_inv E height logs hash_slow matches f a c0 sent0 w"
    and lost: "length (cn_sent (ns_chain (pu_node w))) = pu_taken w + skipped + hold"
    and rd: "polls_channel rd (pu_task w)" "sr_recv rd = Some (Recv_Lagged skipped)"
    and step: "sub_step hash_slow matches capacity rd (pu_task w) = Ok st'"
  shows "push_inv E height logs hash_slow matches f a c0 sent0
    (w\<lparr>pu_task := st', pu_taken := pu_taken w + skipped, pu_lagged := True\<rparr>)"
proof -
  have same: "st' = pu_task w" using rd step by (auto simp: sub_step_def polls_channel_def)
  obtain es evs seen where es: "list_all2 (tells E logs) es evs" "changes_ok c0 es"
      "logs (ns_storage (pu_node w)) = final_chain c0 es" "\<forall>r\<in>set (reorgs_of es). a \<le> Suc (common_ancestor r)"
    and sent: "cn_sent (ns_chain (pu_node w)) = sent0 @ evs"
    and taken: "length sent0 \<le> pu_taken w" "subseq seen (take (pu_taken w - length sent0) evs)"
      "st_sent (pu_task w) @ buf_items (st_buffer (pu_task w)) =
         concat (map (items_of hash_slow matches (Log_Kind f)) seen)"
    and rest: "0 < cn_receivers (ns_chain (pu_node w))" "st_filter (pu_task w) = Log_Kind f"
      "fits (Log_Kind f) (st_buffer (pu_task w))"
      "tag_latest (cn_tags (ns_chain (pu_node w))) = height (ns_storage (pu_node w))"
    using inv unfolding push_inv_def by blast
  let ?k = "pu_taken w - length sent0"
  have "take (pu_taken w + skipped - length sent0) evs = take ?k evs @ take skipped (drop ?k evs)"
    using taken(1) by (simp flip: take_add)
  then have "subseq seen (take (pu_taken w + skipped - length sent0) evs)"
    using taken(2) by (simp add: list_emb_prefix)
  then show ?thesis
    unfolding push_inv_def using es sent taken rest lost same
    by (intro conjI exI [of _ es] exI [of _ evs] exI [of _ seen]) simp_all
qed

lemma push_step_inv:
  assumes "log_laws E height logs" "push_step E height hash_slow matches capacity hold a w w'"
    "push_inv E height logs hash_slow matches f a c0 sent0 w"
  shows "push_inv E height logs hash_slow matches f a c0 sent0 w'"
  using assms(2)
proof (cases rule: push_step.cases)
  case (turn now ns')
  then show ?thesis using push_turn_inv [OF assms(1,3)] by simp
next
  case (round rd st')
  then show ?thesis using push_round_inv [OF assms(3)] by simp
next
  case (lag rd skipped st')
  then show ?thesis using push_lag_inv [OF assms(3)] by simp
next
  case (other k)
  then show ?thesis using assms(3) unfolding push_inv_def by simp
qed

section \<open>Catching up\<close>

definition send_round :: "'l select_round" where
  "send_round = \<lparr>sr_disconnected = False, sr_cancelled = False, sr_permits = Some True, sr_recv = None\<rparr>"

definition take_round :: "'l chain_event \<Rightarrow> 'l select_round" where
  "take_round ev = \<lparr>sr_disconnected = False, sr_cancelled = False, sr_permits = None, sr_recv = Some (Recv_Ok ev)\<rparr>"

lemma sub_step_sends:
  assumes "2 \<le> capacity" "\<not> buf_is_empty (st_buffer st)"
  shows "\<exists>st'. sub_step hash_slow matches capacity send_round st = Ok st' \<and> st_running st' = st_running st
    \<and> buf_len (st_buffer st') < buf_len (st_buffer st) \<and> round_event send_round st = None"
proof -
  let ?k = "permits_wanted capacity (st_buffer st)"
  obtain b' where b': "send_items ?k (st_buffer st) = (take ?k (buf_items (st_buffer st)), b')"
    "buf_items b' = drop ?k (buf_items (st_buffer st))"
    using send_items_takes by blast
  have "0 < ?k" "buf_items (st_buffer st) \<noteq> []"
    using assms by (auto simp: permits_wanted_def buf_is_empty_def buf_len_items)
  then have "buf_len b' < buf_len (st_buffer st)"
    by (simp add: buf_len_items b'(2))
  then show ?thesis
    using assms(2) b'(1) by (simp add: sub_step_def send_round_def round_event_def)
qed

lemma sub_step_takes:
  assumes "event_output hash_slow matches (st_filter st) ev = Ok b"
    and "fits (st_filter st) (st_buffer st)" "buf_is_empty (st_buffer st)"
  shows "\<exists>st'. sub_step hash_slow matches capacity (take_round ev) st = Ok st' \<and> st_running st' = st_running st
    \<and> round_event (take_round ev) st = Some ev"
proof -
  obtain q where "(buf_extend (st_buffer st) b :: (_, unit) rresult) = Ok q"
    using evb.extend_items [OF fits_same [OF assms(2) fits_output [OF assms(1)]]] by blast
  then show ?thesis
    using assms by (simp add: sub_step_def take_round_def round_event_def)
qed

lemma told_event_output:
  assumes "announces_stored E logs hash_slow" "tells E logs e ev"
  shows "\<exists>b. event_output hash_slow matches (Log_Kind f) ev = Ok b"
proof (cases e)
  case (Append ls)
  then obtain n where n: "ev = NewBlock n" "length (nb_receipt_logs n) \<le> length (nb_tx_hashes n)"
    using told_block [OF assms(1)] assms(2) by blast
  then obtain ls where "(flat_logs 0 (nb_tx_hashes n) (nb_receipt_logs n) :: (_, unit) rresult) = Ok ls"
    using flat_logs_Ok [OF n(2)] by blast
  then show ?thesis
    using n(1) by (simp add: event_output_def filter_notification_for_sub_def apply_filter_def)
next
  case (Cut r)
  then show ?thesis using assms(2) by (cases ev) (auto simp: event_output_def)
qed

definition drained :: "('st, 'n, 's, 'l, 'f) push \<Rightarrow> bool" where
  "drained w \<longleftrightarrow> pu_taken w = length (cn_sent (ns_chain (pu_node w))) \<and> buf_is_empty (st_buffer (pu_task w))"

lemma buffer_sent:
  assumes "2 \<le> capacity" "st_running (pu_task w)"
  shows "\<exists>w'. (push_step E height hash_slow matches capacity hold a)\<^sup>*\<^sup>* w w' \<and> pu_node w' = pu_node w
    \<and> pu_taken w' = pu_taken w \<and> pu_lagged w' = pu_lagged w
    \<and> st_running (pu_task w') \<and> buf_is_empty (st_buffer (pu_task w'))"
  using assms(2)
proof (induction "buf_len (st_buffer (pu_task w))" arbitrary: w rule: less_induct)
  case less
  show ?case
  proof (cases "buf_is_empty (st_buffer (pu_task w))")
    case False
    obtain st' where st': "sub_step hash_slow matches capacity send_round (pu_task w) = Ok st'"
      "st_running st' = st_running (pu_task w)" "buf_len (st_buffer st') < buf_len (st_buffer (pu_task w))"
      "round_event send_round (pu_task w) = None"
      using sub_step_sends [OF assms(1) False] by blast
    let ?w = "w\<lparr>pu_task := st', pu_taken := pu_taken w + (if round_event send_round (pu_task w) = None then 0 else 1)\<rparr>"
    have step: "push_step E height hash_slow matches capacity hold a w ?w"
      by (rule push_step.round [OF less.prems _ st'(1)]) (simp add: send_round_def)
    from less.hyps [of ?w] obtain w' where w':
      "(push_step E height hash_slow matches capacity hold a)\<^sup>*\<^sup>* ?w w'" "pu_node w' = pu_node w"
      "pu_taken w' = pu_taken w" "pu_lagged w' = pu_lagged w" "st_running (pu_task w')" "buf_is_empty (st_buffer (pu_task w'))"
      using st' less.prems by auto
    have "(push_step E height hash_slow matches capacity hold a)\<^sup>*\<^sup>* w w'"
      using step w'(1) by (rule converse_rtranclp_into_rtranclp)
    then show ?thesis using w'(2-6) by blast
  qed (use less.prems in blast)
qed

text \<open>
  A running task that is no further behind than the channel holds works off the channel and its buffer
  without losing anything.
\<close>

lemma push_catches_up:
  assumes laws: "log_laws E height logs" and ann: "announces_stored E logs hash_slow" and cap: "2 \<le> capacity"
    and "push_inv E height logs hash_slow matches f a c0 sent0 w" "st_running (pu_task w)"
    and "length (cn_sent (ns_chain (pu_node w))) \<le> pu_taken w + hold"
  shows "\<exists>w'. (push_step E height hash_slow matches capacity hold a)\<^sup>*\<^sup>* w w' \<and> pu_node w' = pu_node w
    \<and> drained w' \<and> pu_lagged w' = pu_lagged w"
  using assms(4-6)
proof (induction "length (cn_sent (ns_chain (pu_node w))) - pu_taken w" arbitrary: w)
  case 0
  then have "pu_taken w = length (cn_sent (ns_chain (pu_node w)))"
    unfolding push_inv_def by auto
  then show ?case
    using buffer_sent [OF cap "0.prems"(2), of E height hash_slow matches hold a] by (auto simp: drained_def)
next
  case (Suc k)
  obtain w1 where w1: "(push_step E height hash_slow matches capacity hold a)\<^sup>*\<^sup>* w w1" "pu_node w1 = pu_node w"
    "pu_taken w1 = pu_taken w" "st_running (pu_task w1)" "buf_is_empty (st_buffer (pu_task w1))" "pu_lagged w1 = pu_lagged w"
    using buffer_sent [OF cap Suc.prems(2)] by blast
  have inv1: "push_inv E height logs hash_slow matches f a c0 sent0 w1"
    using w1(1) Suc.prems(1) by (induction rule: rtranclp_induct) (auto intro: push_step_inv [OF laws])
  obtain es evs where es: "list_all2 (tells E logs) es evs"
    and sent: "cn_sent (ns_chain (pu_node w1)) = sent0 @ evs" and taken: "length sent0 \<le> pu_taken w1"
    and task: "st_filter (pu_task w1) = Log_Kind f" "fits (Log_Kind f) (st_buffer (pu_task w1))"
    using inv1 unfolding push_inv_def by blast
  let ?ev = "cn_sent (ns_chain (pu_node w1)) ! pu_taken w1"
  have lt: "pu_taken w1 < length (cn_sent (ns_chain (pu_node w1)))"
    using Suc.hyps(2) w1(2,3) by simp
  have near: "length (cn_sent (ns_chain (pu_node w1))) \<le> pu_taken w1 + hold"
    using Suc.prems(3) w1(2,3) by simp
  have ev: "?ev = evs ! (pu_taken w1 - length sent0)" "pu_taken w1 - length sent0 < length evs"
    using lt taken by (auto simp: sent nth_append)
  then have "tells E logs (es ! (pu_taken w1 - length sent0)) ?ev"
    using list_all2_nthD2 [OF es ev(2)] by simp
  then obtain b where "event_output hash_slow matches (st_filter (pu_task w1)) ?ev = Ok b"
    using told_event_output [OF ann] task(1) by metis
  then obtain st' where st': "sub_step hash_slow matches capacity (take_round ?ev) (pu_task w1) = Ok st'"
    "st_running st' = st_running (pu_task w1)" "round_event (take_round ?ev) (pu_task w1) = Some ?ev"
    using sub_step_takes task w1(5) by metis
  let ?w = "w1\<lparr>pu_task := st', pu_taken := pu_taken w1 + (if round_event (take_round ?ev) (pu_task w1) = None then 0 else 1)\<rparr>"
  have step: "push_step E height hash_slow matches capacity hold a w1 ?w"
    by (rule push_step.round [OF w1(4) _ st'(1)]) (use lt near in \<open>simp add: take_round_def\<close>)
  have "\<exists>w'. (push_step E height hash_slow matches capacity hold a)\<^sup>*\<^sup>* ?w w' \<and> pu_node w' = pu_node ?w
      \<and> drained w' \<and> pu_lagged w' = pu_lagged ?w"
    using Suc.hyps(2) w1(2,3,4) st' lt near push_step_inv [OF laws step inv1]
    by (intro Suc.hyps(1)) simp_all
  then obtain w' where w': "(push_step E height hash_slow matches capacity hold a)\<^sup>*\<^sup>* ?w w'" "pu_node w' = pu_node w"
    "drained w'" "pu_lagged w' = pu_lagged w"
    using w1(2,6) by auto
  have "(push_step E height hash_slow matches capacity hold a)\<^sup>*\<^sup>* w w'"
    using w1(1) step w'(1) by (meson rtranclp.rtrancl_into_rtrancl rtranclp_trans)
  then show ?case using w'(2-4) by blast
qed

section \<open>The subscriber follows the node\<close>

text \<open>C4: The client of a log subscription whose task never lagged holds, whenever the task has worked off the channel and
  its buffer, exactly the matching logs of the blocks the running node has stored since the
  subscription, each as often as the chain has it: whatever turns the main loop took (commits,
  reverts and reorgs that fork at or behind the block of the subscription) and however the
  rounds of the task were interleaved with them. A running task with at most as many events before
  it as the channel's capacity can always work them off without lagging. Lagging or not, what it sends comes
  from events the node sent since the subscription, in their order and each at most once.\<close>

theorem subscription_follows_node:
  assumes laws: "log_laws E height logs" and ann: "announces_stored E logs hash_slow"
    and tip: "tag_latest (cn_tags (ns_chain ns)) = height (ns_storage ns)"
    and hold: "cn_capacity (ns_chain ns) \<le> hold"
    and run: "(push_step E height hash_slow matches capacity hold (Suc (height (ns_storage ns))))\<^sup>*\<^sup>* (push_start f ns) w"
  shows "(drained w \<longrightarrow> \<not> pu_lagged w \<longrightarrow> client_apply (item_logs (st_sent (pu_task w))) {#} =
      mset (matching matches f (logs (ns_storage (pu_node w)))
        (Suc (height (ns_storage ns))) (length (logs (ns_storage (pu_node w))))))
    \<and> (2 \<le> capacity \<longrightarrow> st_running (pu_task w) \<longrightarrow>
        length (cn_sent (ns_chain (pu_node w))) \<le> pu_taken w + cn_capacity (ns_chain ns) \<longrightarrow>
        (\<exists>w'. (push_step E height hash_slow matches capacity hold (Suc (height (ns_storage ns))))\<^sup>*\<^sup>* w w' \<and>
           pu_node w' = pu_node w \<and> drained w' \<and> pu_lagged w' = pu_lagged w))
    \<and> (\<exists>seen. subseq seen (drop (length (cn_sent (ns_chain ns))) (cn_sent (ns_chain (pu_node w))))
         \<and> st_sent (pu_task w) @ buf_items (st_buffer (pu_task w)) =
             concat (map (items_of hash_slow matches (Log_Kind f)) seen))"
proof -
  let ?c0 = "logs (ns_storage ns)" and ?a = "Suc (height (ns_storage ns))" and ?s0 = "cn_sent (ns_chain ns)"
  have inv: "push_inv E height logs hash_slow matches f ?a ?c0 ?s0 w"
    using run
  proof (induction rule: rtranclp_induct)
    case base
    show ?case by (rule push_start_inv [where height = height, OF tip])
  qed (rule push_step_inv [OF laws])
  from inv obtain es evs seen where es: "list_all2 (tells E logs) es evs" "changes_ok ?c0 es"
      "logs (ns_storage (pu_node w)) = final_chain ?c0 es" "\<forall>r\<in>set (reorgs_of es). ?a \<le> Suc (common_ancestor r)"
    and sent: "cn_sent (ns_chain (pu_node w)) = ?s0 @ evs"
    and seen: "subseq seen (take (pu_taken w - length ?s0) evs)"
      "\<not> pu_lagged w \<longrightarrow> seen = take (pu_taken w - length ?s0) evs"
    and items: "st_sent (pu_task w) @ buf_items (st_buffer (pu_task w)) =
         concat (map (items_of hash_slow matches (Log_Kind f)) seen)"
    unfolding push_inv_def by blast
  have len: "length ?c0 = ?a" using log_lawsD(2) [OF laws] .
  have plain: "\<forall>ls\<in>set ?c0. \<forall>l\<in>set ls. \<not> rl_removed l" using log_lawsD(4) [OF laws] by blast
  have none: "mset (matching matches f ?c0 ?a (length ?c0)) = {#}"
    by (simp add: len matching_def)
  have exact: "client_apply (item_logs (st_sent (pu_task w))) {#} =
      mset (matching matches f (logs (ns_storage (pu_node w))) ?a (length (logs (ns_storage (pu_node w)))))"
    if d: "drained w" "\<not> pu_lagged w"
  proof -
    have "buf_items (st_buffer (pu_task w)) = []"
      using d by (simp add: drained_def buf_is_empty_def buf_len_items)
    then have "st_sent (pu_task w) = concat (map (items_of hash_slow matches (Log_Kind f)) evs)"
      using items seen(2) d by (simp add: sent drained_def)
    then show ?thesis
      using replay_changes [OF ann es(1,2) _ es(4) plain, of matches f] len es(3) none by simp
  qed
  have catch: "\<exists>w'. (push_step E height hash_slow matches capacity hold ?a)\<^sup>*\<^sup>* w w' \<and>
      pu_node w' = pu_node w \<and> drained w' \<and> pu_lagged w' = pu_lagged w"
    if "2 \<le> capacity" "st_running (pu_task w)"
      "length (cn_sent (ns_chain (pu_node w))) \<le> pu_taken w + cn_capacity (ns_chain ns)"
    using that hold by (intro push_catches_up [OF laws ann _ inv]) simp_all
  have "subseq seen evs" using seen(1) by (metis subseq_order.trans sublist_take sublist_imp_subseq)
  then show ?thesis using exact catch items sent by auto
qed

section \<open>An instance\<close>

text \<open>Storage is the list of the raw logs of its blocks behind genesis (at most 100).\<close>

type_synonym push_block = "nat \<times> nat list"

definition push_notif :: "push_block \<Rightarrow> nat new_block_notification" where
  "push_notif b = \<lparr>nb_header = watch_header (fst b), nb_tx_hashes = [9], nb_receipt_logs = [snd b]\<rparr>"

definition push_height :: "nat list list \<Rightarrow> u64" where
  "push_height st = length (take 100 st)"

definition push_chain :: "nat list list \<Rightarrow> nat log_chain" where
  "push_chain st = [] # map (\<lambda>k. announced_logs h_parent_hash (push_notif (Suc k, st ! k))) [0..<push_height st]"

definition push_node :: "(nat list list, nat list list, push_block, nat, push_block list host_notification list,
    push_block list, push_block, unit) node_env" where
  "push_node =
     \<lparr>ne_storage = \<lparr>so_reader = Inr, so_last_block_number = (\<lambda>st. Inr (Some (push_height st))),
        so_cold_latest = (\<lambda>st. Inr None),
        so_unwind_above = (\<lambda>t st. (Inr (), take t st)),
        so_append_blocks = (\<lambda>bs st. case bs of [] \<Rightarrow> (Inr (), st)
         | b # _ \<Rightarrow> if length st < 100 \<and> fst b = Suc (length st) then (Inr (), st @ [snd b]) else (Inl ''order'', st)),
        so_drain_above = (\<lambda>t st.
           (Inr (map (\<lambda>k. \<lparr>db_header = watch_header k, db_hash = 0, db_receipt_logs = [push_chain st ! k]\<rparr>)
              [Suc t..<Suc (push_height st)]), take t (take 100 st)))\<rparr>,
      ne_constants = ne_constants watch_node,
      ne_notifier = \<lparr>no_next_notification = (\<lambda>n. case n of [] \<Rightarrow> (None, []) | nt # n' \<Rightarrow> (Some (Ok nt), n')),
        no_set_head = (\<lambda>_ n. n), no_set_backfill_thresholds = (\<lambda>_ n. n),
        no_send_finished_height = (\<lambda>_ n. (Inr (), n))\<rparr>,
      ne_extract = id, ne_ru_height = fst, ne_execute = (\<lambda>st x bl. (Ok x, bl)),
      ne_notif = push_notif, ne_launch_rpc = Inr (), ne_backfill_max_blocks = None\<rparr>"

lemma push_storage:
  "so_append_blocks (ne_storage push_node) [b] st =
     (if length st < 100 \<and> fst b = Suc (length st) then (Inr (), st @ [snd b]) else (Inl ''order'', st))"
  "so_drain_above (ne_storage push_node) t st =
     (Inr (map (\<lambda>k. \<lparr>db_header = watch_header k, db_hash = 0, db_receipt_logs = [push_chain st ! k]\<rparr>)
        [Suc t..<Suc (push_height st)]), take t (take 100 st))"
  "block_number_of push_node b = fst b"
  by (simp_all add: push_node_def block_number_of_def push_notif_def watch_header_def)

lemma push_chain_length: "length (push_chain st) = Suc (push_height st)"
  by (simp add: push_chain_def)

lemma push_chain_append:
  "length st < 100 \<Longrightarrow>
     push_chain (st @ [ls]) = push_chain st @ [announced_logs h_parent_hash (push_notif (Suc (length st), ls))]"
  by (simp add: push_chain_def push_height_def nth_append)

lemma push_chain_take: "push_chain (take t (take 100 st)) = take (Suc t) (push_chain st)"
  by (auto simp: push_chain_def push_height_def take_map min_def)

lemma push_node_laws: "log_laws push_node push_height push_chain"
proof -
  have "node_laws push_node push_height"
    unfolding node_laws_def push_storage
    by (auto simp: push_node_def push_height_def watch_header_def push_notif_def block_number_of_def comp_def
        simp del: upt_Suc split: if_splits)
  moreover have "push_height st < u64_max" for st by (simp add: push_height_def u64_max_def)
  moreover have "\<not> rl_removed l" if "ls \<in> set (push_chain st)" "l \<in> set ls" for st ls l
    using that announced_plain by (auto simp: push_chain_def)
  moreover have "map (\<lambda>k. push_chain st ! k) [Suc t..<Suc (push_height st)] = drop (Suc t) (push_chain st)" for st t
    by (simp only: drop_nths push_chain_length)
  ultimately show ?thesis
    unfolding log_laws_def push_storage push_chain_length
    by (auto simp: comp_def push_chain_append push_chain_take simp del: upt_Suc take_take split: if_splits)
qed

lemma push_node_announces: "announces_stored push_node push_chain h_parent_hash"
  unfolding announces_stored_def push_storage
  by (auto simp: push_chain_append push_node_def split: if_splits) (simp_all add: push_notif_def)

definition push_ns0 :: "(nat list list, push_block list host_notification list, unit, nat) node_state" where
  "push_ns0 = \<lparr>ns_storage = [[5]],
     ns_notifier = [\<lparr>kind = ChainCommitted [(2, [7])], safe_block_number = None, finalized_block_number = None\<rparr>],
     ns_blobs = (), ns_chain = (ChainNotifier_new 128)\<lparr>cn_tags := BlockTags_new 1 0 0\<rparr>, ns_status = AtHeight 1,
     ns_rpc_running = True\<rparr>"

lemma push_node_last: "last_rollup_block push_node st = Ok (push_height st)"
  by (simp add: last_rollup_block_def push_node_def)

lemma push_turn:
  assumes "w = push_start f push_ns0"
  shows "\<exists>ns1. node_turn push_node 6 (pu_node w) = (None, ns1) \<and> ns_storage ns1 = [[5], [7]]
    \<and> cn_sent (ns_chain ns1) = [NewBlock (push_notif (2, [7]))]
    \<and> turn_fits push_node push_height 6 (pu_node w)"
proof -
  let ?ns = "pu_node w"
  have x: "ns_storage ?ns = [[5]]" "ns_blobs ?ns = ()" "cn_sent (ns_chain ?ns) = []" "cn_receivers (ns_chain ?ns) = 1"
    "no_next_notification (ne_notifier push_node) (ns_notifier ?ns) =
       (Some (Ok \<lparr>kind = ChainCommitted [(2, [7])], safe_block_number = None, finalized_block_number = None\<rparr>), [])"
    by (simp_all add: assms push_start_def push_ns0_def subscribe_chain_def ChainNotifier_new_def push_node_def)
  have e: "ne_extract push_node [(2, [7])] = [(2, [7])]" "ne_ru_height push_node (2, [7]) = 2"
    "ne_execute push_node [[5]] (2, [7]) () = (Ok (2, [7]), ())" "ne_notif push_node = push_notif"
    by (simp_all add: push_node_def)
  have tags: "\<exists>ns1. update_block_tags push_node h s g ns = (Ok (), ns1) \<and> ns_storage ns1 = ns_storage ns
     \<and> cn_sent (ns_chain ns1) = cn_sent (ns_chain ns)" for h s g ns
    by (simp add: update_block_tags_def update_highest_processed_height_def push_node_def watch_node_def Let_def)
  have "turn_fits push_node push_height 6 ?ns"
    unfolding turn_fits_def x(5)
    by (simp add: notification_fits_def revert_phase_def notif_revert_range_def committed_chain_def
        continues_storage_def e(1) x(1)) (simp add: push_node_def push_height_def)
  moreover obtain ns1 where p: "process_committed_chain push_node [(2, [7])] (?ns\<lparr>ns_notifier := []\<rparr>) = (Ok True, ns1)"
    "ns_storage ns1 = [[5], [7]]" "cn_sent (ns_chain ns1) = [NewBlock (push_notif (2, [7]))]"
    by (simp add: process_committed_chain_def push_node_last push_height_def e x Let_def push_storage
        notify_new_block_chain sent_events_def)
  moreover obtain ns2 where "update_block_tags push_node (push_height (ns_storage ns1)) None None
        (ns1\<lparr>ns_status := AtHeight (push_height (ns_storage ns1))\<rparr>) = (Ok (), ns2)" "ns_storage ns2 = ns_storage ns1"
    "cn_sent (ns_chain ns2) = cn_sent (ns_chain ns1)"
    using tags [of "push_height (ns_storage ns1)" None None "ns1\<lparr>ns_status := AtHeight (push_height (ns_storage ns1))\<rparr>"] by auto
  ultimately show ?thesis
    unfolding node_turn_def x(5)
    by (simp add: on_notification_def revert_phase_def commit_phase_def notif_revert_range_def committed_chain_def
        map_report_def update_status_channel_def push_node_last push_height_def)
qed

theorem subscription_follows_node_witness:
  "\<exists>w. (push_step push_node push_height h_parent_hash (\<lambda>_ _. True) 4 128 2)\<^sup>*\<^sup>* (push_start () push_ns0) w
     \<and> client_apply (item_logs (st_sent (pu_task w))) {#} =
         mset (announced_logs h_parent_hash (push_notif (2, [7])))"
proof -
  let ?step = "push_step push_node push_height h_parent_hash (\<lambda>_ _. True) 4 128 (Suc (push_height (ns_storage push_ns0)))"
  let ?w0 = "push_start () push_ns0"
  have init: "tag_latest (cn_tags (ns_chain push_ns0)) = push_height (ns_storage push_ns0)"
    "Suc (push_height (ns_storage push_ns0)) = 2"
    by (simp_all add: push_ns0_def BlockTags_new_def push_height_def)
  have cap: "cn_capacity (ns_chain push_ns0) = 128" by (simp add: push_ns0_def ChainNotifier_new_def)
  note follows = subscription_follows_node [OF push_node_laws push_node_announces init(1) eq_imp_le [OF cap],
      where matches = "\<lambda>_ _. True" and f = "()" and capacity = 4]
  obtain ns1 where ns1: "node_turn push_node 6 (pu_node ?w0) = (None, ns1)" "ns_storage ns1 = [[5], [7]]"
    "cn_sent (ns_chain ns1) = [NewBlock (push_notif (2, [7]))]" "turn_fits push_node push_height 6 (pu_node ?w0)"
    using push_turn [where f = "()", OF refl] by (elim exE conjE) (rule that)
  have "?step ?w0 (?w0\<lparr>pu_node := ns1\<rparr>)"
    by (rule push_step.turn [OF ns1(1,4)]) (auto simp: ns1(3) dest: in_set_dropD)
  then have run: "?step\<^sup>*\<^sup>* ?w0 (?w0\<lparr>pu_node := ns1\<rparr>)" by (rule r_into_rtranclp)
  have "st_running (pu_task (?w0\<lparr>pu_node := ns1\<rparr>))" and "2 \<le> (4 :: nat)"
    and "length (cn_sent (ns_chain (pu_node (?w0\<lparr>pu_node := ns1\<rparr>)))) \<le> pu_taken (?w0\<lparr>pu_node := ns1\<rparr>) + cn_capacity (ns_chain push_ns0)"
    by (simp_all add: push_start_def sub_task_start_def ns1(3) cap)
  from conjunct1 [OF conjunct2 [OF follows [OF run]], rule_format, OF this(2,1,3)]
  obtain w where w: "?step\<^sup>*\<^sup>* (?w0\<lparr>pu_node := ns1\<rparr>) w" "pu_node w = ns1" "drained w" "\<not> pu_lagged w"
    by (auto simp: cap push_start_def)
  have run': "?step\<^sup>*\<^sup>* ?w0 w" using run w(1) by (rule rtranclp_trans)
  have "client_apply (item_logs (st_sent (pu_task w))) {#} = mset (matching (\<lambda>_ _. True) ()
      (push_chain [[5], [7]]) 2 (length (push_chain [[5], [7]])))"
    using conjunct1 [OF follows [OF run'], rule_format, OF w(3,4)] by (simp only: w(2) ns1(2) init(2))
  moreover have "matching (\<lambda>_ _. True) () (push_chain [[5], [7]]) 2 (length (push_chain [[5], [7]])) =
      announced_logs h_parent_hash (push_notif (2, [7]))"
    by (simp add: matching_def push_chain_def push_height_def upt_rec numeral_2_eq_2)
  ultimately show ?thesis using run' unfolding init(2) by auto
qed

end
