(* ===== verification/Metered.thy ===== *)
theory Metered
  imports Node_Invariant Host_Reth_Facts
begin

text \<open>
  Where the metrics are taken: the node's loop with its four counters
  (\<^verbatim>\<open>node/src/node.rs\<close>) and the database backfill of \<^verbatim>\<open>host-reth\<close>, each run next to the
  operation it observes, with what the numbers mean.
\<close>

section \<open>Notifications of the node\<close>

definition on_notification_metered ::
  "('st, 'rd, 'eb, 'l, 'n, 'c, 'x, 's) node_env \<Rightarrow> instant \<Rightarrow> 'c host_notification \<Rightarrow> ('st, 'n, 's, 'l) node_state
     \<Rightarrow> recorder \<Rightarrow> ((bool, report) rresult \<times> ('st, 'n, 's, 'l) node_state) \<times> recorder" where
  "on_notification_metered E now nt ns m =
     (let m1 = record_notification_received nt m; out = on_notification E now nt ns
      in case fst out of
           Ok changed \<Rightarrow> (out, record_notification_processed nt m1)
         | _ \<Rightarrow> (out, m1))"

text \<open>The loop's own behaviour is that of \<open>node_turn\<close>; the recorder follows its notifications.\<close>

definition turn_recorder ::
  "('st, 'rd, 'eb, 'l, 'n, 'c, 'x, 's) node_env \<Rightarrow> instant \<Rightarrow> ('st, 'n, 's, 'l) node_state \<Rightarrow> recorder \<Rightarrow> recorder" where
  "turn_recorder E now ns m =
     (case no_next_notification (ne_notifier E) (ns_notifier ns) of
        (Some (Ok nt), n) \<Rightarrow> snd (on_notification_metered E now nt (ns\<lparr>ns_notifier := n\<rparr>) m)
      | _ \<Rightarrow> m)"

fun loop_recorder ::
  "('st, 'rd, 'eb, 'l, 'n, 'c, 'x, 's) node_env \<Rightarrow> instant list \<Rightarrow> ('st, 'n, 's, 'l) node_state \<Rightarrow> recorder \<Rightarrow> recorder" where
  "loop_recorder E [] ns m = m"
| "loop_recorder E (now # clock) ns m =
     (case node_turn E now ns of
        (None, ns1) \<Rightarrow> loop_recorder E clock ns1 (turn_recorder E now ns m)
      | (Some r, ns1) \<Rightarrow> turn_recorder E now ns m)"

definition received :: "recorder \<Rightarrow> nat" where "received m = counted NOTIFICATION_RECEIVED (rec_ops m)"
definition processed :: "recorder \<Rightarrow> nat" where "processed m = counted NOTIFICATIONS_PROCESSED (rec_ops m)"
definition reorgs_received :: "recorder \<Rightarrow> nat" where "reorgs_received m = counted REORGS_RECEIVED (rec_ops m)"
definition reorgs_processed :: "recorder \<Rightarrow> nat" where "reorgs_processed m = counted REORGS_PROCESSED (rec_ops m)"

lemmas node_counts = received_def processed_def reorgs_received_def reorgs_processed_def

lemma record_received_counts:
  "received (record_notification_received nt m) = Suc (received m)"
  "processed (record_notification_received nt m) = processed m"
  "reorgs_received (record_notification_received nt m) = reorgs_received m + (if notif_revert_range nt \<noteq> None then 1 else 0)"
  "reorgs_processed (record_notification_received nt m) = reorgs_processed m"
  by (auto simp: node_counts record_notification_received_def node_metric_defs emitted node_metric_names Let_def)

lemma record_processed_counts:
  "received (record_notification_processed nt m) = received m"
  "processed (record_notification_processed nt m) = Suc (processed m)"
  "reorgs_received (record_notification_processed nt m) = reorgs_received m"
  "reorgs_processed (record_notification_processed nt m) = reorgs_processed m + (if notif_revert_range nt \<noteq> None then 1 else 0)"
  by (auto simp: node_counts record_notification_processed_def node_metric_defs emitted node_metric_names Let_def)

definition balanced :: "recorder \<Rightarrow> bool" where
  "balanced m \<longleftrightarrow> received m = processed m \<and> reorgs_received m = reorgs_processed m"

text \<open>A turn that goes on leaves the counters balanced; one that ends leaves at most its own notification open.\<close>

lemma turn_recorder_balance:
  assumes "balanced m" "node_turn E now ns = (r, ns')"
  shows "(r = None \<longrightarrow> balanced (turn_recorder E now ns m))
    \<and> processed (turn_recorder E now ns m) \<le> received (turn_recorder E now ns m)
    \<and> received (turn_recorder E now ns m) \<le> Suc (processed (turn_recorder E now ns m))
    \<and> reorgs_received (turn_recorder E now ns m) - reorgs_processed (turn_recorder E now ns m)
        \<le> received (turn_recorder E now ns m) - processed (turn_recorder E now ns m)"
proof -
  consider (got) nt n where "no_next_notification (ne_notifier E) (ns_notifier ns) = (Some (Ok nt), n)"
    | (none) "turn_recorder E now ns m = m"
    by (cases "no_next_notification (ne_notifier E) (ns_notifier ns)"; cases "fst (no_next_notification (ne_notifier E) (ns_notifier ns))";
        cases "the (fst (no_next_notification (ne_notifier E) (ns_notifier ns)))")
      (auto simp: turn_recorder_def)
  then show ?thesis
  proof cases
    case got
    obtain out ns1 where out: "on_notification E now nt (ns\<lparr>ns_notifier := n\<rparr>) = (out, ns1)" by force
    have t: "turn_recorder E now ns m = (case out of Ok _ \<Rightarrow> record_notification_processed nt (record_notification_received nt m)
        | _ \<Rightarrow> record_notification_received nt m)"
      using got out by (simp add: turn_recorder_def on_notification_metered_def Let_def split: rresult.split)
    have "r \<noteq> None" if "\<forall>c. out \<noteq> Ok c"
      using assms(2) got out that by (cases out) (auto simp: node_turn_def)
    then show ?thesis
      using assms(1) by (cases out) (auto simp: t balanced_def record_received_counts record_processed_counts)
  qed (use assms(1) in \<open>auto simp: balanced_def\<close>)
qed

text \<open>
  However long the node ran, the counters differ by at most one notification, the one at which it
  stopped with an error; while it runs between two turns every notification received was processed.
\<close>

theorem notifications_accounted:
  assumes "balanced m" "node_loop E clock ns = (r, ns')" "m' = loop_recorder E clock ns m"
  shows "(r = None \<longrightarrow> balanced m') \<and> processed m' \<le> received m' \<and> received m' \<le> Suc (processed m')
    \<and> reorgs_received m' - reorgs_processed m' \<le> received m' - processed m'"
  using assms
proof (induction clock arbitrary: ns m)
  case (Cons now clock)
  obtain q ns1 where t: "node_turn E now ns = (q, ns1)" by force
  note b = turn_recorder_balance[OF Cons.prems(1) t]
  show ?case
  proof (cases q)
    case None
    then have "node_loop E clock ns1 = (r, ns')" "m' = loop_recorder E clock ns1 (turn_recorder E now ns m)"
      using Cons.prems(2,3) t by simp_all
    then show ?thesis using Cons.IH b None by blast
  qed (use Cons.prems(2,3) t b in auto)
qed (auto simp: balanced_def)

section \<open>The database backfill\<close>

definition next_batch_metered ::
  "('w, 'tx, 'r) reth_provider \<Rightarrow> db_backfill \<Rightarrow> nat \<Rightarrow> 'w \<Rightarrow> recorder
     \<Rightarrow> ((('tx, 'r) db_chain_segment option, reth_host_error) rresult \<times> db_backfill \<times> 'w) \<times> recorder" where
  "next_batch_metered p b elapsed w m =
     (case next_batch p b w of
        (Ok (Some segment), b1, w1) \<Rightarrow>
          ((Ok (Some segment), b1, w1),
           set_backfill_cursor (bf_cursor b1) (reth_record_backfill_batch (dbs_len segment) elapsed m))
      | out \<Rightarrow> (out, m))"

text \<open>The blocks counted are those between the old and the new cursor, and the gauge shows the new one.\<close>

theorem batch_metrics_exact:
  assumes nr: "numbers_right p" and pos: "0 < bf_batch_size b" "bf_cursor b + bf_batch_size b \<le> u64_max"
    and run: "next_batch_metered p b elapsed w m = ((Ok (Some s), b', w'), m')"
  shows "counted ''host_reth.db_backfill.blocks_fetched'' (rec_ops m')
      = counted ''host_reth.db_backfill.blocks_fetched'' (rec_ops m) + (bf_cursor b' - bf_cursor b)
    \<and> last (rec_ops m') = Gauge_Set ''host_reth.db_backfill.cursor'' (Of_U64 (bf_cursor b'))"
proof -
  have nb: "next_batch p b w = (Ok (Some s), b', w')"
    and m': "m' = set_backfill_cursor (bf_cursor b') (reth_record_backfill_batch (dbs_len s) elapsed m)"
    using run by (auto simp: next_batch_metered_def split: prod.splits rresult.splits option.splits)
  have "segment_numbers s = [bf_cursor b..<bf_cursor b']" using batch_delivers[OF nr pos nb] by blast
  then have "length (segment_numbers s) = bf_cursor b' - bf_cursor b" by simp
  then have "dbs_len s = bf_cursor b' - bf_cursor b"
    by (simp add: segment_numbers_def dbs_defs)
  then show ?thesis
    by (simp add: m' set_backfill_cursor_def reth_record_backfill_batch_def emitted)
      (simp add: emit_def Let_def)
qed

end
