(* ===== verification/Eth_Json.thy ===== *)
theory Eth_Json
  imports Eth_Queries
begin

text \<open>
  The answers of the block queries as they are serialized (\<^verbatim>\<open>rpc/src/eth/types.rs\<close>): the
  transactions and receipts of a block are kept raw and turned into their JSON objects one by
  one while the answer is written. A serialized sequence is the list of its elements. The hash
  of a recovered transaction is an argument.
\<close>

section \<open>Serialization\<close>

datatype empty_array = EmptyArray

fun serialize_empty :: "empty_array \<Rightarrow> 'a list" where
  "serialize_empty EmptyArray = []"

datatype 'tx tx_element = Tx_Object "'tx rpc_transaction" | Tx_Hash b256

fun serialize_transactions :: "'tx tx_ops \<Rightarrow> ('tx \<Rightarrow> b256) \<Rightarrow> 'tx block_transactions \<Rightarrow> 'tx tx_element list" where
  "serialize_transactions X tx_hash (Full_Txs txs block_num block_hash base_fee) =
     map (\<lambda>(i, tx).
            let meta = \<lparr>cm_block_number = block_num, cm_block_hash = block_hash,
                        cm_transaction_index = as_u64 i\<rparr>
            in Tx_Object (build_rpc_transaction X tx meta base_fee))
       (List.enumerate 0 txs)"
| "serialize_transactions X tx_hash (Hash_Txs txs) = map (\<lambda>tx. Tx_Hash (tx_hash tx)) txs"

record 'tx serialized_block =
  sb_header :: sealed_header
  sb_transactions :: "'tx tx_element list"
  sb_uncles :: "b256 list"

definition serialize_block :: "'tx tx_ops \<Rightarrow> ('tx \<Rightarrow> b256) \<Rightarrow> 'tx eth_rpc_block \<Rightarrow> 'tx serialized_block" where
  "serialize_block X tx_hash b =
     \<lparr>sb_header = eb_header b, sb_transactions = serialize_transactions X tx_hash (eb_transactions b),
      sb_uncles = serialize_empty EmptyArray\<rparr>"

definition serialize_receipts ::
    "('lg list \<Rightarrow> 'bl) \<Rightarrow> 'tx tx_ops \<Rightarrow> ('tx, 'lg cold_receipt) lazy_receipts \<Rightarrow> ('lg, 'bl) rpc_receipt list" where
  "serialize_receipts bloom X lz =
     map (\<lambda>(tx, cr). build_receipt bloom X cr tx (lz_base_fee lz)) (zip (lz_txs lz) (lz_receipts lz))"

lemma serialize_full_nth:
  assumes "i < length txs" "length txs \<le> u64_max"
  shows "serialize_transactions X h (Full_Txs txs n bh bf) ! i =
    Tx_Object (build_rpc_transaction X (txs ! i)
      \<lparr>cm_block_number = n, cm_block_hash = bh, cm_transaction_index = i\<rparr> bf)"
  using assms by (simp add: nth_enumerate_eq as_u64_def u64_max_def)

lemma serialize_lengths [simp]:
  "length (serialize_transactions X h (Full_Txs txs n bh bf)) = length txs"
  "length (serialize_transactions X h (Hash_Txs txs)) = length txs"
  "length (serialize_receipts bloom X lz) = min (length (lz_txs lz)) (length (lz_receipts lz))"
  by (simp_all add: serialize_receipts_def)

section \<open>A block and its single transactions\<close>

text \<open>Cold storage holds block \<open>n\<close> with its indices: its answers are those of one block.\<close>

definition block_stored ::
    "('tx, 'lg cold_receipt) cold_blocks \<Rightarrow> ('tx \<Rightarrow> b256) \<Rightarrow> u64 \<Rightarrow> sealed_header \<Rightarrow> 'tx list
       \<Rightarrow> 'lg cold_receipt list \<Rightarrow> bool" where
  "block_stored cold h n sh txs rcs \<longleftrightarrow>
     cb_get_header_by_number cold n = Inr (Some sh) \<and> cb_get_transactions cold n = Inr txs \<and>
     cb_get_receipts cold n = Inr rcs \<and> cb_get_transaction_count cold n = Inr (length txs) \<and>
     length rcs = length txs \<and> length txs \<le> u64_max \<and>
     (\<forall>i < length txs.
        let found = Inr (Some (txs ! i, \<lparr>cm_block_number = n, cm_block_hash = fst sh, cm_transaction_index = i\<rparr>))
        in cb_get_tx_by_block_and_index cold n i = found \<and>
           cb_get_tx_by_hash cold (h (txs ! i)) = found \<and>
           cb_get_receipt_by_tx_hash cold (h (txs ! i)) = Inr (Some (rcs ! i)) \<and>
           cr_tx_hash (rcs ! i) = h (txs ! i) \<and> cr_block_number (rcs ! i) = n)"

lemma block_storedD:
  assumes "block_stored cold h n sh txs rcs"
  shows "cb_get_header_by_number cold n = Inr (Some sh)" "cb_get_transactions cold n = Inr txs"
    "cb_get_receipts cold n = Inr rcs" "cb_get_transaction_count cold n = Inr (length txs)"
    "length rcs = length txs" "length txs \<le> u64_max"
  using assms by (simp_all add: block_stored_def)

lemma stored_transaction:
  assumes "block_stored cold h n sh txs rcs" "i < length txs"
  shows "cb_get_tx_by_block_and_index cold n i =
      Inr (Some (txs ! i, \<lparr>cm_block_number = n, cm_block_hash = fst sh, cm_transaction_index = i\<rparr>))"
    "cb_get_tx_by_hash cold (h (txs ! i)) =
      Inr (Some (txs ! i, \<lparr>cm_block_number = n, cm_block_hash = fst sh, cm_transaction_index = i\<rparr>))"
    "cb_get_receipt_by_tx_hash cold (h (txs ! i)) = Inr (Some (rcs ! i))"
    "cr_tx_hash (rcs ! i) = h (txs ! i)" "cr_block_number (rcs ! i) = n"
  using assms by (simp_all add: block_stored_def Let_def)

lemma block_answer:
  assumes "block_stored cold h n sh txs rcs" "resolve_block_id cx bid = Ok n"
  shows "block cold cx bid full =
     Ok (Some \<lparr>eb_header = sh, eb_transactions =
       (if opt_default False full then Full_Txs txs n (fst sh) (h_base_fee_per_gas (snd sh)) else Hash_Txs txs)\<rparr>)"
    "block_tx_count cold cx bid = Ok (Some (length txs))"
    "block_receipts cold cx bid =
     Ok (Some \<lparr>lz_txs = txs, lz_receipts = rcs, lz_base_fee = h_base_fee_per_gas (snd sh)\<rparr>)"
  using block_storedD [OF assms(1)] assms(2)
  by (simp_all add: block_def block_tx_count_def block_receipts_def)

text \<open>The transaction object at a place of a stored block.\<close>

definition transaction_at :: "'tx tx_ops \<Rightarrow> u64 \<Rightarrow> sealed_header \<Rightarrow> 'tx list \<Rightarrow> nat \<Rightarrow> 'tx rpc_transaction" where
  "transaction_at X n sh txs i = build_rpc_transaction X (txs ! i)
     \<lparr>cm_block_number = n, cm_block_hash = fst sh, cm_transaction_index = i\<rparr> (h_base_fee_per_gas (snd sh))"

lemma single_answers:
  assumes "block_stored cold h n sh txs rcs" "resolve_block_id cx bid = Ok n" "i < length txs"
  shows "transaction_by_block_and_index cold X cx bid i = Ok (Some (transaction_at X n sh txs i))"
    "transaction_by_hash cold X (h (txs ! i)) = Ok (Some (transaction_at X n sh txs i))"
    "transaction_receipt bloom cold X (h (txs ! i)) =
       Ok (Some (build_receipt bloom X (rcs ! i) (txs ! i) (h_base_fee_per_gas (snd sh))))"
  using block_storedD [OF assms(1)] stored_transaction [OF assms(1,3)] assms(2)
  by (simp_all add: transaction_by_block_and_index_def transaction_by_hash_def transaction_receipt_def
      confirmed_transaction_def base_fee_at_def transaction_at_def)

text \<open>C28: For a block that cold storage holds, the block query, with full transactions and with
  hashes, the receipts of the block, and the count agree with the queries of the single
  transactions: the entry at each place is what the queries by index and by hash, and the
  receipt query, answer.\<close>

theorem block_answers_agree:
  assumes "block_stored cold h n sh txs rcs" "resolve_block_id cx bid = Ok n"
  shows "\<exists>full hashes lz. block cold cx bid (Some True) = Ok (Some full) \<and>
    block cold cx bid None = Ok (Some hashes) \<and> block_receipts cold cx bid = Ok (Some lz) \<and>
    block_tx_count cold cx bid = Ok (Some (length (sb_transactions (serialize_block X h full)))) \<and>
    length (sb_transactions (serialize_block X h hashes)) = length (sb_transactions (serialize_block X h full)) \<and>
    length (serialize_receipts bloom X lz) = length (sb_transactions (serialize_block X h full)) \<and>
    (\<forall>i < length (sb_transactions (serialize_block X h full)). \<exists>hash t.
       sb_transactions (serialize_block X h hashes) ! i = Tx_Hash hash \<and>
       sb_transactions (serialize_block X h full) ! i = Tx_Object t \<and>
       transaction_by_block_and_index cold X cx bid i = Ok (Some t) \<and>
       transaction_by_hash cold X hash = Ok (Some t) \<and>
       transaction_receipt bloom cold X hash = Ok (Some (serialize_receipts bloom X lz ! i)))"
proof -
  note st = block_storedD [OF assms(1)]
  have nth: "serialize_transactions X h (Full_Txs txs n (fst sh) (h_base_fee_per_gas (snd sh))) ! i =
      Tx_Object (transaction_at X n sh txs i)" if "i < length txs" for i
    using that serialize_full_nth [OF that st(6)] by (simp add: transaction_at_def)
  have rcs: "serialize_receipts bloom X \<lparr>lz_txs = txs, lz_receipts = rcs, lz_base_fee = bf\<rparr> ! i =
      build_receipt bloom X (rcs ! i) (txs ! i) bf" if "i < length txs" for i bf
    using that st(5) by (simp add: serialize_receipts_def)
  show ?thesis
    unfolding block_answer [OF assms]
    by (simp add: serialize_block_def st(5) nth rcs single_answers [OF assms]
        del: serialize_transactions.simps(1))
qed

definition ex_block_cold :: "(nat, unit cold_receipt) cold_blocks" where
  "ex_block_cold =
     (let meta = (\<lambda>i. \<lparr>cm_block_number = 7, cm_block_hash = fst (ex_sealed_header 7), cm_transaction_index = i\<rparr>);
          rc = (\<lambda>i. \<lparr>cr_status = True, cr_cumulative_gas_used = 21000 * Suc i, cr_logs = [],
            cr_tx_type = Eip1559, cr_from = 5, cr_tx_hash = of_nat i, cr_transaction_index = i,
            cr_block_hash = 70, cr_block_number = 7, cr_gas_used = 21000\<rparr>)
      in \<lparr>cb_get_headers = (\<lambda>ks. Inr []), cb_get_header_by_number = (\<lambda>k. Inr (Some (ex_sealed_header 7))),
          cb_get_transactions = (\<lambda>k. Inr [0, 1]), cb_get_receipts = (\<lambda>k. Inr [rc 0, rc 1]),
          cb_get_transaction_count = (\<lambda>k. Inr 2),
          cb_get_tx_by_hash = (\<lambda>x. Inr (Some (unat x, meta (unat x)))),
          cb_get_tx_by_block_and_index = (\<lambda>k i. Inr (if i < 2 then Some (i, meta i) else None)),
          cb_get_receipt_by_tx_hash = (\<lambda>x. Inr (Some (rc (unat x))))\<rparr>)"

definition ex_tx_ops :: "nat tx_ops" where
  "ex_tx_ops = \<lparr>tx_signer = (\<lambda>_. 5), tx_kind_of = (\<lambda>_. Call 6), tx_nonce = (\<lambda>t. t),
     tx_tip = (\<lambda>t b. Some 1), tx_max_fee_per_gas = (\<lambda>_. 9), tx_encoded_2718 = (\<lambda>_. []),
     create_address = (\<lambda>a n. a)\<rparr>"

lemma ex_block_stored:
  "block_stored ex_block_cold of_nat 7 (ex_sealed_header 7) [0, 1]
     [the (projr (cb_get_receipt_by_tx_hash ex_block_cold 0)), the (projr (cb_get_receipt_by_tx_hash ex_block_cold 1))]"
  by (auto simp: block_stored_def ex_block_cold_def Let_def u64_max_def less_Suc_eq)

lemma block_answers_agree_witness:
  "\<exists>full. block ex_block_cold ex_ctx (BlockId_Number (Number 7)) (Some True) = Ok (Some full) \<and>
    block_tx_count ex_block_cold ex_ctx (BlockId_Number (Number 7)) =
      Ok (Some (length (sb_transactions (serialize_block ex_tx_ops of_nat full))))"
proof -
  have "resolve_block_id ex_ctx (BlockId_Number (Number 7)) = Ok 7"
    by (simp add: resolve_block_id_def)
  from block_answers_agree [OF ex_block_stored this, where X = ex_tx_ops] show ?thesis
    by blast
qed

text \<open>Receipts that are missing from cold storage shorten the answer without an error.\<close>

lemma missing_receipts_cut:
  "length (serialize_receipts bloom X \<lparr>lz_txs = txs, lz_receipts = take k rcs, lz_base_fee = bf\<rparr>) =
     min (length txs) (min (length rcs) k)"
  by simp

end
