(* ===== verification/Rpc_Router.thy ===== *)
theory Rpc_Router
  imports Node_Prelude
begin

text \<open>
  The routers of the RPC server: \<^verbatim>\<open>rpc/src/eth/mod.rs\<close>, \<^verbatim>\<open>debug/mod.rs\<close>, \<^verbatim>\<open>trace/mod.rs\<close>,
  \<^verbatim>\<open>signet/mod.rs\<close>, \<^verbatim>\<open>web3/mod.rs\<close>, \<^verbatim>\<open>net/mod.rs\<close> and the combined router of \<^verbatim>\<open>lib.rs\<close>.
  The router library is a parameter: adding a route or a nested router may panic, and does not
  when the names are new. A handler is named; generic handlers carry the way their block is
  named, by hash or by number.
\<close>

section \<open>Handlers\<close>

datatype block_key = By_Hash | By_Number

datatype handler =
    H_block_number | H_chain_id | H_block block_key | H_block_tx_count block_key | H_block_receipts
  | H_raw_transaction_by_hash | H_transaction_by_hash
  | H_raw_transaction_by_block_and_index block_key | H_transaction_by_block_and_index block_key
  | H_transaction_receipt | H_header_by block_key | H_balance | H_storage_at | H_addr_tx_count
  | H_code_at | H_call | H_estimate_gas | H_send_raw_transaction | H_get_logs | H_syncing
  | H_gas_price | H_max_priority_fee_per_gas | H_fee_history | H_create_access_list | H_new_filter
  | H_new_block_filter | H_uninstall_filter | H_get_filter_changes | H_subscribe | H_unsubscribe
  | H_uncle_count | H_uncle_block | H_protocol_version
  | H_debug_trace_block block_key | H_debug_trace_transaction | H_debug_trace_block_rlp
  | H_get_raw_block | H_get_raw_header | H_get_raw_receipts | H_get_raw_transaction
  | H_debug_trace_call
  | H_trace_block | H_trace_transaction | H_replay_block_transactions | H_replay_transaction
  | H_trace_call | H_trace_call_many | H_trace_raw_transaction | H_trace_get | H_trace_filter
  | H_send_order | H_call_bundle | H_client_version | H_sha3 | H_version | H_listening

section \<open>Construction of the routers\<close>

record 'r router_lib =
  rl_new :: 'r
  rl_route :: "string \<Rightarrow> handler \<Rightarrow> 'r \<Rightarrow> ('r, unit) rresult"
  rl_nest :: "string \<Rightarrow> 'r \<Rightarrow> 'r \<Rightarrow> ('r, unit) rresult"
  rl_resolve :: "'r \<Rightarrow> string \<Rightarrow> handler option"

fun route_all :: "'r router_lib \<Rightarrow> (string \<times> handler) list \<Rightarrow> 'r \<Rightarrow> ('r, unit) rresult" where
  "route_all L [] r = Ok r"
| "route_all L ((name, h) # rest) r = rbind (rl_route L name h r) (route_all L rest)"

definition eth_routes :: "(string \<times> handler) list" where
  "eth_routes =
    [(''blockNumber'', H_block_number),
     (''chainId'', H_chain_id),
     (''getBlockByHash'', H_block By_Hash),
     (''getBlockByNumber'', H_block By_Number),
     (''getBlockTransactionCountByHash'', H_block_tx_count By_Hash),
     (''getBlockTransactionCountByNumber'', H_block_tx_count By_Number),
     (''getBlockReceipts'', H_block_receipts),
     (''getRawTransactionByHash'', H_raw_transaction_by_hash),
     (''getTransactionByHash'', H_transaction_by_hash),
     (''getRawTransactionByBlockHashAndIndex'', H_raw_transaction_by_block_and_index By_Hash),
     (''getRawTransactionByBlockNumberAndIndex'', H_raw_transaction_by_block_and_index By_Number),
     (''getTransactionByBlockHashAndIndex'', H_transaction_by_block_and_index By_Hash),
     (''getTransactionByBlockNumberAndIndex'', H_transaction_by_block_and_index By_Number),
     (''getTransactionReceipt'', H_transaction_receipt),
     (''getBlockHeaderByHash'', H_header_by By_Hash),
     (''getBlockHeaderByNumber'', H_header_by By_Number),
     (''getBalance'', H_balance),
     (''getStorageAt'', H_storage_at),
     (''getTransactionCount'', H_addr_tx_count),
     (''getCode'', H_code_at),
     (''call'', H_call),
     (''estimateGas'', H_estimate_gas),
     (''sendRawTransaction'', H_send_raw_transaction),
     (''getLogs'', H_get_logs),
     (''syncing'', H_syncing),
     (''gasPrice'', H_gas_price),
     (''maxPriorityFeePerGas'', H_max_priority_fee_per_gas),
     (''feeHistory'', H_fee_history),
     (''createAccessList'', H_create_access_list),
     (''newFilter'', H_new_filter),
     (''newBlockFilter'', H_new_block_filter),
     (''uninstallFilter'', H_uninstall_filter),
     (''getFilterChanges'', H_get_filter_changes),
     (''getFilterLogs'', H_get_filter_changes),
     (''subscribe'', H_subscribe),
     (''unsubscribe'', H_unsubscribe),
     (''getUncleCountByBlockHash'', H_uncle_count),
     (''getUncleCountByBlockNumber'', H_uncle_count),
     (''getUncleByBlockHashAndIndex'', H_uncle_block),
     (''getUncleByBlockNumberAndIndex'', H_uncle_block),
     (''protocolVersion'', H_protocol_version)]"

definition debug_routes :: "(string \<times> handler) list" where
  "debug_routes =
    [(''traceBlockByNumber'', H_debug_trace_block By_Number),
     (''traceBlockByHash'', H_debug_trace_block By_Hash),
     (''traceTransaction'', H_debug_trace_transaction),
     (''traceBlock'', H_debug_trace_block_rlp),
     (''getRawBlock'', H_get_raw_block),
     (''getRawHeader'', H_get_raw_header),
     (''getRawReceipts'', H_get_raw_receipts),
     (''getRawTransaction'', H_get_raw_transaction),
     (''traceCall'', H_debug_trace_call)]"

definition trace_routes :: "(string \<times> handler) list" where
  "trace_routes =
    [(''block'', H_trace_block),
     (''transaction'', H_trace_transaction),
     (''replayBlockTransactions'', H_replay_block_transactions),
     (''replayTransaction'', H_replay_transaction),
     (''call'', H_trace_call),
     (''callMany'', H_trace_call_many),
     (''rawTransaction'', H_trace_raw_transaction),
     (''get'', H_trace_get),
     (''filter'', H_trace_filter)]"

definition signet_routes :: "(string \<times> handler) list" where
  "signet_routes = [(''sendOrder'', H_send_order), (''callBundle'', H_call_bundle)]"

definition web3_routes :: "(string \<times> handler) list" where
  "web3_routes = [(''clientVersion'', H_client_version), (''sha3'', H_sha3)]"

definition net_routes :: "(string \<times> handler) list" where
  "net_routes = [(''version'', H_version), (''listening'', H_listening)]"

definition eth_router where "eth_router L = route_all L eth_routes (rl_new L)"
definition debug_router where "debug_router L = route_all L debug_routes (rl_new L)"
definition trace_router where "trace_router L = route_all L trace_routes (rl_new L)"
definition signet_router where "signet_router L = route_all L signet_routes (rl_new L)"
definition web3_router where "web3_router L = route_all L web3_routes (rl_new L)"
definition net_router where "net_router L = route_all L net_routes (rl_new L)"

definition nest_in :: "'r router_lib \<Rightarrow> string \<Rightarrow> ('r, unit) rresult \<Rightarrow> 'r \<Rightarrow> ('r, unit) rresult" where
  "nest_in L prefix sub r = rbind sub (\<lambda>s. rl_nest L prefix s r)"

definition combined_router :: "'r router_lib \<Rightarrow> ('r, unit) rresult" where
  "combined_router L =
     rbind (nest_in L ''eth'' (eth_router L) (rl_new L)) (\<lambda>r1.
     rbind (nest_in L ''debug'' (debug_router L) r1) (\<lambda>r2.
     rbind (nest_in L ''trace'' (trace_router L) r2) (\<lambda>r3.
     rbind (nest_in L ''signet'' (signet_router L) r3) (\<lambda>r4.
     rbind (nest_in L ''web3'' (web3_router L) r4) (\<lambda>r5.
     nest_in L ''net'' (net_router L) r5)))))"

section \<open>What the routers resolve\<close>

text \<open>
  What is assumed of the library: a new router knows no method; a route under a new name is
  added and nothing else changes; a nested router is reached under its prefix and an
  underscore, provided no name appears twice.
\<close>

definition prefixed :: "string \<Rightarrow> (string \<times> handler) list \<Rightarrow> (string \<times> handler) list" where
  "prefixed p t = map (\<lambda>(m, h). (p @ ''_'' @ m, h)) t"

definition serves_table :: "'r router_lib \<Rightarrow> 'r \<Rightarrow> (string \<times> handler) list \<Rightarrow> bool" where
  "serves_table L r t \<longleftrightarrow> distinct (map fst t) \<and> rl_resolve L r = map_of t"

definition router_laws :: "'r router_lib \<Rightarrow> bool" where
  "router_laws L \<longleftrightarrow>
     rl_resolve L (rl_new L) = Map.empty \<and>
     (\<forall>name h r. rl_resolve L r name = None \<longrightarrow>
        (\<exists>r'. rl_route L name h r = Ok r' \<and> rl_resolve L r' = (rl_resolve L r)(name \<mapsto> h))) \<and>
     (\<forall>p s r t u. serves_table L s t \<and> serves_table L r u \<and> distinct (map fst (u @ prefixed p t)) \<longrightarrow>
        (\<exists>r'. rl_nest L p s r = Ok r' \<and> rl_resolve L r' = map_of (u @ prefixed p t)))"

lemma new_serves_nothing: "router_laws L \<Longrightarrow> serves_table L (rl_new L) []"
  by (simp add: router_laws_def serves_table_def)

lemma map_of_snoc: "k \<notin> fst ` set t \<Longrightarrow> map_of (t @ [(k, h)]) = (map_of t)(k \<mapsto> h)"
  by (induction t) (auto simp del: map_of_append)

lemma route_all_serves:
  assumes "router_laws L" "serves_table L r t" "distinct (map fst (t @ rs))"
  shows "\<exists>r'. route_all L rs r = Ok r' \<and> serves_table L r' (t @ rs)"
  using assms(2,3)
proof (induction rs arbitrary: r t)
  case Nil
  then show ?case by simp
next
  case (Cons nh rs)
  obtain name h where nh: "nh = (name, h)" by (cases nh)
  have new: "name \<notin> fst ` set t"
    using Cons.prems(2) by (auto simp: nh)
  then have "rl_resolve L r name = None"
    using Cons.prems(1) by (simp add: serves_table_def map_of_eq_None_iff)
  then obtain r1 where r1: "rl_route L name h r = Ok r1"
    and res: "rl_resolve L r1 = (rl_resolve L r)(name \<mapsto> h)"
    using assms(1) unfolding router_laws_def by blast
  have "serves_table L r1 (t @ [nh])"
    using Cons.prems res new by (simp add: serves_table_def nh map_of_snoc del: map_of_append)
  from Cons.IH [OF this] show ?case
    using Cons.prems(2) by (simp add: nh r1)
qed

lemma routes_serve:
  assumes "router_laws L" "distinct (map fst rs)"
  shows "\<exists>r. route_all L rs (rl_new L) = Ok r \<and> serves_table L r rs"
  using route_all_serves [OF assms(1) new_serves_nothing [OF assms(1)], of rs] assms(2) by simp

lemma map_fst_prefixed: "map fst (prefixed p t) = map (\<lambda>m. p @ ''_'' @ m) (map fst t)"
  by (induction t) (auto simp: prefixed_def)

lemma nest_serves:
  assumes "router_laws L" "serves_table L r u" "distinct (map fst (u @ prefixed p rs @ v))"
  shows "\<exists>r'. nest_in L p (route_all L rs (rl_new L)) r = Ok r' \<and> serves_table L r' (u @ prefixed p rs)"
proof -
  have d: "distinct (map fst (u @ prefixed p rs))"
    using assms(3) by (simp only: map_append distinct_append) auto
  then have "distinct (map fst (prefixed p rs))"
    by (simp only: map_append distinct_append)
  then have "distinct (map fst rs)"
    by (simp only: map_fst_prefixed distinct_map)
  then obtain s where s: "route_all L rs (rl_new L) = Ok s" "serves_table L s rs"
    using routes_serve [OF assms(1)] by blast
  obtain r' where "rl_nest L p s r = Ok r'" "rl_resolve L r' = map_of (u @ prefixed p rs)"
    using assms(1,2) d s(2) unfolding router_laws_def by blast
  then show ?thesis
    using s(1) d by (simp add: nest_in_def serves_table_def)
qed

text \<open>Every method of the server with its handler.\<close>

definition method_table :: "(string \<times> handler) list" where
  "method_table = prefixed ''eth'' eth_routes @ prefixed ''debug'' debug_routes @
     prefixed ''trace'' trace_routes @ prefixed ''signet'' signet_routes @
     prefixed ''web3'' web3_routes @ prefixed ''net'' net_routes"

lemmas route_tables = eth_routes_def debug_routes_def trace_routes_def signet_routes_def
  web3_routes_def net_routes_def

lemma distinct_methods: "distinct (map fst method_table)"
  by code_simp

lemma router_serves_methods:
  assumes "router_laws L"
  shows "\<exists>r. combined_router L = Ok r \<and> serves_table L r method_table"
proof -
  note d = distinct_methods [unfolded method_table_def]
  note start = new_serves_nothing [OF assms]
  note routers = eth_router_def debug_router_def trace_router_def signet_router_def
    web3_router_def net_router_def
  obtain r1 where 1: "nest_in L ''eth'' (eth_router L) (rl_new L) = Ok r1"
      "serves_table L r1 (prefixed ''eth'' eth_routes)"
    using nest_serves [OF assms start, of "''eth''" eth_routes
        "prefixed ''debug'' debug_routes @ prefixed ''trace'' trace_routes @ prefixed ''signet'' signet_routes @ prefixed ''web3'' web3_routes @ prefixed ''net'' net_routes"] d
    unfolding routers append_assoc append_Nil append_Nil2 by blast
  obtain r2 where 2: "nest_in L ''debug'' (debug_router L) r1 = Ok r2"
      "serves_table L r2 (prefixed ''eth'' eth_routes @ prefixed ''debug'' debug_routes)"
    using nest_serves [OF assms 1(2), of "''debug''" debug_routes
        "prefixed ''trace'' trace_routes @ prefixed ''signet'' signet_routes @ prefixed ''web3'' web3_routes @ prefixed ''net'' net_routes"] d
    unfolding routers append_assoc append_Nil append_Nil2 by blast
  obtain r3 where 3: "nest_in L ''trace'' (trace_router L) r2 = Ok r3"
      "serves_table L r3 (prefixed ''eth'' eth_routes @ prefixed ''debug'' debug_routes @ prefixed ''trace'' trace_routes)"
    using nest_serves [OF assms 2(2), of "''trace''" trace_routes
        "prefixed ''signet'' signet_routes @ prefixed ''web3'' web3_routes @ prefixed ''net'' net_routes"] d
    unfolding routers append_assoc append_Nil append_Nil2 by blast
  obtain r4 where 4: "nest_in L ''signet'' (signet_router L) r3 = Ok r4"
      "serves_table L r4 (prefixed ''eth'' eth_routes @ prefixed ''debug'' debug_routes @ prefixed ''trace'' trace_routes @ prefixed ''signet'' signet_routes)"
    using nest_serves [OF assms 3(2), of "''signet''" signet_routes
        "prefixed ''web3'' web3_routes @ prefixed ''net'' net_routes"] d
    unfolding routers append_assoc append_Nil append_Nil2 by blast
  obtain r5 where 5: "nest_in L ''web3'' (web3_router L) r4 = Ok r5"
      "serves_table L r5 (prefixed ''eth'' eth_routes @ prefixed ''debug'' debug_routes @ prefixed ''trace'' trace_routes @ prefixed ''signet'' signet_routes @ prefixed ''web3'' web3_routes)"
    using nest_serves [OF assms 4(2), of "''web3''" web3_routes
        "prefixed ''net'' net_routes"] d
    unfolding routers append_assoc append_Nil append_Nil2 by blast
  obtain r6 where 6: "nest_in L ''net'' (net_router L) r5 = Ok r6"
      "serves_table L r6 (prefixed ''eth'' eth_routes @ prefixed ''debug'' debug_routes @ prefixed ''trace'' trace_routes @ prefixed ''signet'' signet_routes @ prefixed ''web3'' web3_routes @ prefixed ''net'' net_routes)"
    using nest_serves [OF assms 5(2), of "''net''" net_routes
        "[]"] d
    unfolding routers append_assoc append_Nil append_Nil2 by blast
  show ?thesis
    using 1(1) 2(1) 3(1) 4(1) 5(1) 6 by (simp add: combined_router_def method_table_def)
qed

text \<open>Building the server's router never panics, and it resolves exactly the methods of the
  namespaces' tables, each to its own handler; the methods said to be unsupported are not
  found.\<close>

theorem router_resolves_exactly:
  assumes "router_laws L"
  shows "\<exists>r. combined_router L = Ok r \<and>
    (\<forall>m. rl_resolve L r m = map_of method_table m) \<and>
    (\<forall>m \<in> set [''coinbase'', ''accounts'', ''blobBaseFee'', ''getWork'', ''hashrate'', ''mining'',
        ''submitHashrate'', ''submitWork'', ''sendTransaction'', ''sign'', ''signTransaction'',
        ''signTypedData'', ''getProof'', ''newPendingTransactionFilter''].
       rl_resolve L r (''eth_'' @ m) = None)"
proof -
  have "\<forall>m \<in> set [''coinbase'', ''accounts'', ''blobBaseFee'', ''getWork'', ''hashrate'', ''mining'',
        ''submitHashrate'', ''submitWork'', ''sendTransaction'', ''sign'', ''signTransaction'',
        ''signTypedData'', ''getProof'', ''newPendingTransactionFilter''].
      map_of method_table (''eth_'' @ m) = None"
    by code_simp
  then show ?thesis
    using router_serves_methods [OF assms] unfolding serves_table_def by auto
qed

text \<open>Partial maps as routers: an instance of the library.\<close>

definition after_prefix :: "string \<Rightarrow> string \<Rightarrow> string option" where
  "after_prefix p m = (if take (length p) m = p then Some (drop (length p) m) else None)"

definition map_router :: "(string \<Rightarrow> handler option) router_lib" where
  "map_router = \<lparr>rl_new = Map.empty,
     rl_route = (\<lambda>name h r. if r name = None then Ok (r(name \<mapsto> h)) else Panic),
     rl_nest = (\<lambda>p s r. Ok (\<lambda>m. case r m of Some h \<Rightarrow> Some h
                 | None \<Rightarrow> Option.bind (after_prefix (p @ ''_'') m) s)),
     rl_resolve = (\<lambda>r. r)\<rparr>"

lemma map_of_prefixed: "map_of (prefixed p t) m = Option.bind (after_prefix (p @ ''_'') m) (map_of t)"
proof -
  have "p @ CHR ''_'' # a = m \<longleftrightarrow> after_prefix (p @ ''_'') m = Some a" for a
    by (auto simp: after_prefix_def) (metis append.assoc append_Cons append_Nil append_take_drop_id
        length_append_singleton)
  note split = this
  show ?thesis
  proof (cases "after_prefix (p @ ''_'') m")
    case None
    then have ne: "p @ CHR ''_'' # a \<noteq> m" for a
      by (simp add: split)
    show ?thesis
      by (induction t) (simp_all add: None prefixed_def ne ne [symmetric] split: prod.split)
  next
    case (Some k)
    then have "m = p @ CHR ''_'' # k"
      by (simp add: split [symmetric])
    then show ?thesis
      unfolding Some by (induction t) (auto simp: prefixed_def)
  qed
qed

lemma nested_map:
  "(\<lambda>m. case map_of u m of None \<Rightarrow> Option.bind (after_prefix (p @ ''_'') m) (map_of t)
      | Some h \<Rightarrow> Some h) = map_of (u @ prefixed p t)"
  by (rule ext) (simp add: map_add_def map_of_prefixed split: option.split)

lemma map_router_laws: "router_laws map_router"
  by (simp add: router_laws_def map_router_def serves_table_def nested_map del: map_of_append)

lemma router_resolves_exactly_witness:
  "\<exists>r. combined_router map_router = Ok r \<and>
     rl_resolve map_router r ''eth_getFilterLogs'' = Some H_get_filter_changes \<and>
     rl_resolve map_router r ''eth_sign'' = None"
proof -
  have "map_of method_table ''eth_getFilterLogs'' = Some H_get_filter_changes"
    by code_simp
  then show ?thesis
    using router_resolves_exactly [OF map_router_laws] by fastforce
qed

text \<open>The README lists \<^verbatim>\<open>protocolVersion\<close> as a method that is not found; it is served.\<close>

lemma protocol_version_is_served:
  assumes "router_laws L"
  shows "\<exists>r. combined_router L = Ok r \<and>
    rl_resolve L r ''eth_protocolVersion'' = Some H_protocol_version"
proof -
  have "map_of method_table ''eth_protocolVersion'' = Some H_protocol_version"
    by code_simp
  then show ?thesis
    using router_serves_methods [OF assms] by (auto simp: serves_table_def)
qed

end
