(* ===== verification/Interest_Tasks.thy ===== *)
theory Interest_Tasks
  imports Interest_Subs Interest_Filters Eth_Error
begin

text \<open>
  The background threads of the filter and subscription managers (\<^verbatim>\<open>FilterCleanTask\<close> of
  \<^verbatim>\<open>rpc/src/interest/filters.rs\<close>, \<^verbatim>\<open>SubCleanerTask\<close> of \<^verbatim>\<open>rpc/src/interest/subs.rs\<close>), the
  construction of the managers that start them, the two subscription endpoints
  (\<^verbatim>\<open>rpc/src/eth/endpoints.rs\<close>) and the envelope of a notification.

  A thread sleeps, looks whether its manager still exists, cleans and starts over. A round is
  what the endpoints do to the manager during the sleep, or \<open>None\<close> when the manager was dropped
  meanwhile. \<^verbatim>\<open>std::thread::sleep\<close> promises to sleep at least as long as it is told to, so a
  round of the filter thread also says by how much the thread wakes (and comes to clean) late.
\<close>

section \<open>Stale filters\<close>

record filter_clean_task =
  ct_sleep :: nat
  ct_age_limit :: nat

definition FilterCleanTask_new :: "nat \<Rightarrow> nat \<Rightarrow> filter_clean_task" where
  "FilterCleanTask_new sleep age_limit = \<lparr>ct_sleep = sleep, ct_age_limit = age_limit\<rparr>"

text \<open>The manager as it is shared with the endpoints, and the task it starts.\<close>

definition FilterManager_new :: "nat \<Rightarrow> nat \<Rightarrow> 'f filter_manager \<times> filter_clean_task" where
  "FilterManager_new clean_interval age_limit =
     (filter_manager_new, FilterCleanTask_new clean_interval age_limit)"

fun clean_thread ::
    "filter_clean_task \<Rightarrow> instant \<Rightarrow> (nat \<times> 'f fm_op list option) list \<Rightarrow> 'f filter_manager
       \<Rightarrow> instant \<times> 'f filter_manager" where
  "clean_thread task now [] m = (now, m)"
| "clean_thread task now ((late, None) # rounds) m = (now + ct_sleep task + late, m)"
| "clean_thread task now ((late, Some ops) # rounds) m =
     (let wake = now + ct_sleep task + late
      in clean_thread task wake rounds (clean_stale wake (ct_age_limit task) (fold fm_apply ops m)))"

text \<open>An operation that leaves the filter with this id alone: it is not polled, removed or
  replaced, and it is the endpoints' (the cleaning is the thread's).\<close>

fun spares :: "'f filter_manager \<Rightarrow> u64 \<Rightarrow> 'f fm_op \<Rightarrow> bool" where
  "spares m i (Op_Install now b k) = (fm_current_id m \<noteq> i)"
| "spares m i (Op_Uninstall j) = (j \<noteq> i)"
| "spares m i (Op_Update j f) = (j \<noteq> i)"
| "spares m i (Op_Clean now age) = False"

fun all_spare :: "'f filter_manager \<Rightarrow> u64 \<Rightarrow> 'f fm_op list \<Rightarrow> bool" where
  "all_spare m i [] = True"
| "all_spare m i (op # ops) = (spares m i op \<and> all_spare (fm_apply op m) i ops)"

lemma spared: "spares m i op \<Longrightarrow> fm_filters (fm_apply op m) i = fm_filters m i"
  by (cases op) (auto simp: install_filter_def next_filter_id_def uninstall_filter_def Let_def)

lemma all_spared: "all_spare m i ops \<Longrightarrow> fm_filters (fold fm_apply ops m) i = fm_filters m i"
  by (induction ops arbitrary: m) (simp_all add: spared)

lemma clean_stale_at:
  "fm_filters (clean_stale now age m) i =
     (case fm_filters m i of None \<Rightarrow> None
      | Some f \<Rightarrow> if now - af_last_poll_time f < age then Some f else None)"
  by (simp add: clean_stale_def time_since_last_poll_def split: option.split)

text \<open>The endpoints' operations of all rounds leave the filter alone.\<close>

fun rounds_spare ::
    "filter_clean_task \<Rightarrow> instant \<Rightarrow> u64 \<Rightarrow> (nat \<times> 'f fm_op list) list \<Rightarrow> 'f filter_manager \<Rightarrow> bool" where
  "rounds_spare task now i [] m = True"
| "rounds_spare task now i ((late, ops) # rounds) m =
     (all_spare m i ops \<and>
      rounds_spare task (now + ct_sleep task + late) i rounds
        (clean_stale (now + ct_sleep task + late) (ct_age_limit task) (fold fm_apply ops m)))"

text \<open>When the thread wakes for the last of some rounds.\<close>

definition last_wake :: "filter_clean_task \<Rightarrow> instant \<Rightarrow> (nat \<times> 'f fm_op list) list \<Rightarrow> instant" where
  "last_wake task now rounds = now + (\<Sum>(late, ops) \<leftarrow> rounds. ct_sleep task + late)"

lemma last_wake_simps [simp]:
  "last_wake task now [] = now"
  "last_wake task now ((late, ops) # rounds) = last_wake task (now + ct_sleep task + late) rounds"
  by (simp_all add: last_wake_def)

lemma last_wake_ge: "now \<le> last_wake task now rounds"
  by (simp add: last_wake_def)

lemma cleaned_stays_away:
  "rounds_spare task now i rounds m \<Longrightarrow> fm_filters m i = None \<Longrightarrow>
   fm_filters (snd (clean_thread task now (map (apsnd Some) rounds) m)) i = None"
proof (induction rounds arbitrary: now m)
  case (Cons round rounds)
  then show ?case by (cases round) (simp add: Let_def clean_stale_at all_spared)
qed simp

text \<open>C30: A filter that is not polled survives exactly the rounds of the cleaning thread that
  wake less than the age limit after its last poll: it is removed in the first round that
  wakes later. However late the thread wakes, and whatever the endpoints do to other filters
  meanwhile; a thread that is never late removes it at most one sleep after the age limit.\<close>

theorem filter_lifetime:
  assumes "rounds_spare task now i rounds m" "fm_filters m i = Some f"
    "af_last_poll_time f \<le> now"
  shows "fm_filters (snd (clean_thread task now (map (apsnd Some) rounds) m)) i =
    (if rounds = [] \<or>
        now + (\<Sum>(late, ops) \<leftarrow> rounds. ct_sleep task + late) < af_last_poll_time f + ct_age_limit task
     then Some f else None)"
  unfolding last_wake_def [symmetric] using assms
proof (induction rounds arbitrary: now m)
  case Nil
  then show ?case by simp
next
  case (Cons round rounds)
  obtain late ops where round: "round = (late, ops)"
    by (cases round)
  define wake where "wake = now + ct_sleep task + late"
  define m' where "m' = clean_stale wake (ct_age_limit task) (fold fm_apply ops m)"
  have at: "fm_filters m' i = (if wake - af_last_poll_time f < ct_age_limit task then Some f else None)"
    using Cons.prems by (simp add: round m'_def clean_stale_at all_spared)
  have wake: "af_last_poll_time f \<le> wake"
    using Cons.prems(3) by (simp add: wake_def)
  have spare: "rounds_spare task wake i rounds m'"
    using Cons.prems(1) by (simp add: round m'_def wake_def)
  have run: "clean_thread task now (map (apsnd Some) (round # rounds)) m =
      clean_thread task wake (map (apsnd Some) rounds) m'"
    by (simp add: round m'_def wake_def Let_def)
  have total: "last_wake task now (round # rounds) = last_wake task wake rounds"
    by (simp add: round wake_def)
  show ?case
  proof (cases "wake - af_last_poll_time f < ct_age_limit task")
    case True
    then have "wake < af_last_poll_time f + ct_age_limit task"
      using wake by linarith
    then show ?thesis
      unfolding run total using Cons.IH [OF spare _ wake] at True by (cases rounds) simp_all
  next
    case False
    then have "\<not> last_wake task wake rounds < af_last_poll_time f + ct_age_limit task"
      using wake last_wake_ge [of wake task rounds] by linarith
    then show ?thesis
      unfolding run total using cleaned_stays_away [OF spare] at False by simp
  qed
qed

lemma filter_lifetime_witness:
  "fm_filters (snd (clean_thread (FilterCleanTask_new 10 25) 0 (map (apsnd Some) [(0, []), (4, [])])
      (snd (install_filter 0 4 (Block_Kind :: nat interest_kind) filter_manager_new)))) 1 \<noteq> None \<and>
   fm_filters (snd (clean_thread (FilterCleanTask_new 10 25) 0 (map (apsnd Some) [(0, []), (5, [])])
      (snd (install_filter 0 4 (Block_Kind :: nat interest_kind) filter_manager_new)))) 1 = None"
proof -
  let ?m = "snd (install_filter 0 4 (Block_Kind :: nat interest_kind) filter_manager_new)"
  let ?f = "\<lparr>af_next_start_block = 5, af_last_poll_time = 0, af_kind = Block_Kind\<rparr>"
  have f: "fm_filters ?m 1 = Some ?f"
    by (simp add: install_filter_def next_filter_id_def filter_manager_new_def u64_add_def)
  show ?thesis
    using filter_lifetime [of "FilterCleanTask_new 10 25" 0 1 "[(0, []), (4, [])]" ?m ?f]
      filter_lifetime [of "FilterCleanTask_new 10 25" 0 1 "[(0, []), (5, [])]" ?m ?f] f
    by (simp add: FilterCleanTask_new_def)
qed

text \<open>A filter polled, or installed, within the age limit before the thread wakes is kept.\<close>

lemma polled_filter_kept:
  assumes "fm_filters (fold fm_apply ops m) i = Some f"
    "now + ct_sleep task + late < af_last_poll_time f + ct_age_limit task"
    "af_last_poll_time f \<le> now + ct_sleep task + late"
  shows "fm_filters (snd (clean_thread task now [(late, Some ops)] m)) i = Some f"
proof -
  have "now + ct_sleep task + late - af_last_poll_time f < ct_age_limit task"
    using assms(2,3) by linarith
  then show ?thesis
    by (simp add: Let_def clean_stale_at assms(1))
qed

lemma dropped_manager_ends_thread:
  "clean_thread task now ((late, None) # rounds) m = clean_thread task now [(late, None)] m"
  by simp

section \<open>The text of a filter\<close>

definition active_filter_text ::
    "(nat \<Rightarrow> string) \<Rightarrow> ('f interest_kind \<Rightarrow> string) \<Rightarrow> instant \<Rightarrow> 'f active_filter \<Rightarrow> string" where
  "active_filter_text show_num show_kind now f =
     ''ActiveFilter { next_start_block: '' @ show_num (af_next_start_block f) @
     '', ms_since_last_poll: '' @ show_num (time_since_last_poll now f) @
     '', kind: '' @ show_kind (af_kind f) @ '' }''"

section \<open>Subscriptions\<close>

record sub_cleaner_task =
  sc_interval :: nat

definition SubCleanerTask_new :: "nat \<Rightarrow> sub_cleaner_task" where
  "SubCleanerTask_new interval = \<lparr>sc_interval = interval\<rparr>"

definition SubscriptionManager_new :: "nat \<Rightarrow> sub_manager \<times> sub_cleaner_task" where
  "SubscriptionManager_new clean_interval = (sub_manager_new, SubCleanerTask_new clean_interval)"

text \<open>The clock does not matter to this thread. What happens to the registry between two rounds: endpoints, and tasks whose client left
  (they cancel their own token).\<close>

datatype sub_op = Sub_Subscribe bool | Sub_Unsubscribe u64 | Sub_Disconnect u64

fun sub_apply :: "sub_op \<Rightarrow> sub_manager \<Rightarrow> sub_manager" where
  "sub_apply (Sub_Subscribe enabled) m = snd (subscribe_sub enabled m)"
| "sub_apply (Sub_Unsubscribe i) m = snd (unsubscribe_sub i m)"
| "sub_apply (Sub_Disconnect i) m = m\<lparr>sm_cancelled := insert i (sm_cancelled m)\<rparr>"

fun sub_clean_thread :: "sub_op list option list \<Rightarrow> sub_manager \<Rightarrow> sub_manager" where
  "sub_clean_thread [] m = m"
| "sub_clean_thread (None # rounds) m = m"
| "sub_clean_thread (Some ops # rounds) m = sub_clean_thread rounds (clean_subs (fold sub_apply ops m))"

definition subscribe ::
    "bool \<Rightarrow> 'f subscribe_args \<Rightarrow> sub_manager \<Rightarrow> u64 eth_result \<times> sub_manager" where
  "subscribe notifications_enabled args m =
     (case try_from_args InvalidParams args of
        Ok interest \<Rightarrow>
          (case subscribe_sub notifications_enabled m of
             (r, m') \<Rightarrow> (ok_or r (Internal ''notifications not enabled on this transport''), m'))
      | Err e \<Rightarrow> (Err e, m)
      | Panic \<Rightarrow> (Panic, m))"

definition unsubscribe :: "u64 \<Rightarrow> sub_manager \<Rightarrow> bool eth_result \<times> sub_manager" where
  "unsubscribe i m = (case unsubscribe_sub i m of (r, m') \<Rightarrow> (await_handler (Ok r), m'))"

text \<open>Registered and cancelled ids were handed out before.\<close>

definition sub_ids_below :: "sub_manager \<Rightarrow> bool" where
  "sub_ids_below m \<longleftrightarrow> (\<forall>i \<in> sm_tasks m \<union> sm_cancelled m. i < sm_next_id m)"

lemma subscribe_answers:
  assumes "sub_ids_below m" "sm_next_id m < u64_max"
    and "try_from_args InvalidParams args = Ok interest"
  shows "fst (subscribe True args m) = Ok (sm_next_id m)"
    "sm_next_id m \<notin> sm_tasks m" "sm_next_id m \<notin> sm_cancelled m"
    "sm_tasks (snd (subscribe True args m)) = insert (sm_next_id m) (sm_tasks m)"
    "sub_ids_below (snd (subscribe True args m))"
  using assms by (auto simp: subscribe_def subscribe_sub_def sub_ids_below_def Let_def u64_simps less_Suc_eq)

lemma subscribe_refused:
  "fst (subscribe enabled args m) = Err e \<Longrightarrow> snd (subscribe enabled args m) = m"
  by (auto simp: subscribe_def subscribe_sub_def Let_def split: rresult.splits if_splits)

lemma unsubscribe_twice:
  "fst (unsubscribe i m) = Ok (i \<in> sm_tasks m) \<and>
   fst (unsubscribe i (snd (unsubscribe i m))) = Ok False"
  by (simp add: unsubscribe_def unsubscribe_sub_def)

text \<open>After a round of the cleaner no registered subscription is a cancelled one.\<close>

lemma cleaned_registry:
  "sm_tasks (sub_clean_thread [Some ops] m) \<inter> sm_cancelled (sub_clean_thread [Some ops] m) = {}"
  by (auto simp: clean_subs_def)

text \<open>
  A task that finds its channel to the client closed ends without cancelling its token, and an
  entry whose token is not cancelled survives every round of the cleaner: it stays registered
  for as long as the server runs.
\<close>

lemma closed_channel_keeps_token:
  assumes "\<not> sr_disconnected rd" "\<not> sr_cancelled rd" "\<not> buf_is_empty (st_buffer st)"
    "sr_permits rd = Some False" "\<not> st_token_cancelled st"
  shows "\<exists>st'. sub_step hash_slow matches capacity rd st = Ok st' \<and> \<not> st_running st' \<and>
    \<not> st_token_cancelled st'"
  using assms by (simp add: sub_step_def)

fun cancels :: "u64 \<Rightarrow> sub_op \<Rightarrow> bool" where
  "cancels i (Sub_Subscribe enabled) = False"
| "cancels i (Sub_Unsubscribe j) = (j = i)"
| "cancels i (Sub_Disconnect j) = (j = i)"

lemma uncancelled_stays:
  assumes "i \<in> sm_tasks m" "i \<notin> sm_cancelled m" "\<forall>op \<in> set ops. \<not> cancels i op"
  shows "i \<in> sm_tasks (fold sub_apply ops m) \<and> i \<notin> sm_cancelled (fold sub_apply ops m)"
  using assms
proof (induction ops arbitrary: m)
  case (Cons op ops)
  have "i \<in> sm_tasks (sub_apply op m) \<and> i \<notin> sm_cancelled (sub_apply op m)"
    using Cons.prems by (cases op) (auto simp: subscribe_sub_def unsubscribe_sub_def Let_def)
  then show ?case using Cons by simp
qed simp

lemma leaked_entry_stays:
  assumes "i \<in> sm_tasks m" "i \<notin> sm_cancelled m"
    "\<forall>ops \<in> set rounds. \<forall>op \<in> set ops. \<not> cancels i op"
  shows "i \<in> sm_tasks (sub_clean_thread (map Some rounds) m)"
  using assms
proof (induction rounds arbitrary: m)
  case (Cons ops rounds)
  have "i \<in> sm_tasks (fold sub_apply ops m) \<and> i \<notin> sm_cancelled (fold sub_apply ops m)"
    using uncancelled_stays [OF Cons.prems(1,2)] Cons.prems(3) by simp
  then show ?case
    using Cons.IH [of "clean_subs (fold sub_apply ops m)"] Cons.prems(3) by (simp add: clean_subs_def)
qed simp

section \<open>Notifications\<close>

text \<open>JSON values, as far as the envelope builds them.\<close>

datatype json = JNull | JBool bool | JNumber int | JString string
  | JArray "json list" | JObject "(string \<times> json) list"

definition subscription_params :: "json \<Rightarrow> json \<Rightarrow> json" where
  "subscription_params result subscription =
     JObject [(''result'', result), (''subscription'', subscription)]"

definition subscription_notification :: "json \<Rightarrow> json" where
  "subscription_notification params =
     JObject [(''jsonrpc'', JString ''2.0''), (''method'', JString ''eth_subscription''),
       (''params'', params)]"

end
