(* ===== verification/Host_Shim.thy ===== *)
theory Host_Shim
  imports Host_Reth
begin

text \<open>
  The shim that presents reth's blocks to the extractor (\<^verbatim>\<open>crates/host-reth/src/shim.rs\<close>) and the
  chain segments read through it (\<^verbatim>\<open>chain.rs\<close>, \<^verbatim>\<open>backfill.rs\<close>). The header methods of reth's block are a
  record of functions; the shim has the same record over itself. That the transmuted
  reference is the block itself is what the transparent layout is for.
\<close>

section \<open>Header methods\<close>

text \<open>alloy's \<^verbatim>\<open>BlockHeader\<close>, for blocks \<open>'b\<close>; blob and base-fee parameters are alloy's.\<close>

record ('b, 'bp, 'fp) block_header =
  bh_parent_hash :: "'b \<Rightarrow> b256"
  bh_ommers_hash :: "'b \<Rightarrow> b256"
  bh_beneficiary :: "'b \<Rightarrow> address"
  bh_base_fee_per_gas :: "'b \<Rightarrow> u64 option"
  bh_blob_fee :: "'b \<Rightarrow> 'bp \<Rightarrow> nat option"
  bh_blob_gas_used :: "'b \<Rightarrow> u64 option"
  bh_difficulty :: "'b \<Rightarrow> b256"
  bh_exceeds_allowed_future_timestamp :: "'b \<Rightarrow> u64 \<Rightarrow> bool"
  bh_excess_blob_gas :: "'b \<Rightarrow> u64 option"
  bh_extra_data :: "'b \<Rightarrow> u8 list"
  bh_parent_beacon_block_root :: "'b \<Rightarrow> b256 option"
  bh_gas_limit :: "'b \<Rightarrow> u64"
  bh_gas_used :: "'b \<Rightarrow> u64"
  bh_is_empty :: "'b \<Rightarrow> bool"
  bh_is_nonce_zero :: "'b \<Rightarrow> bool"
  bh_is_zero_difficulty :: "'b \<Rightarrow> bool"
  bh_logs_bloom :: "'b \<Rightarrow> 2048 word"
  bh_maybe_next_block_blob_fee :: "'b \<Rightarrow> 'bp option \<Rightarrow> nat option"
  bh_maybe_next_block_excess_blob_gas :: "'b \<Rightarrow> 'bp option \<Rightarrow> u64 option"
  bh_mix_hash :: "'b \<Rightarrow> b256 option"
  bh_next_block_base_fee :: "'b \<Rightarrow> 'fp \<Rightarrow> u64 option"
  bh_next_block_blob_fee :: "'b \<Rightarrow> 'bp \<Rightarrow> nat option"
  bh_next_block_excess_blob_gas :: "'b \<Rightarrow> 'bp \<Rightarrow> u64 option"
  bh_nonce :: "'b \<Rightarrow> 64 word option"
  bh_number :: "'b \<Rightarrow> u64"
  bh_parent_num_hash :: "'b \<Rightarrow> u64 \<times> b256"
  bh_receipts_root :: "'b \<Rightarrow> b256"
  bh_requests_hash :: "'b \<Rightarrow> b256 option"
  bh_state_root :: "'b \<Rightarrow> b256"
  bh_timestamp :: "'b \<Rightarrow> u64"
  bh_transactions_root :: "'b \<Rightarrow> b256"
  bh_withdrawals_root :: "'b \<Rightarrow> b256 option"

datatype 'b recovered_block_shim = RecoveredBlockShim (shim_block: 'b)

definition shim_from :: "'b \<Rightarrow> 'b recovered_block_shim" where
  "shim_from b = RecoveredBlockShim b"

definition shim_transactions :: "'tx recovered_block recovered_block_shim \<Rightarrow> 'tx list" where
  "shim_transactions s = map fst (rec_transactions (shim_block s))"

definition shim_header ::
  "('b, 'bp, 'fp) block_header \<Rightarrow> ('b recovered_block_shim, 'bp, 'fp) block_header" where
  "shim_header B =
     \<lparr>bh_parent_hash = (\<lambda>s. bh_parent_hash B (shim_block s)),
      bh_ommers_hash = (\<lambda>s. bh_ommers_hash B (shim_block s)),
      bh_beneficiary = (\<lambda>s. bh_beneficiary B (shim_block s)),
      bh_base_fee_per_gas = (\<lambda>s. bh_base_fee_per_gas B (shim_block s)),
      bh_blob_fee = (\<lambda>s. bh_blob_fee B (shim_block s)),
      bh_blob_gas_used = (\<lambda>s. bh_blob_gas_used B (shim_block s)),
      bh_difficulty = (\<lambda>s. bh_difficulty B (shim_block s)),
      bh_exceeds_allowed_future_timestamp = (\<lambda>s. bh_exceeds_allowed_future_timestamp B (shim_block s)),
      bh_excess_blob_gas = (\<lambda>s. bh_excess_blob_gas B (shim_block s)),
      bh_extra_data = (\<lambda>s. bh_extra_data B (shim_block s)),
      bh_parent_beacon_block_root = (\<lambda>s. bh_parent_beacon_block_root B (shim_block s)),
      bh_gas_limit = (\<lambda>s. bh_gas_limit B (shim_block s)),
      bh_gas_used = (\<lambda>s. bh_gas_used B (shim_block s)),
      bh_is_empty = (\<lambda>s. bh_is_empty B (shim_block s)),
      bh_is_nonce_zero = (\<lambda>s. bh_is_nonce_zero B (shim_block s)),
      bh_is_zero_difficulty = (\<lambda>s. bh_is_zero_difficulty B (shim_block s)),
      bh_logs_bloom = (\<lambda>s. bh_logs_bloom B (shim_block s)),
      bh_maybe_next_block_blob_fee = (\<lambda>s. bh_maybe_next_block_blob_fee B (shim_block s)),
      bh_maybe_next_block_excess_blob_gas = (\<lambda>s. bh_maybe_next_block_excess_blob_gas B (shim_block s)),
      bh_mix_hash = (\<lambda>s. bh_mix_hash B (shim_block s)),
      bh_next_block_base_fee = (\<lambda>s. bh_next_block_base_fee B (shim_block s)),
      bh_next_block_blob_fee = (\<lambda>s. bh_next_block_blob_fee B (shim_block s)),
      bh_next_block_excess_blob_gas = (\<lambda>s. bh_next_block_excess_blob_gas B (shim_block s)),
      bh_nonce = (\<lambda>s. bh_nonce B (shim_block s)),
      bh_number = (\<lambda>s. bh_number B (shim_block s)),
      bh_parent_num_hash = (\<lambda>s. bh_parent_num_hash B (shim_block s)),
      bh_receipts_root = (\<lambda>s. bh_receipts_root B (shim_block s)),
      bh_requests_hash = (\<lambda>s. bh_requests_hash B (shim_block s)),
      bh_state_root = (\<lambda>s. bh_state_root B (shim_block s)),
      bh_timestamp = (\<lambda>s. bh_timestamp B (shim_block s)),
      bh_transactions_root = (\<lambda>s. bh_transactions_root B (shim_block s)),
      bh_withdrawals_root = (\<lambda>s. bh_withdrawals_root B (shim_block s))\<rparr>"

text \<open>The shim is seen through: reading a header value off it is reading it off the block.\<close>

definition header_values where
  "header_values B b =
     ((bh_number B b, bh_parent_hash B b, bh_timestamp B b, bh_state_root B b, bh_transactions_root B b,
       bh_receipts_root B b, bh_logs_bloom B b, bh_beneficiary B b, bh_difficulty B b, bh_extra_data B b),
      (bh_gas_limit B b, bh_gas_used B b, bh_base_fee_per_gas B b, bh_mix_hash B b, bh_nonce B b, bh_ommers_hash B b,
       bh_blob_gas_used B b, bh_excess_blob_gas B b, bh_withdrawals_root B b, bh_requests_hash B b))"

lemma shim_transparent: "header_values (shim_header B) (shim_from b) = header_values B b"
  by (simp add: header_values_def shim_header_def shim_from_def)

section \<open>Segments through the shim\<close>

definition RethChain_new :: "('tx recovered_block \<times> 'r list) list \<Rightarrow> ('tx, 'r) reth_chain" where
  "RethChain_new chain = RethChain chain"

definition rc_blocks_and_receipts :: "('tx, 'r) reth_chain \<Rightarrow> ('tx recovered_block recovered_block_shim \<times> 'r list) list" where
  "rc_blocks_and_receipts c = map (\<lambda>(block, receipts). (RecoveredBlockShim block, receipts)) (rc_blocks c)"

definition dbs_shimmed :: "('tx, 'r) db_chain_segment \<Rightarrow> ('tx recovered_block recovered_block_shim \<times> 'r list) list" where
  "dbs_shimmed s = map (\<lambda>b. (RecoveredBlockShim (dbk_block b), dbk_receipts b)) (dbs_blocks s)"

fun hc_shimmed :: "('tx, 'r) host_chain \<Rightarrow> ('tx recovered_block recovered_block_shim \<times> 'r list) list" where
  "hc_shimmed (Backfill segment) = dbs_shimmed segment"
| "hc_shimmed (Live chain) = rc_blocks_and_receipts chain"

lemma hc_shimmed_blocks:
  "hc_shimmed c = map (\<lambda>(b, rs). (shim_from b, rs)) (hc_blocks_and_receipts c)"
  by (cases c) (simp_all add: dbs_shimmed_def rc_blocks_and_receipts_def dbs_blocks_and_receipts_def shim_from_def)

lemma shimmed_ends:
  assumes "hc_shimmed c \<noteq> []"
  shows "shim_block (fst (hd (hc_shimmed c))) = fst (hd (hc_blocks_and_receipts c))"
    and "shim_block (fst (last (hc_shimmed c))) = fst (last (hc_blocks_and_receipts c))"
  using assms unfolding hc_shimmed_blocks
  by (auto simp: hd_map last_map shim_from_def split: prod.split)

text \<open>The contract of a segment holds for what the extractor sees, with numbers read off the shim.\<close>

interpretation shimseg: extractable hc_shimmed hc_first_number hc_tip_number hc_len
  "\<lambda>s. block_number (shim_block s)"
proof
  fix s :: "('a, 'b) host_chain"
  show "hc_len s = length (hc_shimmed s)" by (simp add: hc_shimmed_blocks hseg.len_bars)
  show "hc_first_number s = Ok (block_number (shim_block (fst (hd (hc_shimmed s)))))" if "hc_shimmed s \<noteq> []"
    using shimmed_ends(1)[OF that] hseg.first_bars[of s] that by (simp add: hc_shimmed_blocks)
  show "hc_tip_number s = Ok (block_number (shim_block (fst (last (hc_shimmed s)))))" if "hc_shimmed s \<noteq> []"
    using shimmed_ends(2)[OF that] hseg.tip_bars[of s] that by (simp add: hc_shimmed_blocks)
qed

lemma shim_number: "bh_number (shim_header B) s = bh_number B (shim_block s)"
  by (simp add: shim_header_def)

lemma extractor_numbers:
  assumes "consec (map (\<lambda>(s, rs). bh_number (shim_header B) s) (hc_shimmed c))" "hc_shimmed c \<noteq> []"
    and "\<forall>b. bh_number B b = block_number b"
  shows "\<exists>a. hc_first_number c = (Ok a :: (u64, 'e) rresult) \<and> hc_tip_number c = (Ok (a + hc_len c - 1) :: (u64, 'e) rresult)
    \<and> map (\<lambda>(s, rs). bh_number (shim_header B) s) (hc_shimmed c) = [a..<a + hc_len c]"
proof -
  have n: "(\<lambda>(s, rs). bh_number (shim_header B) s) = (\<lambda>s. block_number (shim_block s)) \<circ> fst"
    by (rule ext) (simp add: shim_number assms(3) case_prod_beta)
  show ?thesis using shimseg.numbers_of_segment[OF assms(1)[unfolded n] assms(2)] unfolding n .
qed

end
