(* ===== verification/Blob_Sources.thy ===== *)
theory Blob_Sources
  imports Blob_Fetch Rpc_Serve
begin

text \<open>
  The requests of the remote blob sources (\<^verbatim>\<open>crates/blobber/src/blobs/sources\<close>) and the
  conversions into blobs (\<^verbatim>\<open>blobs/fetch.rs\<close>). URLs, the HTTP client and the blob explorer's client
  are arguments; what is modelled is which URL is asked for and how the answer becomes blobs.
\<close>

section \<open>Conversions\<close>

datatype 'b blobs_input =
    Vec_Blobs "'b list"
  | Arc_Vec_Blobs "'b list"
  | Variant_Sidecar "'b sidecar_variant"
  | Arc_Variant_Sidecar "'b sidecar_variant"
  | Sidecar_4844 "'b list"
  | Sidecar_7594 "'b list"

fun blobs_from :: "'b blobs_input \<Rightarrow> 'b blobs" where
  "blobs_from (Vec_Blobs bs) = Other bs"
| "blobs_from (Arc_Vec_Blobs bs) = Other bs"
| "blobs_from (Variant_Sidecar sidecar) = FromSidecar sidecar"
| "blobs_from (Arc_Variant_Sidecar sidecar) = FromSidecar sidecar"
| "blobs_from (Sidecar_4844 bs) = FromSidecar (Eip4844 bs)"
| "blobs_from (Sidecar_7594 bs) = FromSidecar (Eip7594 bs)"

definition blobs_from_iter :: "'b list \<Rightarrow> 'b blobs" where
  "blobs_from_iter it = Other it"

definition blobs_as_slice :: "'b blobs \<Rightarrow> 'b list" where
  "blobs_as_slice b = blobs_as_vec b"

text \<open>No conversion loses or reorders blobs.\<close>

fun input_blobs :: "'b blobs_input \<Rightarrow> 'b list" where
  "input_blobs (Vec_Blobs bs) = bs"
| "input_blobs (Arc_Vec_Blobs bs) = bs"
| "input_blobs (Variant_Sidecar s) = blobs_as_vec (FromSidecar s)"
| "input_blobs (Arc_Variant_Sidecar s) = blobs_as_vec (FromSidecar s)"
| "input_blobs (Sidecar_4844 bs) = bs"
| "input_blobs (Sidecar_7594 bs) = bs"

lemma blobs_from_as_vec: "blobs_as_vec (blobs_from i) = input_blobs i"
  by (cases i) simp_all

section \<open>Requests\<close>

text \<open>
  \<^verbatim>\<open>url\<close>: joining a reference to a base and appending a query pair. The client sends a GET with
  headers; the status is checked, then the body decoded.
\<close>

record ('u, 'w, 'resp) http_ops =
  ht_join :: "'u \<Rightarrow> string \<Rightarrow> string + 'u"
  ht_append_pair :: "string \<Rightarrow> string \<Rightarrow> 'u \<Rightarrow> 'u"
  ht_get :: "'u \<Rightarrow> (string \<times> string) list \<Rightarrow> 'w \<Rightarrow> (string + 'resp) \<times> 'w"
  ht_error_for_status :: "'resp \<Rightarrow> string + 'resp"

definition and_then :: "string + 'a \<Rightarrow> ('a \<Rightarrow> string + 'b) \<Rightarrow> string + 'b" where
  "and_then r f = (case r of Inl e \<Rightarrow> Inl e | Inr a \<Rightarrow> f a)"

lemma and_then_Inr: "and_then r f = Inr b \<longleftrightarrow> (\<exists>a. r = Inr a \<and> f a = Inr b)"
  by (cases r) (simp_all add: and_then_def)

definition get_json ::
  "('u, 'w, 'resp) http_ops \<Rightarrow> ('resp \<Rightarrow> string + 'a) \<Rightarrow> 'u \<Rightarrow> 'w \<Rightarrow> (string + 'a) \<times> 'w" where
  "get_json H json url w =
     (case ht_get H url [(''accept'', ''application/json'')] w of
        (r, w1) \<Rightarrow> (and_then r (\<lambda>resp. and_then (ht_error_for_status H resp) json), w1))"

definition beacon_url ::
  "('u, 'w, 'resp) http_ops \<Rightarrow> (usize \<Rightarrow> string) \<Rightarrow> (b256 \<Rightarrow> string) \<Rightarrow> 'u \<Rightarrow> usize \<Rightarrow> b256 list \<Rightarrow> string + 'u" where
  "beacon_url H show_slot show_hash base_url slot versioned_hashes =
     and_then (ht_join H base_url (''/eth/v1/beacon/blobs/'' @ show_slot slot)) (\<lambda>url.
       let hashes = join_comma (map show_hash versioned_hashes)
       in Inr (ht_append_pair H ''versioned_hashes'' hashes url))"

definition fetch_from_cl ::
  "('u, 'w, 'resp) http_ops \<Rightarrow> (usize \<Rightarrow> string) \<Rightarrow> (b256 \<Rightarrow> string) \<Rightarrow> ('resp \<Rightarrow> string + 'b list) \<Rightarrow> 'u
     \<Rightarrow> usize \<Rightarrow> b256 list \<Rightarrow> 'w \<Rightarrow> (string + 'b list) \<times> 'w" where
  "fetch_from_cl H show_slot show_hash json base_url slot versioned_hashes w =
     (case beacon_url H show_slot show_hash base_url slot versioned_hashes of
        Inl e \<Rightarrow> (Inl e, w)
      | Inr url \<Rightarrow> get_json H json url w)"

definition fetch_from_pylon ::
  "('u, 'w, 'resp) http_ops \<Rightarrow> (b256 \<Rightarrow> string) \<Rightarrow> ('resp \<Rightarrow> string + 'b sidecar_variant) \<Rightarrow> 'u
     \<Rightarrow> b256 \<Rightarrow> 'w \<Rightarrow> (string + 'b sidecar_variant) \<times> 'w" where
  "fetch_from_pylon H show_hash json base_url tx_hash w =
     (case ht_join H base_url (''sidecar/'' @ show_hash tx_hash) of
        Inl e \<Rightarrow> (Inl e, w)
      | Inr url \<Rightarrow> get_json H json url w)"

text \<open>The explorer's answer is a transaction whose blobs each carry their data.\<close>

definition explorer_transaction ::
  "(b256 \<Rightarrow> 'w \<Rightarrow> (string + 'eb list) \<times> 'w) \<Rightarrow> ('eb \<Rightarrow> 'b) \<Rightarrow> b256 \<Rightarrow> 'w \<Rightarrow> (string + 'b list) \<times> 'w" where
  "explorer_transaction transaction blob_data tx_hash w =
     (case transaction tx_hash w of
        (Inl e, w1) \<Rightarrow> (Inl e, w1)
      | (Inr sidecar_blobs, w1) \<Rightarrow> (Inr (blobs_as_vec (blobs_from_iter (map blob_data sidecar_blobs))), w1))"

definition BeaconBlobSource where
  "BeaconBlobSource H show_slot show_hash json url = beacon_source (fetch_from_cl H show_slot show_hash json url)"

definition PylonBlobSource where
  "PylonBlobSource H show_hash json url = pylon_source (fetch_from_pylon H show_hash json url)"

definition BlobExplorerSource where
  "BlobExplorerSource transaction blob_data = explorer_source (explorer_transaction transaction blob_data)"

text \<open>
  The query of a beacon request names exactly the requested hashes, in order: splitting its
  value at the commas gives them back.
\<close>

lemma split_comma_plain: "CHR '','' \<notin> set q \<Longrightarrow> split_comma q = [q]"
  by (induction q) auto

lemma split_comma_first: "CHR '','' \<notin> set r \<Longrightarrow> split_comma (r @ CHR '','' # s) = r # split_comma s"
  by (induction r) auto

lemma split_join_comma:
  "ps \<noteq> [] \<Longrightarrow> \<forall>p\<in>set ps. CHR '','' \<notin> set p \<Longrightarrow> split_comma (join_comma ps) = ps"
  by (induction ps rule: join_comma.induct) (simp_all add: split_comma_plain split_comma_first)

lemma beacon_query_hashes:
  assumes "beacon_url H show_slot show_hash base slot hs = Inr url" "hs \<noteq> []"
    and "\<forall>h. CHR '','' \<notin> set (show_hash h)"
  shows "\<exists>u q. ht_join H base (''/eth/v1/beacon/blobs/'' @ show_slot slot) = Inr u
    \<and> url = ht_append_pair H ''versioned_hashes'' q u \<and> split_comma q = map show_hash hs"
proof -
  obtain u where u: "ht_join H base (''/eth/v1/beacon/blobs/'' @ show_slot slot) = Inr u"
    "url = ht_append_pair H ''versioned_hashes'' (join_comma (map show_hash hs)) u"
    using assms(1) by (auto simp: beacon_url_def and_then_Inr Let_def)
  moreover have "split_comma (join_comma (map show_hash hs)) = map show_hash hs"
    by (rule split_join_comma) (use assms(2,3) in auto)
  ultimately show ?thesis by blast
qed

text \<open>A source answers with blobs only when the request succeeded with a good status and decoded.\<close>

lemma beacon_answer:
  assumes "BeaconBlobSource H show_slot show_hash json url spec w = (Inr (Some b), w')"
  shows "\<exists>u resp resp' bs. ht_get H u [(''accept'', ''application/json'')] w = (Inr resp, w')
    \<and> ht_error_for_status H resp = Inr resp' \<and> json resp' = Inr bs \<and> bs \<noteq> [] \<and> b = Other bs"
  using assms
  by (auto simp: BeaconBlobSource_def beacon_source_def fetch_from_cl_def get_json_def and_then_Inr
      split: prod.splits sum.splits if_splits)

section \<open>The cache's size\<close>

text \<open>Room for the blobs of an epoch of full blocks; alloy's constants are arguments.\<close>

definition BLOB_CACHE_SIZE :: "u64 \<Rightarrow> u64 \<Rightarrow> nat" where
  "BLOB_CACHE_SIZE max_blobs_per_block epoch_slots = u64_mul max_blobs_per_block epoch_slots mod 2 ^ 32"

definition CACHE_REQUEST_CHANNEL_SIZE :: "u64 \<Rightarrow> usize" where
  "CACHE_REQUEST_CHANNEL_SIZE max_blobs_per_block = u64_mul max_blobs_per_block 2"

end
