(* ===== verification/Node_Harness.thy ===== *)
theory Node_Harness
  imports Node_Invariant Blob_Cache
begin

text \<open>
  The test context around a running node (\<^verbatim>\<open>crates/node-tests/src/context.rs\<close> and \<^verbatim>\<open>convert.rs\<close>):
  the channel-backed notifier, the conversion of test notifications, the driving of the
  node block by block with its waiting and its checks, and the facts that keep context and
  node in step. Block specs, test chains and the provider of the test utilities are
  arguments. Tests run on a single-threaded runtime, so a turn of the node, which does not
  suspend once the status has been sent, is over before a waiting test goes on.
\<close>

section \<open>The channel-backed notifier\<close>

text \<open>An unbounded channel: what was sent and not yet received, and whether a sender is left.\<close>

record 'a unbounded_channel =
  uc_queue :: "'a list"
  uc_open :: bool

text \<open>\<open>None\<close> means that the receiver waits.\<close>

definition channel_recv :: "'a unbounded_channel \<Rightarrow> 'a option option \<times> 'a unbounded_channel" where
  "channel_recv c =
     (case uc_queue c of
        x # xs \<Rightarrow> (Some (Some x), c\<lparr>uc_queue := xs\<rparr>)
      | [] \<Rightarrow> (if uc_open c then None else Some None, c))"

record 'c test_host_notifier =
  tn_receiver :: "'c host_notification unbounded_channel"

definition TestHostNotifier_new :: "'c host_notification unbounded_channel \<Rightarrow> 'c test_host_notifier" where
  "TestHostNotifier_new receiver = \<lparr>tn_receiver = receiver\<rparr>"

definition test_next_notification ::
  "'c test_host_notifier \<Rightarrow> ('c host_notification, string) rresult option option \<times> 'c test_host_notifier" where
  "test_next_notification n =
     (case channel_recv (tn_receiver n) of (r, c) \<Rightarrow> (map_option (map_option Ok) r, \<lparr>tn_receiver = c\<rparr>))"

definition test_set_head :: "u64 \<Rightarrow> 'c test_host_notifier \<Rightarrow> 'c test_host_notifier" where
  "test_set_head block_number n = n"

definition test_set_backfill_thresholds :: "u64 option \<Rightarrow> 'c test_host_notifier \<Rightarrow> 'c test_host_notifier" where
  "test_set_backfill_thresholds max_blocks n = n"

definition test_send_finished_height :: "u64 \<Rightarrow> 'c test_host_notifier \<Rightarrow> (string + unit) \<times> 'c test_host_notifier" where
  "test_send_finished_height block_number n = (Inr (), n)"

text \<open>The notifier of the node; turns are taken only when the channel does not wait.\<close>

definition test_backend :: "('c test_host_notifier, 'c) notifier_ops" where
  "test_backend =
     \<lparr>no_next_notification = (\<lambda>n. case test_next_notification n of (r, n') \<Rightarrow> (Option.bind r id, n')),
      no_set_head = test_set_head, no_set_backfill_thresholds = test_set_backfill_thresholds,
      no_send_finished_height = test_send_finished_height\<rparr>"

section \<open>Test notifications\<close>

datatype 'c test_exex_notification = TestCommitted 'c | TestReorged 'c 'c | TestReverted 'c

record ('c, 'b, 'tx) notification_with_sidecars =
  nw_notification :: "'c test_exex_notification"
  nw_sidecars :: "('b list \<times> 'tx) list"

record 'c test_chain_ops =
  tc_block_numbers :: "'c \<Rightarrow> u64 list"
  tc_first_number :: "'c \<Rightarrow> u64"
  tc_tip_number :: "'c \<Rightarrow> u64"
  tc_committed_chain :: "'c test_exex_notification \<Rightarrow> 'c option"
  tc_reverted_chain :: "'c test_exex_notification \<Rightarrow> 'c option"

datatype recv_error = RecvError

definition chain_revert_range :: "'c test_chain_ops \<Rightarrow> 'c \<Rightarrow> (revert_range, recv_error) rresult" where
  "chain_revert_range T old = RevertRange_new (tc_first_number T old) (tc_tip_number T old)"

fun test_kind :: "'c test_chain_ops \<Rightarrow> 'c test_exex_notification \<Rightarrow> ('c host_notification_kind, recv_error) rresult" where
  "test_kind T (TestCommitted new) = Ok (ChainCommitted new)"
| "test_kind T (TestReorged old new) = rmap (\<lambda>rg. ChainReorged rg new) (chain_revert_range T old)"
| "test_kind T (TestReverted old) = rmap ChainReverted (chain_revert_range T old)"

definition to_host_notification ::
  "'c test_chain_ops \<Rightarrow> 'c test_exex_notification \<Rightarrow> ('c host_notification, recv_error) rresult" where
  "to_host_notification T notif =
     rmap (\<lambda>k. \<lparr>kind = k, safe_block_number = None, finalized_block_number = None\<rparr>) (test_kind T notif)"

section \<open>The context\<close>

text \<open>
  The node's task with everything it shares with the context: storage, the blob source (the
  world of the blob cache) and the status channel. \<open>tx_ended\<close> is the result of a task that is over.
\<close>

type_synonym ('b, 'm) test_blobs = "(b256 \<rightharpoonup> 'b sidecar_variant, 'b, 'm) cache_server"

record ('st, 'c, 'b, 'm, 'l) test_context =
  tx_node :: "('st, 'c test_host_notifier, ('b, 'm) test_blobs, 'l) node_state"
  tx_ended :: "(unit, report) rresult option"
  tx_height :: u64
  tx_alias :: "address set"

text \<open>
  What the context is built over: the node's environment, which reads the alias oracle, and
  the test utilities that make blocks and notifications.
\<close>

record ('st, 'rd, 'eb, 'l, 'c, 'x, 'b, 'm, 'tx, 'hb, 'sp) test_utils =
  tu_env :: "address set \<Rightarrow> ('st, 'rd, 'eb, 'l, 'c test_host_notifier, 'c, 'x, ('b, 'm) test_blobs) node_env"
  tu_chain :: "'c test_chain_ops"
  tu_tx_hash :: "'tx \<Rightarrow> b256"
  tu_block_number :: "'hb \<Rightarrow> u64"
  tu_set_block_number :: "u64 \<Rightarrow> 'hb \<Rightarrow> 'hb"
  tu_commit_single_block :: "'hb \<Rightarrow> ('c, 'b, 'tx) notification_with_sidecars"
  tu_revert_single_block :: "'hb \<Rightarrow> ('c, 'b, 'tx) notification_with_sidecars"
  tu_spec_default :: 'sp
  tu_commit :: "'hb \<Rightarrow> 'sp \<Rightarrow> 'sp"
  tu_to_exex_notification :: "'sp \<Rightarrow> ('c, 'b, 'tx) notification_with_sidecars"

definition tx_env where
  "tx_env U ctx = tu_env U (tx_alias ctx)"

definition tx_set_should_alias :: "address \<Rightarrow> bool \<Rightarrow> ('st, 'c, 'b, 'm, 'l) test_context \<Rightarrow> ('st, 'c, 'b, 'm, 'l) test_context" where
  "tx_set_should_alias address should ctx =
     (if should then ctx\<lparr>tx_alias := insert address (tx_alias ctx)\<rparr>
      else ctx\<lparr>tx_alias := tx_alias ctx - {address}\<rparr>)"

definition insert_sidecars ::
  "('tx \<Rightarrow> b256) \<Rightarrow> ('b list \<times> 'tx) list \<Rightarrow> (b256 \<rightharpoonup> 'b sidecar_variant) \<Rightarrow> (b256 \<rightharpoonup> 'b sidecar_variant)" where
  "insert_sidecars tx_hash scs m = fold (\<lambda>(sidecar, tx). memory_insert (tx_hash tx) (Eip4844 sidecar)) scs m"

definition send_notification ::
  "('st, 'rd, 'eb, 'l, 'c, 'x, 'b, 'm, 'tx, 'hb, 'sp) test_utils \<Rightarrow> ('c, 'b, 'tx) notification_with_sidecars
     \<Rightarrow> ('st, 'c, 'b, 'm, 'l) test_context \<Rightarrow> (unit, recv_error) rresult \<times> ('st, 'c, 'b, 'm, 'l) test_context" where
  "send_notification U notification ctx =
     (let bl = ns_blobs (tx_node ctx);
          ns1 = (tx_node ctx)\<lparr>ns_blobs :=
                   bl\<lparr>cs_world := insert_sidecars (tu_tx_hash U) (nw_sidecars notification) (cs_world bl)\<rparr>\<rparr>;
          ctx1 = ctx\<lparr>tx_node := ns1\<rparr>
      in case to_host_notification (tu_chain U) (nw_notification notification) of
           Ok hn \<Rightarrow>
             if tx_ended ctx1 \<noteq> None then (Panic, ctx1)
             else (let c = tn_receiver (ns_notifier ns1)
                   in (Ok (), ctx1\<lparr>tx_node := ns1\<lparr>ns_notifier :=
                         \<lparr>tn_receiver = c\<lparr>uc_queue := uc_queue c @ [hn]\<rparr>\<rparr>\<rparr>\<rparr>))
         | Err e \<Rightarrow> (Err e, ctx1)
         | Panic \<Rightarrow> (Panic, ctx1))"

section \<open>Waiting for the node\<close>

text \<open>Whether the next turn of the node sends a status.\<close>

definition status_sent ::
  "('st, 'rd, 'eb, 'l, 'n, 'c, 'x, 's) node_env \<Rightarrow> instant \<Rightarrow> ('st, 'n, 's, 'l) node_state \<Rightarrow> bool" where
  "status_sent E now ns =
     (case no_next_notification (ne_notifier E) (ns_notifier ns) of
        (Some (Ok notification), n) \<Rightarrow>
          (case on_notification E now notification (ns\<lparr>ns_notifier := n\<rparr>) of
             (Ok changed, ns1) \<Rightarrow> changed
           | _ \<Rightarrow> False)
      | _ \<Rightarrow> False)"

definition context_turn where
  "context_turn U now ctx =
     (case node_turn (tx_env U ctx) now (tx_node ctx) of (r, ns) \<Rightarrow> ctx\<lparr>tx_node := ns, tx_ended := r\<rparr>)"

text \<open>
  \<^verbatim>\<open>recv.changed().await\<close>: the node takes its turns until one sends a status. \<open>None\<close> is a
  wait that does not end: the node waits for a notification itself.
\<close>

fun await_status ::
  "('st, 'rd, 'eb, 'l, 'c, 'x, 'b, 'm, 'tx, 'hb, 'sp) test_utils \<Rightarrow> instant list \<Rightarrow> ('st, 'c, 'b, 'm, 'l) test_context
     \<Rightarrow> (unit, recv_error) rresult option \<times> ('st, 'c, 'b, 'm, 'l) test_context" where
  "await_status U [] ctx = (None, ctx)"
| "await_status U (now # clock) ctx =
     (if tx_ended ctx \<noteq> None then (Some (Err RecvError), ctx)
      else if uc_queue (tn_receiver (ns_notifier (tx_node ctx))) = [] then (None, ctx)
      else if status_sent (tx_env U ctx) now (tx_node ctx) then (Some (Ok ()), context_turn U now ctx)
      else await_status U clock (context_turn U now ctx))"

text \<open>What cold storage answers to the polls made before the timeout.\<close>

fun await_cold :: "(string + u64 option) list \<Rightarrow> u64 \<Rightarrow> bool" where
  "await_cold [] expected_height = False"
| "await_cold (Inr (Some latest) # answers) expected_height =
     (if latest \<ge> expected_height then True else await_cold answers expected_height)"
| "await_cold (_ # answers) expected_height = await_cold answers expected_height"

lemma await_cold_iff: "await_cold answers k \<longleftrightarrow> (\<exists>n\<ge>k. Inr (Some n) \<in> set answers)"
  by (induction answers k rule: await_cold.induct) auto

definition expected_height :: "'c test_chain_ops \<Rightarrow> u64 \<Rightarrow> 'c test_exex_notification \<Rightarrow> u64" where
  "expected_height T deploy_height notif =
     saturating_sub
       (opt_default 0
         (case Option.bind (tc_committed_chain T notif) (\<lambda>c. last_opt (tc_block_numbers T c)) of
            Some n \<Rightarrow> Some n
          | None \<Rightarrow> Option.bind (tc_reverted_chain T notif)
              (\<lambda>c. map_option (\<lambda>n. saturating_sub n 1) (first_opt (tc_block_numbers T c)))))
       deploy_height"

definition process_notification ::
  "('st, 'rd, 'eb, 'l, 'c, 'x, 'b, 'm, 'tx, 'hb, 'sp) test_utils \<Rightarrow> instant list \<Rightarrow> (string + u64 option) list
     \<Rightarrow> ('c, 'b, 'tx) notification_with_sidecars \<Rightarrow> ('st, 'c, 'b, 'm, 'l) test_context
     \<Rightarrow> (unit, recv_error) rresult option \<times> ('st, 'c, 'b, 'm, 'l) test_context" where
  "process_notification U clock cold notification ctx =
     (let expected = expected_height (tu_chain U) (co_host_deploy_height (ne_constants (tx_env U ctx)))
                       (nw_notification notification)
      in case send_notification U notification ctx of
           (Ok _, ctx1) \<Rightarrow>
             (case await_status U clock ctx1 of
                (Some (Ok _), ctx2) \<Rightarrow>
                  if \<not> await_cold cold expected then (Some Panic, ctx2)
                  else if tag_latest (cn_tags (ns_chain (tx_node ctx2))) \<noteq> expected then (Some Panic, ctx2)
                  else (Some (Ok ()), ctx2)
              | (r, ctx2) \<Rightarrow> (r, ctx2))
         | (r, ctx1) \<Rightarrow> (Some r, ctx1))"

section \<open>Driving the node\<close>

definition tx_process_block where
  "tx_process_block U clock cold block ctx =
     (let block = tu_set_block_number U (u64_add (tx_height ctx) 1) block
      in process_notification U clock cold (tu_commit_single_block U block)
           (ctx\<lparr>tx_height := u64_add (tx_height ctx) 1\<rparr>))"

fun commit_specs ::
  "('st, 'rd, 'eb, 'l, 'c, 'x, 'b, 'm, 'tx, 'hb, 'sp) test_utils \<Rightarrow> 'hb list \<Rightarrow> 'sp \<Rightarrow> u64 \<Rightarrow> 'sp \<times> u64" where
  "commit_specs U [] spec h = (spec, h)"
| "commit_specs U (block # blocks) spec h =
     commit_specs U blocks (tu_commit U (tu_set_block_number U (u64_add h 1) block) spec) (u64_add h 1)"

definition process_blocks where
  "process_blocks U clock cold blocks ctx =
     (case commit_specs U blocks (tu_spec_default U) (tx_height ctx) of
        (spec, h) \<Rightarrow> process_notification U clock cold (tu_to_exex_notification U spec) (ctx\<lparr>tx_height := h\<rparr>))"

definition revert_block where
  "revert_block U clock cold block ctx =
     (let block = tu_set_block_number U (tx_height ctx) block
      in process_notification U clock cold (tu_revert_single_block U block)
           (ctx\<lparr>tx_height := u64_sub (tx_height ctx) 1\<rparr>))"

section \<open>Transactions\<close>

text \<open>
  alloy's provider, connected to the node: filling a request gives a signed envelope or what is
  still a builder, and receipts are read from the node. \<open>ap_block\<close> makes the host block that
  submits a rollup block with the one transaction.
\<close>

datatype ('tx, 'req) sendable_tx = Envelope 'tx | Builder 'req

record ('req, 'tx, 'hb, 'ns, 'rc) alloy_ops =
  ap_fill :: "'req \<Rightarrow> string + ('tx, 'req) sendable_tx"
  ap_block :: "'tx \<Rightarrow> 'hb"
  ap_tx_hash :: "'tx \<Rightarrow> b256"
  ap_receipt :: "'ns \<Rightarrow> b256 \<Rightarrow> string + 'rc option"

definition fill_alloy_tx :: "('req, 'tx, 'hb, 'ns, 'rc) alloy_ops \<Rightarrow> 'req \<Rightarrow> ('tx, report) rresult" where
  "fill_alloy_tx P req =
     rbind (eyre (ap_fill P req)) (\<lambda>filled. case filled of Envelope tx \<Rightarrow> Ok tx | Builder r \<Rightarrow> Panic)"

definition receipt_of ::
  "('req, 'tx, 'hb, 'ns, 'rc) alloy_ops \<Rightarrow> 'ns \<Rightarrow> 'tx \<Rightarrow> ('tx \<times> 'rc, report) rresult" where
  "receipt_of P ns tx =
     rbind (eyre (ap_receipt P ns (ap_tx_hash P tx))) (\<lambda>r.
       rmap (\<lambda>receipt. (tx, receipt)) (ok_or r (Report ''no receipt'')))"

definition process_alloy_tx where
  "process_alloy_tx U P clock cold req ctx =
     (case fill_alloy_tx P req of
        Ok tx \<Rightarrow>
          (case tx_process_block U clock cold (ap_block P tx) ctx of
             (None, ctx1) \<Rightarrow> (None, ctx1)
           | (Some r, ctx1) \<Rightarrow>
               (Some (rbind (map_report (\<lambda>e. Report ''channel closed'') r) (\<lambda>_. receipt_of P (tx_node ctx1) tx)), ctx1))
      | Err e \<Rightarrow> (Some (Err e), ctx)
      | Panic \<Rightarrow> (Some Panic, ctx))"

text \<open>Deploying a contract is such a transaction; the address is known before, a failure is a panic.\<close>

definition deploy_contract where
  "deploy_contract U P clock cold request address ctx =
     (case process_alloy_tx U P clock cold request ctx of
        (None, ctx1) \<Rightarrow> (None, ctx1)
      | (Some (Ok _), ctx1) \<Rightarrow> (Some (Ok address :: (address, report) rresult), ctx1)
      | (Some _, ctx1) \<Rightarrow> (Some Panic, ctx1))"

lemma receipt_of_Ok:
  "receipt_of P ns tx = Ok tr \<longleftrightarrow> fst tr = tx \<and> ap_receipt P ns (ap_tx_hash P tx) = Inr (Some (snd tr))"
  by (cases "ap_receipt P ns (ap_tx_hash P tx)"; cases tr) (auto simp: receipt_of_def rres_simps)

lemma fill_alloy_tx_Ok: "fill_alloy_tx P req = Ok tx \<longleftrightarrow> ap_fill P req = Inr (Envelope tx)"
  by (cases "ap_fill P req") (auto simp: fill_alloy_tx_def split: sendable_tx.splits)

lemma deployed_has_receipt:
  assumes "deploy_contract U P clock cold request a ctx = (Some (Ok b), ctx')"
  shows "b = a \<and> (\<exists>tx receipt. ap_fill P request = Inr (Envelope tx)
    \<and> tx_process_block U clock cold (ap_block P tx) ctx = (Some (Ok ()), ctx')
    \<and> ap_receipt P (tx_node ctx') (ap_tx_hash P tx) = Inr (Some receipt))"
proof -
  obtain tr where p: "process_alloy_tx U P clock cold request ctx = (Some (Ok tr), ctx')" and b: "b = a"
    using assms unfolding deploy_contract_def by (auto split: prod.splits option.splits rresult.splits)
  obtain tx where tx: "fill_alloy_tx P request = Ok tx"
    using p unfolding process_alloy_tx_def by (auto split: rresult.splits)
  obtain r where blk: "tx_process_block U clock cold (ap_block P tx) ctx = (Some r, ctx')"
    and "rbind (map_report (\<lambda>e. Report ''channel closed'') r) (\<lambda>_. receipt_of P (tx_node ctx') tx) = Ok tr"
    using p tx unfolding process_alloy_tx_def by (auto split: prod.splits option.splits)
  then have "r = Ok ()" "receipt_of P (tx_node ctx') tx = Ok tr"
    by (cases r; simp add: map_report_def)+
  then show ?thesis using b blk tx receipt_of_Ok fill_alloy_tx_Ok by metis
qed

text \<open>
  Minting a token: a host block with the token's entry, and a check of the rollup token's
  balance, which the provider reads from the node.
\<close>

definition mint_token where
  "mint_token U clock cold block token_balance amount ctx =
     (case tx_process_block U clock cold block ctx of
        (None, ctx1) \<Rightarrow> (None, ctx1)
      | (Some (Ok _), ctx1) \<Rightarrow>
          (case token_balance (tx_node ctx1) of
             Inl e \<Rightarrow> (Some Panic, ctx1)
           | Inr balance \<Rightarrow>
               if balance = (of_nat amount :: b256) then (Some (Ok () :: (unit, report) rresult), ctx1)
               else (Some Panic, ctx1))
      | (Some _, ctx1) \<Rightarrow> (Some Panic, ctx1))"

section \<open>A new context\<close>

text \<open>
  The start of a context on prepared storage: the channel, the node built over it, and the wait
  for its first status, which it sends once it serves; a node that ends before is a panic.
\<close>

definition SignetTestContext_new ::
  "('st, 'rd, 'eb, 'l, 'c, 'x, 'b, 'm, 'tx, 'hb, 'sp) test_utils \<Rightarrow> 'st \<Rightarrow> ('b, 'm) test_blobs
     \<Rightarrow> (('st, 'c, 'b, 'm, 'l) test_context, recv_error) rresult" where
  "SignetTestContext_new U storage blobs =
     (let alias_oracle = {};
          E = tu_env U alias_oracle;
          notifier = TestHostNotifier_new \<lparr>uc_queue = [], uc_open = True\<rparr>
      in case reconcile E (new_unsafe storage notifier blobs) of
           (Ok _, ns1) \<Rightarrow>
             (case start_prepare E ns1 of
                (Ok _, ns2) \<Rightarrow>
                  Ok \<lparr>tx_node = ns2, tx_ended = None, tx_height = co_host_deploy_height (ne_constants E),
                      tx_alias = alias_oracle\<rparr>
              | _ \<Rightarrow> Panic)
         | _ \<Rightarrow> Panic)"

end
