(* ===== verification/Node_Harness_Facts.thy ===== *)
theory Node_Harness_Facts
  imports Node_Harness Node_Sync
begin

text \<open>
  Facts about the test context: driving the node block by block keeps it in step with the
  context, so that the checks of \<^verbatim>\<open>process_notification\<close> pass; where a wait does not end; and
  the moment at which the status is ahead of the block tags.
\<close>

section \<open>What the context relies on\<close>

definition test_env_ok :: "('st, 'rd, 'eb, 'l, 'c test_host_notifier, 'c, 'x, 's) node_env \<Rightarrow> 'c test_chain_ops \<Rightarrow> ('st \<Rightarrow> u64) \<Rightarrow> u64 \<Rightarrow> bool" where
  "test_env_ok E T height d \<longleftrightarrow> steady_node E (tc_block_numbers T) height
     \<and> co_host_deploy_height (ne_constants E) = d \<and> ne_notifier E = test_backend
     \<and> (\<forall>t st. \<exists>ds st'. so_drain_above (ne_storage E) t st = (Inr ds, st'))"

lemma test_env_okD:
  assumes "test_env_ok E T height d"
  shows "steady_node E (tc_block_numbers T) height" "node_laws E height" "constants_ok (ne_constants E)"
    "co_host_deploy_height (ne_constants E) = d" "ne_notifier E = test_backend"
    "last_rollup_block E st = Ok (height st)"
  using assms steady_nodeD unfolding test_env_ok_def by metis+

text \<open>The test utilities: block numbers are set, specs become chains of their blocks in order.\<close>

definition utils_ok ::
  "('st, 'rd, 'eb, 'l, 'c, 'x, 'b, 'm, 'tx, 'hb, 'sp) test_utils \<Rightarrow> ('st \<Rightarrow> u64) \<Rightarrow> u64 \<Rightarrow> bool" where
  "utils_ok U height d \<longleftrightarrow>
     (\<forall>A. test_env_ok (tu_env U A) (tu_chain U) height d)
     \<and> (\<forall>n b. tu_block_number U (tu_set_block_number U n b) = n)
     \<and> (\<forall>c. tc_committed_chain (tu_chain U) (TestCommitted c) = Some c)
     \<and> (\<forall>c. tc_committed_chain (tu_chain U) (TestReverted c) = None \<and> tc_reverted_chain (tu_chain U) (TestReverted c) = Some c)
     \<and> (\<forall>b. \<exists>c. nw_notification (tu_commit_single_block U b) = TestCommitted c
          \<and> tc_block_numbers (tu_chain U) c = [tu_block_number U b])
     \<and> (\<forall>b. \<exists>c. nw_notification (tu_revert_single_block U b) = TestReverted c
          \<and> tc_block_numbers (tu_chain U) c = [tu_block_number U b]
          \<and> tc_first_number (tu_chain U) c = tu_block_number U b \<and> tc_tip_number (tu_chain U) c = tu_block_number U b)
     \<and> (\<forall>bs. bs \<noteq> [] \<longrightarrow> (\<exists>c. nw_notification (tu_to_exex_notification U (fold (tu_commit U) bs (tu_spec_default U))) = TestCommitted c
          \<and> tc_block_numbers (tu_chain U) c = map (tu_block_number U) bs))"

lemma utils_env: "utils_ok U height d \<Longrightarrow> test_env_ok (tx_env U ctx) (tu_chain U) height d"
  by (simp add: utils_ok_def tx_env_def)

text \<open>
  Context and node in step: the node runs and waits for a notification, and the host height of
  the context is the one of the stored rollup block.
\<close>

definition in_step :: "('st \<Rightarrow> u64) \<Rightarrow> u64 \<Rightarrow> ('st, 'c, 'b, 'm, 'l) test_context \<Rightarrow> bool" where
  "in_step height d ctx \<longleftrightarrow> tx_ended ctx = None
     \<and> uc_queue (tn_receiver (ns_notifier (tx_node ctx))) = []
     \<and> tx_height ctx = d + height (ns_storage (tx_node ctx))"

section \<open>One turn of the node\<close>

lemma test_backend_next:
  "uc_queue (tn_receiver n) = [hn] \<Longrightarrow>
     no_next_notification test_backend n = (Some (Ok hn), \<lparr>tn_receiver = (tn_receiver n)\<lparr>uc_queue := []\<rparr>\<rparr>)"
  by (simp add: test_backend_def test_next_notification_def channel_recv_def)

lemma test_backend_told:
  "no_send_finished_height test_backend k n = (Inr (), n)"
  by (simp add: test_backend_def test_send_finished_height_def)

text \<open>A turn that moved the height sent a status.\<close>

lemma moved_sends_status:
  assumes E: "test_env_ok E T height d" and q: "uc_queue (tn_receiver (ns_notifier ns)) = [hn]"
    and t: "node_turn E now ns = (None, ns')" and mv: "height (ns_storage ns') \<noteq> height (ns_storage ns)"
  shows "status_sent E now ns"
proof -
  let ?ns0 = "ns\<lparr>ns_notifier := \<lparr>tn_receiver = (tn_receiver (ns_notifier ns))\<lparr>uc_queue := []\<rparr>\<rparr>\<rparr>"
  note nx = test_backend_next[OF q]
  obtain changed ns1 where on: "on_notification E now hn ?ns0 = (Ok changed, ns1)"
    using t unfolding node_turn_def by (auto simp: test_env_okD(5)[OF E] nx split: prod.splits rresult.splits)
  have changed
  proof (rule ccontr)
    assume "\<not> changed"
    then have "ns' = ?ns0"
      using t on on_notification_effect[OF test_env_okD(2)[OF E] on] unfolding node_turn_def
      by (auto simp: test_env_okD(5)[OF E] nx)
    then show False using mv by simp
  qed
  then show ?thesis using on by (simp add: status_sent_def test_env_okD(5)[OF E] nx)
qed

text \<open>The notifications the context makes for blocks it commits, and for one block it reverts.\<close>

definition commit_note :: "'c \<Rightarrow> 'c host_notification" where
  "commit_note c = \<lparr>kind = ChainCommitted c, safe_block_number = None, finalized_block_number = None\<rparr>"

definition revert_note :: "u64 \<Rightarrow> 'c host_notification" where
  "revert_note n = \<lparr>kind = ChainReverted \<lparr>rr_first = n, rr_tip = n\<rparr>, safe_block_number = None, finalized_block_number = None\<rparr>"

text \<open>The node takes a notification over and ends with its height at \<open>k\<close>, waiting again.\<close>

definition taken_over where
  "taken_over E height now ns k \<longleftrightarrow>
     (\<exists>ns'. node_turn E now ns = (None, ns') \<and> status_sent E now ns \<and> height (ns_storage ns') = k
        \<and> ns_status ns' = AtHeight k \<and> tag_latest (cn_tags (ns_chain ns')) = k
        \<and> uc_queue (tn_receiver (ns_notifier ns')) = [])"

lemma commit_turn:
  assumes E: "test_env_ok E T height d" and q: "uc_queue (tn_receiver (ns_notifier ns)) = [commit_note c]"
    and c: "tc_block_numbers T c = [Suc (d + height (ns_storage ns))..<Suc (d + height (ns_storage ns) + k)]" "0 < k"
  shows "taken_over E height now ns (height (ns_storage ns) + k)"
proof -
  note D = test_env_okD[OF E]
  let ?P = "\<lambda>n. uc_queue (tn_receiver n) = []"
  have "\<exists>ns'. node_turn E now ns = (None, ns') \<and> ?P (ns_notifier ns')
    \<and> height (ns_storage ns') = max (height (ns_storage ns)) (Suc (d + height (ns_storage ns) + k) - co_host_deploy_height (ne_constants E) - 1)
    \<and> (height (ns_storage ns') \<noteq> height (ns_storage ns) \<longrightarrow>
         tag_latest (cn_tags (ns_chain ns')) = height (ns_storage ns')
         \<and> ns_status ns' = AtHeight (height (ns_storage ns')))
    \<and> (height (ns_storage ns') = height (ns_storage ns) \<longrightarrow>
         ns_chain ns' = ns_chain ns \<and> ns_status ns' = ns_status ns)"
    by (rule sync_turn[where nt = "commit_note c" and ?n1.0 = "\<lparr>tn_receiver = (tn_receiver (ns_notifier ns))\<lparr>uc_queue := []\<rparr>\<rparr>", OF D(1) _ _ c(1)])
      (simp_all add: D(4,5) test_backend_next[OF q] test_backend_told commit_note_def del: upt_Suc)
  then obtain ns' where t: "node_turn E now ns = (None, ns')" "?P (ns_notifier ns')"
    "height (ns_storage ns') = height (ns_storage ns) + k"
    "height (ns_storage ns') \<noteq> height (ns_storage ns) \<longrightarrow>
       tag_latest (cn_tags (ns_chain ns')) = height (ns_storage ns') \<and> ns_status ns' = AtHeight (height (ns_storage ns'))"
    unfolding D(4) by auto
  have "status_sent E now ns" using moved_sends_status[OF E q t(1)] t(3) c(2) by simp
  then show ?thesis using t c(2) unfolding taken_over_def by auto
qed

lemma revert_turn:
  assumes E: "test_env_ok E T height d" and h: "height (ns_storage ns) = Suc h"
    and q: "uc_queue (tn_receiver (ns_notifier ns)) = [revert_note (d + Suc h)]"
  shows "taken_over E height now ns h"
proof -
  note D = test_env_okD[OF E]
  let ?ns0 = "ns\<lparr>ns_notifier := \<lparr>tn_receiver = (tn_receiver (ns_notifier ns))\<lparr>uc_queue := []\<rparr>\<rparr>\<rparr>"
  let ?rg = "\<lparr>rr_first = d + Suc h, rr_tip = d + Suc h\<rparr>"
  have m: "co_host_block_to_rollup_block_num (ne_constants E) (Suc (d + h)) = Some (Suc h)"
    using D(3,4) unfolding constants_ok_def by (metis add_Suc_right add_diff_cancel_left' less_add_same_cancel1 zero_less_Suc)
  have tgt: "revert_target (ne_constants E) (Suc (d + h)) = h" by (simp add: revert_target_def m saturating_sub_def)
  obtain ds st where dr: "so_drain_above (ne_storage E) h (ns_storage ns) = (Inr ds, st)"
    using E unfolding test_env_ok_def by blast
  have hst: "height st = h" using drain_height(1)[OF D(2) dr] h by simp
  obtain ns1 where rv: "on_host_revert E now ?rg ?ns0 = (Ok True, ns1)" "ns_storage ns1 = st"
      "ns_notifier ns1 = ns_notifier ?ns0"
    using dr by (simp add: on_host_revert_def Let_def D(4,6) m tgt h notify_reorg_def)
  let ?ns2 = "ns1\<lparr>ns_status := AtHeight h\<rparr>"
  have on: "on_notification E now (revert_note (d + Suc h)) ?ns0 = (Ok True, ?ns2)"
    using rv by (simp add: on_notification_def revert_phase_def revert_note_def notif_revert_range_def commit_phase_def
        committed_chain_def map_report_def update_status_channel_def D(6) hst)
  have told: "\<exists>n'. no_send_finished_height (ne_notifier E) k (ns_notifier ?ns2) = (Inr (), n') \<and> n' = ns_notifier ?ns0" for k
    using rv(3) by (simp add: D(5) test_backend_told)
  obtain c n' where ub: "update_block_tags E h None None ?ns2 = (Ok (), ?ns2\<lparr>ns_chain := c, ns_notifier := n'\<rparr>)"
      "tag_latest (cn_tags c) = h" "n' = ns_notifier ?ns0"
    using steady_tags[OF D(3), where ns = ?ns2 and P = "\<lambda>n. n = ns_notifier ?ns0" and ru = h] told rv(3) by force
  have t: "node_turn E now ns = (None, ?ns2\<lparr>ns_chain := c, ns_notifier := n'\<rparr>)"
    using on ub(1) rv(2) hst
    by (simp add: node_turn_def D(5,6) test_backend_next[OF q] revert_note_def)
  moreover have "status_sent E now ns" by (rule moved_sends_status[OF E q t]) (simp add: rv(2) hst h)
  ultimately show ?thesis using ub rv(2) hst unfolding taken_over_def by auto
qed

section \<open>Driving the node keeps it in step\<close>

lemma send_notification_Ok:
  assumes "tx_ended ctx = None" "uc_queue (tn_receiver (ns_notifier (tx_node ctx))) = []"
    and "to_host_notification (tu_chain U) (nw_notification nw) = Ok hn"
  obtains ctx1 where "send_notification U nw ctx = (Ok (), ctx1)" "tx_ended ctx1 = None"
    "uc_queue (tn_receiver (ns_notifier (tx_node ctx1))) = [hn]" "tx_height ctx1 = tx_height ctx"
    "tx_alias ctx1 = tx_alias ctx" "ns_storage (tx_node ctx1) = ns_storage (tx_node ctx)"
  using assms by (auto simp: send_notification_def Let_def)

text \<open>
  A notification whose one turn sends the status of the expected height passes all checks.
\<close>

lemma process_notification_Ok:
  assumes wait: "tx_ended ctx = None" "uc_queue (tn_receiver (ns_notifier (tx_node ctx))) = []"
    and hn: "to_host_notification (tu_chain U) (nw_notification nw) = Ok hn"
    and ex: "expected_height (tu_chain U) (co_host_deploy_height (ne_constants (tx_env U ctx))) (nw_notification nw) = k"
    and turn: "\<And>ns. uc_queue (tn_receiver (ns_notifier ns)) = [hn] \<Longrightarrow> ns_storage ns = ns_storage (tx_node ctx) \<Longrightarrow>
        taken_over (tx_env U ctx) height now ns k"
    and cold: "await_cold cold k"
  shows "\<exists>ctx'. process_notification U (now # clock) cold nw ctx = (Some (Ok ()), ctx')
    \<and> tx_ended ctx' = None \<and> uc_queue (tn_receiver (ns_notifier (tx_node ctx'))) = []
    \<and> tx_height ctx' = tx_height ctx \<and> tx_alias ctx' = tx_alias ctx
    \<and> height (ns_storage (tx_node ctx')) = k \<and> ns_status (tx_node ctx') = AtHeight k"
proof -
  obtain ctx1 where s: "send_notification U nw ctx = (Ok (), ctx1)" "tx_ended ctx1 = None"
    "uc_queue (tn_receiver (ns_notifier (tx_node ctx1))) = [hn]" "tx_height ctx1 = tx_height ctx"
    "tx_alias ctx1 = tx_alias ctx" "ns_storage (tx_node ctx1) = ns_storage (tx_node ctx)"
    by (rule send_notification_Ok[OF wait hn])
  have env: "tx_env U ctx1 = tx_env U ctx" using s(5) by (simp add: tx_env_def)
  obtain ns' where t: "node_turn (tx_env U ctx) now (tx_node ctx1) = (None, ns')"
    and f: "status_sent (tx_env U ctx) now (tx_node ctx1)" "height (ns_storage ns') = k"
    "ns_status ns' = AtHeight k" "tag_latest (cn_tags (ns_chain ns')) = k" "uc_queue (tn_receiver (ns_notifier ns')) = []"
    using turn[OF s(3,6)] unfolding taken_over_def by blast
  have "await_status U (now # clock) ctx1 = (Some (Ok ()), ctx1\<lparr>tx_node := ns', tx_ended := None\<rparr>)"
    using s f(1) t by (simp add: context_turn_def env)
  then show ?thesis using s f cold by (simp add: process_notification_def Let_def ex)
qed

text \<open>The specs of a batch of blocks carry consecutive numbers.\<close>

lemma commit_specs_numbers:
  assumes "utils_ok U height d" "h + length bs \<le> u64_max"
  shows "\<exists>bs'. commit_specs U bs spec h = (fold (tu_commit U) bs' spec, h + length bs)
    \<and> map (tu_block_number U) bs' = [Suc h..<Suc (h + length bs)]"
  using assms(2)
proof (induction bs arbitrary: spec h)
  case (Cons b bs)
  let ?b = "tu_set_block_number U (Suc h) b"
  have h: "u64_add h 1 = Suc h" using Cons.prems by (simp add: u64_simps)
  obtain bs' where bs': "commit_specs U bs (tu_commit U ?b spec) (Suc h) = (fold (tu_commit U) bs' (tu_commit U ?b spec), Suc h + length bs)"
    "map (tu_block_number U) bs' = [Suc (Suc h)..<Suc (Suc h + length bs)]"
    using Cons.IH[of "Suc h" "tu_commit U ?b spec"] Cons.prems by auto
  have "tu_block_number U ?b = Suc h" using assms(1) by (simp add: utils_ok_def)
  then have "map (tu_block_number U) (?b # bs') = [Suc h..<Suc (h + length (b # bs))]"
    using bs'(2) by (simp add: upt_rec[of "Suc h"] del: upt_Suc)
  moreover have "commit_specs U (b # bs) spec h = (fold (tu_commit U) (?b # bs') spec, h + length (b # bs))"
    using bs'(1) h by simp
  ultimately show ?case by blast
qed simp

lemma commit_expected:
  assumes "utils_ok U height d" "tc_block_numbers (tu_chain U) c = [Suc (d + h)..<Suc (d + h + k)]" "0 < k"
  shows "expected_height (tu_chain U) d (TestCommitted c) = h + k"
    and "to_host_notification (tu_chain U) (TestCommitted c) = Ok (commit_note c)"
  using assms by (simp_all add: expected_height_def utils_ok_def saturating_sub_def last_opt_def
      to_host_notification_def commit_note_def)

lemma revert_expected:
  assumes "utils_ok U height d" "tc_block_numbers (tu_chain U) c = [d + Suc h]"
    "tc_first_number (tu_chain U) c = d + Suc h" "tc_tip_number (tu_chain U) c = d + Suc h"
  shows "expected_height (tu_chain U) d (TestReverted c) = h"
    and "to_host_notification (tu_chain U) (TestReverted c) = Ok (revert_note (d + Suc h))"
  using assms by (simp_all add: expected_height_def utils_ok_def saturating_sub_def
      to_host_notification_def revert_note_def chain_revert_range_def RevertRange_new_Ok)

lemma deploy_of: "utils_ok U height d \<Longrightarrow> co_host_deploy_height (ne_constants (tx_env U ctx)) = d"
  using test_env_okD(4)[OF utils_env] .

text \<open>A commit of numbered blocks, and a revert of the last one, pass.\<close>

lemma commit_passes:
  assumes U: "utils_ok U height d"
    and ctx: "tx_ended ctx = None" "uc_queue (tn_receiver (ns_notifier (tx_node ctx))) = []"
    and c: "nw_notification nw = TestCommitted c"
      "tc_block_numbers (tu_chain U) c = [Suc (d + h)..<Suc (d + h + k)]" "0 < k" "h = height (ns_storage (tx_node ctx))"
    and ht: "tx_height ctx = d + h + k" and cold: "await_cold cold (h + k)"
  shows "\<exists>ctx'. process_notification U (now # clock) cold nw ctx = (Some (Ok ()), ctx') \<and> in_step height d ctx'
    \<and> height (ns_storage (tx_node ctx')) = h + k \<and> ns_status (tx_node ctx') = AtHeight (h + k)"
proof -
  have "taken_over (tx_env U ctx) height now ns (h + k)"
    if "uc_queue (tn_receiver (ns_notifier ns)) = [commit_note c]" "ns_storage ns = ns_storage (tx_node ctx)" for ns
    using commit_turn[OF utils_env[OF U, of ctx] that(1), of k now] c that(2) by simp
  from process_notification_Ok[OF ctx _ _ this cold] obtain ctx' where
    "process_notification U (now # clock) cold nw ctx = (Some (Ok ()), ctx')"
    "tx_ended ctx' = None" "uc_queue (tn_receiver (ns_notifier (tx_node ctx'))) = []" "tx_height ctx' = tx_height ctx"
    "height (ns_storage (tx_node ctx')) = h + k" "ns_status (tx_node ctx') = AtHeight (h + k)"
    using commit_expected[OF U c(2,3)] c(1) deploy_of[OF U, of ctx] by metis
  then show ?thesis using ht by (auto simp: in_step_def)
qed

lemma revert_passes:
  assumes U: "utils_ok U height d"
    and ctx: "tx_ended ctx = None" "uc_queue (tn_receiver (ns_notifier (tx_node ctx))) = []"
    and c: "nw_notification nw = TestReverted c" "tc_block_numbers (tu_chain U) c = [d + Suc h]"
      "tc_first_number (tu_chain U) c = d + Suc h" "tc_tip_number (tu_chain U) c = d + Suc h"
    and ht: "height (ns_storage (tx_node ctx)) = Suc h" "tx_height ctx = d + h" and cold: "await_cold cold h"
  shows "\<exists>ctx'. process_notification U (now # clock) cold nw ctx = (Some (Ok ()), ctx') \<and> in_step height d ctx'
    \<and> height (ns_storage (tx_node ctx')) = h \<and> ns_status (tx_node ctx') = AtHeight h"
proof -
  have "taken_over (tx_env U ctx) height now ns h"
    if "uc_queue (tn_receiver (ns_notifier ns)) = [revert_note (d + Suc h)]" "ns_storage ns = ns_storage (tx_node ctx)" for ns
    using revert_turn[OF utils_env[OF U, of ctx] _ that(1)] ht(1) that(2) by simp
  from process_notification_Ok[OF ctx _ _ this cold] obtain ctx' where
    "process_notification U (now # clock) cold nw ctx = (Some (Ok ()), ctx')"
    "tx_ended ctx' = None" "uc_queue (tn_receiver (ns_notifier (tx_node ctx'))) = []" "tx_height ctx' = tx_height ctx"
    "height (ns_storage (tx_node ctx')) = h" "ns_status (tx_node ctx') = AtHeight h"
    using revert_expected[OF U c(2,3,4)] c(1) deploy_of[OF U, of ctx] by metis
  then show ?thesis using ht(2) by (auto simp: in_step_def)
qed

section \<open>Scripts of tests\<close>

text \<open>
  A script is what a test does to the node: each entry with the time of the node's turn and the answers
  of cold storage. \<open>script_height\<close> is the height a script leads to from a height; it has
  none when a block before the first rollup block would be reverted or cold storage never
  reports the height.
\<close>

datatype 'hb context_op = ProcessBlock 'hb | ProcessBlocks "'hb list" | RevertBlock 'hb

type_synonym 'hb script = "('hb context_op \<times> instant \<times> (string + u64 option) list) list"

fun run_op where
  "run_op U clock cold (ProcessBlock b) ctx = tx_process_block U clock cold b ctx"
| "run_op U clock cold (ProcessBlocks bs) ctx = process_blocks U clock cold bs ctx"
| "run_op U clock cold (RevertBlock b) ctx = revert_block U clock cold b ctx"

fun run_script ::
  "('st, 'rd, 'eb, 'l, 'c, 'x, 'b, 'm, 'tx, 'hb, 'sp) test_utils \<Rightarrow> 'hb script \<Rightarrow> ('st, 'c, 'b, 'm, 'l) test_context
     \<Rightarrow> (unit, recv_error) rresult option \<times> ('st, 'c, 'b, 'm, 'l) test_context" where
  "run_script U [] ctx = (Some (Ok ()), ctx)"
| "run_script U ((op, now, cold) # ops) ctx =
     (case run_op U [now] cold op ctx of
        (Some (Ok _), ctx1) \<Rightarrow> run_script U ops ctx1
      | (r, ctx1) \<Rightarrow> (r, ctx1))"

fun op_height :: "'hb context_op \<Rightarrow> u64 \<Rightarrow> u64 option" where
  "op_height (ProcessBlock b) h = Some (h + 1)"
| "op_height (ProcessBlocks bs) h = (if bs = [] then None else Some (h + length bs))"
| "op_height (RevertBlock b) h = (if h = 0 then None else Some (h - 1))"

fun script_height :: "'hb script \<Rightarrow> u64 \<Rightarrow> u64 option" where
  "script_height [] h = Some h"
| "script_height ((op, now, cold) # ops) h =
     (case op_height op h of
        Some k \<Rightarrow> if await_cold cold k then script_height ops k else None
      | None \<Rightarrow> None)"

fun op_blocks :: "'hb context_op \<Rightarrow> nat" where
  "op_blocks (ProcessBlock b) = 1"
| "op_blocks (ProcessBlocks bs) = length bs"
| "op_blocks (RevertBlock b) = 0"

lemma op_in_step:
  assumes U: "utils_ok U height d" and s: "in_step height d ctx"
    and k: "op_height op (height (ns_storage (tx_node ctx))) = Some k" "await_cold cold k"
    and mx: "d + height (ns_storage (tx_node ctx)) + op_blocks op \<le> u64_max"
  shows "\<exists>ctx'. run_op U [now] cold op ctx = (Some (Ok ()), ctx') \<and> in_step height d ctx'
    \<and> height (ns_storage (tx_node ctx')) = k \<and> ns_status (tx_node ctx') = AtHeight k"
proof -
  let ?h = "height (ns_storage (tx_node ctx))"
  have ctx: "tx_ended (ctx\<lparr>tx_height := j\<rparr>) = None"
    "uc_queue (tn_receiver (ns_notifier (tx_node (ctx\<lparr>tx_height := j\<rparr>)))) = []" for j
    using s by (simp_all add: in_step_def)
  have ht: "tx_height ctx = d + ?h" using s by (simp add: in_step_def)
  have num: "tu_block_number U (tu_set_block_number U n b) = n" for n b using U by (simp add: utils_ok_def)
  show ?thesis
  proof (cases op)
    case (ProcessBlock b)
    let ?b = "tu_set_block_number U (Suc (d + ?h)) b"
    obtain c where c: "nw_notification (tu_commit_single_block U ?b) = TestCommitted c"
      "tc_block_numbers (tu_chain U) c = [Suc (d + ?h)]" using U num unfolding utils_ok_def by metis
    have "u64_add (tx_height ctx) 1 = Suc (d + ?h)" using ht mx ProcessBlock by (simp add: u64_simps)
    then show ?thesis
      using commit_passes[OF U ctx c(1), of ?h 1 "Suc (d + ?h)" cold now "[]"] c(2) k ProcessBlock
      by (simp add: tx_process_block_def)
  next
    case (ProcessBlocks bs)
    then have bs: "bs \<noteq> []" "k = ?h + length bs" using k(1) by (auto split: if_splits)
    obtain bs' where bs': "commit_specs U bs (tu_spec_default U) (d + ?h) = (fold (tu_commit U) bs' (tu_spec_default U), d + ?h + length bs)"
      "map (tu_block_number U) bs' = [Suc (d + ?h)..<Suc (d + ?h + length bs)]"
      using commit_specs_numbers[OF U, of "d + ?h" bs "tu_spec_default U"] mx ProcessBlocks by auto
    have "length bs' = length bs" using arg_cong[OF bs'(2), of length] by (simp del: upt_Suc)
    then have "bs' \<noteq> []" using bs(1) by auto
    then obtain c where c: "nw_notification (tu_to_exex_notification U (fold (tu_commit U) bs' (tu_spec_default U))) = TestCommitted c"
      "tc_block_numbers (tu_chain U) c = [Suc (d + ?h)..<Suc (d + ?h + length bs)]"
      using U bs'(2) unfolding utils_ok_def by metis
    show ?thesis
      using commit_passes[OF U ctx c, of "d + ?h + length bs" cold now "[]"] bs k(2) bs'(1) ht ProcessBlocks
      by (simp add: process_blocks_def del: upt_Suc)
  next
    case (RevertBlock b)
    then obtain h where h: "?h = Suc h" "k = h" using k(1) by (cases ?h) auto
    obtain c where c: "nw_notification (tu_revert_single_block U (tu_set_block_number U (d + Suc h) b)) = TestReverted c"
      "tc_block_numbers (tu_chain U) c = [d + Suc h]" "tc_first_number (tu_chain U) c = d + Suc h"
      "tc_tip_number (tu_chain U) c = d + Suc h" using U num unfolding utils_ok_def by metis
    show ?thesis
      using revert_passes[OF U ctx c, of "d + h" cold now "[]"] h k(2) ht RevertBlock
      by (simp add: revert_block_def u64_sub_def)
  qed
qed

lemma op_height_le: "op_height op h = Some k \<Longrightarrow> k \<le> h + op_blocks op"
  by (cases op) (auto split: if_splits)

text \<open>
  C29: a test that drives a node in step by any mixture of single blocks, batches and reverts finds
  every one of its checks satisfied and ends in step, at the height its script leads to; the
  status then shows that height.
\<close>

theorem script_keeps_step:
  assumes U: "utils_ok U height d" and s: "in_step height d ctx"
    and k: "script_height ops (height (ns_storage (tx_node ctx))) = Some k"
    and mx: "d + height (ns_storage (tx_node ctx)) + sum_list (map (op_blocks \<circ> fst) ops) \<le> u64_max"
  shows "\<exists>ctx'. run_script U ops ctx = (Some (Ok ()), ctx') \<and> in_step height d ctx'
    \<and> height (ns_storage (tx_node ctx')) = k \<and> (ops \<noteq> [] \<longrightarrow> ns_status (tx_node ctx') = AtHeight k)"
  using s k mx
proof (induction ops arbitrary: ctx)
  case (Cons entry ops)
  obtain op now cold where entry: "entry = (op, now, cold)" by (cases entry)
  obtain j where j: "op_height op (height (ns_storage (tx_node ctx))) = Some j" "await_cold cold j"
    "script_height ops j = Some k" using Cons.prems(2) by (auto simp: entry split: option.splits if_splits)
  obtain ctx1 where c: "run_op U [now] cold op ctx = (Some (Ok ()), ctx1)" "in_step height d ctx1"
    "height (ns_storage (tx_node ctx1)) = j" "ns_status (tx_node ctx1) = AtHeight j"
    using op_in_step[OF U Cons.prems(1) j(1,2)] Cons.prems(3) by (auto simp: entry)
  have "\<exists>ctx'. run_script U ops ctx1 = (Some (Ok ()), ctx') \<and> in_step height d ctx'
    \<and> height (ns_storage (tx_node ctx')) = k \<and> (ops \<noteq> [] \<longrightarrow> ns_status (tx_node ctx') = AtHeight k)"
    by (rule Cons.IH) (use c j op_height_le[OF j(1)] Cons.prems(3) in \<open>auto simp: entry\<close>)
  moreover have "ns_status (tx_node ctx1) = AtHeight k" if "ops = []" using that c(4) j(3) by simp
  ultimately show ?case using c(1) by (cases "ops = []") (auto simp: entry)
qed simp

section \<open>A fresh context is in step\<close>

lemma reconcile_at_genesis:
  assumes "last_rollup_block E (ns_storage ns) = Ok 0" "so_cold_latest (ne_storage E) (ns_storage ns) = Inr c"
    "opt_default 0 c = 0"
  shows "reconcile E ns = (Ok (), ns)"
  using assms by (simp add: reconcile_def)

theorem fresh_context_in_step:
  assumes U: "utils_ok U height d" and h: "height st = 0"
    and cold: "so_cold_latest (ne_storage (tu_env U {})) st = Inr c" "opt_default 0 c = 0"
    and up: "ne_launch_rpc (tu_env U {}) = Inr ()"
  shows "\<exists>ctx. SignetTestContext_new U st bl = Ok ctx \<and> in_step height d ctx \<and> ns_storage (tx_node ctx) = st
    \<and> ns_status (tx_node ctx) = AtHeight 0"
proof -
  let ?E = "tu_env U {}" and ?n = "TestHostNotifier_new \<lparr>uc_queue = [], uc_open = True\<rparr>"
  have "test_env_ok ?E (tu_chain U) height d" using U by (simp add: utils_ok_def)
  note D = test_env_okD[OF this]
  have s: "ns_storage (new_unsafe st n bl) = st" "ns_notifier (new_unsafe st n bl) = n" for n
    by (simp_all add: new_unsafe_def)
  have r: "reconcile ?E (new_unsafe st ?n bl) = (Ok (), new_unsafe st ?n bl)"
    by (rule reconcile_at_genesis[where c = c]) (simp_all add: s D(6) h cold(1), rule cold(2))
  have "start_prepare ?E (new_unsafe st ?n bl) =
      (Ok (), (new_unsafe st ?n bl)\<lparr>ns_rpc_running := True, ns_status := AtHeight 0\<rparr>)"
    by (simp add: start_prepare_def start_rpc_def up s D(5,6) h test_backend_def test_set_head_def
        test_set_backfill_thresholds_def)
  then show ?thesis
    using r h by (simp add: SignetTestContext_new_def in_step_def s D(4) TestHostNotifier_new_def)
qed

section \<open>Waits that do not end\<close>

text \<open>
  Reverting when the node is at genesis: the revert ends at the deployment and the node
  ignores it, so that no status is sent and the test waits forever; the height of the
  context has moved below the deployment meanwhile.
\<close>

theorem revert_at_deploy_hangs:
  assumes U: "utils_ok U height d" and s: "in_step height d ctx" and d: "0 < d"
    and g: "height (ns_storage (tx_node ctx)) = 0"
  shows "\<exists>ctx'. revert_block U (now # clock) cold b ctx = (None, ctx') \<and> tx_height ctx' = d - 1
    \<and> ns_storage (tx_node ctx') = ns_storage (tx_node ctx) \<and> ns_status (tx_node ctx') = ns_status (tx_node ctx)"
proof -
  let ?b = "tu_set_block_number U d b" and ?ctx = "ctx\<lparr>tx_height := d - 1\<rparr>"
  have n: "tu_block_number U ?b = d" using U by (simp add: utils_ok_def)
  obtain c where c: "nw_notification (tu_revert_single_block U ?b) = TestReverted c"
    "tc_first_number (tu_chain U) c = d" "tc_tip_number (tu_chain U) c = d"
    using U n unfolding utils_ok_def by metis
  have hn: "to_host_notification (tu_chain U) (nw_notification (tu_revert_single_block U ?b)) = Ok (revert_note d)"
    using c d by (simp add: to_host_notification_def chain_revert_range_def RevertRange_new_Ok revert_note_def)
  have ctx: "tx_ended ?ctx = None" "uc_queue (tn_receiver (ns_notifier (tx_node ?ctx))) = []"
    using s by (simp_all add: in_step_def)
  define ctx1 where "ctx1 = snd (send_notification U (tu_revert_single_block U ?b) ?ctx)"
  have c1: "send_notification U (tu_revert_single_block U ?b) ?ctx = (Ok (), ctx1)"
    "tx_ended ctx1 = None" "uc_queue (tn_receiver (ns_notifier (tx_node ctx1))) = [revert_note d]"
    "tx_height ctx1 = d - 1" "ns_storage (tx_node ctx1) = ns_storage (tx_node ctx)" "ns_status (tx_node ctx1) = ns_status (tx_node ctx)"
    unfolding ctx1_def using ctx hn by (simp_all add: send_notification_def Let_def)
  note D = test_env_okD[OF utils_env[OF U, of ctx1]]
  let ?ns = "(tx_node ctx1)\<lparr>ns_notifier := \<lparr>tn_receiver = (tn_receiver (ns_notifier (tx_node ctx1)))\<lparr>uc_queue := []\<rparr>\<rparr>\<rparr>"
  have on: "on_notification (tx_env U ctx1) now (revert_note d) ?ns = (Ok False, ?ns)"
    by (simp add: on_notification_def revert_phase_def revert_note_def notif_revert_range_def on_host_revert_def Let_def
        D(4) map_report_def commit_phase_def committed_chain_def)
  note nx = test_backend_next[OF c1(3)]
  have t: "context_turn U now ctx1 = ctx1\<lparr>tx_node := ?ns, tx_ended := None\<rparr>"
    using on by (simp add: context_turn_def node_turn_def D(5) nx)
  have "\<not> status_sent (tx_env U ctx1) now (tx_node ctx1)" using on by (simp add: status_sent_def D(5) nx)
  then have "await_status U (now # clock) ctx1 = await_status U clock (ctx1\<lparr>tx_node := ?ns, tx_ended := None\<rparr>)"
    using c1(2,3) t by simp
  also have "\<dots> = (None, ctx1\<lparr>tx_node := ?ns, tx_ended := None\<rparr>)" by (cases clock) simp_all
  finally have w: "await_status U (now # clock) ctx1 = (None, ctx1\<lparr>tx_node := ?ns, tx_ended := None\<rparr>)" .
  have "tx_height ctx = d" using s g by (simp add: in_step_def)
  then have "revert_block U (now # clock) cold b ctx = (None, ctx1\<lparr>tx_node := ?ns, tx_ended := None\<rparr>)"
    using d c1(1) w by (simp add: revert_block_def process_notification_def Let_def u64_sub_def)
  then show ?thesis using c1(4,5,6) by simp
qed

section \<open>The status runs ahead of the tags\<close>

text \<open>
  When the status of new blocks is sent the block tags have not been moved: at this moment a
  watcher of the status channel on another thread still reads a smaller latest block.
\<close>

theorem status_ahead_of_tags:
  assumes laws: "node_laws E height" and ok: "node_ok height ns"
    and k: "kind notification = ChainCommitted chain"
    and on: "on_notification E now notification ns = (Ok True, ns')"
    and grown: "height (ns_storage ns) < height (ns_storage ns')"
  shows "ns_status ns' = AtHeight (height (ns_storage ns'))
    \<and> tag_latest (cn_tags (ns_chain ns')) < height (ns_storage ns')"
proof -
  have st: "ns_status ns' = AtHeight (height (ns_storage ns'))" using on_notification_effect[OF laws on] by simp
  obtain c2 ns2 where pc: "process_committed_chain E chain ns = (Ok c2, ns2)"
    using on k by (cases "process_committed_chain E chain ns"; cases "fst (process_committed_chain E chain ns)")
      (auto simp: on_notification_def revert_phase_def notif_revert_range_def commit_phase_def committed_chain_def map_report_def)
  have "cn_tags (ns_chain ns') = cn_tags (ns_chain ns2)"
    using on k pc by (auto simp: on_notification_def revert_phase_def notif_revert_range_def commit_phase_def
        committed_chain_def map_report_def update_status_channel_def split: rresult.splits if_splits)
  then have "cn_tags (ns_chain ns') = cn_tags (ns_chain ns)" using commit_frame[OF laws pc] by simp
  then show ?thesis using st ok grown by (auto simp: node_ok_def Let_def)
qed

section \<open>An instance\<close>

text \<open>
  Test utilities over the node of \<open>Node_Sync\<close>, whose rollup starts behind host block 5: a host
  block spec is its number, a chain the numbers of its blocks.
\<close>

definition ex_utils :: "(u64, u64, u64, nat, u64 list, u64, nat, unit, nat, u64, u64 list) test_utils" where
  "ex_utils =
     \<lparr>tu_env = (\<lambda>aliases. sync_node test_backend id),
      tu_chain = \<lparr>tc_block_numbers = id, tc_first_number = hd, tc_tip_number = last,
        tc_committed_chain = (\<lambda>n. case n of TestCommitted c \<Rightarrow> Some c | TestReorged old c \<Rightarrow> Some c | TestReverted c \<Rightarrow> None),
        tc_reverted_chain = (\<lambda>n. case n of TestCommitted c \<Rightarrow> None | TestReorged old c \<Rightarrow> Some old | TestReverted c \<Rightarrow> Some c)\<rparr>,
      tu_tx_hash = of_nat, tu_block_number = id, tu_set_block_number = (\<lambda>n b. n),
      tu_commit_single_block = (\<lambda>b. \<lparr>nw_notification = TestCommitted [b], nw_sidecars = []\<rparr>),
      tu_revert_single_block = (\<lambda>b. \<lparr>nw_notification = TestReverted [b], nw_sidecars = []\<rparr>),
      tu_spec_default = [], tu_commit = (\<lambda>b spec. spec @ [b]),
      tu_to_exex_notification = (\<lambda>spec. \<lparr>nw_notification = TestCommitted spec, nw_sidecars = []\<rparr>)\<rparr>"

definition ex_context :: "u64 \<Rightarrow> (u64, u64 list, nat, unit, nat) test_context" where
  "ex_context h =
     \<lparr>tx_node = \<lparr>ns_storage = h, ns_notifier = \<lparr>tn_receiver = \<lparr>uc_queue = [], uc_open = True\<rparr>\<rparr>,
        ns_blobs = \<lparr>cs_alive = True, cs_cacher = \<lparr>bc_fetcher = fetcher_builder, bc_cache = ()\<rparr>, cs_world = (\<lambda>_. None)\<rparr>,
        ns_chain = ChainNotifier_new 128, ns_status = AtHeight h, ns_rpc_running = True\<rparr>,
      tx_ended = None, tx_height = 5 + h, tx_alias = {}\<rparr>"

lemma fold_snoc: "fold (\<lambda>b spec. spec @ [b]) bs acc = acc @ bs"
  by (induction bs arbitrary: acc) simp_all

lemma sync_test_env_ok: "tc_block_numbers T = id \<Longrightarrow> test_env_ok (sync_node test_backend id) T id 5"
  using sync_node_steady[of test_backend id] by (simp add: test_env_ok_def sync_node_def)

lemma ex_utils_ok: "utils_ok ex_utils id 5"
  by (simp add: utils_ok_def ex_utils_def fold_snoc sync_test_env_ok)

theorem script_keeps_step_witness:
  "\<exists>ctx'. run_script ex_utils [(ProcessBlocks [0, 0], 1, [Inr (Some 2)]), (RevertBlock 0, 2, [Inl ''busy'', Inr (Some 2)]),
       (ProcessBlock 0, 3, [Inr (Some 1), Inr (Some 2)])] (ex_context 0) = (Some (Ok ()), ctx')
     \<and> tx_height ctx' = 7 \<and> ns_storage (tx_node ctx') = 2 \<and> ns_status (tx_node ctx') = AtHeight 2"
proof -
  let ?ops = "[(ProcessBlocks [0, 0], 1, [Inr (Some 2)]), (RevertBlock 0, 2, [Inl ''busy'', Inr (Some 2)]),
       (ProcessBlock 0, 3, [Inr (Some 1), Inr (Some 2)])] :: u64 script"
  have "\<exists>ctx'. run_script ex_utils ?ops (ex_context 0) = (Some (Ok ()), ctx') \<and> in_step id 5 ctx'
    \<and> id (ns_storage (tx_node ctx')) = 2 \<and> (?ops \<noteq> [] \<longrightarrow> ns_status (tx_node ctx') = AtHeight 2)"
    by (rule script_keeps_step[OF ex_utils_ok]) (simp_all add: in_step_def ex_context_def u64_max_def)
  then show ?thesis by (auto simp: in_step_def)
qed

end
