(* ===== verification/Node_Checks.thy ===== *)
theory Node_Checks
  imports Rpc_Ctx
begin

text \<open>
  The reads and checks of the test context (\<^verbatim>\<open>crates/node-tests/src/context.rs\<close>, \<^verbatim>\<open>utils.rs\<close>):
  accounts, the balances minted at the start, the guards that compare a nonce or a balance
  with the one seen before, and the check of the genesis allocation. A failed assertion and
  an \<^verbatim>\<open>unwrap\<close> of an error are panics; no check gives an error. The signed 256-bit integers are alloy's, and
  \<^verbatim>\<open>U256\<close> wraps as its operators do.
\<close>

section \<open>Reads\<close>

text \<open>One read transaction of hot storage at its tip.\<close>

record test_reader =
  tr_last_block_number :: "string + u64 option"
  tr_get_header :: "u64 \<Rightarrow> string + sealed_header option"
  tr_get_account :: "address \<Rightarrow> string + account option"
  tr_get_account_at_height :: "address \<Rightarrow> u64 option \<Rightarrow> string + account option"
  tr_get_storage :: "address \<Rightarrow> b256 \<Rightarrow> string + b256 option"

fun unwrap_or_panic :: "string + 'a \<Rightarrow> ('a, unit) rresult" where
  "unwrap_or_panic (Inl e) = Panic"
| "unwrap_or_panic (Inr a) = Ok a"

type_synonym test_storage = "string + test_reader"

definition read_with :: "test_storage \<Rightarrow> (test_reader \<Rightarrow> string + 'a) \<Rightarrow> ('a, unit) rresult" where
  "read_with st get = rbind (unwrap_or_panic st) (\<lambda>reader. unwrap_or_panic (get reader))"

definition ctx_header_by_number :: "test_storage \<Rightarrow> u64 \<Rightarrow> (sealed_header option, unit) rresult" where
  "ctx_header_by_number st number = read_with st (\<lambda>reader. tr_get_header reader number)"

definition ctx_last_block_number :: "test_storage \<Rightarrow> (u64, unit) rresult" where
  "ctx_last_block_number st = rmap (opt_default 0) (read_with st tr_last_block_number)"

definition ctx_account_at_height ::
  "(account \<Rightarrow> bool) \<Rightarrow> test_storage \<Rightarrow> address \<Rightarrow> u64 \<Rightarrow> (account option, unit) rresult" where
  "ctx_account_at_height is_empty st address height =
     rmap (\<lambda>a. case a of Some acct \<Rightarrow> if \<not> is_empty acct then Some acct else None | None \<Rightarrow> None)
       (read_with st (\<lambda>reader. tr_get_account_at_height reader address (Some height)))"

definition ctx_account :: "test_storage \<Rightarrow> address \<Rightarrow> (account option, unit) rresult" where
  "ctx_account st address = read_with st (\<lambda>reader. tr_get_account reader address)"

definition default_account :: account where
  "default_account = \<lparr>acct_balance = 0, acct_nonce = 0, acct_bytecode_hash = None\<rparr>"

definition ctx_nonce :: "test_storage \<Rightarrow> address \<Rightarrow> (u64, unit) rresult" where
  "ctx_nonce st address = rmap (\<lambda>a. acct_nonce (opt_default default_account a)) (ctx_account st address)"

definition ctx_balance_of :: "test_storage \<Rightarrow> address \<Rightarrow> (b256, unit) rresult" where
  "ctx_balance_of st address = rmap (\<lambda>a. acct_balance (opt_default default_account a)) (ctx_account st address)"

lemma ctx_reads_Ok:
  "ctx_account (Inr r) a = (case tr_get_account r a of Inl e \<Rightarrow> Panic | Inr x \<Rightarrow> Ok x)"
  by (simp add: ctx_account_def read_with_def split: sum.split)

text \<open>One lookup in cold storage each, unwrapped.\<close>

record ('tx, 'ev) test_cold =
  cd_get_transactions_in_block :: "u64 \<Rightarrow> string + 'tx list"
  cd_get_signet_events_in_block :: "u64 \<Rightarrow> string + 'ev list"
  cd_get_tx_by_hash :: "b256 \<Rightarrow> string + 'tx option"

definition ctx_transactions_in_block :: "('tx, 'ev) test_cold \<Rightarrow> u64 \<Rightarrow> ('tx list, unit) rresult" where
  "ctx_transactions_in_block cold block = unwrap_or_panic (cd_get_transactions_in_block cold block)"

definition ctx_signet_events_in_block :: "('tx, 'ev) test_cold \<Rightarrow> u64 \<Rightarrow> ('ev list, unit) rresult" where
  "ctx_signet_events_in_block cold block = unwrap_or_panic (cd_get_signet_events_in_block cold block)"

definition ctx_transaction_by_hash :: "('tx, 'ev) test_cold \<Rightarrow> b256 \<Rightarrow> ('tx option, unit) rresult" where
  "ctx_transaction_by_hash cold hash = unwrap_or_panic (cd_get_tx_by_hash cold hash)"

section \<open>Minted balances\<close>

definition u256_saturating_add :: "b256 \<Rightarrow> b256 \<Rightarrow> b256" where
  "u256_saturating_add a b = (if a \<le> - 1 - b then a + b else - 1)"

definition mint_amnt :: b256 where
  "mint_amnt = 1000 * 1000000000000000000"

text \<open>All accounts are read before the first is written.\<close>

definition mint_test_balances :: "address list \<Rightarrow> (address \<rightharpoonup> account) \<Rightarrow> (address \<rightharpoonup> account)" where
  "mint_test_balances addresses hot =
     (let existing_accounts = map (\<lambda>addr. opt_default default_account (hot addr)) addresses
      in fold (\<lambda>(address, existing) m.
           m(address \<mapsto> existing\<lparr>acct_balance := u256_saturating_add (acct_balance existing) mint_amnt\<rparr>))
         (zip addresses existing_accounts) hot)"

lemma mint_fold:
  "fold (\<lambda>(a, e) m. m(a \<mapsto> g e)) (zip xs (map f xs)) m b = (if b \<in> set xs then Some (g (f b)) else m b)"
  by (induction xs arbitrary: m) auto

theorem minted_balances:
  "mint_test_balances addresses hot a =
     (if a \<in> set addresses
      then let acct = opt_default default_account (hot a)
           in Some (acct\<lparr>acct_balance := u256_saturating_add (acct_balance acct) mint_amnt\<rparr>)
      else hot a)"
  by (simp add: mint_test_balances_def mint_fold Let_def)

section \<open>Nonce checks\<close>

text \<open>
  The text of a failed check. The source writes it as a raw string, so its \<^verbatim>\<open>\n\<close> stay a
  backslash and a letter.
\<close>

definition fmt_err_str :: "(address \<Rightarrow> string) \<Rightarrow> string option \<Rightarrow> address \<Rightarrow> string \<Rightarrow> string" where
  "fmt_err_str show_address label address message =
     (let nl = [CHR 0x5C, CHR ''n'']; quote = [CHR 0x22];
          this = (case label of Some l \<Rightarrow> l | None \<Rightarrow> show_address address)
      in nl @ ''Assertion error for '' @ quote @ this @ quote @ ''.'' @ nl @ message @ nl)"

lemma err_str_one_line:
  "CHR 0x0A \<notin> set message \<Longrightarrow> CHR 0x0A \<notin> set (case label of Some l \<Rightarrow> l | None \<Rightarrow> show_address address) \<Longrightarrow>
     CHR 0x0A \<notin> set (fmt_err_str show_address label address message)"
  by (simp add: fmt_err_str_def Let_def)

record nonce_checks =
  nc_address :: address
  nc_stored :: u64
  nc_label :: "string option"

definition NonceChecks_new :: "test_storage \<Rightarrow> address \<Rightarrow> string option \<Rightarrow> (nonce_checks, unit) rresult" where
  "NonceChecks_new st address label =
     rmap (\<lambda>stored. \<lparr>nc_address = address, nc_stored = stored, nc_label = label\<rparr>) (ctx_nonce st address)"

definition update_nonce :: "test_storage \<Rightarrow> nonce_checks \<Rightarrow> (u64 \<times> nonce_checks, unit) rresult" where
  "update_nonce st c = rmap (\<lambda>n. (nc_stored c, c\<lparr>nc_stored := n\<rparr>)) (ctx_nonce st (nc_address c))"

definition assert_increase_by :: "test_storage \<Rightarrow> u64 \<Rightarrow> nonce_checks \<Rightarrow> (nonce_checks, unit) rresult" where
  "assert_increase_by st amount c =
     rbind (update_nonce st c) (\<lambda>(old_nonce, c').
       let expected = u64_add old_nonce amount in if nc_stored c' = expected then Ok c' else Panic)"

definition assert_incremented :: "test_storage \<Rightarrow> nonce_checks \<Rightarrow> (nonce_checks, unit) rresult" where
  "assert_incremented st c = assert_increase_by st 1 c"

section \<open>Balance checks\<close>

datatype sign = Positive | Negative

record 'i i256_ops =
  i_into_sign_and_abs :: "'i \<Rightarrow> sign \<times> b256"
  i_checked_from_sign_and_abs :: "sign \<Rightarrow> b256 \<Rightarrow> 'i option"

record balance_checks =
  bk_address :: address
  bk_stored :: b256
  bk_label :: "string option"

definition BalanceChecks_new :: "test_storage \<Rightarrow> address \<Rightarrow> string option \<Rightarrow> (balance_checks, unit) rresult" where
  "BalanceChecks_new st address label =
     rmap (\<lambda>stored. \<lparr>bk_address = address, bk_stored = stored, bk_label = label\<rparr>) (ctx_balance_of st address)"

definition update_balance :: "test_storage \<Rightarrow> balance_checks \<Rightarrow> (b256 \<times> balance_checks, unit) rresult" where
  "update_balance st c = rmap (\<lambda>n. (bk_stored c, c\<lparr>bk_stored := n\<rparr>)) (ctx_balance_of st (bk_address c))"

text \<open>An assertion on the balance before and now.\<close>

definition balance_assertion ::
  "(b256 \<Rightarrow> b256 \<Rightarrow> bool) \<Rightarrow> test_storage \<Rightarrow> balance_checks \<Rightarrow> (balance_checks, unit) rresult" where
  "balance_assertion holds st c =
     rbind (update_balance st c) (\<lambda>(old_balance, c'). if holds old_balance (bk_stored c') then Ok c' else Panic)"

definition assert_change :: "'i i256_ops \<Rightarrow> 'i \<Rightarrow> test_storage \<Rightarrow> balance_checks \<Rightarrow> (balance_checks, unit) rresult" where
  "assert_change I change =
     balance_assertion (\<lambda>old_balance stored.
       (if stored > old_balance then (Positive, stored - old_balance) else (Negative, old_balance - stored))
         = i_into_sign_and_abs I change)"

definition assert_decrease :: "test_storage \<Rightarrow> balance_checks \<Rightarrow> (balance_checks, unit) rresult" where
  "assert_decrease = balance_assertion (\<lambda>old_balance stored. stored < old_balance)"

definition assert_decrease_at_least :: "b256 \<Rightarrow> test_storage \<Rightarrow> balance_checks \<Rightarrow> (balance_checks, unit) rresult" where
  "assert_decrease_at_least amount = balance_assertion (\<lambda>old_balance stored. stored \<le> old_balance - amount)"

definition assert_decrease_exact :: "'i i256_ops \<Rightarrow> b256 \<Rightarrow> test_storage \<Rightarrow> balance_checks \<Rightarrow> (balance_checks, unit) rresult" where
  "assert_decrease_exact I amount st c =
     rbind (expect_some (i_checked_from_sign_and_abs I Negative amount)) (\<lambda>change. assert_change I change st c)"

definition assert_increase :: "test_storage \<Rightarrow> balance_checks \<Rightarrow> (balance_checks, unit) rresult" where
  "assert_increase = balance_assertion (\<lambda>old_balance stored. stored > old_balance)"

definition assert_increase_at_least :: "b256 \<Rightarrow> test_storage \<Rightarrow> balance_checks \<Rightarrow> (balance_checks, unit) rresult" where
  "assert_increase_at_least amount = balance_assertion (\<lambda>old_balance stored. stored \<ge> old_balance + amount)"

definition assert_increase_exact :: "'i i256_ops \<Rightarrow> b256 \<Rightarrow> test_storage \<Rightarrow> balance_checks \<Rightarrow> (balance_checks, unit) rresult" where
  "assert_increase_exact I amount st c =
     rbind (expect_some (i_checked_from_sign_and_abs I Positive amount)) (\<lambda>change. assert_change I change st c)"

definition assert_no_change :: "test_storage \<Rightarrow> balance_checks \<Rightarrow> (balance_checks, unit) rresult" where
  "assert_no_change = balance_assertion (\<lambda>old_balance stored. stored = old_balance)"

definition assert_balance_eq :: "b256 \<Rightarrow> test_storage \<Rightarrow> balance_checks \<Rightarrow> (balance_checks, unit) rresult" where
  "assert_balance_eq expected = balance_assertion (\<lambda>old_balance stored. stored = expected)"

section \<open>What the balance checks say\<close>

lemma balance_assertion_iff:
  "balance_assertion P st c = Ok c' \<longleftrightarrow>
     (\<exists>new. ctx_balance_of st (bk_address c) = (Ok new :: (b256, unit) rresult) \<and> P (bk_stored c) new \<and> c' = c\<lparr>bk_stored := new\<rparr>)"
  for c' :: balance_checks
  by (cases "ctx_balance_of st (bk_address c) :: (b256, unit) rresult")
    (auto simp: balance_assertion_def update_balance_def)

text \<open>
  alloy's signed integers: a magnitude below \<open>2 ^ 255\<close> has both signs, and a value gives back
  its sign and magnitude, zero being positive.
\<close>

definition i256_ok :: "'i i256_ops \<Rightarrow> bool" where
  "i256_ok I \<longleftrightarrow>
     (\<forall>s a. unat a < 2 ^ 255 \<longrightarrow> (\<exists>i. i_checked_from_sign_and_abs I s a = Some i))
     \<and> (\<forall>s a i. i_checked_from_sign_and_abs I s a = Some i \<longrightarrow>
          i_into_sign_and_abs I i = (if a = 0 then Positive else s, a))"

lemma i256_value:
  assumes "i256_ok I" "unat a < 2 ^ 255"
  obtains i where "i_checked_from_sign_and_abs I s a = Some i"
    "i_into_sign_and_abs I i = (if a = 0 then Positive else s, a)"
  using assms unfolding i256_ok_def by metis

lemma word_sub_eq_iff: "b \<le> a \<Longrightarrow> a - b = c \<longleftrightarrow> unat a = unat b + unat c" for a b c :: b256
  by (auto simp: word_le_nat_alt word_unat_eq_iff unat_sub)

lemma word_le_of_unat: "unat a = unat b + unat c \<Longrightarrow> b \<le> a" for a b c :: b256
  by (simp add: word_le_nat_alt)

text \<open>
  For a positive amount the exact checks pass exactly when the balance moved by the amount, as
  numbers and without wrap-around. For the amount zero they never pass, not even for a
  balance that did not move: no change counts as a negative change, and zero is positive.
\<close>

theorem exact_change_iff:
  assumes I: "i256_ok I" and a: "unat amount < 2 ^ 255" and b: "ctx_balance_of st (bk_address c) = (Ok new :: (b256, unit) rresult)"
  shows "(assert_increase_exact I amount st c :: (balance_checks, unit) rresult) = Ok (c\<lparr>bk_stored := new\<rparr>)
      \<longleftrightarrow> amount \<noteq> 0 \<and> unat new = unat (bk_stored c) + unat amount"
    and "(assert_decrease_exact I amount st c :: (balance_checks, unit) rresult) = Ok (c\<lparr>bk_stored := new\<rparr>)
      \<longleftrightarrow> amount \<noteq> 0 \<and> unat (bk_stored c) = unat new + unat amount"
proof -
  obtain i where i: "i_checked_from_sign_and_abs I Positive amount = Some i" "i_into_sign_and_abs I i = (Positive, amount)"
    using i256_value[OF I a, of Positive] by auto
  have "(assert_increase_exact I amount st c :: (balance_checks, unit) rresult) = Ok (c\<lparr>bk_stored := new\<rparr>)
      \<longleftrightarrow> new > bk_stored c \<and> new - bk_stored c = amount"
    by (simp add: assert_increase_exact_def i assert_change_def balance_assertion_iff b)
  also have "\<dots> \<longleftrightarrow> amount \<noteq> 0 \<and> unat new = unat (bk_stored c) + unat amount"
  proof -
    have "new > bk_stored c \<longleftrightarrow> bk_stored c \<le> new \<and> new - bk_stored c \<noteq> 0" by (auto simp: order_less_le)
    then show ?thesis
      using word_sub_eq_iff[of "bk_stored c" new amount] word_le_of_unat[of new "bk_stored c" amount] by auto
  qed
  finally show "(assert_increase_exact I amount st c :: (balance_checks, unit) rresult) = Ok (c\<lparr>bk_stored := new\<rparr>)
      \<longleftrightarrow> amount \<noteq> 0 \<and> unat new = unat (bk_stored c) + unat amount" .
  obtain j where j: "i_checked_from_sign_and_abs I Negative amount = Some j"
    "i_into_sign_and_abs I j = (if amount = 0 then Positive else Negative, amount)"
    by (rule i256_value[OF I a])
  have "(assert_decrease_exact I amount st c :: (balance_checks, unit) rresult) = Ok (c\<lparr>bk_stored := new\<rparr>)
      \<longleftrightarrow> amount \<noteq> 0 \<and> new \<le> bk_stored c \<and> bk_stored c - new = amount"
    by (auto simp: assert_decrease_exact_def j assert_change_def balance_assertion_iff b not_less)
  also have "\<dots> \<longleftrightarrow> amount \<noteq> 0 \<and> unat (bk_stored c) = unat new + unat amount"
    using word_sub_eq_iff[of new "bk_stored c" amount] word_le_of_unat[of "bk_stored c" new amount] by auto
  finally show "(assert_decrease_exact I amount st c :: (balance_checks, unit) rresult) = Ok (c\<lparr>bk_stored := new\<rparr>)
      \<longleftrightarrow> amount \<noteq> 0 \<and> unat (bk_stored c) = unat new + unat amount" .
qed

text \<open>
  The check for a decrease by at least an amount means it as long as the account held the
  amount; with one unit less the difference wraps and every balance passes, an increase too.
\<close>

theorem decrease_at_least_iff:
  assumes b: "ctx_balance_of st (bk_address c) = (Ok new :: (b256, unit) rresult)"
  shows "amount \<le> bk_stored c \<Longrightarrow>
      (assert_decrease_at_least amount st c :: (balance_checks, unit) rresult) = Ok (c\<lparr>bk_stored := new\<rparr>)
      \<longleftrightarrow> unat new + unat amount \<le> unat (bk_stored c)"
    and "amount = bk_stored c + 1 \<Longrightarrow>
      (assert_decrease_at_least amount st c :: (balance_checks, unit) rresult) = Ok (c\<lparr>bk_stored := new\<rparr>)"
proof -
  have "amount \<le> bk_stored c \<Longrightarrow> new \<le> bk_stored c - amount \<longleftrightarrow> unat new + unat amount \<le> unat (bk_stored c)"
    by (auto simp: word_le_nat_alt unat_sub)
  then show "amount \<le> bk_stored c \<Longrightarrow>
      (assert_decrease_at_least amount st c :: (balance_checks, unit) rresult) = Ok (c\<lparr>bk_stored := new\<rparr>)
      \<longleftrightarrow> unat new + unat amount \<le> unat (bk_stored c)"
    by (simp add: assert_decrease_at_least_def balance_assertion_iff b)
  show "amount = bk_stored c + 1 \<Longrightarrow>
      (assert_decrease_at_least amount st c :: (balance_checks, unit) rresult) = Ok (c\<lparr>bk_stored := new\<rparr>)"
    by (simp add: assert_decrease_at_least_def balance_assertion_iff b)
qed

section \<open>The genesis allocation\<close>

record genesis_account =
  ga_balance :: b256
  ga_nonce :: "u64 option"
  ga_code :: "u8 list option"
  ga_storage :: "(b256 \<times> b256) list option"

fun assert_that :: "bool \<Rightarrow> (unit, unit) rresult" where
  "assert_that b = (if b then Ok () else Panic)"

fun verify_slots :: "test_storage \<Rightarrow> address \<Rightarrow> (b256 \<times> b256) list \<Rightarrow> (unit, unit) rresult" where
  "verify_slots st address [] = Ok ()"
| "verify_slots st address ((slot, val) # slots) =
     rbind (read_with st (\<lambda>reader. tr_get_storage reader address slot)) (\<lambda>stored.
     rbind (assert_that (stored = Some val)) (\<lambda>_. verify_slots st address slots))"

definition verify_alloc ::
  "(u8 list \<Rightarrow> b256) \<Rightarrow> test_storage \<Rightarrow> address \<Rightarrow> genesis_account \<Rightarrow> (unit, unit) rresult" where
  "verify_alloc keccak256 st address alloc =
     rbind (rbind (ctx_account st address) expect_some) (\<lambda>account.
     rbind (assert_that (acct_balance account = ga_balance alloc)) (\<lambda>_.
     rbind (assert_that (acct_nonce account = opt_default 0 (ga_nonce alloc))) (\<lambda>_.
     rbind (assert_that (acct_bytecode_hash account = map_option keccak256 (ga_code alloc))) (\<lambda>_.
       case ga_storage alloc of
         Some slots \<Rightarrow> verify_slots st address slots
       | None \<Rightarrow> Ok ()))))"

fun verify_each where
  "verify_each keccak256 st [] = Ok ()"
| "verify_each keccak256 st ((acct, alloc) # allocs) =
     rbind (verify_alloc keccak256 st acct alloc) (\<lambda>_. verify_each keccak256 st allocs)"

definition verify_allocs ::
  "(u8 list \<Rightarrow> b256) \<Rightarrow> test_storage \<Rightarrow> (address \<times> genesis_account) list \<Rightarrow> (unit, unit) rresult" where
  "verify_allocs keccak256 st alloc =
     rbind (ctx_last_block_number st) (\<lambda>last. if last \<noteq> 0 then Ok () else verify_each keccak256 st alloc)"

lemma verify_slots_Ok:
  "verify_slots (Inr r) a slots = Ok () \<longleftrightarrow> (\<forall>(slot, val) \<in> set slots. tr_get_storage r a slot = Inr (Some val))"
proof (induction slots)
  case (Cons s slots)
  then show ?case
    by (cases s; cases "tr_get_storage r a (fst s)") (auto simp: read_with_def rres_simps split: if_splits)
qed simp

text \<open>
  At genesis the check passes exactly when every account of the allocation is stored with its
  balance, nonce, code hash and slots.
\<close>

definition alloc_stored :: "(u8 list \<Rightarrow> b256) \<Rightarrow> test_reader \<Rightarrow> address \<times> genesis_account \<Rightarrow> bool" where
  "alloc_stored keccak256 r entry \<longleftrightarrow>
     tr_get_account r (fst entry) = Inr (Some \<lparr>acct_balance = ga_balance (snd entry),
        acct_nonce = opt_default 0 (ga_nonce (snd entry)), acct_bytecode_hash = map_option keccak256 (ga_code (snd entry))\<rparr>)
     \<and> (\<forall>slots. ga_storage (snd entry) = Some slots \<longrightarrow>
          (\<forall>(slot, val) \<in> set slots. tr_get_storage r (fst entry) slot = Inr (Some val)))"

lemma verify_alloc_Ok: "verify_alloc k (Inr r) a alloc = Ok () \<longleftrightarrow> alloc_stored k r (a, alloc)"
proof (cases "tr_get_account r a")
  case (Inr x)
  then show ?thesis
    by (cases x; cases "ga_storage alloc")
      (auto simp: verify_alloc_def alloc_stored_def ctx_reads_Ok rres_simps verify_slots_Ok split: if_splits)
qed (simp add: verify_alloc_def alloc_stored_def ctx_reads_Ok)

lemma verify_each_Ok: "verify_each k (Inr r) allocs = Ok () \<longleftrightarrow> (\<forall>e \<in> set allocs. alloc_stored k r e)"
  by (induction allocs) (auto simp: rres_simps verify_alloc_Ok)

theorem verify_allocs_Ok:
  assumes "tr_last_block_number r = Inr n" "opt_default 0 n = 0"
  shows "verify_allocs k (Inr r) allocs = Ok () \<longleftrightarrow> (\<forall>e \<in> set allocs. alloc_stored k r e)"
  using assms by (simp add: verify_allocs_def ctx_last_block_number_def read_with_def verify_each_Ok)

section \<open>Utilities\<close>

definition adjust_usd_decimals_u256 :: "b256 \<Rightarrow> u8 \<Rightarrow> b256" where
  "adjust_usd_decimals_u256 amount decimals = amount * 10 ^ unat (18 - ucast decimals :: b256)"

definition adjust_usd_decimals :: "usize \<Rightarrow> u8 \<Rightarrow> b256" where
  "adjust_usd_decimals amount decimals = adjust_usd_decimals_u256 (of_nat amount) decimals"

text \<open>Eighteen decimals or fewer are scaled as documented; with more, the power is a multiple of \<open>2 ^ 256\<close> and the result zero.\<close>

theorem adjust_usd_decimals_value:
  "unat d \<le> 18 \<Longrightarrow> adjust_usd_decimals n d = of_nat (n * 10 ^ (18 - unat d))"
  "18 < unat d \<Longrightarrow> adjust_usd_decimals n d = 0"
proof -
  have u: "unat (ucast d :: b256) = unat d" using unsigned_less[of d, where ?'a = nat] by (simp add: unsigned_ucast_eq take_bit_nat_eq_self)
  show "adjust_usd_decimals n d = of_nat (n * 10 ^ (18 - unat d))" if "unat d \<le> 18"
  proof -
    have "unat (18 - ucast d :: b256) = 18 - unat d" using that u by (simp add: unat_sub word_le_nat_alt)
    then show ?thesis by (simp add: adjust_usd_decimals_def adjust_usd_decimals_u256_def)
  qed
  show "adjust_usd_decimals n d = 0" if g: "18 < unat d"
  proof -
    have "unat d < 256" using unsigned_less[of d, where ?'a = nat] by simp
    have small: "512 < (2 ^ 256 :: int)" by simp
    define w where "w = (18 - ucast d :: b256)"
    have "uint (ucast d :: b256) = uint d" using arg_cong[OF u, of int] by simp
    then have "uint w = (18 - int (unat d)) mod 2 ^ 256" unfolding w_def by (simp add: uint_word_ariths)
    also have "\<dots> = (18 - int (unat d) + 2 ^ 256) mod 2 ^ 256" by (rule mod_add_self2[symmetric])
    also have "\<dots> = 18 - int (unat d) + 2 ^ 256"
      by (rule mod_pos_pos_trivial) (use g \<open>unat d < 256\<close> small in linarith)+
    finally have "256 \<le> uint w" using \<open>unat d < 256\<close> small by linarith
    then have "256 \<le> unat w" unfolding unat_eq_nat_uint by (subst le_nat_iff) simp_all
    then obtain e where "unat w = 256 + e" using le_Suc_ex by blast
    moreover have z: "(10 :: b256) ^ 256 = 0"
    proof -
      have "(10 :: b256) ^ 256 = 2 ^ 256 * 5 ^ 256" by (simp flip: power_mult_distrib)
      moreover have "(2 :: b256) ^ 256 = 0" by simp
      ultimately show ?thesis by simp
    qed
    ultimately have "(10 :: b256) ^ unat w = 0" by (simp only: power_add z mult_zero_left)
    then show ?thesis by (simp add: adjust_usd_decimals_def adjust_usd_decimals_u256_def flip: w_def)
  qed
qed

text \<open>The end of a test: the node is stopped; had it ended before, its error or panic is the test's.\<close>

definition run_test_end :: "(unit, 'r) rresult option \<Rightarrow> (unit, unit) rresult" where
  "run_test_end ended =
     (case ended of
        None \<Rightarrow> Ok ()
      | Some (Ok _) \<Rightarrow> Ok ()
      | Some (Err e) \<Rightarrow> Panic
      | Some Panic \<Rightarrow> Panic)"

end
