(* ===== verification/Spec2Isabelle.thy ===== *)
theory Spec2Isabelle
  imports Rpc_Backfill Interest_Subs Eth_Fees Eth_Queries Eth_Filters Node_Example Host_Reth_Facts Trace_Facts
    Signet_Namespace Rpc_Server Node_Sync_Reth Node_Filters Node_Subs Metered Eth_Json Rpc_Router Interest_Tasks
    Host_Shim Blob_Sources Node_Harness_Facts Node_Checks
begin

text \<open>
  Verification library of the Signet node components (Rust, directory \<^verbatim>\<open>src/crates\<close>).

  \<^bold>\<open>The program.\<close> Signet is a rollup that follows a host chain. A host backend delivers
  notifications: chains of host blocks that were committed, reverted or replaced, with the
  host's safe and finalized tags (\<^verbatim>\<open>node-types\<close>). The backend either talks JSON-RPC to a host
  node (\<^verbatim>\<open>host-rpc\<close>) or runs inside reth (\<^verbatim>\<open>host-reth\<close>). The node (\<^verbatim>\<open>node\<close>) takes one
  notification at a time: reverted host blocks unwind storage, committed ones are turned
  into rollup blocks by the block processor (\<^verbatim>\<open>block-processor\<close>), which asks an oracle
  whether a sender is to be aliased and the blobber (\<^verbatim>\<open>blobber\<close>) for transaction data
  published in blobs. Each new block, and each reorg, is announced to the RPC server
  (\<^verbatim>\<open>rpc\<close>) over a broadcast channel; the server answers queries from hot and cold storage,
  and serves polling filters and subscriptions from these events.

  \<^bold>\<open>Conventions\<close> (\<^verbatim>\<open>Node_Prelude\<close>). \<open>u64\<close> and \<open>usize\<close> values are natural numbers below
  \<open>2 ^ 64\<close>; the release profile leaves overflow checks off, so the arithmetic of the source
  is \<open>u64_add\<close>, \<open>u64_sub\<close>, \<open>u64_mul\<close> with the wrap-around written out. Hashes, addresses and
  bytes are words. A Rust call gives \<open>Ok\<close>, \<open>Err\<close> or \<open>Panic\<close>, and \<open>rbind\<close> is the question
  mark operator. State is passed and returned; a shared cell of the source (an atomic, a
  lock, a channel) is a field of the state, and operations that touch several atomics are
  also given as the sequence of their stores. Code of other crates is a parameter: a
  record of functions or a function argument. What is assumed of it is a named predicate or
  a hypothesis of the theorem, with an instance in the theorem's witness.

  \<^bold>\<open>Host backends.\<close>
  \<^item> \<open>Host_Types\<close>: \<^verbatim>\<open>node-types/src/notification.rs\<close>. \<open>Chain_Data\<close>: headers, block ids, logs.
  \<^item> \<open>Rpc_Segment\<close>, \<open>Rpc_Latest\<close>: segments and the latest-value stream adapter of \<^verbatim>\<open>host-rpc\<close>.
  \<^item> \<open>Rpc_Notifier\<close>: state and every operation of \<^verbatim>\<open>host-rpc/src/notifier.rs\<close>, over a provider
    whose answers and failures are parameters; waiting for the next header consumes the
    items its stream delivers, and ends with them. \<open>Rpc_View\<close>, \<open>Rpc_Walk\<close>, \<open>Rpc_Safety\<close>,
    \<open>Rpc_Follow\<close>, \<open>Rpc_Backfill\<close>, \<open>Rpc_Example\<close>: the chain view stays a run of consecutive linked
    blocks (\<open>next_notification_invariant\<close>), the walk finds exactly the missing part of the
    chain or the reorg, notifications continue each other, the backfill delivers every
    block once and ends against a provider that keeps its blocks.
  \<^item> \<open>Host_Reth\<close>, \<open>Host_Reth_Facts\<close>: the same backend inside reth: database batches, their end
    (\<open>reth_backfill_terminates\<close>) as long as the blocks of a batch fit into one allocation, and the
    handover to the live stream. \<open>Host_Shim\<close>: the shim that shows
    reth's blocks to the extractor, and the contract of the segments read through it.
  \<^item> \<open>Host_Alias\<close>: the alias oracles of \<^verbatim>\<open>block-processor\<close>, \<^verbatim>\<open>host-rpc\<close> and \<^verbatim>\<open>host-reth\<close> as
    instances of one interface, with their agreement over what both see of one host's code.

  \<^bold>\<open>Blobs, blocks and the node.\<close>
  \<^item> \<open>Blob_Fetch\<close>, \<open>Blob_Cache\<close>: sources, the race between them, the retrying cache task and its
    least-recently-used store, decoding against the committed data hash (\<^verbatim>\<open>blobber\<close>).
    \<open>Blob_Sources\<close>: the requests of the remote sources over a parameter HTTP client.
  \<^item> \<open>Block_Processor\<close>: building and executing one rollup block (\<^verbatim>\<open>block-processor\<close>).
  \<^item> \<open>Node_Core\<close>, \<open>Node_Facts\<close>, \<open>Node_Invariant\<close>, \<open>Node_Example\<close>: \<^verbatim>\<open>node/src/node.rs\<close>. What a
    committed chain and a host revert do to storage, tags and listeners, the tags computed
    from the host's, and the reachable states of the main loop as an inductive relation
    with its invariant (\<open>node_reachable_ok\<close>).
  \<^item> \<open>Node_Backfill\<close>, \<open>Node_Sync\<close>, \<open>Node_Sync_Reth\<close>: the node over each backend. What a backfilling
    backend promises is a locale, interpreted on both notifiers. Started behind a steady host
    the node catches up within one turn of the main loop per host block
    (\<open>node_syncs_over_rpc\<close>, \<open>node_syncs_inside_reth\<close>).
  \<^item> \<open>Node_Chain\<close>: what turns of the main loop do to the stored chain of logs, and which events tell
    of it. \<open>Node_Filters\<close>, \<open>Node_Subs\<close>: the node together with a polling client and with a
    subscriber, as step relations that interleave them. A turn of the main loop is one step; a poll
    is four, cut where the code awaits storage, and events that a slow subscription task leaves in
    the channel beyond its capacity (128 in the node) are dropped, as \<^verbatim>\<open>RecvError::Lagged\<close> is. Both
    clients are replicas of the stored chain: the poller unless a reorg came during a poll, too many
    reorgs came between two, or a failed poll had removals (\<open>filter_follows_node\<close>); the subscriber
    unless it lagged, and one within the capacity can catch up (\<open>subscription_follows_node\<close>).
  \<^item> \<open>Metrics\<close>, \<open>Metered\<close>: the metrics of four crates as the operations handed to the recorder, the
    counts of a block with their binary search, and the loop and the database backfill with
    their recording.
  \<^item> \<open>Node_Genesis\<close>, \<open>Node_Builder\<close>: genesis files and hardforks (\<^verbatim>\<open>genesis\<close>), node and storage
    settings (\<^verbatim>\<open>node-config\<close>), and the builder that loads the genesis into empty storage.

  \<^item> \<open>Node_Harness\<close>, \<open>Node_Harness_Facts\<close>: the test context of \<^verbatim>\<open>node-tests\<close>, which drives a node over a
    channel, waits for its status and checks its height; a script of blocks, batches and reverts
    keeps both in step (\<open>script_keeps_step\<close>). \<open>Node_Checks\<close>: its account reads and the guards on
    nonces, balances and the genesis allocation.

  \<^bold>\<open>The RPC server\<close> (\<^verbatim>\<open>rpc\<close>).
  \<^item> \<open>Rpc_Tags\<close>, \<open>Chain_Notifier\<close>: block tags as their single atomic stores, the gas cache, the
    event channel and the ring of past reorgs.
  \<^item> \<open>Interest_Kind\<close>, \<open>Interest_Filters\<close>, \<open>Interest_Subs\<close>: event buffers, polling filters with
    the logs a reorg removed, and the subscription task as steps of its loop. \<open>Interest_Tasks\<close>: the
    threads that clean both managers, in rounds over what the endpoints do meanwhile and how late
    the thread wakes, and how long an unpolled filter lives.
  \<^item> \<open>Rpc_Config\<close>, \<open>Rpc_Serve\<close>: settings, environment, transports and CORS.
  \<^item> \<open>Eth_Error\<close>, \<open>Rpc_Ctx\<close>, \<open>Eth_Fees\<close>, \<open>Eth_Queries\<close>, \<open>Eth_Filters\<close>: errors and their payloads,
    block resolution over one storage snapshot, the gas oracle and fee history, every query
    and execution endpoint, log queries and polling. A poll is cut where the code awaits
    cold storage, so that events may come in between. \<open>Eth_Json\<close>: blocks and receipts as they
    are serialized, and their agreement with the queries of single transactions.
  \<^item> \<open>Rpc_Router\<close>: the routing tables, over the router library as a parameter.
  \<^item> \<open>Trace_Error\<close>, \<open>Trace_Tracer\<close>, \<open>Trace_Endpoints\<close>, \<open>Debug_Endpoints\<close>, \<open>Trace_Facts\<close>: the two
    tracing namespaces over a parameter EVM; a block's traces are its transactions' traces.
  \<^item> \<open>Signet_Namespace\<close>: orders, bundles, and the small namespaces.
  \<^item> \<open>Rpc_Server\<close>: the context the handlers share, as the node launches it; tracing permits as
    a step relation; the served block number is the node's height.

  \<^bold>\<open>Interfaces.\<close> A locale states what a client relies on and is interpreted on the model's own
  definitions where they stand: chain segments, notifier configurations and alias oracles
  for both backends, event queues, the bounded buffers that evict their oldest entries, and
  backends that backfill a node. Lemmas proved once in the locale serve both.

  \<^bold>\<open>Loops and bounds.\<close> Recursion on lists is structural; \<open>next_notification\<close> recurses on the
  items left in the header stream. The cache task retries three times as in the source. The
  main loop of the node runs one turn per entry of a list of clock readings, and \<open>None\<close> means
  that it has not ended. \<open>backfill_run\<close> and \<open>drain_reth\<close> call the notifier until its backfill
  is over, with fuel; \<open>backfill_complete\<close> and \<open>reth_backfill_terminates\<close> prove that the number of
  blocks left, and one or two more calls, suffice. \<open>start_inner\<close> in \<open>Node_Sync\<close> gets one clock reading per host
  block up to the ceiling and one more, which is enough for its backfill.

  \<^bold>\<open>Findings.\<close> Where modelling showed that the code does something else than it says, a lemma
  states what it does. Among them: a poll that awaits storage loses a reorg arriving
  meanwhile; block tags stay at genesis after a restart; a partial answer of one blob source
  empties a block; the first system transaction of a block can be traced as a user's; a subscription whose channel is closed
  leaves its registry entry behind; the status of a new block is sent before the tags are
  moved; two balance guards of the tests misjudge a change of zero and an amount above the balance.

  \<^bold>\<open>Not modelled.\<close> Tracing spans; the memory layout that lets the shim of \<^verbatim>\<open>host-reth\<close> be
  transmuted; how parameters are read from JSON (derived by serde); the transport of HTTP and sockets; of the test
  crate, contract instances, signing and the blocks its utilities make. Storage engines, the EVM,
  encoders, URLs, the router library and the system constants belong to other crates and are
  parameters.
\<close>

end
